(* ===== verification/Prelude.thy ===== *)
theory Prelude
  imports Complex_Main "HOL-Library.List_Lexorder" "HOL-Library.Char_ord" "HOL-Library.Log_Nat"
begin

text \<open>
  What every component of the development shares: the reading of JavaScript values the models
  use (strings as lists of code units up to 255, \<open>Array.prototype.join\<close>, \<open>trim\<close>,
  \<open>toLowerCase\<close>, decimal rendering, \<open>Array.from(new Set(xs)).sort()\<close>, own-property
  lookup in a record literal), the collections of facts the component theories add to, and two
  interfaces: a machine whose operations keep an invariant and only move forward in a preorder,
  and a sequential reader that splits a byte string into items.
\<close>

named_theorems inv_simps \<open>unfolding rules of the component invariants\<close>
named_theorems op_defs \<open>definitions of the component operations\<close>

subsection \<open>Results\<close>

text \<open>A computation that may throw is a sum: \<open>Inl\<close> the error, \<open>Inr\<close> the value.\<close>

fun and_then :: "'e + 'a \<Rightarrow> ('a \<Rightarrow> 'e + 'b) \<Rightarrow> 'e + 'b" where
  "and_then (Inl e) f = Inl e"
| "and_then (Inr x) f = f x"

lemma and_then_Inr [simp]: "and_then m f = Inr y \<longleftrightarrow> (\<exists>x. m = Inr x \<and> f x = Inr y)"
  by (cases m) auto

lemma and_then_split: "P (and_then m f) \<longleftrightarrow>
    (\<forall>e. m = Inl e \<longrightarrow> P (Inl e)) \<and> (\<forall>x. m = Inr x \<longrightarrow> P (f x))"
  by (cases m) auto

text \<open>\<open>xs.map(f)\<close> where \<open>f\<close> may throw: the first error ends it.\<close>

fun map_result :: "('a \<Rightarrow> 'e + 'b) \<Rightarrow> 'a list \<Rightarrow> 'e + 'b list" where
  "map_result f [] = Inr []"
| "map_result f (x # xs) = and_then (f x) (\<lambda>y. and_then (map_result f xs) (\<lambda>ys. Inr (y # ys)))"

lemma map_result_Inr: "map_result f xs = Inr ys \<longleftrightarrow> list_all2 (\<lambda>x y. f x = Inr y) xs ys"
  by (induction xs arbitrary: ys) (auto simp: list_all2_Cons1)

subsection \<open>Search\<close>

lemma find_SomeD:
  assumes "List.find P xs = Some x"
  shows "x \<in> set xs" "P x"
  using assms by (auto simp: find_Some_iff)

lemma find_unique:
  assumes "x \<in> set xs" "P x" "\<And>y. y \<in> set xs \<Longrightarrow> P y \<Longrightarrow> y = x"
  shows "find P xs = Some x"
proof (cases "find P xs")
  case None
  then show ?thesis using assms(1,2) by (auto simp: find_None_iff)
next
  case (Some y)
  then show ?thesis using assms(3) find_SomeD[OF Some] by simp
qed

lemma find_map: "(\<And>x. P (g x) = P x) \<Longrightarrow> find P (map g xs) = map_option g (find P xs)"
  by (induction xs) auto

lemma find_snoc_new: "\<not> list_ex P xs \<Longrightarrow> P y \<Longrightarrow> find P (xs @ [y]) = Some y"
  by (induction xs) auto

subsection \<open>Numbers as text\<close>

fun show_nat :: "nat \<Rightarrow> string" where
  "show_nat n = (if n < 10 then [char_of (48 + n)]
     else show_nat (n div 10) @ [char_of (48 + n mod 10)])"

declare show_nat.simps [simp del]

definition show_int :: "int \<Rightarrow> string" where
  "show_int i = (if i < 0 then ''-'' @ show_nat (nat (- i)) else show_nat (nat i))"

lemma show_nat_nonempty [simp]: "show_nat n \<noteq> []"
  by (subst show_nat.simps) simp

subsection \<open>Strings\<close>

fun join :: "string \<Rightarrow> string list \<Rightarrow> string" where
  "join sep [] = []"
| "join sep [x] = x"
| "join sep (x # y # ys) = x @ sep @ join sep (y # ys)"

text \<open>The white space that \<open>String.prototype.trim\<close> removes, among code units up to 255.\<close>

definition js_space :: "char \<Rightarrow> bool" where
  "js_space c \<longleftrightarrow> (of_char c :: nat) \<in> {9, 10, 11, 12, 13, 32, 160}"

definition trim :: "string \<Rightarrow> string" where
  "trim s = rev (dropWhile js_space (rev (dropWhile js_space s)))"

text \<open>\<open>toLowerCase\<close> on code units up to 255 (A--Z and the Latin-1 capitals).\<close>

definition lower_char :: "char \<Rightarrow> char" where
  "lower_char c = (let n = (of_char c :: nat) in
     if (65 \<le> n \<and> n \<le> 90) \<or> (192 \<le> n \<and> n \<le> 222 \<and> n \<noteq> 215) then char_of (n + 32) else c)"

definition to_lower :: "string \<Rightarrow> string" where
  "to_lower s = map lower_char s"

lemma dropWhile_idem [simp]: "dropWhile P (dropWhile P xs) = dropWhile P xs"
  by (induction xs) auto

lemma dropWhile_rev_dropWhile:
  "dropWhile P (rev (dropWhile P (rev (dropWhile P xs)))) = rev (dropWhile P (rev (dropWhile P xs)))"
proof (cases "dropWhile P xs")
  case Nil
  then show ?thesis by (simp only: rev.simps dropWhile.simps)
next
  case (Cons y ys)
  then have "\<not> P y" by (metis list.distinct(1) dropWhile_eq_Cons_conv)
  then have "dropWhile P (rev ys @ [y]) = dropWhile P (rev ys) @ [y]"
    by (simp add: dropWhile_append3)
  with Cons \<open>\<not> P y\<close> show ?thesis by simp
qed

lemma trim_trim [simp]: "trim (trim s) = trim s"
  by (simp add: trim_def dropWhile_rev_dropWhile)

lemma lower_char_idem [simp]: "lower_char (lower_char c) = lower_char c"
proof -
  have "of_char (char_of (of_char c + 32 :: nat) :: char) = (of_char c + 32 :: nat)"
    if "of_char c \<le> (222 :: nat)" using that by simp
  then show ?thesis by (auto simp: lower_char_def Let_def)
qed

lemma js_space_lower [simp]: "js_space (lower_char c) = js_space c"
  by (auto simp: js_space_def lower_char_def Let_def)

lemma dropWhile_map_lower: "dropWhile js_space (map lower_char s) = map lower_char (dropWhile js_space s)"
  by (induction s) auto

lemma trim_to_lower: "trim (to_lower s) = to_lower (trim s)"
  by (simp add: trim_def to_lower_def dropWhile_map_lower rev_map)

lemma to_lower_idem [simp]: "to_lower (to_lower s) = to_lower s"
  by (simp add: to_lower_def)

subsection \<open>Sets of strings as sorted arrays\<close>

text \<open>\<open>Array.from(new Set(values)).sort()\<close>: distinct values in code-unit order.\<close>

definition unique_sorted :: "string list \<Rightarrow> string list" where
  "unique_sorted xs = sort (remdups xs)"

lemma set_unique_sorted [simp]: "set (unique_sorted xs) = set xs"
  by (simp add: unique_sorted_def)

lemma distinct_unique_sorted [simp]: "distinct (unique_sorted xs)"
  by (simp add: unique_sorted_def)

lemma length_unique_sorted: "length (unique_sorted xs) = card (set xs)"
  using distinct_card[OF distinct_unique_sorted[of xs]] by simp

lemma unique_sorted_eq_Nil [simp]: "unique_sorted xs = [] \<longleftrightarrow> xs = []"
  by (metis set_empty set_unique_sorted)

lemma unique_sorted_cong: "set xs = set ys \<Longrightarrow> unique_sorted xs = unique_sorted ys"
  by (metis distinct_remdups set_remdups sorted_sort unique_sorted_def sorted_distinct_set_unique
      distinct_unique_sorted set_unique_sorted)

subsection \<open>Record literals\<close>

text \<open>
  A \<open>Record<string, T>\<close> of the source, read through an own-property lookup: an association list
  with distinct keys, in insertion order.
\<close>

type_synonym 'a js_record = "(string \<times> 'a) list"

definition lookup :: "'a js_record \<Rightarrow> string \<Rightarrow> 'a option" where
  "lookup r k = map_of r k"

definition sorted_keys :: "'a js_record \<Rightarrow> string list" where
  "sorted_keys r = sort (map fst r)"

lemma set_sorted_keys [simp]: "set (sorted_keys r) = fst ` set r"
  by (simp add: sorted_keys_def)

lemma lookup_None_iff: "lookup r k = None \<longleftrightarrow> k \<notin> fst ` set r"
  by (simp add: lookup_def map_of_eq_None_iff)

definition map_vals :: "('a \<Rightarrow> 'b) \<Rightarrow> 'a js_record \<Rightarrow> 'b js_record" where
  "map_vals f r = map (\<lambda>(k, v). (k, f v)) r"

lemma map_vals_cong [fundef_cong]:
  "r = r' \<Longrightarrow> (\<And>k v. (k, v) \<in> set r' \<Longrightarrow> f v = g v) \<Longrightarrow> map_vals f r = map_vals g r'"
  by (auto simp: map_vals_def)

lemma in_set_map_vals [simp]: "(k, w) \<in> set (map_vals f r) \<longleftrightarrow> (\<exists>v. (k, v) \<in> set r \<and> w = f v)"
  by (force simp: map_vals_def)

lemma keys_map_vals [simp]: "map fst (map_vals f r) = map fst r"
  by (induction r) (auto simp: map_vals_def)

lemma map_of_map_vals [simp]: "map_of (map_vals f r) k = map_option f (map_of r k)"
  by (induction r) (auto simp: map_vals_def)

lemma map_vals_simps [simp]: "map_vals f [] = []" "map_vals f ((k, v) # r) = (k, f v) # map_vals f r"
  by (simp_all add: map_vals_def)

lemma size_in_record [termination_simp]:
  "(k, v) \<in> set r \<Longrightarrow> f v < Suc (size_list (size_prod (\<lambda>_. 0) f) r)"
  by (induction r) auto

subsection \<open>Machines that keep an invariant and only move forward\<close>

text \<open>
  The contract the stateful components share. \<open>step x s\<close> is the state after operation \<open>x\<close>
  (after a refused or throwing operation, the state it leaves behind); \<open>before\<close> is the
  component's notion of history, a preorder. From the one-step laws follow the laws for every
  sequence of operations.
\<close>

locale forward_machine =
  fixes inv :: "'s \<Rightarrow> bool"
    and step :: "'op \<Rightarrow> 's \<Rightarrow> 's"
    and before :: "'s \<Rightarrow> 's \<Rightarrow> bool"
  assumes step_inv: "inv s \<Longrightarrow> inv (step x s)"
    and step_before: "inv s \<Longrightarrow> before s (step x s)"
    and before_refl: "before s s"
    and before_trans: "before s t \<Longrightarrow> before t u \<Longrightarrow> before s u"
begin

lemma run_inv: "inv s \<Longrightarrow> inv (fold step xs s)"
  by (induction xs arbitrary: s) (auto intro: step_inv)

lemma run_before: "inv s \<Longrightarrow> before s (fold step xs s)"
proof (induction xs arbitrary: s)
  case Nil
  then show ?case by (simp add: before_refl)
next
  case (Cons x xs)
  have "before s (step x s)" using Cons.prems by (rule step_before)
  moreover have "before (step x s) (fold step xs (step x s))"
    by (rule Cons.IH) (rule step_inv[OF Cons.prems])
  ultimately show ?case by (auto intro: before_trans)
qed

lemma run_before_mid:
  assumes "inv s"
  shows "before (fold step xs s) (fold step (xs @ ys) s)"
  using run_before[OF run_inv[OF assms, of xs], of ys] by simp

end

end
