(* ===== verification/Canonical_Json.thy ===== *)
theory Canonical_Json
  imports Prelude "HOL-Library.Multiset"
begin

text \<open>
  The three canonical JSON recipes of the repository and what a digest over them pins down:
  \<open>canonicalDeviceJson\<close> (packages/contracts/src/device-identity.ts) and the two copies of
  \<open>canonicalise\<close> (ledger.hash.ts, constitution.hash.ts of services/core-api). Values are the
  JavaScript values JSON can meet: \<open>JUndef\<close> stands for \<open>undefined\<close>, a function or a symbol and
  \<open>JNonFinite\<close> for \<open>NaN\<close> and the infinities. A finite number is given by the text
  \<open>Number.prototype.toString\<close> writes for it: two finite numbers have the same text exactly when
  they are equal (so \<open>0\<close> and \<open>-0\<close> are one value here, as they are one text). An object is the list of its
  own properties in the order JavaScript enumerates them: array-index keys in ascending numeric
  order, then the other keys in order of creation.
\<close>

datatype json =
    JUndef
  | JNull
  | JBool bool
  | JNum string
  | JNonFinite
  | JStr string
  | JArr "json list"
  | JObj "(string \<times> json) list"

text \<open>The number an integer is; below \<open>10 ^ 21\<close> its text is plain digits.\<close>

definition JInt :: "int \<Rightarrow> json" where
  "JInt i = JNum (show_int i)"

subsection \<open>Own-property order\<close>

definition is_digit :: "char \<Rightarrow> bool" where
  "is_digit c \<longleftrightarrow> (48::nat) \<le> of_char c \<and> of_char c \<le> (57::nat)"

definition digits_value :: "string \<Rightarrow> nat" where
  "digits_value s = foldl (\<lambda>n c. 10 * n + (of_char c - 48)) 0 s"

text \<open>A canonical array index: the decimal form of a number below \<open>2 ^ 32 - 1\<close>.\<close>

definition index_key :: "string \<Rightarrow> bool" where
  "index_key k \<longleftrightarrow> k \<noteq> [] \<and> list_all is_digit k \<and> (hd k = CHR ''0'' \<longrightarrow> k = ''0'')
     \<and> digits_value k < 4294967295"

definition own_order :: "(string \<times> 'a) list \<Rightarrow> (string \<times> 'a) list" where
  "own_order kvs = sort_key (\<lambda>kv. digits_value (fst kv)) (filter (\<lambda>kv. index_key (fst kv)) kvs)
     @ filter (\<lambda>kv. \<not> index_key (fst kv)) kvs"

lemma mset_own_order [simp]: "mset (own_order kvs) = mset kvs"
  by (simp add: own_order_def)

lemma set_own_order [simp]: "set (own_order kvs) = set kvs"
  by (simp add: own_order_def) auto

subsection \<open>Rendering\<close>

definition hex_digit :: "nat \<Rightarrow> char" where
  "hex_digit n = (if n < 10 then char_of (48 + n) else char_of (87 + n))"

definition escape_char :: "char \<Rightarrow> string" where
  "escape_char c = (let n = (of_char c :: nat); bs = CHR 0x5C in
     if c = CHR 0x22 \<or> c = CHR 0x5C then [bs, c]
     else if n = 8 then [bs, CHR ''b''] else if n = 9 then [bs, CHR ''t'']
     else if n = 10 then [bs, CHR ''n''] else if n = 12 then [bs, CHR ''f'']
     else if n = 13 then [bs, CHR ''r'']
     else if n < 32 then [bs, CHR ''u'', CHR ''0'', CHR ''0'', hex_digit (n div 16), hex_digit (n mod 16)]
     else [c])"

definition json_quote :: "string \<Rightarrow> string" where
  "json_quote s = CHR 0x22 # concat (map escape_char s) @ [CHR 0x22]"

text \<open>
  \<open>JSON.stringify\<close>: \<open>undefined\<close> becomes \<open>null\<close> inside an array and drops the property inside an
  object; a non-finite number is \<open>null\<close>.
\<close>

fun json_stringify :: "json \<Rightarrow> string" where
  "json_stringify JUndef = ''null''"
| "json_stringify JNull = ''null''"
| "json_stringify (JBool b) = (if b then ''true'' else ''false'')"
| "json_stringify (JNum t) = t"
| "json_stringify JNonFinite = ''null''"
| "json_stringify (JStr s) = json_quote s"
| "json_stringify (JArr vs) = ''['' @ join '','' (map json_stringify vs) @ '']''"
| "json_stringify (JObj kvs) = ''{'' @
     join '','' (map (\<lambda>(k, v). json_quote k @ '':'' @ json_stringify v)
       (filter (\<lambda>kv. snd kv \<noteq> JUndef) kvs)) @ ''}''"

subsection \<open>The device contract's recipe\<close>

text \<open>\<open>assertJsonSafe\<close>: what has no lossless JSON form is refused.\<close>

fun json_safe :: "json \<Rightarrow> bool" where
  "json_safe JUndef = False"
| "json_safe JNonFinite = False"
| "json_safe (JArr vs) = (\<forall>v\<in>set vs. json_safe v)"
| "json_safe (JObj kvs) = (\<forall>(k, v)\<in>set kvs. json_safe v)"
| "json_safe _ = True"

fun sort_keys_deep :: "json \<Rightarrow> json" where
  "sort_keys_deep (JArr vs) = JArr (map sort_keys_deep vs)"
| "sort_keys_deep (JObj kvs) =
     JObj (own_order (sort_key fst (map_vals sort_keys_deep kvs)))"
| "sort_keys_deep v = v"

definition canonical_device_json :: "json \<Rightarrow> string option" where
  "canonical_device_json v = (if json_safe v then Some (json_stringify (sort_keys_deep v)) else None)"

text \<open>SHA-256 is Node's \<open>createHash\<close>: the parameter \<open>sha\<close> of every digest.\<close>

definition device_canonical_digest :: "(string \<Rightarrow> string) \<Rightarrow> json \<Rightarrow> string option" where
  "device_canonical_digest sha v = map_option sha (canonical_device_json v)"

subsection \<open>The ledger's and the constitution's recipe\<close>

text \<open>
  \<open>canonicalise\<close> builds a fresh object by assignment \<open>canonical[key] = entry\<close>. Assignment to
  the key \<open>__proto__\<close> of an ordinary object sets its prototype (or does nothing, for a
  primitive): it never creates an own property, and \<open>JSON.stringify\<close> reads own properties only.
\<close>

definition assign_prop :: "string \<Rightarrow> json \<Rightarrow> (string \<times> json) list \<Rightarrow> (string \<times> json) list" where
  "assign_prop k v kvs = (if k = ''__proto__'' \<or> v = JUndef then kvs else kvs @ [(k, v)])"

fun canonicalise :: "json \<Rightarrow> json" where
  "canonicalise (JArr vs) = JArr (map canonicalise vs)"
| "canonicalise (JObj kvs) = JObj (own_order (foldl (\<lambda>acc (k, v). assign_prop k v acc) []
       (sort_key fst (map_vals canonicalise kvs))))"
| "canonicalise v = v"

definition canonical_json :: "json \<Rightarrow> string" where
  "canonical_json v = json_stringify (canonicalise v)"

definition sha256_hex :: "(string \<Rightarrow> string) \<Rightarrow> string \<Rightarrow> string" where
  "sha256_hex sha s = sha s"

subsection \<open>Rendering is injective\<close>

lemma is_digit_char_of [simp]: "(n::nat) < 10 \<Longrightarrow> is_digit (char_of (48 + n))"
  by (simp add: is_digit_def)

lemma show_nat_digits: "list_all is_digit (show_nat n)"
proof (induction n rule: show_nat.induct)
  case (1 n)
  then show ?case by (subst show_nat.simps) auto
qed

lemma digits_value_snoc: "digits_value (s @ [c]) = 10 * digits_value s + (of_char c - 48)"
  by (simp add: digits_value_def)

lemma digits_value_show: "digits_value (show_nat n) = n"
proof (induction n rule: show_nat.induct)
  case (1 n)
  show ?case
  proof (cases "n < 10")
    case True
    then show ?thesis by (subst show_nat.simps) (simp add: digits_value_def)
  next
    case False
    with 1 show ?thesis by (subst show_nat.simps) (simp add: digits_value_snoc)
  qed
qed

lemma show_nat_inj [simp]: "show_nat m = show_nat n \<longleftrightarrow> m = n"
  by (metis digits_value_show)

lemma show_nat_not_minus: "show_nat n \<noteq> CHR ''-'' # s"
proof
  assume "show_nat n = CHR ''-'' # s"
  with show_nat_digits[of n] show False by (simp add: is_digit_def)
qed

lemma show_int_inj: "show_int i = show_int j \<Longrightarrow> i = j"
  using show_nat_not_minus show_nat_not_minus[symmetric]
  by (auto simp: show_int_def split: if_splits)

text \<open>The characters of a number's text: digits, sign, point, exponent.\<close>

definition num_char :: "char \<Rightarrow> bool" where
  "num_char c \<longleftrightarrow> is_digit c \<or> c \<in> set ''-+.e''"

definition number_text :: "string \<Rightarrow> bool" where
  "number_text t \<longleftrightarrow> t \<noteq> [] \<and> list_all num_char t"

lemma number_text_int [simp]: "number_text (show_int i)"
  using show_nat_digits[of "nat i"] show_nat_digits[of "nat (- i)"]
  by (auto simp: number_text_def show_int_def num_char_def list_all_iff)

lemma JInt_inject [simp]: "JInt i = JInt j \<longleftrightarrow> i = j"
  using show_int_inj by (auto simp: JInt_def)

definition hex_value :: "char \<Rightarrow> nat" where
  "hex_value c = (let n = (of_char c :: nat) in if n < 58 then n - 48 else n - 87)"

lemma hex_value_digit: "n < 16 \<Longrightarrow> hex_value (hex_digit n) = n"
  by (auto simp: hex_value_def hex_digit_def Let_def)

fun unescape :: "string \<Rightarrow> char \<times> string" where
  "unescape (a # r) = (if a \<noteq> CHR 0x5C then (a, r) else
     (case r of [] \<Rightarrow> (a, r) | b # r' \<Rightarrow>
       if b = CHR ''b'' then (char_of (8::nat), r') else if b = CHR ''t'' then (char_of (9::nat), r')
       else if b = CHR ''n'' then (char_of (10::nat), r') else if b = CHR ''f'' then (char_of (12::nat), r')
       else if b = CHR ''r'' then (char_of (13::nat), r')
       else if b = CHR ''u'' then (case r' of z1 # z2 # h1 # h2 # r'' \<Rightarrow> (char_of (16 * hex_value h1 + hex_value h2), r'') | _ \<Rightarrow> (b, r'))
       else (b, r')))"
| "unescape [] = (CHR '' '', [])"

lemma code_char: "(of_char c :: nat) = n \<Longrightarrow> c = char_of n"
  by auto

lemma unescape_escape: "unescape (escape_char c @ x) = (c, x)"
proof -
  let ?n = "of_char c :: nat"
  consider "c = CHR 0x22 \<or> c = CHR 0x5C" | "?n = 8" | "?n = 9" | "?n = 10" | "?n = 12" | "?n = 13"
    | "c \<noteq> CHR 0x22" "c \<noteq> CHR 0x5C" "?n \<notin> {8, 9, 10, 12, 13}" "?n < 32"
    | "c \<noteq> CHR 0x22" "c \<noteq> CHR 0x5C" "\<not> ?n < 32" by force
  then show ?thesis
  proof cases
    case 1
    then show ?thesis by (elim disjE) (simp_all add: escape_char_def)
  next
    case 7
    have "?n div 16 < 16" "?n mod 16 < 16" using 7 by simp_all
    with 7 show ?thesis
      by (simp add: escape_char_def Let_def hex_value_digit)
  next
    case 8
    then show ?thesis by (simp add: escape_char_def Let_def)
  qed (drule code_char, simp add: escape_char_def Let_def)+
qed
lemma escape_prefix: "escape_char c @ x = escape_char d @ y \<Longrightarrow> c = d \<and> x = y"
  by (drule arg_cong[of _ _ unescape]) (simp only: unescape_escape prod.inject)

lemma escape_not_quote: "escape_char c @ x \<noteq> CHR 0x22 # y"
proof
  assume eq: "escape_char c @ x = CHR 0x22 # y"
  then have "(c, x) = unescape (CHR 0x22 # y)" by (metis unescape_escape)
  then have "c = CHR 0x22" by simp
  with eq show False by (simp add: escape_char_def)
qed

lemma quoted_prefix:
  "concat (map escape_char s) @ CHR 0x22 # x = concat (map escape_char t) @ CHR 0x22 # y
    \<Longrightarrow> s = t \<and> x = y"
proof (induction s arbitrary: t)
  case Nil
  then show ?case
    using escape_not_quote[THEN not_sym] by (cases t) auto
next
  case (Cons c s)
  then obtain d t' where t: "t = d # t'"
    using escape_not_quote[of c] by (cases t) auto
  with Cons.prems have "escape_char c @ (concat (map escape_char s) @ CHR 0x22 # x)
      = escape_char d @ (concat (map escape_char t') @ CHR 0x22 # y)" by simp
  from escape_prefix[OF this] Cons.IH t show ?case by auto
qed

lemma json_quote_prefix: "json_quote s @ x = json_quote t @ y \<Longrightarrow> s = t \<and> x = y"
  using quoted_prefix[of s x t y] by (simp add: json_quote_def)

text \<open>What may follow a value inside a rendered document.\<close>

definition stops :: "string \<Rightarrow> bool" where
  "stops r \<longleftrightarrow> r = [] \<or> hd r \<in> {CHR '','', CHR '']'', CHR ''}''}"

lemma stops_simps [simp]: "stops []" "stops (CHR '','' # r)" "stops (CHR '']'' # r)" "stops (CHR ''}'' # r)"
  by (simp_all add: stops_def)

lemma stops_num_char: "stops r \<Longrightarrow> takeWhile num_char r = []"
  by (cases r) (auto simp: stops_def num_char_def is_digit_def)

lemma number_prefix:
  assumes "t @ r = u @ s" "number_text t" "number_text u" "stops r" "stops s"
  shows "t = u \<and> r = s"
proof -
  have split: "takeWhile num_char (t @ r) = t" if "number_text t" "stops r" for t r
    using stops_num_char[OF that(2)] that(1) by (simp add: list_all_iff number_text_def)
  have "t = u" using assms split by metis
  with assms(1) show ?thesis by simp
qed

lemma join_Cons: "join sep (x # xs) = x @ concat (map ((@) sep) xs)"
  by (induction xs arbitrary: x) auto

lemma items_prefix:
  assumes "\<And>v w r s. v \<in> set vs \<Longrightarrow> w \<in> set ws \<Longrightarrow> stops r \<Longrightarrow> stops s \<Longrightarrow> f v @ r = f w @ s \<Longrightarrow> v = w \<and> r = s"
    and "c = CHR '']'' \<or> c = CHR ''}''"
    and "concat (map (\<lambda>v. CHR '','' # f v) vs) @ c # r = concat (map (\<lambda>v. CHR '','' # f v) ws) @ c # s"
  shows "vs = ws \<and> r = s"
  using assms(1,3)
proof (induction vs arbitrary: ws)
  case Nil
  with assms(2) show ?case by (cases ws) auto
next
  case (Cons v vs)
  with assms(2) obtain w ws' where ws: "ws = w # ws'" by (cases ws) auto
  have st: "stops (concat (map (\<lambda>v. CHR '','' # f v) us) @ c # q)" for us q
    using assms(2) by (cases us) auto
  have "v = w \<and> concat (map (\<lambda>v. CHR '','' # f v) vs) @ c # r
      = concat (map (\<lambda>v. CHR '','' # f v) ws') @ c # s"
    using Cons.prems(2) ws by (intro Cons.prems(1)[of v w]) (auto intro: st)
  moreover from this have "vs = ws' \<and> r = s"
    using Cons.prems(1) ws by (intro Cons.IH) auto
  ultimately show ?case using ws by simp
qed

lemma join_prefix:
  assumes f: "\<And>v w r s. v \<in> set vs \<Longrightarrow> w \<in> set ws \<Longrightarrow> stops r \<Longrightarrow> stops s \<Longrightarrow> f v @ r = f w @ s \<Longrightarrow> v = w \<and> r = s"
    and ne: "\<And>v. v \<in> set vs \<union> set ws \<Longrightarrow> f v \<noteq> [] \<and> \<not> stops (f v)"
    and c: "c = CHR '']'' \<or> c = CHR ''}''"
    and eq: "join '','' (map f vs) @ c # r = join '','' (map f ws) @ c # s"
  shows "vs = ws \<and> r = s"
proof (cases vs)
  case Nil
  show ?thesis
  proof (cases ws)
    case (Cons w ws')
    with Nil eq ne[of w] c show ?thesis by (cases "f w") (auto simp: join_Cons stops_def)
  qed (use Nil eq in simp)
next
  case v: (Cons v vs')
  show ?thesis
  proof (cases ws)
    case Nil
    with v eq ne[of v] c show ?thesis by (cases "f v") (auto simp: join_Cons stops_def)
  next
    case w: (Cons w ws')
    have "concat (map (\<lambda>v. CHR '','' # f v) vs) @ c # r = concat (map (\<lambda>v. CHR '','' # f v) ws) @ c # s"
      using eq v w by (simp add: join_Cons comp_def)
    from items_prefix[OF f c this] show ?thesis by blast
  qed
qed

text \<open>An object's own keys are distinct, and a number's text is one.\<close>

fun json_wf :: "json \<Rightarrow> bool" where
  "json_wf (JNum t) = number_text t"
| "json_wf (JArr vs) = (\<forall>v\<in>set vs. json_wf v)"
| "json_wf (JObj kvs) = (distinct (map fst kvs) \<and> (\<forall>(k, v)\<in>set kvs. json_wf v))"
| "json_wf _ = True"

lemma json_wf_JInt [simp]: "json_wf (JInt i)" "json_safe (JInt i)"
  by (simp_all add: JInt_def)

text \<open>The first character of a rendered value tells its kind, so values can be told apart.\<close>

fun kind_of :: "json \<Rightarrow> nat" where
  "kind_of (JNum _) = 0"
| "kind_of (JBool True) = 1"
| "kind_of (JBool False) = 2"
| "kind_of (JStr _) = 3"
| "kind_of (JArr _) = 4"
| "kind_of (JObj _) = 5"
| "kind_of _ = 6"

fun kind_of_char :: "char \<Rightarrow> nat" where
  "kind_of_char c = (if num_char c then 0 else if c = CHR ''t'' then 1 else if c = CHR ''f'' then 2
     else if c = CHR 0x22 then 3 else if c = CHR ''['' then 4 else if c = CHR ''{'' then 5 else 6)"

lemma num_char_not_stops: "num_char c \<Longrightarrow> \<not> stops [c]"
  by (auto simp: stops_def num_char_def is_digit_def)

lemma stringify_head:
  assumes "json_wf v"
  obtains c t where "json_stringify v = c # t" "kind_of_char c = kind_of v" "\<not> stops [c]"
proof (cases v)
  case (JNum t)
  then show ?thesis using that assms
    by (cases t) (auto simp: num_char_not_stops number_text_def)
next
  case (JBool b)
  then show ?thesis using that by (cases b) (auto simp: num_char_def is_digit_def stops_def)
qed (use that in \<open>auto simp: num_char_def is_digit_def stops_def json_quote_def\<close>)

lemma stringify_kind: "json_wf v \<Longrightarrow> json_wf w \<Longrightarrow> json_stringify v @ r = json_stringify w @ s \<Longrightarrow> kind_of v = kind_of w"
  by (rule stringify_head[of v], simp, rule stringify_head[of w]) auto

lemma stringify_not_stops: "json_wf v \<Longrightarrow> json_stringify v @ r \<noteq> [] \<and> \<not> stops (json_stringify v @ r)"
  by (rule stringify_head[of v]) (auto simp: stops_def)

lemma safe_obj_filter: "json_safe (JObj kvs) \<Longrightarrow> filter (\<lambda>kv. snd kv \<noteq> JUndef) kvs = kvs"
  by (rule filter_True) auto

lemma stringify_prefix:
  "json_safe v \<Longrightarrow> json_safe w \<Longrightarrow> json_wf v \<Longrightarrow> json_wf w \<Longrightarrow> stops r \<Longrightarrow> stops s \<Longrightarrow>
    json_stringify v @ r = json_stringify w @ s \<Longrightarrow> v = w \<and> r = s"
proof (induction v arbitrary: w r s)
  case (JNum t)
  with stringify_kind[OF JNum.prems(3,4,7)] obtain u where "w = JNum u"
    by (cases w rule: kind_of.cases) auto
  with JNum.prems show ?case using number_prefix[of t r u s] by simp
next
  case (JStr x)
  with stringify_kind[OF JStr.prems(3,4,7)] obtain y where "w = JStr y"
    by (cases w rule: kind_of.cases) auto
  with JStr.prems show ?case using json_quote_prefix[of x r y s] by simp
next
  case (JArr vs)
  with stringify_kind[OF JArr.prems(3,4,7)] obtain ws where w: "w = JArr ws"
    by (cases w rule: kind_of.cases) auto
  have "vs = ws \<and> r = s"
    by (rule join_prefix[where f = json_stringify and c = "CHR '']''"])
      (use JArr w stringify_not_stops[of _ "[]"] in auto)
  with w show ?case by simp
next
  case (JObj kvs)
  with stringify_kind[OF JObj.prems(3,4,7)] obtain lvs where w: "w = JObj lvs"
    by (cases w rule: kind_of.cases) auto
  let ?f = "\<lambda>(k, v). json_quote k @ '':'' @ json_stringify v"
  have one: "p = q \<and> x = y" if "p \<in> set kvs" "q \<in> set lvs" "stops x" "stops y" "?f p @ x = ?f q @ y" for p q x y
  proof -
    obtain k a l b where pq: "p = (k, a)" "q = (l, b)" by fastforce
    with that(5) have "k = l \<and> '':'' @ json_stringify a @ x = '':'' @ json_stringify b @ y"
      by (intro json_quote_prefix) simp
    moreover have "json_safe a" "json_safe b" "json_wf a" "json_wf b" using that pq JObj.prems w by auto
    ultimately show ?thesis using JObj.IH[OF that(1), of a b x y] that pq by auto
  qed
  have eq: "join '','' (map ?f kvs) @ CHR ''}'' # r = join '','' (map ?f lvs) @ CHR ''}'' # s"
    using JObj.prems(7) safe_obj_filter[OF JObj.prems(1)] safe_obj_filter[of lvs] JObj.prems(2) w by simp
  have ne: "?f p \<noteq> [] \<and> \<not> stops (?f p)" for p
    by (simp add: split_beta json_quote_def stops_def)
  have "kvs = lvs \<and> r = s"
    by (rule join_prefix[OF one ne disjI2[OF refl] eq])
  with w show ?case by simp
next
  case (JBool b)
  with stringify_kind[OF JBool.prems(3,4,7)] have "w = JBool b"
    by (cases b; cases w rule: kind_of.cases) auto
  with JBool.prems show ?case by simp
next
  case JNull
  with stringify_kind[OF JNull.prems(3,4,7)] have "w = JNull"
    by (cases w rule: kind_of.cases) auto
  with JNull.prems show ?case by simp
qed simp_all

subsection \<open>Canonical text and JSON values\<close>

text \<open>The value a JSON document denotes: objects are finite maps.\<close>

datatype jvalue =
    VNull
  | VBool bool
  | VNum string
  | VStr string
  | VArr "jvalue list"
  | VObj "(string, jvalue) map"
  | VNone

fun denote :: "json \<Rightarrow> jvalue" where
  "denote JNull = VNull"
| "denote (JBool b) = VBool b"
| "denote (JNum i) = VNum i"
| "denote (JStr s) = VStr s"
| "denote (JArr vs) = VArr (map denote vs)"
| "denote (JObj kvs) = VObj (map_of (map_vals denote kvs))"
| "denote _ = VNone"

lemma keys_own_order: "mset (map fst (own_order kvs)) = mset (map fst kvs)"
  by (simp only: mset_map mset_own_order)

lemma distinct_own_order [simp]: "distinct (map fst (own_order kvs)) = distinct (map fst kvs)"
  using keys_own_order by (rule mset_eq_imp_distinct_iff)

lemma distinct_sort_key [simp]: "distinct (map fst (sort_key f kvs)) = distinct (map fst kvs)"
  by (rule mset_eq_imp_distinct_iff) (simp only: mset_map mset_sort)

lemma sort_key_fst_cong:
  assumes "distinct (map fst kvs)" "mset kvs = mset lvs"
  shows "sort_key fst kvs = sort_key fst lvs"
proof (rule properties_for_sort_key)
  have d: "distinct (map fst (sort_key fst lvs))"
    using assms by (metis distinct_sort_key mset_map mset_eq_imp_distinct_iff)
  show "mset (sort_key fst lvs) = mset kvs" using assms by simp
  fix k
  assume k: "k \<in> set (sort_key fst lvs)"
  have single: "filter (\<lambda>x. fst k = fst x) xs = [k]" if "distinct (map fst xs)" "k \<in> set xs" for xs
    using that
  proof (induction xs)
    case (Cons y ys)
    then show ?case by (cases "k = y") (auto simp: filter_empty_conv image_iff)
  qed simp
  have "set lvs = set kvs" using assms(2) by (metis set_mset_mset)
  with k show "filter (\<lambda>x. fst k = fst x) (sort_key fst lvs) = filter (\<lambda>x. fst k = fst x) kvs"
    using single[OF d] single[OF assms(1)] by simp
next
  show "sorted (map fst (sort_key fst lvs))" by simp
qed

lemma json_wf_sort_keys [simp]: "json_wf v \<Longrightarrow> json_wf (sort_keys_deep v)"
  by (induction v) fastforce+

lemma json_safe_sort_keys [simp]: "json_safe (sort_keys_deep v) = json_safe v"
proof (induction v)
  case (JObj kvs)
  then have "json_safe (sort_keys_deep v) = json_safe v" if "(k, v) \<in> set kvs" for k v
    using that by fastforce
  then have "(\<forall>(k, w)\<in>set (map_vals sort_keys_deep kvs). json_safe w) \<longleftrightarrow> (\<forall>(k, v)\<in>set kvs. json_safe v)"
    by fastforce
  then show ?case by simp
qed auto

lemma map_of_sorted_keys:
  assumes "distinct (map fst kvs)"
  shows "map_of (own_order (sort_key fst kvs)) = map_of kvs"
proof (rule map_of_eqI)
  show "set (map fst (own_order (sort_key fst kvs))) = set (map fst kvs)"
    by simp
  show "\<forall>k\<in>set (map fst (own_order (sort_key fst kvs))). map_of (own_order (sort_key fst kvs)) k = map_of kvs k"
  proof
    fix k assume "k \<in> set (map fst (own_order (sort_key fst kvs)))"
    then obtain v where "(k, v) \<in> set kvs" by auto
    then show "map_of (own_order (sort_key fst kvs)) k = map_of kvs k"
      using assms by (simp add: map_of_is_SomeI)
  qed
qed

lemma denote_sort_keys: "json_wf v \<Longrightarrow> denote (sort_keys_deep v) = denote v"
proof (induction v)
  case (JObj kvs)
  then have d: "distinct (map fst kvs)" by simp
  have "map_of (map_vals denote (own_order (sort_key fst (map_vals sort_keys_deep kvs)))) k
      = map_of (map_vals denote kvs) k" for k
    using JObj d by (cases "map_of kvs k")
      (auto simp: map_of_sorted_keys dest!: map_of_SomeD)
  then have "map_of (map_vals denote (own_order (sort_key fst (map_vals sort_keys_deep kvs))))
      = map_of (map_vals denote kvs)" by (rule ext)
  then show ?case by simp
qed auto

lemma set_of_lookup: "distinct (map fst kvs) \<Longrightarrow> set kvs = {(k, v). map_of kvs k = Some v}"
  by (auto dest: map_of_SomeD)

lemma sort_keys_denote:
  "json_wf v \<Longrightarrow> json_wf w \<Longrightarrow> json_safe v \<Longrightarrow> json_safe w \<Longrightarrow> denote v = denote w
    \<Longrightarrow> sort_keys_deep v = sort_keys_deep w"
proof (induction v arbitrary: w)
  case (JArr vs)
  then obtain ws where w: "w = JArr ws" "map denote vs = map denote ws" by (cases w) auto
  then have len: "length vs = length ws" by (metis length_map)
  have "map sort_keys_deep vs = map sort_keys_deep ws"
  proof (rule nth_equalityI)
    fix i assume "i < length (map sort_keys_deep vs)"
    then have i: "i < length vs" "i < length ws" using len by simp_all
    then have "denote (vs ! i) = denote (ws ! i)" using w(2) by (metis nth_map)
    with JArr.IH[of "vs ! i" "ws ! i"] JArr.prems w(1) i
    show "map sort_keys_deep vs ! i = map sort_keys_deep ws ! i" by simp
  qed (simp add: len)
  with w show ?case by simp
next
  case (JObj kvs)
  then obtain lvs where w: "w = JObj lvs" by (cases w) auto
  have dk: "distinct (map fst kvs)" and dl: "distinct (map fst lvs)" using JObj.prems w by auto
  have "map_of (map_vals denote kvs) = map_of (map_vals denote lvs)" using JObj.prems w by simp
  then have look: "map_option denote (map_of kvs k) = map_option denote (map_of lvs k)" for k
    by (metis map_of_map_vals)
  have same: "map_option sort_keys_deep (map_of kvs k) = map_option sort_keys_deep (map_of lvs k)" for k
  proof (cases "map_of kvs k")
    case None
    with look[of k] show ?thesis by simp
  next
    case (Some b)
    with look[of k] obtain c where c: "map_of lvs k = Some c" "denote b = denote c" by (cases "map_of lvs k") auto
    have "(k, b) \<in> set kvs" "(k, c) \<in> set lvs" using Some c by (auto dest: map_of_SomeD)
    with JObj.IH[of "(k, b)" b c] JObj.prems w c have "sort_keys_deep b = sort_keys_deep c" by fastforce
    with Some c show ?thesis by simp
  qed
  have "map_of (map_vals sort_keys_deep kvs) = map_of (map_vals sort_keys_deep lvs)"
    by (rule ext) (simp add: same)
  then have "set (map_vals sort_keys_deep kvs) = set (map_vals sort_keys_deep lvs)"
    using set_of_lookup[of "map_vals sort_keys_deep kvs"] set_of_lookup[of "map_vals sort_keys_deep lvs"] dk dl
    by simp
  moreover have "distinct (map_vals sort_keys_deep kvs)" "distinct (map_vals sort_keys_deep lvs)"
    using dk dl distinct_map[of fst "map_vals sort_keys_deep kvs"] distinct_map[of fst "map_vals sort_keys_deep lvs"]
    by simp_all
  ultimately have "mset (map_vals sort_keys_deep kvs) = mset (map_vals sort_keys_deep lvs)"
    by (simp add: set_eq_iff_mset_eq_distinct)
  then have "sort_key fst (map_vals sort_keys_deep kvs) = sort_key fst (map_vals sort_keys_deep lvs)"
    using dk by (intro sort_key_fst_cong) simp_all
  with w show ?case by simp
next
  case (JBool b)
  then show ?case by (cases w) auto
next
  case (JNum i)
  then show ?case by (cases w) auto
next
  case (JStr x)
  then show ?case by (cases w) auto
next
  case JNull
  then show ?case by (cases w) auto
qed auto


lemma canonical_device_json_denote:
  assumes "json_wf v" "json_wf w" "json_safe v" "json_safe w"
  shows "canonical_device_json v = canonical_device_json w \<longleftrightarrow> denote v = denote w"
proof
  assume "canonical_device_json v = canonical_device_json w"
  then have "json_stringify (sort_keys_deep v) @ [] = json_stringify (sort_keys_deep w) @ []"
    using assms by (simp add: canonical_device_json_def)
  then have "sort_keys_deep v = sort_keys_deep w"
    using stringify_prefix[of "sort_keys_deep v" "sort_keys_deep w" "[]" "[]"] assms by simp
  then show "denote v = denote w" using assms by (metis denote_sort_keys)
next
  assume "denote v = denote w"
  then have "sort_keys_deep v = sort_keys_deep w" using assms by (intro sort_keys_denote)
  then show "canonical_device_json v = canonical_device_json w"
    using assms by (simp add: canonical_device_json_def)
qed

lemma assign_all: "foldl (\<lambda>acc (k, v). assign_prop k v acc) acc kvs
    = acc @ filter (\<lambda>kv. fst kv \<noteq> ''__proto__'' \<and> snd kv \<noteq> JUndef) kvs"
  by (induction kvs arbitrary: acc) (auto simp: assign_prop_def)

lemma canonicalise_obj: "canonicalise (JObj kvs) = JObj (own_order (sort_key fst
    (filter (\<lambda>kv. fst kv \<noteq> ''__proto__'' \<and> snd kv \<noteq> JUndef) (map_vals canonicalise kvs))))"
  by (simp add: assign_all filter_sort)

declare canonicalise.simps(2) [simp del]

text \<open>No key of the document, at any depth, is \<open>__proto__\<close>.\<close>

fun proto_free :: "json \<Rightarrow> bool" where
  "proto_free (JArr vs) = (\<forall>v\<in>set vs. proto_free v)"
| "proto_free (JObj kvs) = (\<forall>(k, v)\<in>set kvs. k \<noteq> ''__proto__'' \<and> proto_free v)"
| "proto_free _ = True"

lemma proto_free_JInt [simp]: "proto_free (JInt i)"
  by (simp add: JInt_def)

lemma sort_keys_deep_defined: "json_safe v \<Longrightarrow> sort_keys_deep v \<noteq> JUndef"
  by (cases v) auto

lemma canonicalise_sort_keys: "json_safe v \<Longrightarrow> proto_free v \<Longrightarrow> canonicalise v = sort_keys_deep v"
proof (induction v)
  case (JObj kvs)
  have eq: "canonicalise b = sort_keys_deep b" "sort_keys_deep b \<noteq> JUndef" "k \<noteq> ''__proto__''"
    if "(k, b) \<in> set kvs" for k b
    using JObj.IH[OF that, of b] JObj.prems that sort_keys_deep_defined by auto
  then have m: "map_vals canonicalise kvs = map_vals sort_keys_deep kvs"
    by (intro map_vals_cong) auto
  have "filter (\<lambda>kv. fst kv \<noteq> ''__proto__'' \<and> snd kv \<noteq> JUndef) (map_vals sort_keys_deep kvs)
      = map_vals sort_keys_deep kvs"
    by (rule filter_True) (use eq(2,3) in fastforce)
  then show ?case by (simp add: canonicalise_obj m)
qed auto

text \<open>
  C20: A device digest identifies the value. deviceCanonicalDigest refuses exactly the values with
  no lossless JSON form, and two values it accepts have the same digest (if the hash does not
  collide on their two texts) exactly when they denote the same JSON value, key order aside.
\<close>

theorem canonical_digest_identity:
  assumes "json_wf v" "json_wf w"
    and "\<forall>s t. canonical_device_json v = Some s \<and> canonical_device_json w = Some t \<and> sha s = sha t \<longrightarrow> s = t"
  shows "(device_canonical_digest sha v = None \<longleftrightarrow> \<not> json_safe v)
    \<and> (json_safe v \<and> json_safe w \<longrightarrow>
        (device_canonical_digest sha v = device_canonical_digest sha w \<longleftrightarrow> denote v = denote w))"
proof (intro conjI impI)
  show "device_canonical_digest sha v = None \<longleftrightarrow> \<not> json_safe v"
    by (simp add: device_canonical_digest_def canonical_device_json_def)
  assume safe: "json_safe v \<and> json_safe w"
  with assms(3) have "device_canonical_digest sha v = device_canonical_digest sha w
      \<longleftrightarrow> canonical_device_json v = canonical_device_json w"
    by (auto simp: device_canonical_digest_def canonical_device_json_def)
  then show "device_canonical_digest sha v = device_canonical_digest sha w \<longleftrightarrow> denote v = denote w"
    using canonical_device_json_denote[of v w] assms(1,2) safe by simp
qed

theorem canonical_digest_identity_witness:
  "device_canonical_digest id (JObj [(''b'', JInt 1), (''a'', JStr ''x'')])
     = device_canonical_digest id (JObj [(''a'', JStr ''x''), (''b'', JInt 1)])"
  using canonical_digest_identity[of "JObj [(''b'', JInt 1), (''a'', JStr ''x'')]"
      "JObj [(''a'', JStr ''x''), (''b'', JInt 1)]" id] by (simp add: fun_eq_iff)

text \<open>
  The three canonical JSON recipes agree. On a JSON-safe value with no key __proto__ at any
  depth, the ledger's and the constitution's canonicalJson write the same text as
  canonicalDeviceJson.
\<close>

theorem canonical_json_agrees:
  assumes "json_safe v" "proto_free v"
  shows "canonical_device_json v = Some (canonical_json v)"
  using assms by (simp add: canonical_device_json_def canonical_json_def canonicalise_sort_keys)

theorem canonical_json_agrees_witness:
  "canonical_device_json (JObj [(''b'', JInt 1), (''a'', JStr ''x'')])
     = Some (canonical_json (JObj [(''b'', JInt 1), (''a'', JStr ''x'')]))"
  by (rule canonical_json_agrees) simp_all

text \<open>
  C21: A key __proto__ is not hashed. canonicalJson of the ledger and of the constitution gives an
  object the same text with and without its property __proto__: the assignment canonical[key] =
  ... creates no own property for that key, so the hash chain does not cover what is stored under
  it.
\<close>

theorem canonical_json_drops_proto:
  "canonical_json (JObj kvs) = canonical_json (JObj (filter (\<lambda>kv. fst kv \<noteq> ''__proto__'') kvs))"
proof -
  have "filter (\<lambda>kv. fst kv \<noteq> ''__proto__'' \<and> snd kv \<noteq> JUndef) (map_vals canonicalise kvs)
      = filter (\<lambda>kv. fst kv \<noteq> ''__proto__'' \<and> snd kv \<noteq> JUndef)
          (map_vals canonicalise (filter (\<lambda>kv. fst kv \<noteq> ''__proto__'') kvs))"
    by (induction kvs) auto
  then show ?thesis by (simp add: canonical_json_def canonicalise_obj)
qed

end
