(* ===== verification/Device_Signature.thy ===== *)
theory Device_Signature
  imports Prelude "HOL-Library.Word"
begin

text \<open>
  The physical-device signature profile (packages/contracts/src/device-signature.ts): the one wire
  form of a P-256 signature and of a public key, the thumbprint derived from a key, the binding of
  a claimed profile to the server's, and the gate a verifier sits behind. Bytes are \<open>8 word\<close>s,
  BigInts are \<open>int\<close>s. Node's \<open>Buffer\<close> base64url codec is modelled; SHA-256 over bytes is
  the parameter \<open>sha_bytes\<close> and the curve check the parameter \<open>verify\<close>.
\<close>

subsection \<open>The profile\<close>

text \<open>A profile field of a client or of a registry row holds a text; one text is approved.\<close>

definition DEVICE_SIGNATURE_PROFILES :: "string list" where
  "DEVICE_SIGNATURE_PROFILES = [''P256_ECDSA_SHA256'']"

definition isApprovedDeviceSignatureProfile :: "string \<Rightarrow> bool" where
  "isApprovedDeviceSignatureProfile value \<longleftrightarrow> value \<in> set DEVICE_SIGNATURE_PROFILES"

datatype profile_binding = Bound string | Not_Approved | Claim_Mismatch

definition bindClaimedSignatureProfile :: "string \<Rightarrow> string \<Rightarrow> profile_binding" where
  "bindClaimedSignatureProfile claimed serverResolved =
     (if \<not> isApprovedDeviceSignatureProfile serverResolved then Not_Approved
      else if claimed \<noteq> serverResolved then Claim_Mismatch
      else Bound serverResolved)"

lemma bind_Bound_iff: "bindClaimedSignatureProfile c s = Bound p \<longleftrightarrow>
    p = s \<and> c = s \<and> s = ''P256_ECDSA_SHA256''"
  by (auto simp: bindClaimedSignatureProfile_def isApprovedDeviceSignatureProfile_def
      DEVICE_SIGNATURE_PROFILES_def)

subsection \<open>Curve constants\<close>

definition P256_CURVE_ORDER :: int where
  "P256_CURVE_ORDER = 0xFFFFFFFF00000000FFFFFFFFFFFFFFFFBCE6FAADA7179E84F3B9CAC2FC632551"

definition P256_HALF_CURVE_ORDER :: int where
  "P256_HALF_CURVE_ORDER = 0x7FFFFFFF800000007FFFFFFFFFFFFFFFDE737D56D38BCF4279DCE5617E3192A8"

definition P256_FIELD_PRIME :: int where
  "P256_FIELD_PRIME = 0xFFFFFFFF00000001000000000000000000000000FFFFFFFFFFFFFFFFFFFFFFFF"

definition P256_SCALAR_BYTES :: nat where
  "P256_SCALAR_BYTES = 32"

definition P256_SIGNATURE_BYTES :: nat where
  "P256_SIGNATURE_BYTES = P256_SCALAR_BYTES * 2"

definition P256_PUBLIC_KEY_BYTES :: nat where
  "P256_PUBLIC_KEY_BYTES = 65"

text \<open>The half order is the floor of half the order, so \<open>s\<close> and \<open>n - s\<close> are never both low.\<close>

lemma half_order: "P256_HALF_CURVE_ORDER = P256_CURVE_ORDER div 2"
  by (simp add: P256_HALF_CURVE_ORDER_def P256_CURVE_ORDER_def)

lemma order_odd: "P256_CURVE_ORDER = 2 * P256_HALF_CURVE_ORDER + 1"
  by (simp add: P256_HALF_CURVE_ORDER_def P256_CURVE_ORDER_def)

lemma order_lt: "P256_CURVE_ORDER < 2 ^ 256" "P256_HALF_CURVE_ORDER < P256_CURVE_ORDER"
    "0 < P256_HALF_CURVE_ORDER"
  by (simp_all add: P256_HALF_CURVE_ORDER_def P256_CURVE_ORDER_def)

subsection \<open>Node's base64url\<close>

type_synonym bytes = "8 word list"

definition base64url_index :: "char \<Rightarrow> nat option" where
  "base64url_index c = (let n = (of_char c :: nat) in
     if 65 \<le> n \<and> n \<le> 90 then Some (n - 65)
     else if 97 \<le> n \<and> n \<le> 122 then Some (n - 71)
     else if 48 \<le> n \<and> n \<le> 57 then Some (n + 4)
     else if n = 45 then Some 62 else if n = 95 then Some 63 else None)"

definition base64url_char :: "nat \<Rightarrow> char" where
  "base64url_char i = (if i < 26 then char_of (i + 65) else if i < 52 then char_of (i + 71)
     else if i < 62 then char_of (i - 4) else if i = 62 then CHR ''-'' else CHR ''_'')"

fun decode_sextets :: "nat list \<Rightarrow> bytes" where
  "decode_sextets (a # b # c # d # r) =
     word_of_nat (a * 4 + b div 16) # word_of_nat (b mod 16 * 16 + c div 4) # word_of_nat (c mod 4 * 64 + d)
       # decode_sextets r"
| "decode_sextets [a, b, c] = [word_of_nat (a * 4 + b div 16), word_of_nat (b mod 16 * 16 + c div 4)]"
| "decode_sextets [a, b] = [word_of_nat (a * 4 + b div 16)]"
| "decode_sextets _ = []"

fun encode_sextets :: "bytes \<Rightarrow> nat list" where
  "encode_sextets (x # y # z # r) =
     unat x div 4 # (unat x mod 4 * 16 + unat y div 16) # (unat y mod 16 * 4 + unat z div 64) # unat z mod 64
       # encode_sextets r"
| "encode_sextets [x, y] = [unat x div 4, unat x mod 4 * 16 + unat y div 16, unat y mod 16 * 4]"
| "encode_sextets [x] = [unat x div 4, unat x mod 4 * 16]"
| "encode_sextets [] = []"

text \<open>\<open>Buffer.from(value, 'base64url')\<close> skips the characters outside the alphabet.\<close>

definition from_base64url :: "string \<Rightarrow> bytes" where
  "from_base64url s = decode_sextets (List.map_filter base64url_index s)"

definition to_base64url :: "bytes \<Rightarrow> string" where
  "to_base64url bs = map base64url_char (encode_sextets bs)"

lemma base64url_index_char: "i < 64 \<Longrightarrow> base64url_index (base64url_char i) = Some i"
  by (auto simp: base64url_index_def base64url_char_def Let_def)

lemma unat_byte [simp]: "unat (x :: 8 word) < 256"
  using unsigned_less[of x, where 'a = nat] by simp

lemma div_pieces:
  assumes "x < (256 :: nat)"
  shows "x div 4 < 64" "x div 16 < 16" "x div 64 < 4"
  using assms by (simp_all add: div_less_iff_less_mult)

lemma sextet_bounds:
  assumes "x < (256 :: nat)" "y < (256 :: nat)" "z < (256 :: nat)"
  shows "x div 4 < 64" "x mod 4 * 16 + y div 16 < 64" "y mod 16 * 4 + z div 64 < 64" "x mod 4 * 16 < 64"
    "y mod 16 * 4 < 64" "z mod 64 < 64"
proof -
  have "x mod 4 < 4" "y mod 16 < 16" "z mod 64 < 64" by simp_all
  with div_pieces[OF assms(1)] div_pieces[OF assms(2)] div_pieces[OF assms(3)]
  show "x div 4 < 64" "x mod 4 * 16 + y div 16 < 64" "y mod 16 * 4 + z div 64 < 64" "x mod 4 * 16 < 64"
    "y mod 16 * 4 < 64" "z mod 64 < 64" by linarith+
qed

lemma sextet_bytes:
  assumes "x < (256 :: nat)" "y < (256 :: nat)" "z < (256 :: nat)"
  shows "x div 4 * 4 + (x mod 4 * 16 + y div 16) div 16 = x"
    "(x mod 4 * 16 + y div 16) mod 16 * 16 + (y mod 16 * 4 + z div 64) div 4 = y"
    "(y mod 16 * 4 + z div 64) mod 4 * 64 + z mod 64 = z"
    "x div 4 * 4 + x mod 4 * 16 div 16 = x"
    "(x mod 4 * 16 + y div 16) mod 16 * 16 + y mod 16 * 4 div 4 = y"
  using div_pieces[OF assms(2)] div_pieces[OF assms(3)] by simp_all

lemma word_of_unat: "word_of_nat (unat x) = (x :: 8 word)"
  by simp

lemma encode_sextets_lt: "\<forall>i\<in>set (encode_sextets bs). i < 64"
proof (induction bs rule: encode_sextets.induct)
  case (1 x y z r)
  then show ?case using sextet_bounds[OF unat_byte[of x] unat_byte[of y] unat_byte[of z]] by simp
next
  case (2 x y)
  show ?case using sextet_bounds[OF unat_byte[of x] unat_byte[of y] unat_byte[of y]] by simp
next
  case (3 x)
  show ?case using sextet_bounds[OF unat_byte[of x] unat_byte[of x] unat_byte[of x]] by simp
qed simp

lemma decode_encode_sextets: "decode_sextets (encode_sextets bs) = bs"
proof (induction bs rule: encode_sextets.induct)
  case (1 x y z r)
  then show ?case
    using sextet_bytes[OF unat_byte[of x] unat_byte[of y] unat_byte[of z]]
    by (simp only: encode_sextets.simps decode_sextets.simps word_of_unat)
next
  case (2 x y)
  show ?case
    using sextet_bytes[OF unat_byte[of x] unat_byte[of y] unat_byte[of y]]
    by (simp only: encode_sextets.simps decode_sextets.simps word_of_unat)
next
  case (3 x)
  show ?case
    using sextet_bytes[OF unat_byte[of x] unat_byte[of x] unat_byte[of x]]
    by (simp only: encode_sextets.simps decode_sextets.simps word_of_unat)
qed simp

lemma from_to_base64url [simp]: "from_base64url (to_base64url bs) = bs"
proof -
  have "List.map_filter base64url_index (map base64url_char is) = is" if "\<forall>i\<in>set is. i < 64" for "is"
    using that by (induction "is") (auto simp: List.map_filter_def base64url_index_char)
  then have "List.map_filter base64url_index (to_base64url bs) = encode_sextets bs"
    unfolding to_base64url_def using encode_sextets_lt by blast
  then show ?thesis by (simp add: from_base64url_def decode_encode_sextets)
qed

subsection \<open>Scalars and bytes\<close>

definition bytesToBigInt :: "bytes \<Rightarrow> int" where
  "bytesToBigInt bs = foldl (\<lambda>value byte. or (push_bit 8 value) (uint byte)) 0 bs"

fun scalar_bytes_from :: "nat \<Rightarrow> int \<Rightarrow> bytes \<Rightarrow> bytes" where
  "scalar_bytes_from 0 remaining bs = bs"
| "scalar_bytes_from (Suc k) remaining bs =
     scalar_bytes_from k (drop_bit 8 remaining) (word_of_int (and remaining 0xff) # bs)"

text \<open>The loop fills a 32-byte array from its last index down.\<close>

definition bigIntToScalarBytes :: "int \<Rightarrow> bytes" where
  "bigIntToScalarBytes value = scalar_bytes_from P256_SCALAR_BYTES value []"

lemma or_byte: "0 \<le> v \<Longrightarrow> or (push_bit 8 v) (uint (b :: 8 word)) = v * 256 + uint b"
proof -
  assume "0 \<le> v"
  have "and (push_bit 8 v) (uint b) = 0"
    by (rule bit_eqI) (auto simp: bit_simps dest: bit_imp_le_length)
  then have "or (push_bit 8 v) (uint b) = push_bit 8 v + uint b"
    using plus_and_or[of "push_bit 8 v" "uint b"] by simp
  then show ?thesis by (simp add: push_bit_eq_mult)
qed

lemma bytesToBigInt_nonneg: "0 \<le> bytesToBigInt bs"
  unfolding bytesToBigInt_def by (induction bs rule: rev_induct) (simp_all add: or_byte)

lemma bytesToBigInt_snoc: "bytesToBigInt (bs @ [b]) = bytesToBigInt bs * 256 + uint b"
  using or_byte[OF bytesToBigInt_nonneg[of bs], of b] by (simp add: bytesToBigInt_def)

lemma bytesToBigInt_Nil [simp]: "bytesToBigInt [] = 0"
  by (simp add: bytesToBigInt_def)

lemma bytesToBigInt_lt: "bytesToBigInt bs < 256 ^ length bs"
proof (induction bs rule: rev_induct)
  case (snoc b bs)
  have "uint b < 256" using uint_lt2p[of b] by simp
  with snoc show ?case by (simp add: bytesToBigInt_snoc)
qed simp

text \<open>Writing a number as bytes and reading it back: no information is lost in either direction.\<close>

lemma scalar_bytes_from_Suc:
  "scalar_bytes_from (Suc k) v bs = scalar_bytes_from k (v div 256) [] @ word_of_int (v mod 256) # bs"
proof -
  have app: "scalar_bytes_from k v bs = scalar_bytes_from k v [] @ bs" for k v bs
  proof (induction k arbitrary: v bs)
    case (Suc k)
    show ?case by (simp add: Suc[of _ "_ # bs"] Suc[of _ "[_]"])
  qed simp
  have "and v 0xff = v mod 256" using take_bit_eq_mask[of 8 v] by (simp add: take_bit_eq_mod mask_eq_exp_minus_1)
  then show ?thesis by (simp add: app[of k _ "_ # bs"] drop_bit_eq_div)
qed

lemma length_scalar_bytes [simp]: "length (scalar_bytes_from k v []) = k"
  by (induction k arbitrary: v) (simp_all add: scalar_bytes_from_Suc del: scalar_bytes_from.simps(2))

lemma scalar_bytes_value:
  "0 \<le> v \<Longrightarrow> v < 256 ^ k \<Longrightarrow> bytesToBigInt (scalar_bytes_from k v []) = v"
proof (induction k arbitrary: v)
  case (Suc k)
  have "v div 256 < 256 ^ k" using Suc.prems by (simp add: div_less_iff_less_mult mult.commute)
  moreover have "uint (word_of_int (v mod 256) :: 8 word) = v mod 256"
    by (simp add: uint_word_of_int)
  ultimately show ?case
    using Suc.prems Suc.IH[of "v div 256"]
    by (simp add: scalar_bytes_from_Suc bytesToBigInt_snoc del: scalar_bytes_from.simps(2))
qed simp

lemma scalar_bytes_of_bytes: "scalar_bytes_from (length bs) (bytesToBigInt bs) [] = bs"
proof (induction bs rule: rev_induct)
  case (snoc b bs)
  have "0 \<le> uint b" "uint b < 256" using uint_lt2p[of b] by simp_all
  then have "(bytesToBigInt bs * 256 + uint b) div 256 = bytesToBigInt bs"
    "(bytesToBigInt bs * 256 + uint b) mod 256 = uint b" by simp_all
  with snoc show ?case
    by (simp add: scalar_bytes_from_Suc bytesToBigInt_snoc del: scalar_bytes_from.simps(2))
qed simp

lemma bigInt_round_trip:
  "0 \<le> v \<Longrightarrow> v < P256_CURVE_ORDER \<Longrightarrow> bytesToBigInt (bigIntToScalarBytes v) = v"
  using order_lt(1) by (simp add: bigIntToScalarBytes_def P256_SCALAR_BYTES_def scalar_bytes_value)

lemma length_bigIntToScalarBytes [simp]: "length (bigIntToScalarBytes v) = 32"
  by (simp add: bigIntToScalarBytes_def P256_SCALAR_BYTES_def)

lemma scalar_of_bytes: "length bs = 32 \<Longrightarrow> bigIntToScalarBytes (bytesToBigInt bs) = bs"
  using scalar_bytes_of_bytes[of bs] by (simp add: bigIntToScalarBytes_def P256_SCALAR_BYTES_def)

subsection \<open>The canonical signature\<close>

datatype signature_rejection = ENCODING_NOT_BASE64URL | ENCODING_PADDED | ENCODING_NOT_CANONICAL
  | WRONG_LENGTH | R_OUT_OF_RANGE | S_OUT_OF_RANGE | S_NOT_LOW

record signature_scalars =
  scalar_r :: int
  scalar_s :: int
  scalar_bytes :: bytes

definition in_alphabet :: "string \<Rightarrow> bool" where
  "in_alphabet value \<longleftrightarrow> list_all (\<lambda>c. base64url_index c \<noteq> None) value"

definition decodeCanonicalP256Signature :: "string \<Rightarrow> signature_rejection + signature_scalars" where
  "decodeCanonicalP256Signature value =
     (if CHR ''='' \<in> set value then Inl ENCODING_PADDED
      else if \<not> in_alphabet value then Inl ENCODING_NOT_BASE64URL
      else let decoded = from_base64url value in
        if to_base64url decoded \<noteq> value then Inl ENCODING_NOT_CANONICAL
        else if length decoded \<noteq> P256_SIGNATURE_BYTES then Inl WRONG_LENGTH
        else let r = bytesToBigInt (take P256_SCALAR_BYTES decoded);
                 s = bytesToBigInt (drop P256_SCALAR_BYTES decoded) in
          if r < 1 \<or> r \<ge> P256_CURVE_ORDER then Inl R_OUT_OF_RANGE
          else if s < 1 \<or> s \<ge> P256_CURVE_ORDER then Inl S_OUT_OF_RANGE
          else if s > P256_HALF_CURVE_ORDER then Inl S_NOT_LOW
          else Inr \<lparr>scalar_r = r, scalar_s = s, scalar_bytes = decoded\<rparr>)"

definition isLowS :: "int \<Rightarrow> bool" where
  "isLowS s \<longleftrightarrow> s \<ge> 1 \<and> s \<le> P256_HALF_CURVE_ORDER"

definition lowSCanonicaliseForSigning :: "int \<Rightarrow> string + int" where
  "lowSCanonicaliseForSigning s =
     (if s < 1 \<or> s \<ge> P256_CURVE_ORDER then Inl ''s is outside the P-256 scalar range''
      else Inr (if s > P256_HALF_CURVE_ORDER then P256_CURVE_ORDER - s else s))"

definition encodeCanonicalP256Signature :: "int \<Rightarrow> int \<Rightarrow> string + string" where
  "encodeCanonicalP256Signature r s =
     (if r < 1 \<or> r \<ge> P256_CURVE_ORDER then Inl ''r is outside the P-256 scalar range''
      else if \<not> isLowS s then Inl ''s must be low-S; canonicalise on the signer before encoding''
      else Inr (to_base64url (bigIntToScalarBytes r @ bigIntToScalarBytes s)))"

text \<open>\<open>DeviceSignatureSchema\<close> accepts exactly what decodes.\<close>

definition device_signature_ok :: "string \<Rightarrow> bool" where
  "device_signature_ok value \<longleftrightarrow> isl (decodeCanonicalP256Signature value) = False"

lemma alphabet_char: "i < 64 \<Longrightarrow> base64url_char i \<noteq> CHR ''=''"
  using base64url_index_char[of i] by (auto simp: base64url_index_def)

lemma encoded_alphabet: "CHR ''='' \<notin> set (to_base64url bs)" "in_alphabet (to_base64url bs)"
  using encode_sextets_lt[of bs] alphabet_char base64url_index_char
  by (force simp: to_base64url_def in_alphabet_def list_all_iff)+

lemma decode_Inr_iff: "decodeCanonicalP256Signature v = Inr sc \<longleftrightarrow>
    v = to_base64url (scalar_bytes sc) \<and> length (scalar_bytes sc) = 64
    \<and> scalar_r sc = bytesToBigInt (take 32 (scalar_bytes sc))
    \<and> scalar_s sc = bytesToBigInt (drop 32 (scalar_bytes sc))
    \<and> 1 \<le> scalar_r sc \<and> scalar_r sc < P256_CURVE_ORDER \<and> isLowS (scalar_s sc)"
  (is "?l \<longleftrightarrow> ?r")
proof
  assume ?l
  then show ?r
    by (auto simp: decodeCanonicalP256Signature_def Let_def isLowS_def P256_SIGNATURE_BYTES_def
        P256_SCALAR_BYTES_def split: if_splits)
next
  assume r: ?r
  then have "scalar_s sc < P256_CURVE_ORDER" using order_lt(2) by (simp add: isLowS_def)
  with r show ?l
    by (simp add: decodeCanonicalP256Signature_def Let_def isLowS_def P256_SIGNATURE_BYTES_def
        P256_SCALAR_BYTES_def encoded_alphabet)
qed

lemma decode_encode:
  assumes "encodeCanonicalP256Signature r s = Inr t"
  shows "decodeCanonicalP256Signature t
    = Inr \<lparr>scalar_r = r, scalar_s = s, scalar_bytes = bigIntToScalarBytes r @ bigIntToScalarBytes s\<rparr>"
proof -
  from assms have rs: "1 \<le> r" "r < P256_CURVE_ORDER" "isLowS s"
    and t: "t = to_base64url (bigIntToScalarBytes r @ bigIntToScalarBytes s)"
    by (auto simp: encodeCanonicalP256Signature_def split: if_splits)
  have "0 \<le> s" "s < P256_CURVE_ORDER" using rs(3) order_lt(2) by (simp_all add: isLowS_def)
  with rs t show ?thesis by (simp add: decode_Inr_iff bigInt_round_trip)
qed

lemma encode_decode:
  assumes "decodeCanonicalP256Signature t = Inr sc"
  shows "encodeCanonicalP256Signature (scalar_r sc) (scalar_s sc) = Inr t"
proof -
  from assms have d: "t = to_base64url (scalar_bytes sc)" "length (scalar_bytes sc) = 64"
    "scalar_r sc = bytesToBigInt (take 32 (scalar_bytes sc))"
    "scalar_s sc = bytesToBigInt (drop 32 (scalar_bytes sc))"
    "1 \<le> scalar_r sc" "scalar_r sc < P256_CURVE_ORDER" "isLowS (scalar_s sc)"
    by (auto simp: decode_Inr_iff)
  have "bigIntToScalarBytes (scalar_r sc) @ bigIntToScalarBytes (scalar_s sc) = scalar_bytes sc"
    using d(2-4) by (simp add: scalar_of_bytes)
  with d(1,5-7) show ?thesis by (simp add: encodeCanonicalP256Signature_def)
qed

lemma lowS_complement: "1 \<le> s \<Longrightarrow> s < P256_CURVE_ORDER \<Longrightarrow> isLowS (P256_CURVE_ORDER - s) \<longleftrightarrow> \<not> isLowS s"
  using order_odd by (auto simp: isLowS_def)

text \<open>
  C18: One signature, one wire form. Decoding a text and encoding the scalars gives back exactly
  that text, and what the encoder returns decodes to the scalars it was given, so decoding is
  injective; and of the two ECDSA signatures (r, s) and (r, n - s) exactly one has a wire form at
  all.
\<close>

theorem signature_wire_form_unique:
  "(decodeCanonicalP256Signature t = Inr sc \<longrightarrow> encodeCanonicalP256Signature (scalar_r sc) (scalar_s sc) = Inr t)
   \<and> (encodeCanonicalP256Signature r s = Inr u \<longrightarrow>
        (\<exists>bs. decodeCanonicalP256Signature u = Inr \<lparr>scalar_r = r, scalar_s = s, scalar_bytes = bs\<rparr>))
   \<and> (1 \<le> r \<and> r < P256_CURVE_ORDER \<and> 1 \<le> s \<and> s < P256_CURVE_ORDER \<longrightarrow>
        isl (encodeCanonicalP256Signature r s) \<noteq> isl (encodeCanonicalP256Signature r (P256_CURVE_ORDER - s)))"
proof (intro conjI impI)
  assume "1 \<le> r \<and> r < P256_CURVE_ORDER \<and> 1 \<le> s \<and> s < P256_CURVE_ORDER"
  then show "isl (encodeCanonicalP256Signature r s) \<noteq> isl (encodeCanonicalP256Signature r (P256_CURVE_ORDER - s))"
    using lowS_complement[of s] by (simp add: encodeCanonicalP256Signature_def)
qed (use encode_decode decode_encode in blast)+

theorem signature_wire_form_unique_witness:
  "\<exists>u bs. encodeCanonicalP256Signature 1 1 = Inr u
     \<and> decodeCanonicalP256Signature u = Inr \<lparr>scalar_r = 1, scalar_s = 1, scalar_bytes = bs\<rparr>
     \<and> isl (encodeCanonicalP256Signature 1 (P256_CURVE_ORDER - 1))"
proof -
  obtain u where u: "encodeCanonicalP256Signature 1 1 = Inr u"
    by (simp add: encodeCanonicalP256Signature_def isLowS_def P256_CURVE_ORDER_def P256_HALF_CURVE_ORDER_def)
  have "1 < P256_CURVE_ORDER" by (simp add: P256_CURVE_ORDER_def)
  with u show ?thesis
    using signature_wire_form_unique[of u "\<lparr>scalar_r = 1, scalar_s = 1, scalar_bytes = []\<rparr>" 1 1 u] by auto
qed

subsection \<open>The canonical public key\<close>

datatype public_key_rejection = KEY_NOT_BASE64URL | KEY_PADDED | KEY_NOT_CANONICAL | KEY_WRONG_LENGTH
  | NOT_UNCOMPRESSED_POINT | COORDINATE_OUT_OF_RANGE

record public_key_point =
  point_x :: int
  point_y :: int
  point_bytes :: bytes

definition decodeCanonicalP256PublicKey :: "string \<Rightarrow> public_key_rejection + public_key_point" where
  "decodeCanonicalP256PublicKey value =
     (if CHR ''='' \<in> set value then Inl KEY_PADDED
      else if \<not> in_alphabet value then Inl KEY_NOT_BASE64URL
      else let decoded = from_base64url value in
        if to_base64url decoded \<noteq> value then Inl KEY_NOT_CANONICAL
        else if length decoded \<noteq> P256_PUBLIC_KEY_BYTES then Inl KEY_WRONG_LENGTH
        else if decoded ! 0 \<noteq> 4 then Inl NOT_UNCOMPRESSED_POINT
        else let x = bytesToBigInt (take P256_SCALAR_BYTES (drop 1 decoded));
                 y = bytesToBigInt (drop (1 + P256_SCALAR_BYTES) decoded) in
          if x \<ge> P256_FIELD_PRIME \<or> y \<ge> P256_FIELD_PRIME then Inl COORDINATE_OUT_OF_RANGE
          else if x = 0 \<and> y = 0 then Inl COORDINATE_OUT_OF_RANGE
          else Inr \<lparr>point_x = x, point_y = y, point_bytes = decoded\<rparr>)"

definition deriveP256PublicKeyThumbprint :: "(bytes \<Rightarrow> string) \<Rightarrow> string \<Rightarrow> public_key_rejection + string" where
  "deriveP256PublicKeyThumbprint sha_bytes publicKey =
     and_then (decodeCanonicalP256PublicKey publicKey) (\<lambda>p. Inr (sha_bytes (point_bytes p)))"

definition deviceKeyThumbprintMatches :: "(bytes \<Rightarrow> string) \<Rightarrow> string \<Rightarrow> string \<Rightarrow> bool" where
  "deviceKeyThumbprintMatches sha_bytes publicKey thumbprint =
     (case decodeCanonicalP256PublicKey publicKey of Inl _ \<Rightarrow> False
      | Inr p \<Rightarrow> deriveP256PublicKeyThumbprint sha_bytes publicKey = Inr thumbprint)"

subsection \<open>The verification boundary\<close>

datatype signature_verification = VERIFIED | REFUSED signature_rejection | INVALID_SIGNATURE
  | PROFILE_NOT_APPROVED | PROFILE_CLAIM_MISMATCH

definition verifyCanonicalDeviceSignature ::
  "string \<Rightarrow> string \<Rightarrow> string \<Rightarrow> (signature_scalars \<Rightarrow> bool) \<Rightarrow> signature_verification" where
  "verifyCanonicalDeviceSignature serverResolvedProfile claimedProfile signature verify =
     (case bindClaimedSignatureProfile claimedProfile serverResolvedProfile of
        Not_Approved \<Rightarrow> PROFILE_NOT_APPROVED
      | Claim_Mismatch \<Rightarrow> PROFILE_CLAIM_MISMATCH
      | Bound p \<Rightarrow> (case decodeCanonicalP256Signature signature of
          Inl rejection \<Rightarrow> REFUSED rejection
        | Inr scalars \<Rightarrow> if verify scalars then VERIFIED else INVALID_SIGNATURE))"

lemma verified_iff: "verifyCanonicalDeviceSignature srv claimed sig verify = VERIFIED \<longleftrightarrow>
    claimed = srv \<and> srv = ''P256_ECDSA_SHA256'' \<and> (\<exists>sc. decodeCanonicalP256Signature sig = Inr sc \<and> verify sc)"
proof (cases "bindClaimedSignatureProfile claimed srv")
  case (Bound p)
  then have "claimed = srv" "srv = ''P256_ECDSA_SHA256''" by (simp_all add: bind_Bound_iff)
  with Bound show ?thesis
    by (cases "decodeCanonicalP256Signature sig") (simp_all add: verifyCanonicalDeviceSignature_def)
next
  case Not_Approved
  then have "\<not> (claimed = srv \<and> srv = ''P256_ECDSA_SHA256'')"
    using bind_Bound_iff[of claimed srv srv] by auto
  with Not_Approved show ?thesis by (auto simp: verifyCanonicalDeviceSignature_def)
next
  case Claim_Mismatch
  then have "\<not> (claimed = srv \<and> srv = ''P256_ECDSA_SHA256'')"
    using bind_Bound_iff[of claimed srv srv] by auto
  with Claim_Mismatch show ?thesis by (auto simp: verifyCanonicalDeviceSignature_def)
qed



end
