(* ===== verification/Device_Contracts.thy ===== *)
theory Device_Contracts
  imports Canonical_Json Device_Signature
begin

text \<open>
  The frozen contracts the Edge stores and forwards (packages/contracts/src/device-offline.ts and
  edge-runtime.ts): the device-signed envelope, the Edge receipt, the transport result and the
  stored operation, each as a record of the fields the schema names, the predicate its zod schema
  checks, and the reading of a parsed JSON value by that schema. The formats zod owns (UUID, ISO
  datetime), \<open>JSON.parse\<close>, \<open>Date.parse\<close>, SHA-256 and the two SQLite JSON functions the tables use
  are the fields of \<open>platform\<close>. A value of a schema's type has its keys in the schema's order, which
  is the order zod's \<open>parse\<close> returns them in.
\<close>

subsection \<open>The platform\<close>

text \<open>What SQLite's \<open>json_extract\<close> may return, as far as a comparison with a text can tell.\<close>

datatype sql_cell = SqlNull | SqlText string | SqlOther

record platform =
  sha :: "string \<Rightarrow> string"
  json_parse :: "string \<Rightarrow> json option"
  date_parse :: "string \<Rightarrow> int option"
  uuid_format :: "string \<Rightarrow> bool"
  datetime_format :: "string \<Rightarrow> bool"
  sql_json_valid :: "string \<Rightarrow> bool"
  sql_json_outcome :: "string \<Rightarrow> sql_cell"

text \<open>
  Documented behaviour the round trips rely on: \<open>JSON.parse\<close> undoes \<open>JSON.stringify\<close> on a value
  JSON can carry, and SQLite agrees that such a text is JSON and finds a top-level \<open>outcome\<close>.
\<close>

definition json_faithful :: "platform \<Rightarrow> json \<Rightarrow> bool" where
  "json_faithful pl v \<longleftrightarrow> json_parse pl (json_stringify v) = Some v \<and> sql_json_valid pl (json_stringify v)"

text \<open>
  A concrete platform for the examples: a finite set of documents is readable, the digest is
  one constant, every format is accepted and instants are minutes.
\<close>

definition example_platform :: "json list \<Rightarrow> platform" where
  "example_platform docs = \<lparr>sha = (\<lambda>t. replicate 64 CHR ''a''),
     json_parse = map_of (map (\<lambda>v. (json_stringify v, v)) docs),
     date_parse = (\<lambda>t. if t = [] then None else Some (int (digits_value t))),
     uuid_format = (\<lambda>_. True), datetime_format = (\<lambda>_. True), sql_json_valid = (\<lambda>_. True),
     sql_json_outcome = (\<lambda>t. case map_of (map (\<lambda>v. (json_stringify v, v)) docs) t of
        Some (JObj kvs) \<Rightarrow> (case map_of kvs ''outcome'' of Some (JStr s) \<Rightarrow> SqlText s
           | None \<Rightarrow> SqlNull | Some JNull \<Rightarrow> SqlNull | _ \<Rightarrow> SqlOther)
      | _ \<Rightarrow> SqlNull)\<rparr>"

subsection \<open>Fields\<close>

definition MAX_OFFLINE_DEVICE_SEQUENCE :: int where
  "MAX_OFFLINE_DEVICE_SEQUENCE = 9007199254740991"

definition scopedId :: "string \<Rightarrow> bool" where
  "scopedId s \<longleftrightarrow> 1 \<le> length s \<and> length s \<le> 256"

definition deviceSequence :: "int \<Rightarrow> bool" where
  "deviceSequence n \<longleftrightarrow> 0 \<le> n \<and> n \<le> MAX_OFFLINE_DEVICE_SEQUENCE"

definition DeviceKeyVersion :: "int \<Rightarrow> bool" where
  "DeviceKeyVersion n \<longleftrightarrow> 0 < n \<and> n \<le> 1000000"

definition DeviceNonce :: "string \<Rightarrow> bool" where
  "DeviceNonce s \<longleftrightarrow> 16 \<le> length s \<and> length s \<le> 256"

definition DeviceDigest :: "string \<Rightarrow> bool" where
  "DeviceDigest s \<longleftrightarrow> length s = 64 \<and> list_all (\<lambda>c. is_digit c \<or> c \<in> set ''abcdef'') s"

datatype operation_kind = FIELD_ASSIGNMENT_ACCEPT | FIELD_ASSIGNMENT_DECLINE | FIELD_ASSIGNMENT_START
  | FIELD_ASSIGNMENT_COMPLETE | INCIDENT_FIELD_MESSAGE_SEND | INCIDENT_FIELD_MESSAGE_ACKNOWLEDGE

fun kind_name :: "operation_kind \<Rightarrow> string" where
  "kind_name FIELD_ASSIGNMENT_ACCEPT = ''FIELD_ASSIGNMENT_ACCEPT''"
| "kind_name FIELD_ASSIGNMENT_DECLINE = ''FIELD_ASSIGNMENT_DECLINE''"
| "kind_name FIELD_ASSIGNMENT_START = ''FIELD_ASSIGNMENT_START''"
| "kind_name FIELD_ASSIGNMENT_COMPLETE = ''FIELD_ASSIGNMENT_COMPLETE''"
| "kind_name INCIDENT_FIELD_MESSAGE_SEND = ''INCIDENT_FIELD_MESSAGE_SEND''"
| "kind_name INCIDENT_FIELD_MESSAGE_ACKNOWLEDGE = ''INCIDENT_FIELD_MESSAGE_ACKNOWLEDGE''"

definition all_kinds :: "operation_kind list" where
  "all_kinds = [FIELD_ASSIGNMENT_ACCEPT, FIELD_ASSIGNMENT_DECLINE, FIELD_ASSIGNMENT_START,
     FIELD_ASSIGNMENT_COMPLETE, INCIDENT_FIELD_MESSAGE_SEND, INCIDENT_FIELD_MESSAGE_ACKNOWLEDGE]"

definition kind_of_name :: "string \<Rightarrow> operation_kind option" where
  "kind_of_name s = map_of (map (\<lambda>k. (kind_name k, k)) all_kinds) s"

lemma kind_of_name_name [simp]: "kind_of_name (kind_name k) = Some k"
  by (cases k) (simp_all add: kind_of_name_def all_kinds_def)

text \<open>Reading one property of a parsed object; an absent property is \<open>undefined\<close> and fails.\<close>

fun as_string :: "json option \<Rightarrow> string option" where
  "as_string (Some (JStr s)) = Some s"
| "as_string _ = None"

definition int_of_text :: "string \<Rightarrow> int option" where
  "int_of_text t = (let i = (if take 1 t = ''-'' then - int (digits_value (drop 1 t)) else int (digits_value t))
     in if show_int i = t then Some i else None)"

fun as_int :: "json option \<Rightarrow> int option" where
  "as_int (Some (JNum t)) = int_of_text t"
| "as_int _ = None"

fun nullable :: "(json option \<Rightarrow> 'a option) \<Rightarrow> json option \<Rightarrow> 'a option option" where
  "nullable f (Some JNull) = Some None"
| "nullable f j = map_option Some (f j)"

definition strict :: "string list \<Rightarrow> (string \<times> json) list \<Rightarrow> bool" where
  "strict keys kvs \<longleftrightarrow> (\<forall>kv\<in>set kvs. fst kv \<in> set keys)"

fun opt_json :: "('a \<Rightarrow> json) \<Rightarrow> 'a option \<Rightarrow> json" where
  "opt_json f None = JNull"
| "opt_json f (Some x) = f x"

lemma int_of_text_show [simp]: "int_of_text (show_int i) = Some i"
proof (cases "i < 0")
  case True
  then show ?thesis by (simp add: int_of_text_def show_int_def digits_value_show)
next
  case False
  have "take 1 (show_nat (nat i)) \<noteq> ''-''"
    using show_nat_not_minus[of "nat i"] by (cases "show_nat (nat i)") auto
  with False show ?thesis by (simp add: int_of_text_def show_int_def digits_value_show)
qed

lemma as_int_JInt [simp]: "as_int (Some (JInt i)) = Some i"
  by (simp add: JInt_def)

subsection \<open>The device-signed envelope\<close>

record envelope =
  env_schema_version :: int
  env_offline_operation_id :: string
  env_organisation_id :: string
  env_site_id :: string
  env_actor_user_id :: string
  env_device_id :: string
  env_key_id :: string
  env_key_version :: int
  env_operation_kind :: operation_kind
  env_device_sequence :: int
  env_idempotency_key :: string
  env_payload_digest :: string
  env_policy_lease_id :: string
  env_nonce :: string
  env_created_at :: string
  env_claimed_signature_profile :: string
  env_signature :: string

definition envelope_ok :: "platform \<Rightarrow> envelope \<Rightarrow> bool" where
  "envelope_ok pl e \<longleftrightarrow> env_schema_version e = 1 \<and> uuid_format pl (env_offline_operation_id e)
     \<and> scopedId (env_organisation_id e) \<and> scopedId (env_site_id e) \<and> scopedId (env_actor_user_id e)
     \<and> scopedId (env_device_id e) \<and> scopedId (env_key_id e) \<and> DeviceKeyVersion (env_key_version e)
     \<and> deviceSequence (env_device_sequence e) \<and> scopedId (env_idempotency_key e)
     \<and> DeviceDigest (env_payload_digest e) \<and> scopedId (env_policy_lease_id e) \<and> DeviceNonce (env_nonce e)
     \<and> datetime_format pl (env_created_at e)
     \<and> isApprovedDeviceSignatureProfile (env_claimed_signature_profile e)
     \<and> device_signature_ok (env_signature e)"

definition envelope_json :: "envelope \<Rightarrow> json" where
  "envelope_json e = JObj
    [(''schema_version'', JInt (env_schema_version e)),
     (''offline_operation_id'', JStr (env_offline_operation_id e)),
     (''organisation_id'', JStr (env_organisation_id e)),
     (''site_id'', JStr (env_site_id e)),
     (''actor_user_id'', JStr (env_actor_user_id e)),
     (''device_id'', JStr (env_device_id e)),
     (''key_id'', JStr (env_key_id e)),
     (''key_version'', JInt (env_key_version e)),
     (''operation_kind'', JStr (kind_name (env_operation_kind e))),
     (''device_sequence'', JInt (env_device_sequence e)),
     (''idempotency_key'', JStr (env_idempotency_key e)),
     (''payload_digest'', JStr (env_payload_digest e)),
     (''policy_lease_id'', JStr (env_policy_lease_id e)),
     (''nonce'', JStr (env_nonce e)),
     (''created_at'', JStr (env_created_at e)),
     (''claimed_signature_profile'', JStr (env_claimed_signature_profile e)),
     (''signature'', JStr (env_signature e))]"

definition envelope_keys :: "string list" where
  "envelope_keys = [''schema_version'', ''offline_operation_id'', ''organisation_id'', ''site_id'',
     ''actor_user_id'', ''device_id'', ''key_id'', ''key_version'', ''operation_kind'', ''device_sequence'',
     ''idempotency_key'', ''payload_digest'', ''policy_lease_id'', ''nonce'', ''created_at'',
     ''claimed_signature_profile'', ''signature'']"

text \<open>\<open>DeviceOfflineOperationEnvelopeSchema.parse\<close>: the typed envelope, or a refusal.\<close>

fun parse_envelope :: "platform \<Rightarrow> json \<Rightarrow> envelope option" where
  "parse_envelope pl (JObj kvs) =
     (if strict envelope_keys kvs then
       (case (as_int (map_of kvs ''schema_version''), as_string (map_of kvs ''offline_operation_id''),
              as_string (map_of kvs ''organisation_id''), as_string (map_of kvs ''site_id''),
              as_string (map_of kvs ''actor_user_id''), as_string (map_of kvs ''device_id''),
              as_string (map_of kvs ''key_id''), as_int (map_of kvs ''key_version''),
              Option.bind (as_string (map_of kvs ''operation_kind'')) kind_of_name,
              as_int (map_of kvs ''device_sequence''), as_string (map_of kvs ''idempotency_key''),
              as_string (map_of kvs ''payload_digest''), as_string (map_of kvs ''policy_lease_id''),
              as_string (map_of kvs ''nonce''), as_string (map_of kvs ''created_at''),
              as_string (map_of kvs ''claimed_signature_profile''), as_string (map_of kvs ''signature'')) of
          (Some v, Some op, Some org, Some site, Some actor, Some dev, Some kid, Some kv, Some kind, Some sq,
           Some idem, Some dig, Some lease, Some nonce, Some created, Some prof, Some sig) \<Rightarrow>
            let e = \<lparr>env_schema_version = v, env_offline_operation_id = op, env_organisation_id = org,
              env_site_id = site, env_actor_user_id = actor, env_device_id = dev, env_key_id = kid,
              env_key_version = kv, env_operation_kind = kind, env_device_sequence = sq,
              env_idempotency_key = idem, env_payload_digest = dig, env_policy_lease_id = lease,
              env_nonce = nonce, env_created_at = created, env_claimed_signature_profile = prof,
              env_signature = sig\<rparr>
            in if envelope_ok pl e then Some e else None
        | _ \<Rightarrow> None)
      else None)"
| "parse_envelope pl _ = None"

lemma parse_envelope_json: "envelope_ok pl e \<Longrightarrow> parse_envelope pl (envelope_json e) = Some e"
  by (cases e) (simp add: envelope_json_def strict_def envelope_keys_def)

lemma parse_envelope_ok: "parse_envelope pl j = Some e \<Longrightarrow> envelope_ok pl e"
  by (cases "(pl, j)" rule: parse_envelope.cases) (auto simp: Let_def split: if_splits option.splits)

lemma json_wf_envelope [simp]: "json_wf (envelope_json e)" "json_safe (envelope_json e)"
  by (simp_all add: envelope_json_def)

subsection \<open>The Edge receipt\<close>

record edge_receipt =
  rcpt_schema_version :: int
  rcpt_edge_id :: string
  rcpt_edge_key_id :: string
  rcpt_edge_key_version :: int
  rcpt_witnessed_operation_fingerprint :: string
  rcpt_edge_trusted_time :: "string option"
  rcpt_edge_monotonic_position :: "int option"
  rcpt_claimed_edge_signature_profile :: string
  rcpt_edge_signature :: string

definition receipt_ok :: "platform \<Rightarrow> edge_receipt \<Rightarrow> bool" where
  "receipt_ok pl r \<longleftrightarrow> rcpt_schema_version r = 1 \<and> scopedId (rcpt_edge_id r) \<and> scopedId (rcpt_edge_key_id r)
     \<and> DeviceKeyVersion (rcpt_edge_key_version r) \<and> DeviceDigest (rcpt_witnessed_operation_fingerprint r)
     \<and> pred_option (datetime_format pl) (rcpt_edge_trusted_time r)
     \<and> pred_option deviceSequence (rcpt_edge_monotonic_position r)
     \<and> isApprovedDeviceSignatureProfile (rcpt_claimed_edge_signature_profile r)
     \<and> device_signature_ok (rcpt_edge_signature r)
     \<and> \<not> (rcpt_edge_trusted_time r = None \<and> rcpt_edge_monotonic_position r = None)"

definition receipt_json :: "edge_receipt \<Rightarrow> json" where
  "receipt_json r = JObj
    [(''schema_version'', JInt (rcpt_schema_version r)),
     (''edge_id'', JStr (rcpt_edge_id r)),
     (''edge_key_id'', JStr (rcpt_edge_key_id r)),
     (''edge_key_version'', JInt (rcpt_edge_key_version r)),
     (''witnessed_operation_fingerprint'', JStr (rcpt_witnessed_operation_fingerprint r)),
     (''edge_trusted_time'', opt_json JStr (rcpt_edge_trusted_time r)),
     (''edge_monotonic_position'', opt_json JInt (rcpt_edge_monotonic_position r)),
     (''claimed_edge_signature_profile'', JStr (rcpt_claimed_edge_signature_profile r)),
     (''edge_signature'', JStr (rcpt_edge_signature r))]"

definition receipt_keys :: "string list" where
  "receipt_keys = [''schema_version'', ''edge_id'', ''edge_key_id'', ''edge_key_version'',
     ''witnessed_operation_fingerprint'', ''edge_trusted_time'', ''edge_monotonic_position'',
     ''claimed_edge_signature_profile'', ''edge_signature'']"

fun parse_receipt :: "platform \<Rightarrow> json \<Rightarrow> edge_receipt option" where
  "parse_receipt pl (JObj kvs) =
     (if strict receipt_keys kvs then
       (case (as_int (map_of kvs ''schema_version''), as_string (map_of kvs ''edge_id''),
              as_string (map_of kvs ''edge_key_id''), as_int (map_of kvs ''edge_key_version''),
              as_string (map_of kvs ''witnessed_operation_fingerprint''),
              nullable as_string (map_of kvs ''edge_trusted_time''),
              nullable as_int (map_of kvs ''edge_monotonic_position''),
              as_string (map_of kvs ''claimed_edge_signature_profile''),
              as_string (map_of kvs ''edge_signature'')) of
          (Some v, Some edge, Some kid, Some kv, Some fp, Some time, Some pos, Some prof, Some sig) \<Rightarrow>
            let r = \<lparr>rcpt_schema_version = v, rcpt_edge_id = edge, rcpt_edge_key_id = kid,
              rcpt_edge_key_version = kv, rcpt_witnessed_operation_fingerprint = fp,
              rcpt_edge_trusted_time = time, rcpt_edge_monotonic_position = pos,
              rcpt_claimed_edge_signature_profile = prof, rcpt_edge_signature = sig\<rparr>
            in if receipt_ok pl r then Some r else None
        | _ \<Rightarrow> None)
      else None)"
| "parse_receipt pl _ = None"

lemma nullable_opt [simp]:
  "nullable as_string (Some (opt_json JStr x)) = Some x"
  "nullable as_int (Some (opt_json JInt i)) = Some i"
  by (cases x; simp) (cases i; simp add: JInt_def)

lemma parse_receipt_json: "receipt_ok pl r \<Longrightarrow> parse_receipt pl (receipt_json r) = Some r"
  by (cases r) (simp add: receipt_json_def strict_def receipt_keys_def)

lemma opt_json_ok [simp]: "json_wf (opt_json JStr x)" "json_safe (opt_json JStr x)"
    "json_wf (opt_json JInt i)" "json_safe (opt_json JInt i)"
  by (cases x; simp; fail | cases i; simp; fail)+

lemma json_wf_receipt [simp]: "json_wf (receipt_json r)" "json_safe (receipt_json r)"
  by (simp_all add: receipt_json_def)

subsection \<open>The transport result\<close>

datatype unknown_reason = NOT_ATTEMPTED | CONNECT_FAILED | TIMED_OUT | TRANSPORT_ERROR | RESPONSE_UNINTELLIGIBLE

fun reason_name :: "unknown_reason \<Rightarrow> string" where
  "reason_name NOT_ATTEMPTED = ''NOT_ATTEMPTED''"
| "reason_name CONNECT_FAILED = ''CONNECT_FAILED''"
| "reason_name TIMED_OUT = ''TIMED_OUT''"
| "reason_name TRANSPORT_ERROR = ''TRANSPORT_ERROR''"
| "reason_name RESPONSE_UNINTELLIGIBLE = ''RESPONSE_UNINTELLIGIBLE''"

text \<open>\<open>terminal\<close> is a literal on every member: true on the two answers, false on \<open>UNKNOWN\<close>.\<close>

datatype transport_result = CENTRAL_ACCEPTED string | CENTRAL_REFUSED string | Unknown unknown_reason

fun terminal :: "transport_result \<Rightarrow> bool" where
  "terminal (CENTRAL_ACCEPTED _) = True"
| "terminal (CENTRAL_REFUSED _) = True"
| "terminal (Unknown _) = False"

fun transport_ok :: "transport_result \<Rightarrow> bool" where
  "transport_ok (CENTRAL_ACCEPTED ref) = scopedId ref"
| "transport_ok (CENTRAL_REFUSED code) = scopedId code"
| "transport_ok (Unknown _) = True"

fun transport_json :: "transport_result \<Rightarrow> json" where
  "transport_json (CENTRAL_ACCEPTED ref) = JObj [(''outcome'', JStr ''CENTRAL_ACCEPTED''),
     (''terminal'', JBool True), (''central_reference'', JStr ref)]"
| "transport_json (CENTRAL_REFUSED code) = JObj [(''outcome'', JStr ''CENTRAL_REFUSED''),
     (''terminal'', JBool True), (''refusal_code'', JStr code)]"
| "transport_json (Unknown r) = JObj [(''outcome'', JStr ''UNKNOWN''),
     (''terminal'', JBool False), (''reason'', JStr (reason_name r))]"

text \<open>The two terminal answers: \<open>EdgeTransportTerminalAnswerSchema\<close> on a parsed value.\<close>

fun parse_answer :: "json \<Rightarrow> transport_result option" where
  "parse_answer (JObj kvs) =
     (case (map_of kvs ''outcome'', map_of kvs ''terminal'') of
        (Some (JStr out), Some (JBool True)) \<Rightarrow>
          if out = ''CENTRAL_ACCEPTED'' \<and> strict [''outcome'', ''terminal'', ''central_reference''] kvs then
            (case as_string (map_of kvs ''central_reference'') of
               Some ref \<Rightarrow> if scopedId ref then Some (CENTRAL_ACCEPTED ref) else None
             | None \<Rightarrow> None)
          else if out = ''CENTRAL_REFUSED'' \<and> strict [''outcome'', ''terminal'', ''refusal_code''] kvs then
            (case as_string (map_of kvs ''refusal_code'') of
               Some code \<Rightarrow> if scopedId code then Some (CENTRAL_REFUSED code) else None
             | None \<Rightarrow> None)
          else None
      | _ \<Rightarrow> None)"
| "parse_answer _ = None"

lemma parse_answer_json: "terminal a \<Longrightarrow> transport_ok a \<Longrightarrow> parse_answer (transport_json a) = Some a"
  by (cases a) (simp_all add: strict_def)

lemma parse_answer_ok: "parse_answer j = Some a \<Longrightarrow> terminal a \<and> transport_ok a"
  by (cases j rule: parse_answer.cases)
    (auto split: option.splits json.splits bool.splits if_splits)

lemma json_wf_transport [simp]: "json_wf (transport_json a)" "json_safe (transport_json a)"
  by (cases a; simp)+

subsection \<open>The stored operation\<close>

datatype operation_state = QUEUED | TERMINAL

record stored_operation =
  st_envelope :: envelope
  st_payload_canonical_json :: string
  st_receipt :: "edge_receipt option"
  st_enqueued_edge_monotonic_position :: int
  st_state :: operation_state
  st_settlement :: "transport_result option"

text \<open>
  The refinement on the payload text: it parses, is canonicalisable without loss, is already in
  canonical form, and digests to the value the device signature covers.
\<close>

definition payload_bytes_ok :: "platform \<Rightarrow> string \<Rightarrow> string \<Rightarrow> bool" where
  "payload_bytes_ok pl payload digest =
     (case json_parse pl payload of None \<Rightarrow> False
      | Some v \<Rightarrow> (case (canonical_device_json v, device_canonical_digest (sha pl) v) of
          (Some recanonicalised, Some d) \<Rightarrow> recanonicalised = payload \<and> d = digest
        | _ \<Rightarrow> False))"

definition stored_operation_ok :: "platform \<Rightarrow> stored_operation \<Rightarrow> bool" where
  "stored_operation_ok pl st \<longleftrightarrow> envelope_ok pl (st_envelope st)
     \<and> 2 \<le> length (st_payload_canonical_json st)
     \<and> pred_option (receipt_ok pl) (st_receipt st)
     \<and> deviceSequence (st_enqueued_edge_monotonic_position st)
     \<and> pred_option (\<lambda>a. terminal a \<and> transport_ok a) (st_settlement st)
     \<and> \<not> (st_state st = TERMINAL \<and> st_settlement st = None)
     \<and> \<not> (st_state st = QUEUED \<and> st_settlement st \<noteq> None)
     \<and> \<not> (\<exists>r. st_receipt st = Some r \<and> length (rcpt_witnessed_operation_fingerprint r) = 0)
     \<and> payload_bytes_ok pl (st_payload_canonical_json st) (env_payload_digest (st_envelope st))"

text \<open>What passes the refinement digests byte for byte: the stored text is the digested text.\<close>

lemma payload_bytes_digest: "payload_bytes_ok pl payload digest \<Longrightarrow> sha pl payload = digest"
  by (auto simp: payload_bytes_ok_def device_canonical_digest_def split: option.splits)

subsection \<open>Metrics\<close>

record queue_metrics =
  m_queued_count :: int
  m_terminal_count :: int
  m_capacity :: int
  m_oldest_queued_monotonic_age_ms :: "int option"
  m_trusted_time_available :: bool
  m_consecutive_unknown_transport_results :: int

definition metrics_ok :: "queue_metrics \<Rightarrow> bool" where
  "metrics_ok m \<longleftrightarrow> 0 \<le> m_queued_count m \<and> 0 \<le> m_terminal_count m \<and> 0 < m_capacity m
     \<and> pred_option ((\<le>) 0) (m_oldest_queued_monotonic_age_ms m)
     \<and> 0 \<le> m_consecutive_unknown_transport_results m"

end
