(* ===== verification/Edge_Queue_State.thy ===== *)
theory Edge_Queue_State
  imports Device_Contracts
begin

text \<open>
  The Edge queue's state model (edge-queue.state.ts, edge-queue.constants.ts): the nine local
  states and their reading as the contract's two, the failure categories and the state each
  derives, the transition table, and the retry delay. The relation \<open>moves\<close> is what the store's
  gate lets a row do; its rule induction gives what a row must have passed through.
\<close>

subsection \<open>Constants\<close>

definition EDGE_QUEUE_SCHEMA_VERSION :: int where
  "EDGE_QUEUE_SCHEMA_VERSION = 1"

definition EDGE_QUEUE_MAX_MONOTONIC_POSITION :: int where
  "EDGE_QUEUE_MAX_MONOTONIC_POSITION = 9007199254740991"

definition EDGE_QUEUE_MAX_UNSETTLED :: int where
  "EDGE_QUEUE_MAX_UNSETTLED = 4096"

definition EDGE_QUEUE_SETTLED_RETENTION :: int where
  "EDGE_QUEUE_SETTLED_RETENTION = 1024"

definition EDGE_QUEUE_RETRY_BASE_DELAY_MS :: int where
  "EDGE_QUEUE_RETRY_BASE_DELAY_MS = 5000"

definition EDGE_QUEUE_RETRY_MAX_DELAY_MS :: int where
  "EDGE_QUEUE_RETRY_MAX_DELAY_MS = 900000"

text \<open>
  Every product here is an integer below \<open>2 ^ 53\<close>, so the double arithmetic is exact.
\<close>

definition edgeQueueRetryDelayMs :: "int \<Rightarrow> int" where
  "edgeQueueRetryDelayMs attemptCount =
     (if attemptCount \<le> 0 then 0
      else let steps = min (attemptCount - 1) 40;
               delay = EDGE_QUEUE_RETRY_BASE_DELAY_MS * 2 ^ nat steps
        in min delay EDGE_QUEUE_RETRY_MAX_DELAY_MS)"

subsection \<open>States\<close>

datatype queue_state = STORED_LOCAL | READY_TO_FORWARD | FORWARDING | CENTRAL_RECEIVED | CENTRAL_APPLYING
  | CENTRAL_APPLIED | FAILED_RETRYABLE | FAILED_TERMINAL | UNKNOWN

definition EDGE_QUEUE_SETTLED_STATES :: "queue_state list" where
  "EDGE_QUEUE_SETTLED_STATES = [CENTRAL_APPLIED, FAILED_TERMINAL]"

definition EDGE_QUEUE_CENTRAL_ACKNOWLEDGED_STATES :: "queue_state list" where
  "EDGE_QUEUE_CENTRAL_ACKNOWLEDGED_STATES = [CENTRAL_RECEIVED, CENTRAL_APPLYING, CENTRAL_APPLIED, FAILED_TERMINAL]"

definition EDGE_QUEUE_FORWARDABLE_STATES :: "queue_state list" where
  "EDGE_QUEUE_FORWARDABLE_STATES = [READY_TO_FORWARD, FAILED_RETRYABLE, UNKNOWN, CENTRAL_RECEIVED, CENTRAL_APPLYING]"

definition isEdgeQueueSettledState :: "queue_state \<Rightarrow> bool" where
  "isEdgeQueueSettledState state \<longleftrightarrow> state \<in> set EDGE_QUEUE_SETTLED_STATES"

definition toEdgeOperationState :: "queue_state \<Rightarrow> operation_state" where
  "toEdgeOperationState state = (if isEdgeQueueSettledState state then TERMINAL else QUEUED)"

fun EDGE_QUEUE_STATE_FOR_FAILURE_CATEGORY :: "unknown_reason \<Rightarrow> queue_state" where
  "EDGE_QUEUE_STATE_FOR_FAILURE_CATEGORY NOT_ATTEMPTED = READY_TO_FORWARD"
| "EDGE_QUEUE_STATE_FOR_FAILURE_CATEGORY CONNECT_FAILED = FAILED_RETRYABLE"
| "EDGE_QUEUE_STATE_FOR_FAILURE_CATEGORY TIMED_OUT = UNKNOWN"
| "EDGE_QUEUE_STATE_FOR_FAILURE_CATEGORY TRANSPORT_ERROR = UNKNOWN"
| "EDGE_QUEUE_STATE_FOR_FAILURE_CATEGORY RESPONSE_UNINTELLIGIBLE = UNKNOWN"

definition EDGE_QUEUE_INITIAL_FAILURE_CATEGORY :: unknown_reason where
  "EDGE_QUEUE_INITIAL_FAILURE_CATEGORY = NOT_ATTEMPTED"

fun EDGE_QUEUE_TRANSITIONS :: "queue_state \<Rightarrow> queue_state list" where
  "EDGE_QUEUE_TRANSITIONS STORED_LOCAL = [READY_TO_FORWARD]"
| "EDGE_QUEUE_TRANSITIONS READY_TO_FORWARD = [FORWARDING]"
| "EDGE_QUEUE_TRANSITIONS FORWARDING = [CENTRAL_RECEIVED, CENTRAL_APPLYING, CENTRAL_APPLIED, FAILED_TERMINAL,
     FAILED_RETRYABLE, UNKNOWN, READY_TO_FORWARD]"
| "EDGE_QUEUE_TRANSITIONS CENTRAL_RECEIVED = [FORWARDING, CENTRAL_APPLYING, CENTRAL_APPLIED, FAILED_TERMINAL, UNKNOWN]"
| "EDGE_QUEUE_TRANSITIONS CENTRAL_APPLYING = [FORWARDING, CENTRAL_APPLIED, FAILED_TERMINAL, UNKNOWN]"
| "EDGE_QUEUE_TRANSITIONS FAILED_RETRYABLE = [READY_TO_FORWARD, FORWARDING]"
| "EDGE_QUEUE_TRANSITIONS UNKNOWN = [READY_TO_FORWARD, FORWARDING]"
| "EDGE_QUEUE_TRANSITIONS CENTRAL_APPLIED = []"
| "EDGE_QUEUE_TRANSITIONS FAILED_TERMINAL = []"

definition canTransitionEdgeQueueState :: "queue_state \<Rightarrow> queue_state \<Rightarrow> bool" where
  "canTransitionEdgeQueueState from to \<longleftrightarrow> to \<in> set (EDGE_QUEUE_TRANSITIONS from)"

definition EDGE_QUEUE_CRASH_INTERRUPTED_STATE :: queue_state where
  "EDGE_QUEUE_CRASH_INTERRUPTED_STATE = FORWARDING"

definition EDGE_QUEUE_CRASH_RECOVERY_CATEGORY :: unknown_reason where
  "EDGE_QUEUE_CRASH_RECOVERY_CATEGORY = TRANSPORT_ERROR"

lemma settled_state_iff [inv_simps]: "isEdgeQueueSettledState s \<longleftrightarrow> s = CENTRAL_APPLIED \<or> s = FAILED_TERMINAL"
  by (auto simp: isEdgeQueueSettledState_def EDGE_QUEUE_SETTLED_STATES_def)

lemma toEdgeOperationState_iff [simp]:
  "toEdgeOperationState s = TERMINAL \<longleftrightarrow> isEdgeQueueSettledState s"
  "toEdgeOperationState s = QUEUED \<longleftrightarrow> \<not> isEdgeQueueSettledState s"
  by (auto simp: toEdgeOperationState_def)

subsection \<open>What may follow what\<close>

text \<open>
  \<open>moves from path to\<close>: a row in state \<open>from\<close> may reach state \<open>to\<close> by table transitions whose
  sources, in order, are \<open>path\<close>.
\<close>

inductive moves :: "queue_state \<Rightarrow> queue_state list \<Rightarrow> queue_state \<Rightarrow> bool" where
  stay: "moves s [] s"
| step: "moves s path t \<Longrightarrow> canTransitionEdgeQueueState t u \<Longrightarrow> moves s (path @ [t]) u"

inductive_cases moves_snocE: "moves s (path @ [t]) u"
inductive_simps moves_Nil [simp]: "moves s [] t"

lemma settled_no_exit: "isEdgeQueueSettledState s \<Longrightarrow> \<not> canTransitionEdgeQueueState s t"
  by (auto simp: settled_state_iff canTransitionEdgeQueueState_def)

lemma settled_source: "canTransitionEdgeQueueState s t \<Longrightarrow> isEdgeQueueSettledState t
    \<Longrightarrow> s \<in> {FORWARDING, CENTRAL_RECEIVED, CENTRAL_APPLYING}"
  by (cases s) (auto simp: settled_state_iff canTransitionEdgeQueueState_def)

lemma acknowledged_source:
  "canTransitionEdgeQueueState s t \<Longrightarrow> t \<in> {CENTRAL_RECEIVED, CENTRAL_APPLYING}
    \<Longrightarrow> s \<in> {FORWARDING, CENTRAL_RECEIVED}"
  by (cases s) (auto simp: canTransitionEdgeQueueState_def)

text \<open>The states in which an attempt has been made, or is being made.\<close>

definition asked_central :: "queue_state \<Rightarrow> bool" where
  "asked_central s \<longleftrightarrow> s \<in> {FORWARDING, CENTRAL_RECEIVED, CENTRAL_APPLYING, CENTRAL_APPLIED, FAILED_TERMINAL}"

lemma moves_through_forwarding:
  "moves s path t \<Longrightarrow> s \<in> {STORED_LOCAL, READY_TO_FORWARD} \<Longrightarrow> asked_central t
    \<Longrightarrow> FORWARDING \<in> set (path @ [t])"
proof (induction rule: moves.induct)
  case (stay s)
  then show ?case by (auto simp: asked_central_def)
next
  case (step s path t u)
  show ?case
  proof (cases "u = FORWARDING")
    case False
    with step have "t \<in> {FORWARDING, CENTRAL_RECEIVED, CENTRAL_APPLYING}"
      using settled_source[OF step(2)] acknowledged_source[OF step(2)]
      by (auto simp: asked_central_def settled_state_iff)
    then show ?thesis using step by (auto simp: asked_central_def)
  qed simp
qed

lemma moves_from_settled: "moves s path t \<Longrightarrow> isEdgeQueueSettledState s \<Longrightarrow> t = s \<and> path = []"
  by (induction rule: moves.induct) (auto simp: settled_no_exit)

text \<open>
  No settlement without asking. Along the transition table every path from STORED_LOCAL to a
  settled state passes through FORWARDING, and no transition leaves a settled state.
\<close>

theorem no_settlement_without_forwarding:
  assumes "moves STORED_LOCAL path t" "isEdgeQueueSettledState t"
  shows "FORWARDING \<in> set path \<and> (\<forall>u qs. moves t qs u \<longrightarrow> u = t \<and> qs = [])"
proof
  have "asked_central t" "t \<noteq> FORWARDING" using assms(2) by (auto simp: settled_state_iff asked_central_def)
  with moves_through_forwarding[OF assms(1)] show "FORWARDING \<in> set path" by simp
qed (use moves_from_settled assms(2) in blast)

theorem no_settlement_without_forwarding_witness:
  "moves STORED_LOCAL [STORED_LOCAL, READY_TO_FORWARD, FORWARDING] CENTRAL_APPLIED
    \<and> FORWARDING \<in> set [STORED_LOCAL, READY_TO_FORWARD, FORWARDING]"
proof -
  have m: "moves STORED_LOCAL [STORED_LOCAL, READY_TO_FORWARD, FORWARDING] CENTRAL_APPLIED"
    using moves.step[OF moves.step[OF moves.step[OF moves.stay[of STORED_LOCAL]]],
        of READY_TO_FORWARD FORWARDING CENTRAL_APPLIED]
    by (simp add: canTransitionEdgeQueueState_def)
  have s: "isEdgeQueueSettledState CENTRAL_APPLIED" by (simp add: settled_state_iff)
  from m no_settlement_without_forwarding[OF m s] show ?thesis by blast
qed

subsection \<open>The retry delay\<close>

lemma retry_delay_positive: "1 \<le> n \<Longrightarrow> edgeQueueRetryDelayMs n = min (5000 * 2 ^ nat (n - 1)) 900000"
proof -
  assume n: "1 \<le> n"
  show ?thesis
  proof (cases "n - 1 \<le> 40")
    case True
    with n show ?thesis
      by (simp add: edgeQueueRetryDelayMs_def EDGE_QUEUE_RETRY_BASE_DELAY_MS_def EDGE_QUEUE_RETRY_MAX_DELAY_MS_def)
  next
    case False
    then have "(2::int) ^ 40 \<le> 2 ^ nat (n - 1)" by (intro power_increasing) auto
    with n False show ?thesis
      by (simp add: edgeQueueRetryDelayMs_def EDGE_QUEUE_RETRY_BASE_DELAY_MS_def EDGE_QUEUE_RETRY_MAX_DELAY_MS_def)
  qed
qed

lemma retry_delay_bounds: "0 \<le> edgeQueueRetryDelayMs n" "edgeQueueRetryDelayMs n \<le> 900000"
  by (auto simp: edgeQueueRetryDelayMs_def EDGE_QUEUE_RETRY_BASE_DELAY_MS_def
      EDGE_QUEUE_RETRY_MAX_DELAY_MS_def Let_def)

text \<open>
  C17: The delay doubles and saturates. edgeQueueRetryDelayMs n is 0 for n at most 0 and otherwise
  5000 doubled n - 1 times, capped at fifteen minutes; it is non-negative, monotone in the attempt
  and equal to the cap from the ninth attempt on, so the loop of the code never overshoots.
\<close>

theorem retry_delay_doubles_and_saturates:
  "edgeQueueRetryDelayMs n = (if n \<le> 0 then 0 else min (5000 * 2 ^ nat (n - 1)) 900000)
   \<and> 0 \<le> edgeQueueRetryDelayMs n \<and> edgeQueueRetryDelayMs n \<le> edgeQueueRetryDelayMs (n + int k)
   \<and> edgeQueueRetryDelayMs (9 + int k) = EDGE_QUEUE_RETRY_MAX_DELAY_MS"
proof (intro conjI)
  show "edgeQueueRetryDelayMs n = (if n \<le> 0 then 0 else min (5000 * 2 ^ nat (n - 1)) 900000)"
    using retry_delay_positive[of n] by (simp add: edgeQueueRetryDelayMs_def)
  show "edgeQueueRetryDelayMs n \<le> edgeQueueRetryDelayMs (n + int k)"
  proof (cases "1 \<le> n")
    case True
    have "min (5000 * 2 ^ nat (n - 1)) 900000 \<le> min (5000 * 2 ^ nat (n + int k - 1)) (900000 :: int)"
      by (intro min.mono mult_left_mono power_increasing) auto
    with True show ?thesis by (simp add: retry_delay_positive)
  next
    case False
    then have "edgeQueueRetryDelayMs n = 0" by (simp add: edgeQueueRetryDelayMs_def)
    then show ?thesis using retry_delay_bounds(1) by simp
  qed
  have "(2::int) ^ 8 \<le> 2 ^ nat (9 + int k - 1)" by (intro power_increasing) auto
  then show "edgeQueueRetryDelayMs (9 + int k) = EDGE_QUEUE_RETRY_MAX_DELAY_MS"
    by (simp add: retry_delay_positive EDGE_QUEUE_RETRY_MAX_DELAY_MS_def)
qed (rule retry_delay_bounds)

end
