(* ===== verification/Edge_Queue_Schema.thy ===== *)
theory Edge_Queue_Schema
  imports Edge_Queue_State
begin

text \<open>
  The durable queue's tables (edge-queue.schema.ts) as the storage engine enforces them: a row is a
  record of the columns, \<open>row_checks\<close> is the conjunction of the table's CHECK constraints with SQL's
  three-valued logic (a CHECK passes unless it is false), the triggers are guards of the statements,
  and \<open>statement\<close> is what any writer of the file may execute. \<open>queue_state\<close> and
  \<open>failure_category\<close>, whose CHECK lists their values, are typed by those values.
\<close>

subsection \<open>Rows\<close>

record row =
  offline_operation_id :: string
  schema_version :: int
  envelope_text :: string
  payload_canonical_json :: string
  payload_digest :: string
  receipt_text :: "string option"
  organisation_id :: string
  site_id :: string
  actor_user_id :: string
  device_id :: string
  device_sequence :: int
  policy_lease_id :: string
  enqueued_edge_monotonic_position :: int
  queue_state :: queue_state
  settlement_text :: "string option"
  attempt_count :: int
  failure_category :: "unknown_reason option"
  first_stored_monotonic_ms :: int
  last_attempt_monotonic_ms :: "int option"
  next_attempt_monotonic_ms :: int

record counter_row =
  counter_schema_version :: int
  next_edge_monotonic_position :: int
  last_observed_monotonic_ms :: int
  consecutive_unknown_transport_results :: int

record database =
  operations :: "row list"
  counter :: "counter_row option"

definition namespace :: "row \<Rightarrow> string \<times> string \<times> string \<times> string" where
  "namespace r = (organisation_id r, site_id r, actor_user_id r, device_id r)"

subsection \<open>Three-valued conditions\<close>

type_synonym sql_bool = "bool option"

fun sql_or :: "sql_bool \<Rightarrow> sql_bool \<Rightarrow> sql_bool" where
  "sql_or (Some True) b = Some True"
| "sql_or a (Some True) = Some True"
| "sql_or (Some False) (Some False) = Some False"
| "sql_or a b = None"

fun sql_and :: "sql_bool \<Rightarrow> sql_bool \<Rightarrow> sql_bool" where
  "sql_and (Some False) b = Some False"
| "sql_and a (Some False) = Some False"
| "sql_and (Some True) (Some True) = Some True"
| "sql_and a b = None"

definition check_passes :: "sql_bool \<Rightarrow> bool" where
  "check_passes b \<longleftrightarrow> b \<noteq> Some False"

text \<open>\<open>json_extract(column, '$.outcome') = literal\<close>; NULL when the column or the path is.\<close>

definition outcome_is :: "platform \<Rightarrow> string option \<Rightarrow> string \<Rightarrow> sql_bool" where
  "outcome_is pl col lit = (case col of None \<Rightarrow> None
     | Some t \<Rightarrow> (case sql_json_outcome pl t of SqlNull \<Rightarrow> None | SqlText s \<Rightarrow> Some (s = lit)
         | SqlOther \<Rightarrow> Some False))"

text \<open>SQLite's \<open>length\<close> of a text stops at its first NUL character.\<close>

definition sql_length :: "string \<Rightarrow> nat" where
  "sql_length s = length (takeWhile (\<lambda>c. c \<noteq> CHR 0x00) s)"

subsection \<open>The CHECK constraints\<close>

definition edge_queue_settlement_matches_state :: "row \<Rightarrow> bool" where
  "edge_queue_settlement_matches_state r \<longleftrightarrow>
     (queue_state r \<in> set EDGE_QUEUE_SETTLED_STATES) = (settlement_text r \<noteq> None)"

definition edge_queue_settlement_proves_state :: "platform \<Rightarrow> row \<Rightarrow> bool" where
  "edge_queue_settlement_proves_state pl r \<longleftrightarrow> check_passes (sql_and
     (sql_or (Some (queue_state r \<noteq> CENTRAL_APPLIED)) (outcome_is pl (settlement_text r) ''CENTRAL_ACCEPTED''))
     (sql_or (Some (queue_state r \<noteq> FAILED_TERMINAL)) (outcome_is pl (settlement_text r) ''CENTRAL_REFUSED'')))"

definition edge_queue_answer_or_reason :: "row \<Rightarrow> bool" where
  "edge_queue_answer_or_reason r \<longleftrightarrow>
     (settlement_text r = None \<or> failure_category r = None)
     \<and> (queue_state r \<in> set EDGE_QUEUE_CENTRAL_ACKNOWLEDGED_STATES \<or> failure_category r \<noteq> None)"

definition position_in_range :: "int \<Rightarrow> bool" where
  "position_in_range n \<longleftrightarrow> 0 \<le> n \<and> n \<le> EDGE_QUEUE_MAX_MONOTONIC_POSITION"

definition row_checks :: "platform \<Rightarrow> row \<Rightarrow> bool" where
  "row_checks pl r \<longleftrightarrow>
     schema_version r = EDGE_QUEUE_SCHEMA_VERSION
     \<and> sql_json_valid pl (envelope_text r)
     \<and> 2 \<le> sql_length (payload_canonical_json r)
     \<and> 0 < sql_length (payload_digest r)
     \<and> pred_option (sql_json_valid pl) (receipt_text r)
     \<and> 0 < sql_length (organisation_id r) \<and> 0 < sql_length (site_id r)
     \<and> 0 < sql_length (actor_user_id r) \<and> 0 < sql_length (device_id r)
     \<and> position_in_range (device_sequence r)
     \<and> 0 < sql_length (policy_lease_id r)
     \<and> position_in_range (enqueued_edge_monotonic_position r)
     \<and> pred_option (sql_json_valid pl) (settlement_text r)
     \<and> 0 \<le> attempt_count r
     \<and> 0 \<le> first_stored_monotonic_ms r
     \<and> pred_option ((\<le>) 0) (last_attempt_monotonic_ms r)
     \<and> 0 \<le> next_attempt_monotonic_ms r
     \<and> edge_queue_settlement_matches_state r
     \<and> edge_queue_settlement_proves_state pl r
     \<and> edge_queue_answer_or_reason r"

definition counter_checks :: "counter_row \<Rightarrow> bool" where
  "counter_checks c \<longleftrightarrow> position_in_range (next_edge_monotonic_position c)
     \<and> 0 \<le> last_observed_monotonic_ms c \<and> 0 \<le> consecutive_unknown_transport_results c"

subsection \<open>The triggers\<close>

definition edge_queue_no_unsettled_delete :: "row \<Rightarrow> bool" where
  "edge_queue_no_unsettled_delete old \<longleftrightarrow> settlement_text old = None"

definition edge_queue_settlement_is_final :: "row \<Rightarrow> bool" where
  "edge_queue_settlement_is_final old \<longleftrightarrow> settlement_text old \<noteq> None"

definition edge_queue_signed_bytes_immutable :: "row \<Rightarrow> row \<Rightarrow> bool" where
  "edge_queue_signed_bytes_immutable old new \<longleftrightarrow>
     offline_operation_id new \<noteq> offline_operation_id old
     \<or> envelope_text new \<noteq> envelope_text old
     \<or> payload_canonical_json new \<noteq> payload_canonical_json old
     \<or> payload_digest new \<noteq> payload_digest old
     \<or> organisation_id new \<noteq> organisation_id old
     \<or> site_id new \<noteq> site_id old
     \<or> actor_user_id new \<noteq> actor_user_id old
     \<or> device_id new \<noteq> device_id old
     \<or> device_sequence new \<noteq> device_sequence old
     \<or> policy_lease_id new \<noteq> policy_lease_id old
     \<or> enqueued_edge_monotonic_position new \<noteq> enqueued_edge_monotonic_position old
     \<or> first_stored_monotonic_ms new \<noteq> first_stored_monotonic_ms old"

definition edge_queue_receipt_is_write_once :: "row \<Rightarrow> row \<Rightarrow> bool" where
  "edge_queue_receipt_is_write_once old new \<longleftrightarrow>
     receipt_text old \<noteq> None \<and> (receipt_text new = None \<or> receipt_text new \<noteq> receipt_text old)"

definition edge_queue_counter_never_rewinds :: "counter_row \<Rightarrow> counter_row \<Rightarrow> bool" where
  "edge_queue_counter_never_rewinds old new \<longleftrightarrow>
     next_edge_monotonic_position new < next_edge_monotonic_position old
     \<or> last_observed_monotonic_ms new < last_observed_monotonic_ms old"

text \<open>With no counter row the subquery is NULL and the trigger does not fire.\<close>

definition edge_queue_position_below_counter :: "database \<Rightarrow> row \<Rightarrow> bool" where
  "edge_queue_position_below_counter d new \<longleftrightarrow> (case counter d of None \<Rightarrow> False
     | Some c \<Rightarrow> enqueued_edge_monotonic_position new \<ge> next_edge_monotonic_position c)"

subsection \<open>Statements\<close>

datatype sql_error = Constraint | Trigger_Abort

text \<open>Primary key and the unique index \<open>edge_queue_one_operation_per_position\<close>.\<close>

definition conflicts :: "row \<Rightarrow> row \<Rightarrow> bool" where
  "conflicts new r \<longleftrightarrow> offline_operation_id r = offline_operation_id new
     \<or> (namespace r = namespace new \<and> device_sequence r = device_sequence new)"

definition sql_insert :: "platform \<Rightarrow> row \<Rightarrow> database \<Rightarrow> sql_error + database" where
  "sql_insert pl new d =
     (if edge_queue_position_below_counter d new then Inl Trigger_Abort
      else if \<not> row_checks pl new then Inl Constraint
      else if \<exists>r\<in>set (operations d). conflicts new r then Inl Constraint
      else Inr (d\<lparr>operations := operations d @ [new]\<rparr>))"

text \<open>
  One UPDATE runs over the matching rows; the first trigger or constraint it meets aborts the
  statement, so either every matching row is rewritten or none is.
\<close>

definition update_ok :: "platform \<Rightarrow> row \<Rightarrow> row \<Rightarrow> bool" where
  "update_ok pl old new \<longleftrightarrow> \<not> edge_queue_settlement_is_final old \<and> \<not> edge_queue_signed_bytes_immutable old new
     \<and> \<not> edge_queue_receipt_is_write_once old new \<and> row_checks pl new"

definition sql_update :: "platform \<Rightarrow> (row \<Rightarrow> bool) \<Rightarrow> (row \<Rightarrow> row) \<Rightarrow> database \<Rightarrow> sql_error + database" where
  "sql_update pl P f d =
     (if \<forall>r\<in>set (operations d). P r \<longrightarrow> update_ok pl r (f r)
      then Inr (d\<lparr>operations := map (\<lambda>r. if P r then f r else r) (operations d)\<rparr>)
      else Inl Trigger_Abort)"

definition sql_delete :: "(row \<Rightarrow> bool) \<Rightarrow> database \<Rightarrow> sql_error + database" where
  "sql_delete P d =
     (if \<exists>r\<in>set (operations d). P r \<and> edge_queue_no_unsettled_delete r then Inl Trigger_Abort
      else Inr (d\<lparr>operations := filter (\<lambda>r. \<not> P r) (operations d)\<rparr>))"

definition sql_update_counter :: "(counter_row \<Rightarrow> counter_row) \<Rightarrow> database \<Rightarrow> sql_error + database" where
  "sql_update_counter f d = (case counter d of None \<Rightarrow> Inr d
     | Some c \<Rightarrow> if edge_queue_counter_never_rewinds c (f c) then Inl Trigger_Abort
         else if \<not> counter_checks (f c) then Inl Constraint
         else Inr (d\<lparr>counter := Some (f c)\<rparr>))"

text \<open>
  \<open>INSERT OR REPLACE\<close>: SQLite removes the conflicting rows first, and fires the delete triggers for
  them only when \<open>recursive_triggers\<close> is on; \<open>EDGE_QUEUE_PRAGMAS\<close> leaves it off.
\<close>

definition sql_insert_or_replace :: "platform \<Rightarrow> row \<Rightarrow> database \<Rightarrow> sql_error + database" where
  "sql_insert_or_replace pl new d =
     (if edge_queue_position_below_counter d new then Inl Trigger_Abort
      else if \<not> row_checks pl new then Inl Constraint
      else Inr (d\<lparr>operations := filter (\<lambda>r. \<not> conflicts new r) (operations d) @ [new]\<rparr>))"

datatype statement = Insert row | Update "row \<Rightarrow> bool" "row \<Rightarrow> row" | Delete "row \<Rightarrow> bool"
  | Update_Counter "counter_row \<Rightarrow> counter_row"

fun execute :: "platform \<Rightarrow> statement \<Rightarrow> database \<Rightarrow> sql_error + database" where
  "execute pl (Insert r) d = sql_insert pl r d"
| "execute pl (Update P f) d = sql_update pl P f d"
| "execute pl (Delete P) d = sql_delete P d"
| "execute pl (Update_Counter f) d = sql_update_counter f d"

text \<open>A refused statement leaves the file as it was.\<close>

definition after :: "platform \<Rightarrow> statement \<Rightarrow> database \<Rightarrow> database" where
  "after pl st d = (case execute pl st d of Inl _ \<Rightarrow> d | Inr d' \<Rightarrow> d')"

subsection \<open>What every writer of the file keeps\<close>

definition settled :: "row \<Rightarrow> bool" where
  "settled r \<longleftrightarrow> settlement_text r \<noteq> None"

text \<open>\<open>follows r r'\<close>: \<open>r'\<close> is the same operation, later: same signed bytes, identity and position, the
  same receipt once there is one, and the same row once central has answered.\<close>

definition follows :: "row \<Rightarrow> row \<Rightarrow> bool" where
  "follows r r' \<longleftrightarrow> \<not> edge_queue_signed_bytes_immutable r r'
     \<and> (receipt_text r = None \<or> receipt_text r' = receipt_text r) \<and> (settled r \<longrightarrow> r' = r)"

lemma follows_refl [simp]: "follows r r"
  by (simp add: follows_def edge_queue_signed_bytes_immutable_def)

lemma follows_self: "r \<in> A \<Longrightarrow> \<exists>r'\<in>A. follows r r'"
  using follows_refl by blast

lemma follows_trans: "follows r s \<Longrightarrow> follows s t \<Longrightarrow> follows r t"
  by (auto simp: follows_def edge_queue_signed_bytes_immutable_def)

lemma follows_identity: "follows r r' \<Longrightarrow> offline_operation_id r' = offline_operation_id r
    \<and> namespace r' = namespace r \<and> device_sequence r' = device_sequence r
    \<and> enqueued_edge_monotonic_position r' = enqueued_edge_monotonic_position r
    \<and> envelope_text r' = envelope_text r \<and> payload_canonical_json r' = payload_canonical_json r
    \<and> first_stored_monotonic_ms r' = first_stored_monotonic_ms r"
  by (auto simp: follows_def edge_queue_signed_bytes_immutable_def namespace_def)

lemma update_follows: "update_ok pl old new \<Longrightarrow> follows old new"
  by (auto simp: update_ok_def follows_def edge_queue_settlement_is_final_def
      edge_queue_receipt_is_write_once_def settled_def)

text \<open>The tables' invariant: every constraint and the two unique keys hold of the stored rows, and no
  row holds a position the counter has not spent.\<close>

fun no_conflicts :: "row list \<Rightarrow> bool" where
  "no_conflicts [] = True"
| "no_conflicts (r # rs) = ((\<forall>s\<in>set rs. \<not> conflicts r s) \<and> no_conflicts rs)"

definition db_ok :: "platform \<Rightarrow> database \<Rightarrow> bool" where
  "db_ok pl d \<longleftrightarrow> (\<forall>r\<in>set (operations d). row_checks pl r) \<and> no_conflicts (operations d)
     \<and> (case counter d of None \<Rightarrow> operations d = []
        | Some c \<Rightarrow> counter_checks c
            \<and> (\<forall>r\<in>set (operations d). enqueued_edge_monotonic_position r < next_edge_monotonic_position c))"

lemma conflicts_sym: "conflicts r s = conflicts s r"
  by (auto simp: conflicts_def)

lemma no_conflicts_append: "no_conflicts (rs @ ss) \<longleftrightarrow> no_conflicts rs \<and> no_conflicts ss
    \<and> (\<forall>r\<in>set rs. \<forall>s\<in>set ss. \<not> conflicts r s)"
  by (induction rs) auto

lemma no_conflicts_filter: "no_conflicts rs \<Longrightarrow> no_conflicts (filter P rs)"
  by (induction rs) auto

lemma no_conflicts_map:
  assumes "no_conflicts rs" "\<And>r. r \<in> set rs \<Longrightarrow> follows r (g r)"
  shows "no_conflicts (map g rs)"
  using assms
proof (induction rs)
  case (Cons r rs)
  have "\<not> conflicts (g r) (g s)" if "s \<in> set rs" for s
    using Cons.prems that follows_identity[of r "g r"] follows_identity[of s "g s"]
    by (auto simp: conflicts_def)
  with Cons show ?case by auto
qed simp

lemma no_conflicts_same_id:
  "no_conflicts rs \<Longrightarrow> r \<in> set rs \<Longrightarrow> s \<in> set rs \<Longrightarrow> conflicts r s \<Longrightarrow> r = s"
  by (induction rs) (auto simp: conflicts_sym)

lemma sql_update_Inr:
  assumes "sql_update pl P f d = Inr d'"
  shows "d' = d\<lparr>operations := map (\<lambda>r. if P r then f r else r) (operations d)\<rparr>"
    "\<And>r. r \<in> set (operations d) \<Longrightarrow> P r \<Longrightarrow> update_ok pl r (f r)"
  using assms by (auto simp: sql_update_def split: if_splits)

lemma sql_insert_ok:
  assumes "db_ok pl d" "counter d = Some c" "sql_insert pl r d = Inr d'"
  shows "db_ok pl d'"
  using assms
  by (auto simp: sql_insert_def db_ok_def no_conflicts_append edge_queue_position_below_counter_def
      conflicts_sym split: if_splits)

lemma db_ok_map:
  assumes "db_ok pl d" "\<And>r. r \<in> set (operations d) \<Longrightarrow> follows r (g r) \<and> row_checks pl (g r)"
  shows "db_ok pl (d\<lparr>operations := map g (operations d)\<rparr>)"
proof -
  have "no_conflicts (map g (operations d))"
    using assms by (intro no_conflicts_map) (auto simp: db_ok_def)
  moreover have "enqueued_edge_monotonic_position (g r) = enqueued_edge_monotonic_position r"
    if "r \<in> set (operations d)" for r using follows_identity assms(2)[OF that] by blast
  ultimately show ?thesis using assms by (simp add: db_ok_def split: option.splits)
qed

lemma sql_update_ok:
  assumes "db_ok pl d" "sql_update pl P f d = Inr d'"
  shows "db_ok pl d'"
proof -
  note u = sql_update_Inr[OF assms(2)]
  have "follows r (if P r then f r else r) \<and> row_checks pl (if P r then f r else r)"
    if "r \<in> set (operations d)" for r
    using u(2)[OF that] update_follows that assms(1) by (auto simp: db_ok_def update_ok_def)
  from db_ok_map[OF assms(1), of "\<lambda>r. if P r then f r else r", OF this] show ?thesis by (simp only: u(1))
qed

lemma sql_delete_ok: "db_ok pl d \<Longrightarrow> sql_delete P d = Inr d' \<Longrightarrow> db_ok pl d'"
  by (auto simp: sql_delete_def db_ok_def no_conflicts_filter split: if_splits option.splits)

lemma sql_update_counter_ok: "db_ok pl d \<Longrightarrow> sql_update_counter f d = Inr d' \<Longrightarrow> db_ok pl d'"
  by (auto simp: sql_update_counter_def db_ok_def edge_queue_counter_never_rewinds_def
      split: if_splits option.splits) force

text \<open>With the counter row in place, every statement keeps the invariant and the counter's order.\<close>

definition open_ok :: "platform \<Rightarrow> database \<Rightarrow> bool" where
  "open_ok pl d \<longleftrightarrow> db_ok pl d \<and> counter d \<noteq> None"

definition counter_before :: "database \<Rightarrow> database \<Rightarrow> bool" where
  "counter_before d d' \<longleftrightarrow> (\<forall>c. counter d = Some c \<longrightarrow> (\<exists>c'. counter d' = Some c'
     \<and> next_edge_monotonic_position c \<le> next_edge_monotonic_position c'
     \<and> last_observed_monotonic_ms c \<le> last_observed_monotonic_ms c'))"

lemma counter_before_refl [simp]: "counter_before d d"
  by (auto simp: counter_before_def)

lemma counter_before_trans: "counter_before d e \<Longrightarrow> counter_before e f \<Longrightarrow> counter_before d f"
  unfolding counter_before_def by (meson order_trans)

lemma execute_counter: "execute pl st d = Inr d' \<Longrightarrow> counter_before d d' \<and> (counter d \<noteq> None \<longrightarrow> counter d' \<noteq> None)"
  by (cases st) (auto simp: counter_before_def sql_insert_def sql_update_def sql_delete_def
      sql_update_counter_def edge_queue_counter_never_rewinds_def split: if_splits option.splits)

lemma execute_ok:
  assumes "open_ok pl d" "execute pl st d = Inr d'"
  shows "open_ok pl d'"
proof -
  from assms(1) obtain c where ok: "db_ok pl d" and c: "counter d = Some c" by (auto simp: open_ok_def)
  have "db_ok pl d'"
    using assms(2) sql_insert_ok[OF ok c] sql_update_ok[OF ok] sql_delete_ok[OF ok] sql_update_counter_ok[OF ok]
    by (cases st) simp_all
  with execute_counter[OF assms(2)] c show ?thesis by (simp add: open_ok_def)
qed

interpretation tables: forward_machine "open_ok pl" "after pl" counter_before for pl
proof
  show "open_ok pl d \<Longrightarrow> open_ok pl (after pl st d)" for d st
    using execute_ok by (auto simp: after_def split: sum.splits)
  show "counter_before d (after pl st d)" for d st
    using execute_counter by (auto simp: after_def split: sum.splits)
  show "counter_before d d" for d by simp
  show "counter_before d e \<Longrightarrow> counter_before e f \<Longrightarrow> counter_before d f" for d e f
    by (rule counter_before_trans)
qed

lemma execute_row:
  assumes "r \<in> set (operations d)"
  shows "(\<exists>r'\<in>set (operations (after pl st d)). follows r r') \<or> settled r"
proof (cases st)
  case (Insert s)
  then show ?thesis using assms by (auto simp: after_def sql_insert_def intro: follows_self)
next
  case (Update P f)
  show ?thesis
  proof (cases "sql_update pl P f d")
    case (Inl e)
    with Update assms show ?thesis by (auto simp: after_def intro: follows_self)
  next
    case (Inr d')
    note u = sql_update_Inr[OF Inr]
    have "follows r (if P r then f r else r)" using u(2)[OF assms] update_follows by auto
    moreover have "(if P r then f r else r) \<in> set (operations (after pl st d))"
      using assms Update Inr by (simp only: after_def execute.simps sum.case u(1)) simp
    ultimately show ?thesis by blast
  qed
next
  case (Delete P)
  show ?thesis
  proof (cases "P r")
    case True
    with Delete assms show ?thesis
      by (auto simp: after_def sql_delete_def edge_queue_no_unsettled_delete_def settled_def intro: follows_self)
  next
    case False
    with Delete assms show ?thesis by (auto simp: after_def sql_delete_def intro!: bexI[of _ r])
  qed
next
  case (Update_Counter f)
  have "operations (after pl st d) = operations d"
    by (simp add: Update_Counter after_def sql_update_counter_def split: option.splits)
  with assms show ?thesis by (auto intro!: bexI[of _ r])
qed


text \<open>
  The CHECK on the settlement's outcome passes when there is no outcome. An UPDATE that
  stores a settlement text which is valid JSON but has no top-level outcome, with the state
  CENTRAL_APPLIED, passes every CHECK and every trigger: json_extract is NULL there, the
  comparison is NULL, and a CHECK that is NULL does not fail. So the table does not prove the
  settled state from the settlement, against the schema's comment.
\<close>

theorem settlement_check_passes_without_outcome:
  assumes "row_checks pl r" "settlement_text r = None" "sql_json_valid pl t" "sql_json_outcome pl t = SqlNull"
  shows "update_ok pl r (r\<lparr>queue_state := CENTRAL_APPLIED, settlement_text := Some t, failure_category := None\<rparr>)"
  using assms
  by (auto simp: update_ok_def row_checks_def edge_queue_settlement_is_final_def
      edge_queue_signed_bytes_immutable_def edge_queue_receipt_is_write_once_def
      edge_queue_settlement_matches_state_def edge_queue_settlement_proves_state_def
      edge_queue_answer_or_reason_def EDGE_QUEUE_SETTLED_STATES_def
      EDGE_QUEUE_CENTRAL_ACKNOWLEDGED_STATES_def outcome_is_def check_passes_def)

definition example_row :: row where
  "example_row = \<lparr>offline_operation_id = ''op-1'', schema_version = 1, envelope_text = ''{}'',
     payload_canonical_json = ''{}'', payload_digest = ''d'', receipt_text = None, organisation_id = ''o'',
     site_id = ''s'', actor_user_id = ''u'', device_id = ''d'', device_sequence = 0, policy_lease_id = ''l'',
     enqueued_edge_monotonic_position = 0, queue_state = FORWARDING, settlement_text = None,
     attempt_count = 1, failure_category = Some TRANSPORT_ERROR, first_stored_monotonic_ms = 0,
     last_attempt_monotonic_ms = Some 0, next_attempt_monotonic_ms = 0\<rparr>"

lemma example_row_checks: "row_checks (example_platform docs) example_row"
  by (simp add: row_checks_def example_row_def example_platform_def EDGE_QUEUE_SCHEMA_VERSION_def
      sql_length_def position_in_range_def EDGE_QUEUE_MAX_MONOTONIC_POSITION_def
      edge_queue_settlement_matches_state_def edge_queue_settlement_proves_state_def
      edge_queue_answer_or_reason_def EDGE_QUEUE_SETTLED_STATES_def outcome_is_def check_passes_def)


theorem settlement_check_passes_without_outcome_witness:
  "update_ok (example_platform [JObj []]) example_row
     (example_row\<lparr>queue_state := CENTRAL_APPLIED, settlement_text := Some ''{}'', failure_category := None\<rparr>)"
  by (rule settlement_check_passes_without_outcome[OF example_row_checks])
    (simp_all add: example_row_def example_platform_def)

text \<open>
  INSERT OR REPLACE steps past the delete trigger. With recursive_triggers off, which is
  SQLite's default and which nothing in the store changes, an INSERT OR REPLACE of a row that
  takes the sequence slot of an unsettled row removes that row without firing
  edge_queue_no_unsettled_delete.
\<close>

theorem replace_discards_unanswered_work:
  assumes "row_checks pl new" "\<not> edge_queue_position_below_counter d new"
    and "r \<in> set (operations d)" "settlement_text r = None" "r \<noteq> new"
    and "namespace r = namespace new" "device_sequence r = device_sequence new"
  shows "\<exists>d'. sql_insert_or_replace pl new d = Inr d' \<and> r \<notin> set (operations d')"
  using assms by (simp add: sql_insert_or_replace_def conflicts_def)

theorem replace_discards_unanswered_work_witness:
  "\<exists>d'. sql_insert_or_replace (example_platform []) (example_row\<lparr>offline_operation_id := ''op-2''\<rparr>)
     \<lparr>operations = [example_row], counter = None\<rparr> = Inr d' \<and> example_row \<notin> set (operations d')"
proof (rule replace_discards_unanswered_work)
  show "row_checks (example_platform []) (example_row\<lparr>offline_operation_id := ''op-2''\<rparr>)"
    using example_row_checks[of "[]"]
    by (simp add: row_checks_def edge_queue_settlement_matches_state_def
        edge_queue_settlement_proves_state_def edge_queue_answer_or_reason_def)
qed (simp_all add: edge_queue_position_below_counter_def example_row_def namespace_def)

end
