(* ===== verification/Doubles.thy ===== *)
theory Doubles
  imports Prelude
begin

text \<open>
  IEEE binary64 arithmetic as JavaScript numbers use it: \<open>fl q\<close> is the double nearest to the
  rational \<open>q\<close>, ties to even, with gradual underflow (for magnitudes below \<open>2 ^ 1024\<close>: nothing in
  the models comes near overflow). A source expression \<open>a * b\<close> on doubles is \<open>fl (a * b)\<close>. What the
  component proofs use of rounding is the locale \<open>rounding\<close>, interpreted on \<open>fl\<close>.
\<close>

subsection \<open>Rounding to an integer, ties to even\<close>

definition round_even :: "rat \<Rightarrow> int" where
  "round_even q = (let k = \<lfloor>q\<rfloor>; d = q - of_int k in
     if d < 1/2 then k else if d > 1/2 then k + 1 else if even k then k else k + 1)"

lemma round_even_of_int [simp]: "round_even (of_int k) = k"
  by (simp add: round_even_def)

lemma round_even_bounds: "of_int (round_even q) \<le> q + 1/2" "q - 1/2 \<le> of_int (round_even q)"
  unfolding round_even_def Let_def by (auto split: if_splits) linarith+

lemma round_even_mono: "p \<le> q \<Longrightarrow> round_even p \<le> round_even q"
proof (cases "\<lfloor>p\<rfloor> = \<lfloor>q\<rfloor>")
  case True
  assume "p \<le> q"
  with True show ?thesis by (auto simp: round_even_def Let_def)
next
  case False
  assume "p \<le> q"
  then have "\<lfloor>p\<rfloor> + 1 \<le> \<lfloor>q\<rfloor>" using False floor_mono[of p q] by linarith
  moreover have "round_even p \<le> \<lfloor>p\<rfloor> + 1" "\<lfloor>q\<rfloor> \<le> round_even q"
    by (auto simp: round_even_def Let_def)
  ultimately show ?thesis by linarith
qed

subsection \<open>The binade of a number\<close>

definition pow2 :: "int \<Rightarrow> rat" where
  "pow2 e = (if 0 \<le> e then 2 ^ nat e else 1 / 2 ^ nat (- e))"

lemma pow2_pos [simp]: "0 < pow2 e"
  by (simp add: pow2_def)

lemma pow2_nonneg [simp]: "0 \<le> pow2 e" "\<bar>pow2 e\<bar> = pow2 e" "pow2 e \<noteq> 0"
  by (simp_all add: pow2_def)

lemma pow2_0 [simp]: "pow2 0 = 1"
  by (simp add: pow2_def)

lemma pow2_Suc: "pow2 (e + 1) = 2 * pow2 e"
proof (cases "0 \<le> e")
  case True
  then have "nat (e + 1) = Suc (nat e)" by simp
  with True show ?thesis by (simp add: pow2_def)
next
  case False
  then have "nat (- e) = Suc (nat (- (e + 1)))" by simp
  with False show ?thesis by (auto simp: pow2_def)
qed

lemma pow2_add_nat: "pow2 (e + int n) = pow2 e * 2 ^ n"
proof (induction n)
  case (Suc n)
  have "pow2 (e + int (Suc n)) = pow2 ((e + int n) + 1)" by (simp add: algebra_simps)
  with Suc show ?case by (simp add: pow2_Suc)
qed simp

lemma pow2_mono: "e \<le> f \<Longrightarrow> pow2 e \<le> pow2 f"
  using pow2_add_nat[of e "nat (f - e)"] mult_left_mono[of 1 "2 ^ nat (f - e)" "pow2 e"]
  by (simp add: less_imp_le)

lemma pow2_less_iff [simp]: "pow2 e < pow2 f \<longleftrightarrow> e < f"
proof
  assume "e < f"
  then have "pow2 (e + 1) \<le> pow2 f" by (intro pow2_mono) simp
  moreover have "pow2 e < pow2 (e + 1)" using pow2_pos[of e] by (simp only: pow2_Suc)
  ultimately show "pow2 e < pow2 f" by linarith
next
  assume "pow2 e < pow2 f"
  then show "e < f" using pow2_mono[of f e] by (cases "e < f") auto
qed

text \<open>\<open>ilog2 q\<close>: the exponent of a positive rational, from the bit lengths of its fraction.\<close>

definition ilog2 :: "rat \<Rightarrow> int" where
  "ilog2 q = (let (a, b) = quotient_of q; e = int (nat (bitlen a)) - int (nat (bitlen b)) in
     if q \<ge> pow2 e then e else e - 1)"

lemma ilog2_bounds:
  assumes "0 < q"
  shows "pow2 (ilog2 q) \<le> q" "q < pow2 (ilog2 q + 1)"
proof -
  obtain a b where ab: "quotient_of q = (a, b)" by fastforce
  have b: "0 < b" using quotient_of_denom_pos[OF ab] .
  have q: "q = of_int a / of_int b" using quotient_of_div[OF ab] .
  with assms b have a: "0 < a" by (simp add: zero_less_divide_iff)
  define i j where "i = nat (bitlen a)" and "j = nat (bitlen b)"
  have pred: "nat (bitlen a - 1) = i - 1" "nat (bitlen b - 1) = j - 1" unfolding i_def j_def by arith+
  have i: "2 ^ (i - 1) \<le> a" "a < 2 ^ i" and j: "2 ^ (j - 1) \<le> b" "b < 2 ^ j"
    using bitlen_bounds[OF a] bitlen_bounds[OF b] pred by (simp_all only: i_def j_def)
  have "1 \<le> i" "1 \<le> j" using i(2) j(2) a b by (cases i; simp; fail | cases j; simp; fail)+
  let ?e = "int i - int j"
  have pi: "pow2 (int i) = 2 ^ i" for i by (simp add: pow2_def)
  have up: "q < pow2 (?e + 1)"
  proof -
    have "of_int a < (2 ^ i :: rat)" using i(2) by (metis of_int_less_iff of_int_numeral of_int_power)
    also have "2 ^ i = pow2 (?e + 1) * 2 ^ (j - 1)"
      using pow2_add_nat[of "?e + 1" "j - 1"] pi[of i] \<open>1 \<le> j\<close> by (simp add: of_nat_diff)
    also have "\<dots> \<le> pow2 (?e + 1) * of_int b"
      using j(1) by (intro mult_left_mono) (metis of_int_le_iff of_int_numeral of_int_power, simp add: less_imp_le)
    finally show ?thesis using b by (simp add: q divide_less_eq)
  qed
  have low: "pow2 (?e - 1) \<le> q"
  proof -
    have "pow2 (?e - 1) * of_int b \<le> pow2 (?e - 1) * 2 ^ j"
      using j(2) by (intro mult_left_mono) (metis less_imp_le of_int_le_iff of_int_numeral of_int_power, simp add: less_imp_le)
    also have "\<dots> = 2 ^ (i - 1)"
      using pow2_add_nat[of "?e - 1" j] pi[of "i - 1"] \<open>1 \<le> i\<close> by (simp add: of_nat_diff algebra_simps)
    also have "\<dots> \<le> of_int a" using i(1) by (metis of_int_le_iff of_int_numeral of_int_power)
    finally show ?thesis using b by (simp add: q le_divide_eq)
  qed
  have il: "ilog2 q = (if q \<ge> pow2 ?e then ?e else ?e - 1)"
    by (simp add: ilog2_def ab i_def j_def)
  show "pow2 (ilog2 q) \<le> q" "q < pow2 (ilog2 q + 1)"
    using up low by (auto simp: il)
qed

lemma ilog2_mono: "0 < p \<Longrightarrow> p \<le> q \<Longrightarrow> ilog2 p \<le> ilog2 q"
proof -
  assume a: "0 < p" "p \<le> q"
  have "pow2 (ilog2 p) < pow2 (ilog2 q + 1)"
    using ilog2_bounds(1)[of p] ilog2_bounds(2)[of q] a by linarith
  then show ?thesis by simp
qed

subsection \<open>Rounding to the nearest double\<close>

definition unit_of :: "rat \<Rightarrow> int" where
  "unit_of q = max (ilog2 \<bar>q\<bar>) (- 1022) - 52"

definition fl :: "rat \<Rightarrow> rat" where
  "fl q = (if q = 0 then 0 else of_int (round_even (q / pow2 (unit_of q))) * pow2 (unit_of q))"

lemma fl_0 [simp]: "fl 0 = 0"
  by (simp add: fl_def)

lemma round_even_minus: "round_even (- q) = - round_even q"
proof (cases "q = of_int \<lfloor>q\<rfloor>")
  case True
  then show ?thesis by (metis of_int_minus round_even_of_int)
next
  case False
  then have "\<lfloor>- q\<rfloor> = - \<lfloor>q\<rfloor> - 1" by linarith
  then show ?thesis by (auto simp: round_even_def Let_def)
qed

lemma fl_minus [simp]: "fl (- q) = - fl q"
  by (simp add: fl_def unit_of_def round_even_minus)

lemma fl_exact:
  assumes "\<bar>m\<bar> < 2 ^ 53" "- 1074 \<le> e"
  shows "fl (of_int m * pow2 e) = of_int m * pow2 e"
proof (cases "m = 0")
  case False
  let ?q = "of_int m * pow2 e :: rat"
  have abs: "\<bar>?q\<bar> = of_int \<bar>m\<bar> * pow2 e" using pow2_pos[of e] by (simp add: abs_mult)
  have "of_int \<bar>m\<bar> < (2 ^ 53 :: rat)" using assms(1) by (metis of_int_less_iff of_int_numeral of_int_power)
  then have "\<bar>?q\<bar> < pow2 (e + int 53)" unfolding abs pow2_add_nat using pow2_pos[of e] by (simp add: mult.commute)
  moreover have "pow2 (ilog2 \<bar>?q\<bar>) \<le> \<bar>?q\<bar>" using False pow2_pos[of e] by (intro ilog2_bounds(1)) auto
  ultimately have "pow2 (ilog2 \<bar>?q\<bar>) < pow2 (e + int 53)" by linarith
  then have u: "unit_of ?q \<le> e" using assms(2) by (simp add: unit_of_def)
  define k where "k = nat (e - unit_of ?q)"
  have p: "pow2 e = pow2 (unit_of ?q) * 2 ^ k"
    using pow2_add_nat[of "unit_of ?q" k] u by (simp add: k_def)
  have "?q / pow2 (unit_of ?q) = of_int (m * 2 ^ k)"
    using pow2_pos[of "unit_of ?q"] by (subst p) simp
  then have "fl ?q = of_int (m * 2 ^ k) * pow2 (unit_of ?q)"
    using False pow2_pos[of e] by (simp only: fl_def round_even_of_int) auto
  also have "\<dots> = ?q" by (subst (2) p) simp
  finally show ?thesis .
qed simp

lemma fl_of_int [simp]: "\<bar>k\<bar> < 2 ^ 53 \<Longrightarrow> fl (of_int k) = of_int k"
  using fl_exact[of k 0] by simp

lemma fl_1 [simp]: "fl 1 = 1"
  using fl_of_int[of 1] by simp

lemma fl_mono_pos:
  assumes "0 < p" "p \<le> q"
  shows "fl p \<le> fl q"
proof -
  let ?u = "unit_of p" and ?v = "unit_of q"
  have q: "0 < q" using assms by linarith
  have uv: "?u \<le> ?v" using ilog2_mono[OF assms] assms q by (auto simp: unit_of_def)
  have fp: "fl p = of_int (round_even (p / pow2 ?u)) * pow2 ?u" using assms by (simp add: fl_def)
  have fq: "fl q = of_int (round_even (q / pow2 ?v)) * pow2 ?v" using q by (simp add: fl_def)
  show ?thesis
  proof (cases "?u = ?v")
    case True
    have "round_even (p / pow2 ?v) \<le> round_even (q / pow2 ?v)"
      using assms pow2_pos[of ?v] by (intro round_even_mono divide_right_mono) auto
    then show ?thesis unfolding fp fq True using pow2_pos[of ?v]
      by (intro mult_right_mono) auto
  next
    case False
    with uv have lt: "?u + 1 \<le> ?v" by simp
    then have il: "?v = ilog2 q - 52" using q by (auto simp: unit_of_def split: if_splits)
    have "p < pow2 (?u + int 53)"
      using ilog2_bounds(2)[OF assms(1)] pow2_mono[of "ilog2 p + 1" "?u + int 53"] assms
      by (auto simp: unit_of_def)
    then have "p / pow2 ?u \<le> of_int (2 ^ 53)"
      using pow2_add_nat[of ?u 53] by (simp add: divide_le_eq mult.commute)
    then have "round_even (p / pow2 ?u) \<le> 2 ^ 53" using round_even_mono by (metis round_even_of_int)
    then have "fl p \<le> 2 ^ 53 * pow2 ?u"
      unfolding fp using pow2_pos[of ?u] by (intro mult_right_mono) (metis of_int_le_iff of_int_numeral of_int_power, simp add: less_imp_le)
    also have "\<dots> = 2 ^ 52 * pow2 (?u + 1)" by (simp add: pow2_Suc)
    also have "\<dots> \<le> 2 ^ 52 * pow2 ?v" using pow2_mono[OF lt] by simp
    also have "\<dots> \<le> fl q"
    proof -
      have "pow2 (?v + int 52) \<le> q" using ilog2_bounds(1)[OF q] by (simp add: il)
      then have "of_int (2 ^ 52) \<le> q / pow2 ?v"
        using pow2_add_nat[of ?v 52] by (simp add: le_divide_eq mult.commute)
      then have "2 ^ 52 \<le> round_even (q / pow2 ?v)" using round_even_mono by (metis round_even_of_int)
      then show ?thesis unfolding fq using pow2_pos[of ?v]
        by (intro mult_right_mono) (metis of_int_le_iff of_int_numeral of_int_power, simp add: less_imp_le)
    qed
    finally show ?thesis .
  qed
qed

lemma fl_nonneg: "0 \<le> q \<Longrightarrow> 0 \<le> fl q"
proof (cases "q = 0")
  case False
  assume "0 \<le> q"
  with False have "0 \<le> q / pow2 (unit_of q)" using pow2_pos[of "unit_of q"] by simp
  then have "round_even 0 \<le> round_even (q / pow2 (unit_of q))" by (intro round_even_mono) simp
  then show ?thesis using pow2_pos[of "unit_of q"] round_even_of_int[of 0] by (simp add: fl_def)
qed simp

lemma fl_mono: "p \<le> q \<Longrightarrow> fl p \<le> fl q"
proof -
  assume le: "p \<le> q"
  consider "0 < p" | "p \<le> 0" "0 \<le> q" | "q < 0" by linarith
  then show ?thesis
  proof cases
    case 1
    with le show ?thesis by (intro fl_mono_pos)
  next
    case 2
    with fl_nonneg[of q] fl_nonneg[of "- p"] show ?thesis by simp
  next
    case 3
    with le fl_mono_pos[of "- q" "- p"] show ?thesis by simp
  qed
qed

subsection \<open>What the models rely on\<close>

locale rounding =
  fixes rnd :: "rat \<Rightarrow> rat"
  assumes rnd_mono: "p \<le> q \<Longrightarrow> rnd p \<le> rnd q"
    and rnd_0: "rnd 0 = 0"
    and rnd_1: "rnd 1 = 1"
begin

lemma rnd_nonneg: "0 \<le> q \<Longrightarrow> 0 \<le> rnd q"
  using rnd_mono[of 0 q] by (simp add: rnd_0)

lemma rnd_le_1: "q \<le> 1 \<Longrightarrow> rnd q \<le> 1"
  using rnd_mono[of q 1] by (simp add: rnd_1)

lemma rnd_unit: "0 \<le> q \<Longrightarrow> q \<le> 1 \<Longrightarrow> 0 \<le> rnd q \<and> rnd q \<le> 1"
  by (simp add: rnd_nonneg rnd_le_1)

lemma rnd_mult_unit:
  assumes "0 \<le> p" "p \<le> 1" "0 \<le> q" "q \<le> 1"
  shows "0 \<le> rnd (p * q) \<and> rnd (p * q) \<le> 1"
  using assms by (intro rnd_unit) (simp_all add: mult_le_one)

end

interpretation double: rounding fl
  by unfold_locales (simp_all add: fl_mono)

end
