(* ===== verification/Edge_Queue_Store.thy ===== *)
theory Edge_Queue_Store
  imports Edge_Queue_Schema Doubles "HOL-Library.Product_Lexorder"
begin

text \<open>
  The Edge's durable operation store (edge-queue.store.ts): opening with crash recovery, the durable
  monotonic clock, the transaction wrapper, reading a row back through the frozen contract, the
  namespace heads, the capacity policy, admission, and every state change. A database computation
  returns an error or a value with the new database; \<open>transact\<close> turns it into a store operation
  that leaves the store untouched when it throws. Readings of the injected clock are arguments.
\<close>

datatype queue_error = Malformed string | Transition queue_state queue_state | Not_Storable
  | Sql sql_error | Contract_Parse | Witness_Threw string

type_synonym 'r db_work = "database \<Rightarrow> queue_error + ('r \<times> database)"

record store =
  db :: database
  origin :: int
  base :: int
  maxUnsettled :: int
  settledRetention :: int

record entry =
  stored :: stored_operation
  queueState :: queue_state
  attemptCount :: int
  failureCategory :: "unknown_reason option"
  firstStoredMonotonicMs :: int
  lastAttemptMonotonicMs :: "int option"
  nextAttemptMonotonicMs :: int

fun sql :: "sql_error + database \<Rightarrow> queue_error + (unit \<times> database)" where
  "sql (Inl e) = Inl (Sql e)"
| "sql (Inr d) = Inr ((), d)"

subsection \<open>Transactions, counter and clock\<close>

definition transact :: "store \<Rightarrow> 'r db_work \<Rightarrow> (queue_error + 'r) \<times> store" where
  "transact s work = (case work (db s) of Inl e \<Rightarrow> (Inl e, s) | Inr (r, d) \<Rightarrow> (Inr r, s\<lparr>db := d\<rparr>))"

definition readCounter :: "database \<Rightarrow> queue_error + counter_row" where
  "readCounter d = (case counter d of None \<Rightarrow> Inl (Malformed ''the stored queue has no counter row'')
     | Some c \<Rightarrow> Inr c)"

definition durableNowMs :: "store \<Rightarrow> int \<Rightarrow> int" where
  "durableNowMs s now = base s + max 0 (now - origin s)"

definition markClock :: "store \<Rightarrow> int \<Rightarrow> unit db_work" where
  "markClock s now d = sql (sql_update_counter
     (\<lambda>c. c\<lparr>last_observed_monotonic_ms := max (last_observed_monotonic_ms c) (durableNowMs s now)\<rparr>) d)"

subsection \<open>Opening\<close>

definition highest_position :: "database \<Rightarrow> int option" where
  "highest_position d = (if operations d = [] then None
     else Some (Max (set (map enqueued_edge_monotonic_position (operations d)))))"

definition assertCounterAheadOfEveryEntry :: "database \<Rightarrow> int \<Rightarrow> bool" where
  "assertCounterAheadOfEveryEntry d nextPosition =
     (case highest_position d of None \<Rightarrow> True | Some highest \<Rightarrow> highest < nextPosition)"

definition recoverInterruptedAttempts :: "platform \<Rightarrow> database \<Rightarrow> sql_error + database" where
  "recoverInterruptedAttempts pl d = sql_update pl
     (\<lambda>r. queue_state r = EDGE_QUEUE_CRASH_INTERRUPTED_STATE \<and> settlement_text r = None)
     (\<lambda>r. r\<lparr>queue_state := EDGE_QUEUE_STATE_FOR_FAILURE_CATEGORY EDGE_QUEUE_CRASH_RECOVERY_CATEGORY,
            failure_category := Some EDGE_QUEUE_CRASH_RECOVERY_CATEGORY\<rparr>) d"

definition with_counter :: "database \<Rightarrow> database" where
  "with_counter d = (case counter d of Some _ \<Rightarrow> d
     | None \<Rightarrow> d\<lparr>counter := Some \<lparr>counter_schema_version = EDGE_QUEUE_SCHEMA_VERSION,
         next_edge_monotonic_position = 0, last_observed_monotonic_ms = 0,
         consecutive_unknown_transport_results = 0\<rparr>\<rparr>)"

text \<open>The constructor: the error or the open store, and the file it leaves.\<close>

definition open_store :: "platform \<Rightarrow> int \<Rightarrow> int \<Rightarrow> int \<Rightarrow> database \<Rightarrow> (queue_error + store) \<times> database" where
  "open_store pl now maxU retention d0 = (let d = with_counter d0 in
     case counter d of None \<Rightarrow> (Inl (Malformed ''no counter''), d)
     | Some c \<Rightarrow>
       if counter_schema_version c \<noteq> EDGE_QUEUE_SCHEMA_VERSION then (Inl (Malformed ''schema version''), d)
       else if \<not> assertCounterAheadOfEveryEntry d (next_edge_monotonic_position c)
         then (Inl (Malformed ''entry at or beyond the next position''), d)
       else case recoverInterruptedAttempts pl d of Inl e \<Rightarrow> (Inl (Sql e), d)
         | Inr d' \<Rightarrow> (Inr \<lparr>db = d', origin = now, base = last_observed_monotonic_ms c,
             maxUnsettled = maxU, settledRetention = retention\<rparr>, d'))"

subsection \<open>Reading\<close>

definition parseJsonColumn :: "platform \<Rightarrow> string \<Rightarrow> queue_error + json" where
  "parseJsonColumn pl t = (case json_parse pl t of None \<Rightarrow> Inl (Malformed ''not readable JSON'') | Some v \<Rightarrow> Inr v)"

text \<open>A nullable JSON column read by a schema.\<close>

definition read_column :: "platform \<Rightarrow> (json \<Rightarrow> 'a option) \<Rightarrow> string option \<Rightarrow> queue_error + 'a option" where
  "read_column pl parse col = (case col of None \<Rightarrow> Inr None
     | Some t \<Rightarrow> and_then (parseJsonColumn pl t) (\<lambda>j. case parse j of
         None \<Rightarrow> Inl (Malformed ''a stored entry no longer satisfies the frozen contract'')
       | Some x \<Rightarrow> Inr (Some x)))"

definition assertDerivedColumnsAgree :: "row \<Rightarrow> stored_operation \<Rightarrow> bool" where
  "assertDerivedColumnsAgree r st = (let e = st_envelope st in
     offline_operation_id r = env_offline_operation_id e
     \<and> organisation_id r = env_organisation_id e \<and> site_id r = env_site_id e
     \<and> actor_user_id r = env_actor_user_id e \<and> device_id r = env_device_id e
     \<and> device_sequence r = env_device_sequence e \<and> policy_lease_id r = env_policy_lease_id e
     \<and> payload_digest r = env_payload_digest e)"

definition toEntry :: "platform \<Rightarrow> row \<Rightarrow> queue_error + entry" where
  "toEntry pl r =
     and_then (parseJsonColumn pl (envelope_text r)) (\<lambda>env_value.
     and_then (read_column pl (parse_receipt pl) (receipt_text r)) (\<lambda>receipt.
     and_then (read_column pl parse_answer (settlement_text r)) (\<lambda>settlement.
     case parse_envelope pl env_value of
       None \<Rightarrow> Inl (Malformed ''a stored entry no longer satisfies the frozen contract'')
     | Some envelope \<Rightarrow>
       let st = \<lparr>st_envelope = envelope, st_payload_canonical_json = payload_canonical_json r,
             st_receipt = receipt,
             st_enqueued_edge_monotonic_position = enqueued_edge_monotonic_position r,
             st_state = toEdgeOperationState (queue_state r), st_settlement = settlement\<rparr>
       in if \<not> stored_operation_ok pl st
            then Inl (Malformed ''a stored entry no longer satisfies the frozen contract'')
          else if \<not> assertDerivedColumnsAgree r st
            then Inl (Malformed ''an indexed column does not match the signed envelope'')
          else Inr \<lparr>stored = st, queueState = queue_state r, attemptCount = attempt_count r,
            failureCategory = failure_category r, firstStoredMonotonicMs = first_stored_monotonic_ms r,
            lastAttemptMonotonicMs = last_attempt_monotonic_ms r,
            nextAttemptMonotonicMs = next_attempt_monotonic_ms r\<rparr>)))"

definition row_of :: "database \<Rightarrow> string \<Rightarrow> row option" where
  "row_of d op = List.find (\<lambda>r. offline_operation_id r = op) (operations d)"

definition find_entry :: "platform \<Rightarrow> database \<Rightarrow> string \<Rightarrow> queue_error + entry option" where
  "find_entry pl d op = (case row_of d op of None \<Rightarrow> Inr None
     | Some r \<Rightarrow> and_then (toEntry pl r) (\<lambda>e. Inr (Some e)))"

definition unsettledCount :: "database \<Rightarrow> int" where
  "unsettledCount d = int (length (filter (\<lambda>r. settlement_text r = None) (operations d)))"

definition settledCount :: "database \<Rightarrow> int" where
  "settledCount d = int (length (filter (\<lambda>r. settlement_text r \<noteq> None) (operations d)))"

definition nextMonotonicPosition :: "store \<Rightarrow> queue_error + int" where
  "nextMonotonicPosition s = and_then (readCounter (db s)) (\<lambda>c. Inr (next_edge_monotonic_position c))"

subsection \<open>The heads\<close>

definition unsettled_in :: "database \<Rightarrow> row \<Rightarrow> row list" where
  "unsettled_in d r = filter (\<lambda>h. settlement_text h = None \<and> namespace h = namespace r) (operations d)"

text \<open>\<open>device_sequence = (SELECT MIN(device_sequence) ...)\<close>; the minimum of no rows is NULL.\<close>

definition is_head :: "database \<Rightarrow> row \<Rightarrow> bool" where
  "is_head d r \<longleftrightarrow> unsettled_in d r \<noteq> [] \<and> device_sequence r = Min (set (map device_sequence (unsettled_in d r)))"

definition sql_limit :: "int \<Rightarrow> 'a list \<Rightarrow> 'a list" where
  "sql_limit n xs = (if n < 0 then xs else take (nat n) xs)"

definition head_rows :: "store \<Rightarrow> int \<Rightarrow> int \<Rightarrow> row list" where
  "head_rows s now limit = sql_limit limit (sort_key enqueued_edge_monotonic_position
     (filter (\<lambda>r. settlement_text r = None \<and> queue_state r \<in> set EDGE_QUEUE_FORWARDABLE_STATES
        \<and> next_attempt_monotonic_ms r \<le> durableNowMs s now \<and> is_head (db s) r) (operations (db s))))"

definition forwardableHeads :: "platform \<Rightarrow> store \<Rightarrow> int \<Rightarrow> int \<Rightarrow> queue_error + entry list" where
  "forwardableHeads pl s now limit = map_result (toEntry pl) (head_rows s now limit)"

subsection \<open>Capacity\<close>

datatype capacity_state = ACCEPTING | DEGRADED_NEAR_CAPACITY | REFUSING_AT_CAPACITY

definition EDGE_QUEUE_DEGRADED_FRACTION :: rat where
  "EDGE_QUEUE_DEGRADED_FRACTION = fl (9 / 10)"

definition capacityState :: "store \<Rightarrow> capacity_state" where
  "capacityState s = (let unsettled = unsettledCount (db s) in
     if unsettled \<ge> maxUnsettled s then REFUSING_AT_CAPACITY
     else if unsettled \<ge> \<lfloor>fl (of_int (maxUnsettled s) * EDGE_QUEUE_DEGRADED_FRACTION)\<rfloor>
       then DEGRADED_NEAR_CAPACITY
     else ACCEPTING)"

definition oldest_settled :: "database \<Rightarrow> int \<Rightarrow> string list" where
  "oldest_settled d limit = map offline_operation_id (sql_limit limit
     (sort_key (\<lambda>r. (first_stored_monotonic_ms r, enqueued_edge_monotonic_position r))
       (filter (\<lambda>r. settlement_text r \<noteq> None) (operations d))))"

definition reclaimSettledInTransaction :: "int \<Rightarrow> unit db_work" where
  "reclaimSettledInTransaction limit d =
     sql (sql_delete (\<lambda>r. offline_operation_id r \<in> set (oldest_settled d limit)) d)"

definition pruneSettled :: "store \<Rightarrow> int \<Rightarrow> (queue_error + int) \<times> store" where
  "pruneSettled s limit = (if limit \<le> 0 then (Inr 0, s)
     else transact s (\<lambda>d. and_then (reclaimSettledInTransaction limit d)
       (\<lambda>(_, d'). Inr (int (length (operations d)) - int (length (operations d')), d'))))"

subsection \<open>Admission\<close>

datatype admission = ADMITTED entry | DUPLICATE_OPERATION_ID | SEQUENCE_POSITION_ALREADY_HELD
  | AT_CAPACITY int int | POSITION_SPACE_EXHAUSTED

definition position_held :: "database \<Rightarrow> envelope \<Rightarrow> bool" where
  "position_held d e \<longleftrightarrow> (\<exists>r\<in>set (operations d). organisation_id r = env_organisation_id e
     \<and> site_id r = env_site_id e \<and> actor_user_id r = env_actor_user_id e \<and> device_id r = env_device_id e
     \<and> device_sequence r = env_device_sequence e)"

definition admitted_row :: "envelope \<Rightarrow> string \<Rightarrow> edge_receipt option \<Rightarrow> int \<Rightarrow> int \<Rightarrow> row" where
  "admitted_row e payload receipt allocated now =
     \<lparr>offline_operation_id = env_offline_operation_id e, schema_version = EDGE_QUEUE_SCHEMA_VERSION,
      envelope_text = json_stringify (envelope_json e), payload_canonical_json = payload,
      payload_digest = env_payload_digest e,
      receipt_text = map_option (\<lambda>r. json_stringify (receipt_json r)) receipt,
      organisation_id = env_organisation_id e, site_id = env_site_id e,
      actor_user_id = env_actor_user_id e, device_id = env_device_id e,
      device_sequence = env_device_sequence e, policy_lease_id = env_policy_lease_id e,
      enqueued_edge_monotonic_position = allocated, queue_state = STORED_LOCAL, settlement_text = None,
      attempt_count = 0, failure_category = Some EDGE_QUEUE_INITIAL_FAILURE_CATEGORY,
      first_stored_monotonic_ms = now, last_attempt_monotonic_ms = None, next_attempt_monotonic_ms = now\<rparr>"

definition queued_operation :: "envelope \<Rightarrow> string \<Rightarrow> edge_receipt option \<Rightarrow> int \<Rightarrow> stored_operation" where
  "queued_operation e payload receipt allocated = \<lparr>st_envelope = e, st_payload_canonical_json = payload,
     st_receipt = receipt, st_enqueued_edge_monotonic_position = allocated, st_state = QUEUED,
     st_settlement = None\<rparr>"

text \<open>
  The second half of the transaction, once nothing refuses: the counter advance, the witness (which
  may throw; \<open>Inl\<close> is its error), the contract, the insert, the read back.
\<close>

definition admit_allocated :: "platform \<Rightarrow> store \<Rightarrow> int \<Rightarrow> envelope \<Rightarrow> string \<Rightarrow>
    (int \<Rightarrow> string + edge_receipt option) \<Rightarrow> int \<Rightarrow> admission db_work" where
  "admit_allocated pl s now e payload witness allocated d = (let n = durableNowMs s now in
     and_then (sql (sql_update_counter (\<lambda>c. c\<lparr>next_edge_monotonic_position := allocated + 1,
         last_observed_monotonic_ms := max (last_observed_monotonic_ms c) n\<rparr>) d)) (\<lambda>(_, d1).
     case witness allocated of Inl err \<Rightarrow> Inl (Witness_Threw err)
     | Inr receipt \<Rightarrow>
       if \<not> stored_operation_ok pl (queued_operation e payload receipt allocated) then Inl Not_Storable
       else and_then (sql (sql_insert pl (admitted_row e payload receipt allocated n) d1)) (\<lambda>(_, d2).
         and_then (find_entry pl d2 (env_offline_operation_id e)) (\<lambda>found. case found of
           None \<Rightarrow> Inl (Malformed ''the admitted operation is not readable back'')
         | Some en \<Rightarrow> Inr (ADMITTED en, d2)))))"

definition admit_work :: "platform \<Rightarrow> store \<Rightarrow> int \<Rightarrow> envelope \<Rightarrow> string \<Rightarrow>
    (int \<Rightarrow> string + edge_receipt option) \<Rightarrow> admission db_work" where
  "admit_work pl s now e payload witness d = (let excess = settledCount d - settledRetention s in
     and_then (if excess > 0 then reclaimSettledInTransaction excess d else Inr ((), d)) (\<lambda>(_, d0).
     and_then (find_entry pl d0 (env_offline_operation_id e)) (\<lambda>existing.
     if existing \<noteq> None then Inr (DUPLICATE_OPERATION_ID, d0)
     else if position_held d0 e then Inr (SEQUENCE_POSITION_ALREADY_HELD, d0)
     else let unsettled = unsettledCount d0 in
       if unsettled \<ge> maxUnsettled s then Inr (AT_CAPACITY unsettled (maxUnsettled s), d0)
       else and_then (readCounter d0) (\<lambda>c.
         if next_edge_monotonic_position c \<ge> EDGE_QUEUE_MAX_MONOTONIC_POSITION
           then Inr (POSITION_SPACE_EXHAUSTED, d0)
         else admit_allocated pl s now e payload witness (next_edge_monotonic_position c) d0))))"

definition admit :: "platform \<Rightarrow> store \<Rightarrow> int \<Rightarrow> envelope \<Rightarrow> string \<Rightarrow>
    (int \<Rightarrow> string + edge_receipt option) \<Rightarrow> (queue_error + admission) \<times> store" where
  "admit pl s now e payload witness = transact s (admit_work pl s now e payload witness)"

subsection \<open>State changes\<close>

text \<open>The one gate: unknown and settled entries answer false, an illegal transition throws.\<close>

definition transition_work :: "store \<Rightarrow> int \<Rightarrow> string \<Rightarrow> queue_state \<Rightarrow>
    (queue_state \<Rightarrow> int \<Rightarrow> unit db_work) \<Rightarrow> bool db_work" where
  "transition_work s now op to apply d = (case row_of d op of
       None \<Rightarrow> Inr (False, d)
     | Some current \<Rightarrow>
       if settlement_text current \<noteq> None then Inr (False, d)
       else if queue_state current \<noteq> to \<and> \<not> canTransitionEdgeQueueState (queue_state current) to
         then Inl (Transition (queue_state current) to)
       else and_then (apply (queue_state current) (attempt_count current) d) (\<lambda>(_, d1).
         and_then (markClock s now d1) (\<lambda>(_, d2). Inr (True, d2))))"

definition transitionTo :: "store \<Rightarrow> int \<Rightarrow> string \<Rightarrow> queue_state \<Rightarrow>
    (queue_state \<Rightarrow> int \<Rightarrow> unit db_work) \<Rightarrow> (queue_error + bool) \<times> store" where
  "transitionTo s now op to apply = transact s (transition_work s now op to apply)"

definition update_one :: "platform \<Rightarrow> string \<Rightarrow> (row \<Rightarrow> row) \<Rightarrow> unit db_work" where
  "update_one pl op f d = sql (sql_update pl (\<lambda>r. offline_operation_id r = op) f d)"

definition set_unknown_count :: "(int \<Rightarrow> int) \<Rightarrow> unit db_work" where
  "set_unknown_count g d = sql (sql_update_counter (\<lambda>c. c\<lparr>consecutive_unknown_transport_results :=
     g (consecutive_unknown_transport_results c)\<rparr>) d)"

definition markReadyToForward :: "platform \<Rightarrow> store \<Rightarrow> int \<Rightarrow> string \<Rightarrow> (queue_error + bool) \<times> store" where
  "markReadyToForward pl s now op = transitionTo s now op READY_TO_FORWARD
     (\<lambda>_ _. update_one pl op (\<lambda>r. r\<lparr>queue_state := READY_TO_FORWARD\<rparr>))"

text \<open>The clock is read for the attempt (\<open>now\<close>) and again for the high-water mark (\<open>now'\<close>).\<close>

definition claimForForwarding :: "platform \<Rightarrow> store \<Rightarrow> int \<Rightarrow> int \<Rightarrow> string \<Rightarrow> (queue_error + bool) \<times> store" where
  "claimForForwarding pl s now now' op = transitionTo s now' op FORWARDING (\<lambda>_ attempts.
     let attempt = attempts + 1; n = durableNowMs s now in
     update_one pl op (\<lambda>r. r\<lparr>queue_state := FORWARDING, attempt_count := attempt,
       failure_category := Some EDGE_QUEUE_CRASH_RECOVERY_CATEGORY,
       last_attempt_monotonic_ms := Some n,
       next_attempt_monotonic_ms := n + edgeQueueRetryDelayMs attempt\<rparr>))"

datatype central_progress = Received | Applying

fun progress_state :: "central_progress \<Rightarrow> queue_state" where
  "progress_state Received = CENTRAL_RECEIVED"
| "progress_state Applying = CENTRAL_APPLYING"

definition recordCentralProgress :: "platform \<Rightarrow> store \<Rightarrow> int \<Rightarrow> string \<Rightarrow> central_progress \<Rightarrow> (queue_error + bool) \<times> store" where
  "recordCentralProgress pl s now op progress = transitionTo s now op (progress_state progress) (\<lambda>_ _ d.
     and_then (update_one pl op (\<lambda>r. r\<lparr>queue_state := progress_state progress, failure_category := None\<rparr>) d)
       (\<lambda>(_, d'). set_unknown_count (\<lambda>_. 0) d'))"

definition recordTransportUnknown :: "platform \<Rightarrow> store \<Rightarrow> int \<Rightarrow> string \<Rightarrow> unknown_reason \<Rightarrow> (queue_error + bool) \<times> store" where
  "recordTransportUnknown pl s now op reason = (let to = EDGE_QUEUE_STATE_FOR_FAILURE_CATEGORY reason in
     transitionTo s now op to (\<lambda>_ _ d.
       and_then (update_one pl op (\<lambda>r. r\<lparr>queue_state := to, failure_category := Some reason\<rparr>) d)
         (\<lambda>(_, d'). if reason \<noteq> NOT_ATTEMPTED then set_unknown_count (\<lambda>n. n + 1) d' else Inr ((), d'))))"

fun answered_state :: "transport_result \<Rightarrow> queue_state" where
  "answered_state (CENTRAL_ACCEPTED _) = CENTRAL_APPLIED"
| "answered_state _ = FAILED_TERMINAL"

definition settle :: "platform \<Rightarrow> store \<Rightarrow> int \<Rightarrow> string \<Rightarrow> transport_result \<Rightarrow> (queue_error + bool) \<times> store" where
  "settle pl s now op answer =
     (if \<not> transport_ok answer then (Inl Contract_Parse, s)
      else if \<not> terminal answer then (Inl (Transition FORWARDING CENTRAL_APPLIED), s)
      else transitionTo s now op (answered_state answer) (\<lambda>_ _ d.
        and_then (update_one pl op (\<lambda>r. r\<lparr>queue_state := answered_state answer,
            settlement_text := Some (json_stringify (transport_json answer)), failure_category := None\<rparr>) d)
          (\<lambda>(_, d'). set_unknown_count (\<lambda>_. 0) d')))"

subsection \<open>Metrics\<close>

definition oldest_unsettled :: "database \<Rightarrow> int option" where
  "oldest_unsettled d = (case map first_stored_monotonic_ms (filter (\<lambda>r. settlement_text r = None) (operations d))
     of [] \<Rightarrow> None | ts \<Rightarrow> Some (Min (set ts)))"

definition metrics :: "store \<Rightarrow> int \<Rightarrow> bool \<Rightarrow> queue_error + queue_metrics" where
  "metrics s now trustedTimeAvailable = and_then (readCounter (db s)) (\<lambda>c.
     let m = \<lparr>m_queued_count = unsettledCount (db s), m_terminal_count = settledCount (db s),
           m_capacity = maxUnsettled s,
           m_oldest_queued_monotonic_age_ms =
             map_option (\<lambda>oldest. max 0 (durableNowMs s now - oldest)) (oldest_unsettled (db s)),
           m_trusted_time_available = trustedTimeAvailable,
           m_consecutive_unknown_transport_results = consecutive_unknown_transport_results c\<rparr>
     in if metrics_ok m then Inr m else Inl Contract_Parse)"

definition isSettledEdgeQueueEntry :: "entry \<Rightarrow> bool" where
  "isSettledEdgeQueueEntry en = isEdgeQueueSettledState (queueState en)"

end
