(* ===== verification/Edge_Queue_Correct.thy ===== *)
theory Edge_Queue_Correct
  imports Edge_Queue_Store
begin

text \<open>
  What the durable store promises. \<open>store_ok\<close> is its invariant; every operation, and a crash
  followed by a reopening, keeps it and only moves the store forward (\<open>store_before\<close>). The shapes an
  operation's effect can have are \<open>row_change\<close> (one unanswered row rewritten), a reclamation of
  answered rows, an admission, or nothing.
\<close>

subsection \<open>The invariant\<close>

text \<open>The bookkeeping columns of one row tell one story.\<close>

definition row_book :: "platform \<Rightarrow> row \<Rightarrow> bool" where
  "row_book pl r \<longleftrightarrow>
     (queue_state r \<notin> {STORED_LOCAL, READY_TO_FORWARD} \<longrightarrow> 1 \<le> attempt_count r)
     \<and> (if attempt_count r = 0
        then last_attempt_monotonic_ms r = None \<and> next_attempt_monotonic_ms r = first_stored_monotonic_ms r
        else \<exists>l. last_attempt_monotonic_ms r = Some l
               \<and> next_attempt_monotonic_ms r = l + edgeQueueRetryDelayMs (attempt_count r))
     \<and> (queue_state r = FORWARDING \<longrightarrow> failure_category r = Some TRANSPORT_ERROR)
     \<and> (queue_state r \<in> {FAILED_RETRYABLE, UNKNOWN} \<longrightarrow>
          (\<exists>c. failure_category r = Some c \<and> EDGE_QUEUE_STATE_FOR_FAILURE_CATEGORY c = queue_state r))
     \<and> (\<forall>t. settlement_text r = Some t \<longrightarrow> (\<exists>a. t = json_stringify (transport_json a) \<and> terminal a
          \<and> transport_ok a \<and> queue_state r = answered_state a))
     \<and> (settlement_text r = None \<longrightarrow> (\<exists>en. toEntry pl r = Inr en))"

definition store_ok :: "platform \<Rightarrow> store \<Rightarrow> bool" where
  "store_ok pl s \<longleftrightarrow> open_ok pl (db s)
     \<and> (\<forall>c. counter (db s) = Some c \<longrightarrow> counter_schema_version c = EDGE_QUEUE_SCHEMA_VERSION
          \<and> (\<forall>r\<in>set (operations (db s)). first_stored_monotonic_ms r \<le> last_observed_monotonic_ms c))
     \<and> (\<forall>r\<in>set (operations (db s)). row_book pl r)
     \<and> distinct (map enqueued_edge_monotonic_position (operations (db s)))
     \<and> unsettledCount (db s) \<le> maxUnsettled s"

text \<open>History: the counter and the clock only grow, and a position below the counter is held only by
  the row that took it.\<close>

definition store_before :: "store \<Rightarrow> store \<Rightarrow> bool" where
  "store_before s s' \<longleftrightarrow> counter_before (db s) (db s')
     \<and> (\<forall>c. counter (db s) = Some c \<longrightarrow> (\<forall>r'\<in>set (operations (db s')).
          enqueued_edge_monotonic_position r' < next_edge_monotonic_position c \<longrightarrow>
          (\<exists>r\<in>set (operations (db s)). follows r r')))"

lemma follows_self2: "r \<in> A \<Longrightarrow> \<exists>r'\<in>A. follows r' r"
  using follows_refl by blast

lemma store_before_refl: "store_before s s"
  using follows_self by (auto simp: store_before_def)

lemma store_beforeI:
  assumes "counter_before (db s) (db s')"
    and "\<And>r. r \<in> set (operations (db s')) \<Longrightarrow> r \<in> set (operations (db s))
      \<or> (\<forall>c. counter (db s) = Some c \<longrightarrow> next_edge_monotonic_position c \<le> enqueued_edge_monotonic_position r)"
  shows "store_before s s'"
  unfolding store_before_def
proof (intro conjI allI impI ballI)
  fix c r
  assume "counter (db s) = Some c" "r \<in> set (operations (db s'))"
    "enqueued_edge_monotonic_position r < next_edge_monotonic_position c"
  with assms(2)[of r] have "r \<in> set (operations (db s))" by auto
  then show "\<exists>r'\<in>set (operations (db s)). follows r' r" by (rule follows_self2)
qed (rule assms(1))

lemma store_before_trans:
  assumes "store_before s t" "store_before t u"
  shows "store_before s u"
  unfolding store_before_def
proof (intro conjI allI impI ballI)
  show "counter_before (db s) (db u)" using assms counter_before_trans by (auto simp: store_before_def)
  fix c r
  assume c: "counter (db s) = Some c" and r: "r \<in> set (operations (db u))"
    "enqueued_edge_monotonic_position r < next_edge_monotonic_position c"
  from assms(1) c obtain c' where c': "counter (db t) = Some c'"
    "next_edge_monotonic_position c \<le> next_edge_monotonic_position c'"
    by (auto simp: store_before_def counter_before_def)
  with assms(2) r obtain r' where r': "r' \<in> set (operations (db t))" "follows r' r"
    by (auto simp: store_before_def)
  with follows_identity[OF r'(2)] assms(1) c r obtain r'' where "r'' \<in> set (operations (db s))" "follows r'' r'"
    by (auto simp: store_before_def)
  with r' follows_trans show "\<exists>r'\<in>set (operations (db s)). follows r' r" by blast
qed

subsection \<open>Rewriting one unanswered row\<close>

definition clock_forward :: "database \<Rightarrow> database \<Rightarrow> bool" where
  "clock_forward d d' \<longleftrightarrow> (\<exists>c c'. counter d = Some c \<and> counter d' = Some c' \<and> counter_checks c'
     \<and> counter_schema_version c' = counter_schema_version c
     \<and> next_edge_monotonic_position c' = next_edge_monotonic_position c
     \<and> last_observed_monotonic_ms c \<le> last_observed_monotonic_ms c')"

definition rows_changed :: "platform \<Rightarrow> (row \<Rightarrow> row) \<Rightarrow> database \<Rightarrow> database \<Rightarrow> bool" where
  "rows_changed pl g d d' \<longleftrightarrow> operations d' = map g (operations d) \<and> clock_forward d d'
     \<and> (\<forall>r\<in>set (operations d). g r = r \<or> update_ok pl r (g r))"

lemma rows_changed_open_ok: "open_ok pl d \<Longrightarrow> rows_changed pl g d d' \<Longrightarrow> open_ok pl d'"
proof -
  assume ok: "open_ok pl d" and ch: "rows_changed pl g d d'"
  have "follows r (g r) \<and> row_checks pl (g r)" if "r \<in> set (operations d)" for r
    using ch that ok update_follows[of pl r "g r"]
    by (auto simp: rows_changed_def open_ok_def db_ok_def update_ok_def)
  then have "db_ok pl (d\<lparr>operations := map g (operations d)\<rparr>)"
    using ok by (intro db_ok_map) (auto simp: open_ok_def)
  then show ?thesis using ch by (auto simp: rows_changed_def open_ok_def db_ok_def clock_forward_def)
qed

lemma rows_changed_follows:
  "rows_changed pl g d d' \<Longrightarrow> r \<in> set (operations d) \<Longrightarrow> follows r (g r)"
  using update_follows[of pl r "g r"] by (auto simp: rows_changed_def)

lemma settled_unchanged: "rows_changed pl g d d' \<Longrightarrow> r \<in> set (operations d) \<Longrightarrow> settled r \<Longrightarrow> g r = r"
  using rows_changed_follows[of pl g d d' r] by (simp add: follows_def)

lemma rows_changed_before:
  assumes "rows_changed pl g (db s) (db s')"
  shows "store_before s s'"
proof -
  have "counter_before (db s) (db s')"
    using assms by (auto simp: rows_changed_def clock_forward_def counter_before_def)
  moreover have "\<exists>r\<in>set (operations (db s)). follows r r'" if "r' \<in> set (operations (db s'))" for r'
    using that assms rows_changed_follows[OF assms] by (auto simp: rows_changed_def)
  ultimately show ?thesis by (auto simp: store_before_def)
qed

lemma unsettledCount_map:
  assumes "\<And>r. r \<in> set rs \<Longrightarrow> settlement_text r \<noteq> None \<Longrightarrow> settlement_text (g r) \<noteq> None"
  shows "length (filter (\<lambda>r. settlement_text r = None) (map g rs))
    \<le> length (filter (\<lambda>r. settlement_text r = None) rs)"
  using assms
proof (induction rs)
  case (Cons r rs)
  have "settlement_text r \<noteq> None \<Longrightarrow> settlement_text (g r) \<noteq> None" using Cons.prems[of r] by simp
  moreover have "length (filter (\<lambda>r. settlement_text r = None) (map g rs))
      \<le> length (filter (\<lambda>r. settlement_text r = None) rs)"
    using Cons.prems by (intro Cons.IH) simp
  ultimately show ?case by (auto simp del: filter_map)
qed simp

lemma rows_changed_store_ok:
  assumes "store_ok pl s" "rows_changed pl g (db s) d'"
    and book: "\<And>r. r \<in> set (operations (db s)) \<Longrightarrow> g r \<noteq> r \<Longrightarrow> row_book pl (g r)"
  shows "store_ok pl (s\<lparr>db := d'\<rparr>)"
proof -
  note fol = rows_changed_follows[OF assms(2)]
  have ops: "operations d' = map g (operations (db s))" using assms(2) by (simp add: rows_changed_def)
  have "row_book pl (g r)" if "r \<in> set (operations (db s))" for r
    using book[OF that] assms(1) that by (cases "g r = r") (auto simp: store_ok_def)
  then have 1: "\<forall>r\<in>set (operations d'). row_book pl r" by (auto simp: ops)
  have "map enqueued_edge_monotonic_position (operations d')
      = map enqueued_edge_monotonic_position (operations (db s))"
    using fol follows_identity by (auto simp: ops)
  then have 2: "distinct (map enqueued_edge_monotonic_position (operations d'))"
    using assms(1) by (simp only: store_ok_def)
  have "g r = r" if "r \<in> set (operations (db s))" "settlement_text r \<noteq> None" for r
    using settled_unchanged[OF assms(2) that(1)] that(2) by (simp add: settled_def)
  then have 3: "unsettledCount d' \<le> maxUnsettled s"
    using assms(1) unsettledCount_map[of "operations (db s)" g] by (force simp: ops store_ok_def unsettledCount_def)
  have first: "first_stored_monotonic_ms (g r) = first_stored_monotonic_ms r"
    if "r \<in> set (operations (db s))" for r using fol[OF that] follows_identity by blast
  from assms(2) obtain c c' where c: "counter (db s) = Some c" "counter d' = Some c'"
    "counter_schema_version c' = counter_schema_version c"
    "last_observed_monotonic_ms c \<le> last_observed_monotonic_ms c'"
    by (auto simp: rows_changed_def clock_forward_def)
  have 4: "counter_schema_version c' = EDGE_QUEUE_SCHEMA_VERSION
      \<and> (\<forall>r\<in>set (operations d'). first_stored_monotonic_ms r \<le> last_observed_monotonic_ms c')"
    using assms(1) c first by (force simp: store_ok_def ops)
  have "open_ok pl d'" using assms(1,2) rows_changed_open_ok by (auto simp: store_ok_def)
  with 1 2 3 4 c show ?thesis by (simp add: store_ok_def)
qed

subsection \<open>The transitions\<close>

lemma clock_forward_trans: "clock_forward d e \<Longrightarrow> clock_forward e f \<Longrightarrow> clock_forward d f"
  by (auto simp: clock_forward_def)

lemma clock_forward_refl: "open_ok pl d \<Longrightarrow> clock_forward d d"
  by (auto simp: clock_forward_def open_ok_def db_ok_def split: option.splits)

lemma counter_update_forward:
  assumes "sql_update_counter g d = Inr d'" "counter d \<noteq> None"
    and "\<And>c. counter_schema_version (g c) = counter_schema_version c
      \<and> next_edge_monotonic_position (g c) = next_edge_monotonic_position c"
  shows "clock_forward d d' \<and> operations d' = operations d"
  using assms by (auto simp: sql_update_counter_def clock_forward_def edge_queue_counter_never_rewinds_def
      split: option.splits if_splits)

lemma sql_Inr [simp]: "sql m = Inr (u, d) \<longleftrightarrow> m = Inr d"
  by (cases m) auto

lemma markClock_forward: "markClock s now d = Inr (u, d') \<Longrightarrow> counter d \<noteq> None
    \<Longrightarrow> clock_forward d d' \<and> operations d' = operations d"
  unfolding markClock_def sql_Inr by (erule counter_update_forward) simp_all

lemma set_unknown_count_forward: "set_unknown_count g d = Inr (u, d') \<Longrightarrow> counter d \<noteq> None
    \<Longrightarrow> clock_forward d d' \<and> operations d' = operations d"
  unfolding set_unknown_count_def sql_Inr by (erule counter_update_forward) simp_all

text \<open>\<open>one_row f d d'\<close>: the statements rewrite the row named \<open>op\<close> by \<open>f\<close> and touch nothing else.\<close>

definition one_row :: "platform \<Rightarrow> string \<Rightarrow> (row \<Rightarrow> row) \<Rightarrow> database \<Rightarrow> database \<Rightarrow> bool" where
  "one_row pl op f d d' \<longleftrightarrow> (\<exists>d0. sql_update pl (\<lambda>r. offline_operation_id r = op) f d = Inr d0
     \<and> operations d' = operations d0 \<and> (counter d' = counter d0 \<or> clock_forward d0 d'))"

lemma update_one_row: "update_one pl op f d = Inr (u, d') \<Longrightarrow> one_row pl op f d d'"
  by (auto simp: update_one_def one_row_def)

lemma update_one_counter: "update_one pl op f d = Inr (u, d') \<Longrightarrow> counter d' = counter d"
  by (auto simp: update_one_def dest!: sql_update_Inr(1))

lemma update_then_count:
  assumes "update_one pl op f d = Inr (u, d1)" "set_unknown_count g d1 = Inr (v, d')" "counter d \<noteq> None"
  shows "one_row pl op f d d'"
proof -
  have "counter d1 \<noteq> None" using assms(1,3) update_one_counter by metis
  with set_unknown_count_forward[OF assms(2)] assms(1) show ?thesis
    by (auto simp: one_row_def update_one_def)
qed

lemma row_of_Some:
  assumes "row_of d op = Some r"
  shows "r \<in> set (operations d)" "offline_operation_id r = op"
  using assms by (auto simp: row_of_def find_Some_iff)

lemma row_of_unique:
  assumes "open_ok pl d" "row_of d op = Some r" "x \<in> set (operations d)"
  shows "offline_operation_id x = op \<longleftrightarrow> x = r"
  using row_of_Some[OF assms(2)] no_conflicts_same_id[of "operations d" x r] assms(1,3)
  by (auto simp: open_ok_def db_ok_def conflicts_def)

lemma one_row_changed:
  assumes ok: "open_ok pl d" and r: "row_of d op = Some r" and one: "one_row pl op f d d1"
    and fw: "clock_forward d1 d2" "operations d2 = operations d1"
  shows "rows_changed pl (\<lambda>x. if x = r then f r else x) d d2" "update_ok pl r (f r)"
proof -
  from one obtain d0 where d0: "sql_update pl (\<lambda>r. offline_operation_id r = op) f d = Inr d0"
    "operations d1 = operations d0" "counter d1 = counter d0 \<or> clock_forward d0 d1"
    by (auto simp: one_row_def)
  note u = sql_update_Inr[OF d0(1)]
  have c0: "counter d0 = counter d" by (simp add: u(1))
  then have "clock_forward d d0" using clock_forward_refl[OF ok] by (auto simp: clock_forward_def)
  then have "clock_forward d d1" using d0(3) c0 by (auto simp: clock_forward_def)
  then have cf: "clock_forward d d2" using fw(1) clock_forward_trans by blast
  show uo: "update_ok pl r (f r)" using u(2) row_of_Some[OF r] by blast
  have "operations d2 = map (\<lambda>x. if offline_operation_id x = op then f x else x) (operations d)"
    using fw(2) d0(2) by (simp add: u(1))
  also have "\<dots> = map (\<lambda>x. if x = r then f r else x) (operations d)"
    using row_of_unique[OF ok r] by (intro map_cong) auto
  finally show "rows_changed pl (\<lambda>x. if x = r then f r else x) d d2"
    using cf uo by (simp add: rows_changed_def)
qed

text \<open>
  The contract every state change has with the gate: its statements rewrite the named row by \<open>f\<close>
  (of the state and attempt count the gate read) and otherwise at most the unknown counter.
\<close>

locale queue_gate =
  fixes pl :: platform
    and op :: string
    and to :: queue_state
    and apply_row :: "queue_state \<Rightarrow> int \<Rightarrow> unit db_work"
    and f :: "queue_state \<Rightarrow> int \<Rightarrow> row \<Rightarrow> row"
  assumes shape: "counter d \<noteq> None \<Longrightarrow> apply_row q n d = Inr ((), d1) \<Longrightarrow> one_row pl op (f q n) d d1"
begin

text \<open>What any call of the gate does: nothing, or one legal rewriting of one unanswered row.\<close>

lemma transition_effect:
  assumes ok: "store_ok pl s" and call: "transitionTo s now op to apply_row = (res, s')"
  shows "(s' = s \<and> res \<noteq> Inr True) \<or> (res = Inr True \<and> (\<exists>r. row_of (db s) op = Some r \<and> settlement_text r = None
     \<and> (queue_state r = to \<or> canTransitionEdgeQueueState (queue_state r) to)
     \<and> update_ok pl r (f (queue_state r) (attempt_count r) r)
     \<and> (\<exists>d'. s' = s\<lparr>db := d'\<rparr>
          \<and> rows_changed pl (\<lambda>x. if x = r then f (queue_state r) (attempt_count r) r else x) (db s) d')))"
proof (cases "transition_work s now op to apply_row (db s)")
  case (Inl e)
  with call show ?thesis by (auto simp: transitionTo_def transact_def)
next
  case (Inr p)
  obtain b d2 where p: "p = (b, d2)" by fastforce
  from call Inr p have res: "res = Inr b" "s' = s\<lparr>db := d2\<rparr>" by (auto simp: transitionTo_def transact_def)
  have ok': "open_ok pl (db s)" "counter (db s) \<noteq> None" using ok by (auto simp: store_ok_def open_ok_def)
  show ?thesis
  proof (cases b)
    case False
    with Inr p have "d2 = db s"
      by (auto simp: transition_work_def split: option.splits if_splits)
    with False res show ?thesis by simp
  next
    case True
    with Inr p obtain r d1 where r: "row_of (db s) op = Some r" "settlement_text r = None"
      "queue_state r = to \<or> canTransitionEdgeQueueState (queue_state r) to"
      and a: "apply_row (queue_state r) (attempt_count r) (db s) = Inr ((), d1)" "markClock s now d1 = Inr ((), d2)"
      by (auto simp: transition_work_def split: option.splits if_splits)
    note one = shape[OF ok'(2) a(1)]
    have "counter d1 \<noteq> None"
      using one ok'(2) by (auto simp: one_row_def clock_forward_def dest!: sql_update_Inr(1))
    note fw = markClock_forward[OF a(2) this]
    from one_row_changed[OF ok'(1) r(1) one conjunct1[OF fw] conjunct2[OF fw]] r True res show ?thesis
      by blast
  qed
qed

text \<open>So a gate call keeps the invariant as soon as the rewriting keeps the row's bookkeeping.\<close>

lemma transition_store_ok:
  assumes ok: "store_ok pl s" and call: "transitionTo s now op to apply_row = (res, s')"
    and book: "\<And>r. r \<in> set (operations (db s)) \<Longrightarrow> row_book pl r \<Longrightarrow> settlement_text r = None
      \<Longrightarrow> queue_state r = to \<or> canTransitionEdgeQueueState (queue_state r) to
      \<Longrightarrow> row_checks pl r \<Longrightarrow> row_book pl (f (queue_state r) (attempt_count r) r)"
  shows "store_ok pl s' \<and> store_before s s'"
proof -
  from transition_effect[OF ok call] consider "s' = s" | r d' where "row_of (db s) op = Some r"
    "settlement_text r = None" "queue_state r = to \<or> canTransitionEdgeQueueState (queue_state r) to"
    "s' = s\<lparr>db := d'\<rparr>"
    "rows_changed pl (\<lambda>x. if x = r then f (queue_state r) (attempt_count r) r else x) (db s) d'"
    by blast
  then show ?thesis
  proof cases
    case 1
    with ok store_before_refl show ?thesis by simp
  next
    case 2
    have r: "r \<in> set (operations (db s))" using row_of_Some[OF 2(1)] by blast
    then have "row_book pl r" "row_checks pl r" using ok by (auto simp: store_ok_def open_ok_def db_ok_def)
    with book[OF r _ 2(2,3)] have "row_book pl (f (queue_state r) (attempt_count r) r)" by blast
    then have "store_ok pl (s\<lparr>db := d'\<rparr>)" by (intro rows_changed_store_ok[OF ok 2(5)]) (auto split: if_splits)
    moreover have "store_before s s'" using 2(4,5) by (intro rows_changed_before) simp
    ultimately show ?thesis using 2(4) by simp
  qed
qed

lemma gate_rows:
  assumes ok: "store_ok pl s" and call: "transitionTo s now op to apply_row = (res, s')"
    and r: "r \<in> set (operations (db s))"
  shows "\<exists>r'\<in>set (operations (db s')). follows r r' \<and> (r' = r \<or> (offline_operation_id r = op
     \<and> settlement_text r = None \<and> r' = f (queue_state r) (attempt_count r) r
     \<and> (queue_state r = to \<or> canTransitionEdgeQueueState (queue_state r) to)))"
proof -
  from transition_effect[OF ok call] consider "s' = s" | x d' where "row_of (db s) op = Some x"
    "settlement_text x = None" "queue_state x = to \<or> canTransitionEdgeQueueState (queue_state x) to"
    "s' = s\<lparr>db := d'\<rparr>"
    "rows_changed pl (\<lambda>y. if y = x then f (queue_state x) (attempt_count x) x else y) (db s) d'"
    by blast
  then show ?thesis
  proof cases
    case 1
    with r show ?thesis using follows_refl by blast
  next
    case 2
    let ?g = "\<lambda>y. if y = x then f (queue_state x) (attempt_count x) x else y"
    have "?g r \<in> set (operations (db s'))" using 2(4,5) r by (auto simp: rows_changed_def)
    moreover have "follows r (?g r)" using rows_changed_follows[OF 2(5) r] by simp
    ultimately show ?thesis using 2(2,3) row_of_Some(2)[OF 2(1)] by (intro bexI[of _ "?g r"]) auto
  qed
qed

end

subsection \<open>Each operation\<close>

lemma unsettled_state: "row_checks pl r \<Longrightarrow> settlement_text r = None \<Longrightarrow> \<not> isEdgeQueueSettledState (queue_state r)"
  by (simp add: row_checks_def edge_queue_settlement_matches_state_def isEdgeQueueSettledState_def)

text \<open>Reading a row depends on its bookkeeping only through the contract's two states.\<close>

lemma toEntry_stable:
  assumes "toEntry pl r = Inr en" "envelope_text r' = envelope_text r"
    and "payload_canonical_json r' = payload_canonical_json r" "receipt_text r' = receipt_text r"
    and "enqueued_edge_monotonic_position r' = enqueued_edge_monotonic_position r"
    and "settlement_text r' = settlement_text r"
    and "toEdgeOperationState (queue_state r') = toEdgeOperationState (queue_state r)"
    and "offline_operation_id r' = offline_operation_id r" "organisation_id r' = organisation_id r"
    and "site_id r' = site_id r" "actor_user_id r' = actor_user_id r" "device_id r' = device_id r"
    and "device_sequence r' = device_sequence r" "policy_lease_id r' = policy_lease_id r"
    and "payload_digest r' = payload_digest r"
  shows "\<exists>en'. toEntry pl r' = Inr en' \<and> stored en' = stored en"
  using assms by (fastforce simp: toEntry_def assertDerivedColumnsAgree_def Let_def split: option.splits if_splits)

lemma toEntry_bookkeeping:
  assumes "toEntry pl r = Inr en" "\<not> isEdgeQueueSettledState (queue_state r)" "\<not> isEdgeQueueSettledState q"
  shows "\<exists>en'. toEntry pl (r\<lparr>queue_state := q, attempt_count := n, failure_category := c,
     last_attempt_monotonic_ms := l, next_attempt_monotonic_ms := m\<rparr>) = Inr en'"
  using toEntry_stable[OF assms(1), of "r\<lparr>queue_state := q, attempt_count := n, failure_category := c,
     last_attempt_monotonic_ms := l, next_attempt_monotonic_ms := m\<rparr>"] assms(2,3)
  by (auto simp: toEdgeOperationState_def)

lemma readable_after:
  assumes "row_book pl r" "row_checks pl r" "settlement_text r = None" "\<not> isEdgeQueueSettledState q"
  shows "\<exists>en. toEntry pl (r\<lparr>queue_state := q\<rparr>) = Inr en"
    "\<exists>en. toEntry pl (r\<lparr>queue_state := q, failure_category := c\<rparr>) = Inr en"
    "\<exists>en. toEntry pl (r\<lparr>queue_state := q, attempt_count := n, failure_category := c,
       last_attempt_monotonic_ms := l, next_attempt_monotonic_ms := m\<rparr>) = Inr en"
proof -
  from assms obtain en where en: "toEntry pl r = Inr en" by (auto simp: row_book_def)
  note b = toEntry_bookkeeping[OF en unsettled_state[OF assms(2,3)] assms(4)]
  show "\<exists>en. toEntry pl (r\<lparr>queue_state := q, attempt_count := n, failure_category := c,
       last_attempt_monotonic_ms := l, next_attempt_monotonic_ms := m\<rparr>) = Inr en" by (rule b)
  have "r\<lparr>queue_state := q\<rparr> = r\<lparr>queue_state := q, attempt_count := attempt_count r,
    failure_category := failure_category r, last_attempt_monotonic_ms := last_attempt_monotonic_ms r,
    next_attempt_monotonic_ms := next_attempt_monotonic_ms r\<rparr>" by simp
  with b show "\<exists>en. toEntry pl (r\<lparr>queue_state := q\<rparr>) = Inr en" by metis
  have "r\<lparr>queue_state := q, failure_category := c\<rparr> = r\<lparr>queue_state := q, attempt_count := attempt_count r,
    failure_category := c, last_attempt_monotonic_ms := last_attempt_monotonic_ms r,
    next_attempt_monotonic_ms := next_attempt_monotonic_ms r\<rparr>" by simp
  with b show "\<exists>en. toEntry pl (r\<lparr>queue_state := q, failure_category := c\<rparr>) = Inr en" by metis
qed

lemma attempted: "row_book pl r \<Longrightarrow> queue_state r \<in> {FORWARDING, CENTRAL_RECEIVED, CENTRAL_APPLYING,
    FAILED_RETRYABLE, UNKNOWN, CENTRAL_APPLIED, FAILED_TERMINAL} \<Longrightarrow> 1 \<le> attempt_count r"
  by (auto simp: row_book_def)

lemma update_then_count_shape:
  "and_then (update_one pl op f d) (\<lambda>(u, d'). set_unknown_count g d') = Inr ((), d1) \<Longrightarrow> counter d \<noteq> None
    \<Longrightarrow> one_row pl op f d d1"
  using update_then_count by fastforce

text \<open>The five rewritings, each an instance of the gate's contract.\<close>

definition ready_row :: "queue_state \<Rightarrow> int \<Rightarrow> row \<Rightarrow> row" where
  "ready_row q n = (\<lambda>r. r\<lparr>queue_state := READY_TO_FORWARD\<rparr>)"

definition claimed_row :: "int \<Rightarrow> queue_state \<Rightarrow> int \<Rightarrow> row \<Rightarrow> row" where
  "claimed_row t q n = (\<lambda>r. r\<lparr>queue_state := FORWARDING, attempt_count := n + 1,
     failure_category := Some EDGE_QUEUE_CRASH_RECOVERY_CATEGORY, last_attempt_monotonic_ms := Some t,
     next_attempt_monotonic_ms := t + edgeQueueRetryDelayMs (n + 1)\<rparr>)"

definition progressed_row :: "central_progress \<Rightarrow> queue_state \<Rightarrow> int \<Rightarrow> row \<Rightarrow> row" where
  "progressed_row p q n = (\<lambda>r. r\<lparr>queue_state := progress_state p, failure_category := None\<rparr>)"

definition unanswered_row :: "unknown_reason \<Rightarrow> queue_state \<Rightarrow> int \<Rightarrow> row \<Rightarrow> row" where
  "unanswered_row c q n = (\<lambda>r. r\<lparr>queue_state := EDGE_QUEUE_STATE_FOR_FAILURE_CATEGORY c, failure_category := Some c\<rparr>)"

definition answered_row :: "transport_result \<Rightarrow> queue_state \<Rightarrow> int \<Rightarrow> row \<Rightarrow> row" where
  "answered_row a q n = (\<lambda>r. r\<lparr>queue_state := answered_state a,
     settlement_text := Some (json_stringify (transport_json a)), failure_category := None\<rparr>)"

lemmas rewritings = ready_row_def claimed_row_def progressed_row_def unanswered_row_def answered_row_def

interpretation ready: queue_gate pl op READY_TO_FORWARD
  "\<lambda>_ _. update_one pl op (\<lambda>r. r\<lparr>queue_state := READY_TO_FORWARD\<rparr>)" ready_row for pl op
  by unfold_locales (unfold ready_row_def, erule update_one_row)

interpretation claim: queue_gate pl op FORWARDING
  "\<lambda>_ attempts. let attempt = attempts + 1; n = durableNowMs s now in
     update_one pl op (\<lambda>r. r\<lparr>queue_state := FORWARDING, attempt_count := attempt,
       failure_category := Some EDGE_QUEUE_CRASH_RECOVERY_CATEGORY, last_attempt_monotonic_ms := Some n,
       next_attempt_monotonic_ms := n + edgeQueueRetryDelayMs attempt\<rparr>)" "claimed_row (durableNowMs s now)"
  for pl op s now
  by unfold_locales (unfold claimed_row_def Let_def, erule update_one_row)

interpretation progress: queue_gate pl op "progress_state p"
  "\<lambda>_ _ d. and_then (update_one pl op (\<lambda>r. r\<lparr>queue_state := progress_state p, failure_category := None\<rparr>) d)
     (\<lambda>(_, d'). set_unknown_count (\<lambda>_. 0) d')" "progressed_row p" for pl op p
  by unfold_locales (unfold progressed_row_def, rule update_then_count_shape)

interpretation unanswered: queue_gate pl op "EDGE_QUEUE_STATE_FOR_FAILURE_CATEGORY c"
  "\<lambda>_ _ d. and_then (update_one pl op (\<lambda>r. r\<lparr>queue_state := EDGE_QUEUE_STATE_FOR_FAILURE_CATEGORY c,
       failure_category := Some c\<rparr>) d)
     (\<lambda>(_, d'). if c \<noteq> NOT_ATTEMPTED then set_unknown_count (\<lambda>n. n + 1) d' else Inr ((), d'))" "unanswered_row c"
  for pl op c
proof
  let ?f = "\<lambda>r. r\<lparr>queue_state := EDGE_QUEUE_STATE_FOR_FAILURE_CATEGORY c, failure_category := Some c\<rparr>"
  show "one_row pl op (unanswered_row c q n) d d1"
    if "counter d \<noteq> None" "and_then (update_one pl op ?f d) (\<lambda>(_, d'). if c \<noteq> NOT_ATTEMPTED
        then set_unknown_count (\<lambda>n. n + 1) d' else Inr ((), d')) = Inr ((), d1)" for q n d d1
    using that update_then_count_shape[of pl op ?f d "\<lambda>n. n + 1" d1] update_one_row[of pl op ?f d _ d1]
    unfolding unanswered_row_def by (cases "c = NOT_ATTEMPTED") (auto split: prod.splits)
qed

interpretation answer: queue_gate pl op "answered_state a"
  "\<lambda>_ _ d. and_then (update_one pl op (\<lambda>r. r\<lparr>queue_state := answered_state a,
       settlement_text := Some (json_stringify (transport_json a)), failure_category := None\<rparr>) d)
     (\<lambda>(_, d'). set_unknown_count (\<lambda>_. 0) d')" "answered_row a" for pl op a
  by unfold_locales (unfold answered_row_def, rule update_then_count_shape)

lemma markReady_ok:
  assumes "store_ok pl s" "markReadyToForward pl s now op = (res, s')"
  shows "store_ok pl s' \<and> store_before s s'"
proof (rule ready.transition_store_ok[OF assms(1) assms(2)[unfolded markReadyToForward_def]])
  show "row_book pl (ready_row q n r)"
    if "row_book pl r" "settlement_text r = None" "row_checks pl r" for q n r
    using that readable_after(1)[OF that(1,3,2), of READY_TO_FORWARD]
    by (simp add: row_book_def settled_state_iff ready_row_def)
qed

lemma claim_ok:
  assumes "store_ok pl s" "claimForForwarding pl s now now' op = (res, s')"
  shows "store_ok pl s' \<and> store_before s s'"
proof (rule claim.transition_store_ok[OF assms(1) assms(2)[unfolded claimForForwarding_def]])
  show "row_book pl (claimed_row t q (attempt_count r) r)"
    if "row_book pl r" "settlement_text r = None" "row_checks pl r" for t q r
  proof -
    have "0 \<le> attempt_count r" using that(3) by (simp add: row_checks_def)
    with that(2) readable_after(3)[OF that(1,3,2), of FORWARDING] show ?thesis
      by (auto simp: row_book_def settled_state_iff EDGE_QUEUE_CRASH_RECOVERY_CATEGORY_def claimed_row_def)
  qed
qed

lemma progress_ok:
  assumes "store_ok pl s" "recordCentralProgress pl s now op p = (res, s')"
  shows "store_ok pl s' \<and> store_before s s'"
proof (rule progress.transition_store_ok[OF assms(1) assms(2)[unfolded recordCentralProgress_def]])
  show "row_book pl (progressed_row p q n r)"
    if "row_book pl r" "settlement_text r = None" "row_checks pl r"
      "queue_state r = progress_state p \<or> canTransitionEdgeQueueState (queue_state r) (progress_state p)" for q n r
  proof -
    have "queue_state r \<in> {FORWARDING, CENTRAL_RECEIVED, CENTRAL_APPLYING}"
      using that(4) acknowledged_source[of "queue_state r" "progress_state p"] by (cases p) auto
    then have "1 \<le> attempt_count r" using that(1) attempted by blast
    moreover have "\<not> isEdgeQueueSettledState (progress_state p)" by (cases p) (simp_all add: settled_state_iff)
    ultimately show ?thesis using that readable_after(2)[OF that(1,3,2), of "progress_state p" None]
      by (cases p) (auto simp: row_book_def progressed_row_def)
  qed
qed

lemma failure_state_source:
  assumes "EDGE_QUEUE_STATE_FOR_FAILURE_CATEGORY reason \<noteq> READY_TO_FORWARD"
    and "q = EDGE_QUEUE_STATE_FOR_FAILURE_CATEGORY reason
      \<or> canTransitionEdgeQueueState q (EDGE_QUEUE_STATE_FOR_FAILURE_CATEGORY reason)"
  shows "q \<in> {FORWARDING, CENTRAL_RECEIVED, CENTRAL_APPLYING, FAILED_RETRYABLE, UNKNOWN}"
  using assms by (cases reason; cases q) (simp_all add: canTransitionEdgeQueueState_def)

lemma failure_state_unsettled: "\<not> isEdgeQueueSettledState (EDGE_QUEUE_STATE_FOR_FAILURE_CATEGORY c)"
    "EDGE_QUEUE_STATE_FOR_FAILURE_CATEGORY c \<in> {READY_TO_FORWARD, FAILED_RETRYABLE, UNKNOWN}"
  by (cases c; simp add: settled_state_iff)+

lemma unknown_ok:
  assumes "store_ok pl s" "recordTransportUnknown pl s now op reason = (res, s')"
  shows "store_ok pl s' \<and> store_before s s'"
proof (rule unanswered.transition_store_ok[OF assms(1) assms(2)[unfolded recordTransportUnknown_def Let_def]])
  let ?to = "EDGE_QUEUE_STATE_FOR_FAILURE_CATEGORY reason"
  show "row_book pl (unanswered_row reason q n r)"
    if b: "row_book pl r" "settlement_text r = None" "row_checks pl r"
      and t: "queue_state r = ?to \<or> canTransitionEdgeQueueState (queue_state r) ?to" for q n r
  proof -
    have "?to \<noteq> READY_TO_FORWARD \<Longrightarrow> 1 \<le> attempt_count r"
      using failure_state_source[OF _ t] attempted[OF b(1)] by blast
    with b readable_after(2)[OF b(1,3,2) failure_state_unsettled(1)[of reason], where c = "Some reason"]
      failure_state_unsettled(2)[of reason]
    show ?thesis by (auto simp: row_book_def unanswered_row_def)
  qed
qed

lemma answered_settled: "isEdgeQueueSettledState (answered_state a)"
  by (cases a) (simp_all add: settled_state_iff)

lemma answered_source:
  assumes "row_book pl r" "settlement_text r = None" "row_checks pl r"
    and t: "queue_state r = answered_state a \<or> canTransitionEdgeQueueState (queue_state r) (answered_state a)"
  shows "1 \<le> attempt_count r"
proof -
  have "queue_state r \<noteq> answered_state a" using unsettled_state[OF assms(3,2)] answered_settled by metis
  with t have "queue_state r \<in> {FORWARDING, CENTRAL_RECEIVED, CENTRAL_APPLYING}"
    using settled_source answered_settled by blast
  then show ?thesis using attempted[OF assms(1)] by blast
qed

text \<open>Past the contract checks, \<open>settle\<close> is a call of the gate.\<close>

lemma settle_call:
  assumes "settle pl s now op a = (res, s')"
  shows "s' = s \<or> (terminal a \<and> transport_ok a \<and> transitionTo s now op (answered_state a)
     (\<lambda>_ _ d. and_then (update_one pl op (\<lambda>r. r\<lparr>queue_state := answered_state a,
         settlement_text := Some (json_stringify (transport_json a)), failure_category := None\<rparr>) d)
       (\<lambda>(_, d'). set_unknown_count (\<lambda>_. 0) d')) = (res, s'))"
  using assms by (auto simp: settle_def split: if_splits)

lemma settle_ok:
  assumes "store_ok pl s" "settle pl s now op a = (res, s')"
  shows "store_ok pl s' \<and> store_before s s'"
  using settle_call[OF assms(2)]
proof (elim disjE conjE)
  assume "s' = s"
  with assms store_before_refl show ?thesis by simp
next
  assume a: "terminal a" "transport_ok a"
    and call: "transitionTo s now op (answered_state a)
     (\<lambda>_ _ d. and_then (update_one pl op (\<lambda>r. r\<lparr>queue_state := answered_state a,
         settlement_text := Some (json_stringify (transport_json a)), failure_category := None\<rparr>) d)
       (\<lambda>(_, d'). set_unknown_count (\<lambda>_. 0) d')) = (res, s')"
  show ?thesis
  proof (rule answer.transition_store_ok[OF assms(1) call])
    show "row_book pl (answered_row a q n r)"
      if b: "row_book pl r" "settlement_text r = None" "row_checks pl r"
        and t: "queue_state r = answered_state a \<or> canTransitionEdgeQueueState (queue_state r) (answered_state a)" for q n r
    proof -
      have "answered_state a \<notin> {FORWARDING, FAILED_RETRYABLE, UNKNOWN}" by (cases a) simp_all
      with answered_source[OF b t] b(1) a show ?thesis
        unfolding row_book_def answered_row_def by (auto intro!: exI[of _ a])
    qed
  qed
qed

text \<open>Reclamation removes answered rows only.\<close>

lemma reclaim_rows:
  assumes "reclaimSettledInTransaction limit d = Inr (u, d')"
  shows "d' = d\<lparr>operations := filter (\<lambda>r. offline_operation_id r \<notin> set (oldest_settled d limit)) (operations d)\<rparr>"
    "\<And>r. r \<in> set (operations d) \<Longrightarrow> r \<notin> set (operations d') \<Longrightarrow> settled r"
  using assms by (auto simp: reclaimSettledInTransaction_def sql_delete_def settled_def
      edge_queue_no_unsettled_delete_def split: if_splits)

lemma filter_store_ok:
  assumes "store_ok pl s" "d' = (db s)\<lparr>operations := filter P (operations (db s))\<rparr>"
  shows "store_ok pl (s\<lparr>db := d'\<rparr>) \<and> store_before s (s\<lparr>db := d'\<rparr>)"
proof
  have "length (filter (\<lambda>r. settlement_text r = None) (filter P rs))
      \<le> length (filter (\<lambda>r. settlement_text r = None) rs)" for rs
    by (induction rs) auto
  then have "unsettledCount d' \<le> unsettledCount (db s)" by (simp add: unsettledCount_def assms(2))
  moreover have "distinct (map enqueued_edge_monotonic_position (filter P (operations (db s))))"
    using assms(1) by (auto simp: store_ok_def distinct_map_filter)
  moreover have "db_ok pl d'"
    using assms by (auto simp: store_ok_def open_ok_def db_ok_def no_conflicts_filter split: option.splits)
  ultimately show "store_ok pl (s\<lparr>db := d'\<rparr>)" using assms by (auto simp: store_ok_def open_ok_def)
  show "store_before s (s\<lparr>db := d'\<rparr>)"
    using assms(2) by (intro store_beforeI) (auto simp: counter_before_def)
qed

lemma prune_ok:
  assumes "store_ok pl s" "pruneSettled s limit = (res, s')"
  shows "store_ok pl s' \<and> store_before s s'"
proof (cases "s' = s")
  case True
  with assms store_before_refl show ?thesis by simp
next
  case False
  with assms(2) obtain d' where "reclaimSettledInTransaction limit (db s) = Inr ((), d')" "s' = s\<lparr>db := d'\<rparr>"
    by (auto simp: pruneSettled_def transact_def split: if_splits sum.splits)
  with filter_store_ok[OF assms(1) reclaim_rows(1)] show ?thesis by blast
qed

text \<open>Admission, once nothing refuses: one new row at the position the counter gives up.\<close>

definition spent_counter :: "counter_row \<Rightarrow> int \<Rightarrow> counter_row" where
  "spent_counter c n = c\<lparr>next_edge_monotonic_position := next_edge_monotonic_position c + 1,
     last_observed_monotonic_ms := max (last_observed_monotonic_ms c) n\<rparr>"

lemma admit_allocated_effect:
  assumes c: "counter d = Some c"
    and work: "admit_allocated pl s now e payload witness (next_edge_monotonic_position c) d = Inr (a, d')"
  obtains receipt en where "a = ADMITTED en" "witness (next_edge_monotonic_position c) = Inr receipt"
    "stored_operation_ok pl (queued_operation e payload receipt (next_edge_monotonic_position c))"
    "sql_insert pl (admitted_row e payload receipt (next_edge_monotonic_position c) (durableNowMs s now))
       (d\<lparr>counter := Some (spent_counter c (durableNowMs s now))\<rparr>) = Inr d'"
    "find_entry pl d' (env_offline_operation_id e) = Inr (Some en)"
    "counter_checks (spent_counter c (durableNowMs s now))"
proof -
  let ?n = "durableNowMs s now"
  from work obtain d1 where
    d1: "sql_update_counter (\<lambda>x. x\<lparr>next_edge_monotonic_position := next_edge_monotonic_position c + 1,
         last_observed_monotonic_ms := max (last_observed_monotonic_ms x) ?n\<rparr>) d = Inr d1"
    and rest: "(case witness (next_edge_monotonic_position c) of Inl err \<Rightarrow> Inl (Witness_Threw err)
     | Inr receipt \<Rightarrow>
       if \<not> stored_operation_ok pl (queued_operation e payload receipt (next_edge_monotonic_position c)) then Inl Not_Storable
       else and_then (sql (sql_insert pl (admitted_row e payload receipt (next_edge_monotonic_position c) ?n) d1)) (\<lambda>(_, d2).
         and_then (find_entry pl d2 (env_offline_operation_id e)) (\<lambda>found. case found of
           None \<Rightarrow> Inl (Malformed ''the admitted operation is not readable back'')
         | Some en \<Rightarrow> Inr (ADMITTED en, d2)))) = Inr (a, d')"
    by (auto simp: admit_allocated_def Let_def)
  from d1 c have d1': "d1 = d\<lparr>counter := Some (spent_counter c ?n)\<rparr>" "counter_checks (spent_counter c ?n)"
    by (auto simp: sql_update_counter_def spent_counter_def split: if_splits)
  from rest obtain receipt where "witness (next_edge_monotonic_position c) = Inr receipt"
    "stored_operation_ok pl (queued_operation e payload receipt (next_edge_monotonic_position c))"
    and r2: "and_then (sql (sql_insert pl (admitted_row e payload receipt (next_edge_monotonic_position c) ?n) d1)) (\<lambda>(_, d2).
         and_then (find_entry pl d2 (env_offline_operation_id e)) (\<lambda>found. case found of
           None \<Rightarrow> Inl (Malformed ''the admitted operation is not readable back'')
         | Some en \<Rightarrow> Inr (ADMITTED en, d2))) = Inr (a, d')"
    by (auto split: sum.splits if_splits)
  with that d1' show thesis by (auto split: option.splits)
qed

lemma sql_insert_Inr:
  assumes "sql_insert pl r d = Inr d'"
  shows "operations d' = operations d @ [r]" "counter d' = counter d" "row_checks pl r"
    "\<forall>x\<in>set (operations d). \<not> conflicts r x"
  using assms by (auto simp: sql_insert_def split: if_splits)

lemma find_after_insert:
  assumes "sql_insert pl r d = Inr d'" "find_entry pl d' (offline_operation_id r) = Inr (Some en)"
  shows "toEntry pl r = Inr en"
proof -
  from assms(1) have ops: "operations d' = operations d @ [r]"
    "\<forall>x\<in>set (operations d). \<not> conflicts r x"
    by (auto simp: sql_insert_def split: if_splits)
  then have "List.find (\<lambda>x. offline_operation_id x = offline_operation_id r) (operations d) = None"
    by (auto simp: find_None_iff conflicts_def)
  moreover have "List.find P xs = None \<Longrightarrow> P r \<Longrightarrow> List.find P (xs @ [r]) = Some r" for P xs
    by (induction xs) (auto split: if_splits)
  ultimately have "row_of d' (offline_operation_id r) = Some r" by (simp add: row_of_def ops(1))
  with assms(2) show ?thesis by (auto simp: find_entry_def)
qed

lemma admit_allocated_ok:
  assumes ok: "store_ok pl s" and c: "counter (db s) = Some c"
    and cap: "unsettledCount (db s) < maxUnsettled s"
    and work: "admit_allocated pl s0 now e payload witness (next_edge_monotonic_position c) (db s) = Inr (a, d')"
  shows "store_ok pl (s\<lparr>db := d'\<rparr>) \<and> store_before s (s\<lparr>db := d'\<rparr>)"
proof -
  let ?n = "durableNowMs s0 now" and ?p = "next_edge_monotonic_position c"
  let ?d = "(db s)\<lparr>counter := Some (spent_counter c ?n)\<rparr>"
  from admit_allocated_effect[OF c work] obtain receipt en where
    ins: "sql_insert pl (admitted_row e payload receipt ?p ?n) ?d = Inr d'"
    and found: "find_entry pl d' (env_offline_operation_id e) = Inr (Some en)"
    and chk: "counter_checks (spent_counter c ?n)" by metis
  define r where "r = admitted_row e payload receipt ?p ?n"
  have ins': "sql_insert pl r ?d = Inr d'" using ins by (simp add: r_def)
  have rd: "toEntry pl r = Inr en"
    using find_after_insert[OF ins'] found by (simp add: r_def admitted_row_def)
  have ops: "operations d' = operations (db s) @ [r]" "counter d' = Some (spent_counter c ?n)"
    using ins' by (auto simp: sql_insert_def split: if_splits)
  have pos: "\<forall>x\<in>set (operations (db s)). enqueued_edge_monotonic_position x < ?p"
    using ok c by (auto simp: store_ok_def open_ok_def db_ok_def)
  have rp: "enqueued_edge_monotonic_position r = ?p" "first_stored_monotonic_ms r = ?n" "settlement_text r = None"
    by (simp_all add: r_def admitted_row_def)
  have "db_ok pl ?d"
    using ok c chk pos by (auto simp: store_ok_def open_ok_def db_ok_def spent_counter_def)
  then have "db_ok pl d'" by (rule sql_insert_ok[OF _ _ ins']) simp
  moreover have "row_book pl r" using rd by (simp add: row_book_def r_def admitted_row_def)
  moreover have "distinct (map enqueued_edge_monotonic_position (operations d'))"
    using ok pos rp by (auto simp: ops store_ok_def)
  moreover have "unsettledCount d' \<le> maxUnsettled s"
    using cap rp by (simp add: unsettledCount_def ops)
  moreover have "\<forall>x\<in>set (operations d'). first_stored_monotonic_ms x \<le> last_observed_monotonic_ms (spent_counter c ?n)"
  proof
    fix x assume "x \<in> set (operations d')"
    then have "x = r \<or> first_stored_monotonic_ms x \<le> last_observed_monotonic_ms c"
      using ok c by (auto simp: ops store_ok_def)
    then show "first_stored_monotonic_ms x \<le> last_observed_monotonic_ms (spent_counter c ?n)"
      using rp by (auto simp: spent_counter_def)
  qed
  moreover have "counter_schema_version (spent_counter c ?n) = EDGE_QUEUE_SCHEMA_VERSION"
    using ok c by (simp add: store_ok_def spent_counter_def)
  ultimately have "store_ok pl (s\<lparr>db := d'\<rparr>)"
    using ok by (auto simp: store_ok_def open_ok_def ops)
  moreover have "store_before s (s\<lparr>db := d'\<rparr>)"
    using c rp by (intro store_beforeI) (auto simp: counter_before_def ops spent_counter_def)
  ultimately show ?thesis by blast
qed

lemma admit_ok:
  assumes ok: "store_ok pl s" and call: "admit pl s now e payload witness = (res, s')"
  shows "store_ok pl s' \<and> store_before s s'"
proof (cases "admit_work pl s now e payload witness (db s)")
  case (Inl err)
  with call ok store_before_refl show ?thesis by (auto simp: admit_def transact_def)
next
  case (Inr p)
  obtain a d' where p: "p = (a, d')" by fastforce
  from call Inr p have s': "s' = s\<lparr>db := d'\<rparr>" by (auto simp: admit_def transact_def)
  from Inr p obtain d0 where
    d0: "(if settledCount (db s) - settledRetention s > 0
        then reclaimSettledInTransaction (settledCount (db s) - settledRetention s) (db s) else Inr ((), db s)) = Inr ((), d0)"
    by (auto simp: admit_work_def Let_def)
  then have "\<exists>P. d0 = (db s)\<lparr>operations := filter P (operations (db s))\<rparr>"
    using reclaim_rows(1)[of _ "db s" _ d0] by (auto split: if_splits intro: exI[of _ "\<lambda>_. True"])
  then obtain P where "d0 = (db s)\<lparr>operations := filter P (operations (db s))\<rparr>" by blast
  from filter_store_ok[OF ok this] have ok0: "store_ok pl (s\<lparr>db := d0\<rparr>)" "store_before s (s\<lparr>db := d0\<rparr>)" by blast+
  show ?thesis
  proof (cases "d' = d0")
    case True
    with ok0 s' show ?thesis by simp
  next
    case False
    with Inr p d0 obtain c where c: "counter d0 = Some c" "unsettledCount d0 < maxUnsettled s"
      "admit_allocated pl s now e payload witness (next_edge_monotonic_position c) d0 = Inr (a, d')"
      by (auto simp: admit_work_def Let_def readCounter_def split: if_splits option.splits)
    have "store_ok pl (s\<lparr>db := d'\<rparr>) \<and> store_before (s\<lparr>db := d0\<rparr>) (s\<lparr>db := d'\<rparr>)"
      using admit_allocated_ok[OF ok0(1), of c s now e payload witness a d'] c by simp
    with ok0(2) s' store_before_trans show ?thesis by blast
  qed
qed

subsection \<open>A crash and the reopening\<close>

definition recovered :: "row \<Rightarrow> row" where
  "recovered r = (if queue_state r = FORWARDING \<and> settlement_text r = None
     then r\<lparr>queue_state := UNKNOWN, failure_category := Some TRANSPORT_ERROR\<rparr> else r)"

lemma recovered_update_ok:
  assumes "row_checks pl r" "settlement_text r = None"
  shows "update_ok pl r (r\<lparr>queue_state := UNKNOWN, failure_category := Some TRANSPORT_ERROR\<rparr>)"
proof -
  have "check_passes (sql_and (sql_or (Some True) a) (sql_or (Some True) b))" for a b
    by (simp add: check_passes_def)
  with assms show ?thesis
    by (auto simp: update_ok_def row_checks_def edge_queue_settlement_is_final_def
        edge_queue_signed_bytes_immutable_def edge_queue_receipt_is_write_once_def
        edge_queue_settlement_matches_state_def edge_queue_settlement_proves_state_def
        edge_queue_answer_or_reason_def EDGE_QUEUE_SETTLED_STATES_def)
qed

lemma recover_rows:
  assumes "store_ok pl s"
  shows "\<exists>d'. recoverInterruptedAttempts pl (db s) = Inr d' \<and> d' = (db s)\<lparr>operations := map recovered (operations (db s))\<rparr>
     \<and> store_ok pl (s\<lparr>db := d'\<rparr>) \<and> store_before s (s\<lparr>db := d'\<rparr>)"
proof -
  let ?d = "(db s)\<lparr>operations := map recovered (operations (db s))\<rparr>"
  have up: "update_ok pl r (recovered r) \<or> recovered r = r" if "r \<in> set (operations (db s))" for r
    using that assms recovered_update_ok[of pl r] by (auto simp: recovered_def store_ok_def open_ok_def db_ok_def)
  have "recoverInterruptedAttempts pl (db s) = Inr ?d"
    using assms recovered_update_ok
    by (auto simp: recoverInterruptedAttempts_def sql_update_def EDGE_QUEUE_CRASH_INTERRUPTED_STATE_def
        EDGE_QUEUE_CRASH_RECOVERY_CATEGORY_def recovered_def store_ok_def open_ok_def db_ok_def)
  moreover have ch: "rows_changed pl recovered (db s) ?d"
    using up assms clock_forward_refl[of pl "db s"]
    by (auto simp: rows_changed_def clock_forward_def store_ok_def)
  moreover have "row_book pl (recovered r)" if "r \<in> set (operations (db s))" for r
  proof -
    have b: "row_book pl r" "row_checks pl r" using that assms by (auto simp: store_ok_def open_ok_def db_ok_def)
    show ?thesis
    proof (cases "queue_state r = FORWARDING \<and> settlement_text r = None")
      case True
      with readable_after(2)[OF b, of UNKNOWN "Some TRANSPORT_ERROR"] b(1) show ?thesis
        by (auto simp: recovered_def row_book_def settled_state_iff)
    qed (use b in \<open>auto simp: recovered_def\<close>)
  qed
  ultimately show ?thesis using rows_changed_store_ok[OF assms ch] rows_changed_before[of pl recovered s "s\<lparr>db := ?d\<rparr>"] by auto
qed

lemma max_position:
  assumes "highest_position d = Some m"
  shows "\<exists>r\<in>set (operations d). enqueued_edge_monotonic_position r = m"
proof -
  have "m \<in> enqueued_edge_monotonic_position ` set (operations d)"
    using assms Max_in[of "enqueued_edge_monotonic_position ` set (operations d)"]
    by (auto simp: highest_position_def split: if_splits simp del: Max_in)
  then show ?thesis by auto
qed

lemma reopen_succeeds:
  assumes ok: "store_ok pl s" and c: "counter (db s) = Some c"
  shows "open_store pl now m k (db s) = (Inr \<lparr>db = (db s)\<lparr>operations := map recovered (operations (db s))\<rparr>,
     origin = now, base = last_observed_monotonic_ms c, maxUnsettled = m, settledRetention = k\<rparr>,
     (db s)\<lparr>operations := map recovered (operations (db s))\<rparr>)"
proof -
  have "assertCounterAheadOfEveryEntry (db s) (next_edge_monotonic_position c)"
    using ok c max_position[of "db s"]
    by (auto simp: assertCounterAheadOfEveryEntry_def store_ok_def open_ok_def db_ok_def split: option.splits)
  then show ?thesis using ok c recover_rows[OF ok]
    by (auto simp: open_store_def with_counter_def Let_def store_ok_def)
qed

definition reopen :: "platform \<Rightarrow> int \<Rightarrow> store \<Rightarrow> store" where
  "reopen pl now s = (case open_store pl now (maxUnsettled s) (settledRetention s) (db s) of
     (Inr s', _) \<Rightarrow> s' | (Inl _, d) \<Rightarrow> s\<lparr>db := d\<rparr>)"

lemma reopen_ok:
  assumes "store_ok pl s"
  shows "store_ok pl (reopen pl now s) \<and> store_before s (reopen pl now s)"
proof -
  obtain c where c: "counter (db s) = Some c" using assms by (auto simp: store_ok_def open_ok_def)
  let ?d = "(db s)\<lparr>operations := map recovered (operations (db s))\<rparr>"
  have "store_ok pl (s\<lparr>db := ?d\<rparr>)" "store_before s (s\<lparr>db := ?d\<rparr>)" using recover_rows[OF assms] by auto
  then show ?thesis using reopen_succeeds[OF assms c, of now "maxUnsettled s" "settledRetention s"]
    by (simp add: reopen_def store_ok_def store_before_def)
qed

subsection \<open>Runs of the store\<close>

datatype store_op = Admit int envelope string "int \<Rightarrow> string + edge_receipt option" | Prune int
  | Ready int string | Claim int int string | Progress int string central_progress
  | Unanswered int string unknown_reason | Settle int string transport_result | Reopen int

fun perform :: "platform \<Rightarrow> store_op \<Rightarrow> store \<Rightarrow> store" where
  "perform pl (Admit now e payload w) s = snd (admit pl s now e payload w)"
| "perform pl (Prune n) s = snd (pruneSettled s n)"
| "perform pl (Ready now op) s = snd (markReadyToForward pl s now op)"
| "perform pl (Claim now now' op) s = snd (claimForForwarding pl s now now' op)"
| "perform pl (Progress now op p) s = snd (recordCentralProgress pl s now op p)"
| "perform pl (Unanswered now op r) s = snd (recordTransportUnknown pl s now op r)"
| "perform pl (Settle now op a) s = snd (settle pl s now op a)"
| "perform pl (Reopen now) s = reopen pl now s"

lemma perform_ok: "store_ok pl s \<Longrightarrow> store_ok pl (perform pl x s) \<and> store_before s (perform pl x s)"
  using admit_ok prune_ok markReady_ok claim_ok progress_ok unknown_ok settle_ok reopen_ok
  by (cases x) (metis perform.simps surjective_pairing)+

interpretation queue: forward_machine "store_ok pl" "perform pl" store_before for pl
  by unfold_locales (use perform_ok store_before_refl store_before_trans in blast)+

text \<open>The store a first start opens on an empty file.\<close>

definition fresh_store :: "int \<Rightarrow> int \<Rightarrow> int \<Rightarrow> store" where
  "fresh_store now m k = \<lparr>db = with_counter \<lparr>operations = [], counter = None\<rparr>, origin = now, base = 0,
     maxUnsettled = m, settledRetention = k\<rparr>"

lemma fresh_store_ok: "0 \<le> m \<Longrightarrow> store_ok pl (fresh_store now m k)"
  by (simp add: fresh_store_def with_counter_def store_ok_def open_ok_def db_ok_def counter_checks_def
      position_in_range_def EDGE_QUEUE_MAX_MONOTONIC_POSITION_def unsettledCount_def)

lemma fresh_store_opened:
  "fst (open_store pl now m k \<lparr>operations = [], counter = None\<rparr>) = Inr (fresh_store now m k)"
  by (simp add: open_store_def fresh_store_def with_counter_def Let_def assertCounterAheadOfEveryEntry_def
      highest_position_def recoverInterruptedAttempts_def sql_update_def)

subsection \<open>What a step does to unanswered work\<close>

text \<open>An unanswered row is still there after any operation, unanswered unless central answered it.\<close>

definition answered_by :: "store_op \<Rightarrow> row \<Rightarrow> row \<Rightarrow> bool" where
  "answered_by x r r' \<longleftrightarrow> (\<exists>now a. x = Settle now (offline_operation_id r) a \<and> terminal a \<and> transport_ok a
     \<and> settlement_text r' = Some (json_stringify (transport_json a)) \<and> queue_state r' = answered_state a
     \<and> 1 \<le> attempt_count r)"

lemma admit_rows:
  assumes "admit pl s now e payload w = (res, s')" "r \<in> set (operations (db s))" "settlement_text r = None"
  shows "r \<in> set (operations (db s'))"
proof (cases "admit_work pl s now e payload w (db s)")
  case (Inl err)
  with assms show ?thesis by (simp add: admit_def transact_def)
next
  case (Inr p)
  obtain a d' where p: "p = (a, d')" by fastforce
  from assms(1) Inr p have s': "db s' = d'" by (auto simp: admit_def transact_def)
  from Inr p obtain d0 where d0: "(if settledCount (db s) - settledRetention s > 0
        then reclaimSettledInTransaction (settledCount (db s) - settledRetention s) (db s) else Inr ((), db s)) = Inr ((), d0)"
    by (auto simp: admit_work_def Let_def)
  then have r0: "r \<in> set (operations d0)"
    using reclaim_rows(2)[of _ "db s" _ d0 r] assms by (auto simp: settled_def split: if_splits)
  show ?thesis
  proof (cases "d' = d0")
    case True
    with r0 s' show ?thesis by simp
  next
    case False
    with Inr p d0 obtain c where "counter d0 = Some c"
      "admit_allocated pl s now e payload w (next_edge_monotonic_position c) d0 = Inr (a, d')"
      by (auto simp: admit_work_def Let_def readCounter_def split: if_splits option.splits)
    from admit_allocated_effect[OF this] obtain receipt where
      "sql_insert pl (admitted_row e payload receipt (next_edge_monotonic_position c) (durableNowMs s now))
         (d0\<lparr>counter := Some (spent_counter c (durableNowMs s now))\<rparr>) = Inr d'" by metis
    from sql_insert_Inr(1)[OF this] r0 s' show ?thesis by simp
  qed
qed

lemma prune_rows:
  assumes "pruneSettled s n = (res, s')" "r \<in> set (operations (db s))" "settlement_text r = None"
  shows "r \<in> set (operations (db s'))"
proof (cases "s' = s")
  case False
  with assms(1) obtain d' where "reclaimSettledInTransaction n (db s) = Inr ((), d')" "s' = s\<lparr>db := d'\<rparr>"
    by (auto simp: pruneSettled_def transact_def split: if_splits sum.splits)
  with reclaim_rows(2)[of n "db s" "()" d' r] assms show ?thesis by (auto simp: settled_def)
qed (use assms in simp)

lemma perform_rows:
  assumes ok: "store_ok pl s" and r: "r \<in> set (operations (db s))" and un: "settlement_text r = None"
  shows "\<exists>r'\<in>set (operations (db (perform pl x s))). follows r r'
     \<and> (settlement_text r' = None \<or> answered_by x r r')"
proof (cases x)
  case (Admit now e payload w)
  obtain res s' where c: "admit pl s now e payload w = (res, s')" by fastforce
  from admit_rows[OF c r un] un c Admit show ?thesis by (auto intro!: bexI[of _ r])
next
  case (Prune n)
  obtain res s' where c: "pruneSettled s n = (res, s')" by fastforce
  from prune_rows[OF c r un] un c Prune show ?thesis by (auto intro!: bexI[of _ r])
next
  case (Ready now op)
  obtain res s' where c: "markReadyToForward pl s now op = (res, s')" by fastforce
  from ready.gate_rows[OF ok c[unfolded markReadyToForward_def] r] un c Ready show ?thesis
    by (auto simp: ready_row_def)
next
  case (Claim now now' op)
  obtain res s' where c: "claimForForwarding pl s now now' op = (res, s')" by fastforce
  from claim.gate_rows[OF ok c[unfolded claimForForwarding_def] r] un c Claim show ?thesis
    by (auto simp: claimed_row_def)
next
  case (Progress now op p)
  obtain res s' where c: "recordCentralProgress pl s now op p = (res, s')" by fastforce
  from progress.gate_rows[OF ok c[unfolded recordCentralProgress_def] r] un c Progress show ?thesis
    by (auto simp: progressed_row_def)
next
  case (Unanswered now op reason)
  obtain res s' where c: "recordTransportUnknown pl s now op reason = (res, s')" by fastforce
  from unanswered.gate_rows[OF ok c[unfolded recordTransportUnknown_def Let_def] r] un c Unanswered show ?thesis
    by (auto simp: unanswered_row_def)
next
  case (Settle now op a)
  obtain res s' where c: "settle pl s now op a = (res, s')" by fastforce
  have b: "row_book pl r" "row_checks pl r" using ok r by (auto simp: store_ok_def open_ok_def db_ok_def)
  from settle_call[OF c] show ?thesis
  proof (elim disjE conjE)
    assume "s' = s"
    with r un c Settle show ?thesis by (auto intro!: bexI[of _ r])
  next
    assume a: "terminal a" "transport_ok a"
      and call: "transitionTo s now op (answered_state a)
       (\<lambda>_ _ d. and_then (update_one pl op (\<lambda>r. r\<lparr>queue_state := answered_state a,
           settlement_text := Some (json_stringify (transport_json a)), failure_category := None\<rparr>) d)
         (\<lambda>(_, d'). set_unknown_count (\<lambda>_. 0) d')) = (res, s')"
    from answer.gate_rows[OF ok call r] obtain r' where r': "r' \<in> set (operations (db s'))" "follows r r'"
      "r' = r \<or> (offline_operation_id r = op \<and> r' = answered_row a (queue_state r) (attempt_count r) r
         \<and> (queue_state r = answered_state a \<or> canTransitionEdgeQueueState (queue_state r) (answered_state a)))"
      by blast
    have "settlement_text r' = None \<or> answered_by x r r'"
      using r'(3) un a answered_source[OF b(1) un b(2)] Settle by (auto simp: answered_by_def answered_row_def)
    with r' c Settle show ?thesis by auto
  qed
next
  case (Reopen now)
  obtain c where c: "counter (db s) = Some c" using ok by (auto simp: store_ok_def open_ok_def)
  have "operations (db (perform pl x s)) = map recovered (operations (db s))"
    using reopen_succeeds[OF ok c] Reopen by (simp add: reopen_def)
  moreover have "follows r (recovered r)"
    by (auto simp: follows_def recovered_def edge_queue_signed_bytes_immutable_def settled_def)
  moreover have "settlement_text (recovered r) = None" using un by (simp add: recovered_def)
  ultimately show ?thesis using r by auto
qed

end
