(* ===== verification/Edge_Queue_Properties.thy ===== *)
theory Edge_Queue_Properties
  imports Edge_Queue_Correct
begin

text \<open>
  The properties of the Edge's durable store, over the invariant, the step lemmas and the machine
  interpretation of \<open>Edge_Queue_Correct\<close>, with an example store on a concrete platform.
\<close>

subsection \<open>An example store\<close>

definition example_envelope :: envelope where
  "example_envelope = \<lparr>env_schema_version = 1, env_offline_operation_id = ''op-1'',
     env_organisation_id = ''org'', env_site_id = ''site'', env_actor_user_id = ''actor'', env_device_id = ''device'',
     env_key_id = ''key'', env_key_version = 1, env_operation_kind = FIELD_ASSIGNMENT_ACCEPT,
     env_device_sequence = 0, env_idempotency_key = ''idem'', env_payload_digest = replicate 64 CHR ''a'',
     env_policy_lease_id = ''lease'', env_nonce = replicate 16 CHR ''n'', env_created_at = ''t'',
     env_claimed_signature_profile = ''P256_ECDSA_SHA256'',
     env_signature = to_base64url (bigIntToScalarBytes 1 @ bigIntToScalarBytes 1)\<rparr>"

definition example_world :: platform where
  "example_world = example_platform
     [JObj [], envelope_json example_envelope, transport_json (CENTRAL_ACCEPTED ''ref'')]"

lemma example_signature: "device_signature_ok (env_signature example_envelope)"
proof -
  have "encodeCanonicalP256Signature 1 1 = Inr (env_signature example_envelope)"
    by (simp add: encodeCanonicalP256Signature_def isLowS_def P256_CURVE_ORDER_def P256_HALF_CURVE_ORDER_def
        example_envelope_def)
  from decode_encode[OF this] show ?thesis by (simp add: device_signature_ok_def)
qed

lemma example_envelope_ok: "envelope_ok pl example_envelope"
  if "uuid_format pl ''op-1''" "datetime_format pl ''t''"
  using that example_signature
  by (simp add: envelope_ok_def example_envelope_def scopedId_def DeviceKeyVersion_def deviceSequence_def
      MAX_OFFLINE_DEVICE_SEQUENCE_def DeviceDigest_def DeviceNonce_def isApprovedDeviceSignatureProfile_def
      DEVICE_SIGNATURE_PROFILES_def list_all_iff)

lemma example_text: "json_stringify (envelope_json e) \<noteq> ''{}''"
proof
  assume "json_stringify (envelope_json e) = ''{}''"
  then have "json_stringify (envelope_json e) @ [] = json_stringify (JObj []) @ []" by simp
  then have "envelope_json e = JObj []" using stringify_prefix[of "envelope_json e" "JObj []" "[]" "[]"] by simp
  then show False by (simp add: envelope_json_def)
qed

lemma example_parse: "json_parse example_world (json_stringify (envelope_json example_envelope)) = Some (envelope_json example_envelope)"
    "json_parse example_world ''{}'' = Some (JObj [])"
  using example_text[of example_envelope] by (auto simp: example_world_def example_platform_def)

lemma example_payload: "payload_bytes_ok example_world ''{}'' (replicate 64 CHR ''a'')"
  using example_parse(2)
  by (simp add: payload_bytes_ok_def canonical_device_json_def device_canonical_digest_def own_order_def
      example_world_def example_platform_def)

subsection \<open>Admission\<close>

lemma admit_cases:
  assumes "admit pl s now e payload w = (Inr a, s')"
  obtains d0 where "\<exists>P. d0 = (db s)\<lparr>operations := filter P (operations (db s))\<rparr>"
    "\<forall>r\<in>set (operations (db s)). settlement_text r = None \<longrightarrow> r \<in> set (operations d0)"
    "(db s' = d0 \<and> (\<forall>en. a \<noteq> ADMITTED en)) \<or> (\<exists>c. counter d0 = Some c \<and> unsettledCount d0 < maxUnsettled s
       \<and> admit_allocated pl s now e payload w (next_edge_monotonic_position c) d0 = Inr (a, db s'))"
proof -
  obtain d' where work: "admit_work pl s now e payload w (db s) = Inr (a, d')" and s': "s' = s\<lparr>db := d'\<rparr>"
    using assms by (auto simp: admit_def transact_def split: sum.splits)
  then obtain d0 where d0: "(if settledCount (db s) - settledRetention s > 0
        then reclaimSettledInTransaction (settledCount (db s) - settledRetention s) (db s) else Inr ((), db s)) = Inr ((), d0)"
    by (auto simp: admit_work_def Let_def)
  have 1: "\<exists>P. d0 = (db s)\<lparr>operations := filter P (operations (db s))\<rparr>"
    using d0 reclaim_rows(1)[of _ "db s" _ d0] by (auto split: if_splits intro: exI[of _ "\<lambda>_. True"])
  have 2: "\<forall>r\<in>set (operations (db s)). settlement_text r = None \<longrightarrow> r \<in> set (operations d0)"
  proof (intro ballI impI)
    fix r assume "r \<in> set (operations (db s))" "settlement_text r = None"
    with d0 reclaim_rows(2)[of "settledCount (db s) - settledRetention s" "db s" "()" d0 r]
    show "r \<in> set (operations d0)" by (auto simp: settled_def split: if_splits)
  qed
  have "(db s' = d0 \<and> (\<forall>en. a \<noteq> ADMITTED en)) \<or> (\<exists>c. counter d0 = Some c \<and> unsettledCount d0 < maxUnsettled s
       \<and> admit_allocated pl s now e payload w (next_edge_monotonic_position c) d0 = Inr (a, db s'))"
    using work d0 s' by (auto simp: admit_work_def Let_def readCounter_def split: if_splits option.splits)
  with 1 2 that show thesis by blast
qed

lemma allocated_outcome:
  assumes "counter d0 = Some c" "admit_allocated pl s now e payload witness (next_edge_monotonic_position c) d0 = Inr (a, d')"
  shows "\<exists>en receipt r. a = ADMITTED en \<and> witness (next_edge_monotonic_position c) = Inr receipt
    \<and> map_option next_edge_monotonic_position (counter d') = Some (next_edge_monotonic_position c + 1)
    \<and> operations d' = operations d0 @ [r] \<and> toEntry pl r = Inr en
    \<and> offline_operation_id r = env_offline_operation_id e \<and> queue_state r = STORED_LOCAL
    \<and> enqueued_edge_monotonic_position r = next_edge_monotonic_position c \<and> envelope_text r = json_stringify (envelope_json e)
    \<and> payload_canonical_json r = payload \<and> sha pl payload = env_payload_digest e
    \<and> (\<forall>x\<in>set (operations d'). conflicts r x \<longrightarrow> x = r)"
proof -
  let ?p = "next_edge_monotonic_position c" and ?n = "durableNowMs s now"
  from admit_allocated_effect[OF assms] obtain receipt en where eff: "a = ADMITTED en" "witness ?p = Inr receipt"
    "stored_operation_ok pl (queued_operation e payload receipt ?p)"
    "sql_insert pl (admitted_row e payload receipt ?p ?n) (d0\<lparr>counter := Some (spent_counter c ?n)\<rparr>) = Inr d'"
    "find_entry pl d' (env_offline_operation_id e) = Inr (Some en)" by metis
  define r where "r = admitted_row e payload receipt ?p ?n"
  note ins = sql_insert_Inr[OF eff(4)[folded r_def]]
  have "toEntry pl r = Inr en"
    using find_after_insert[OF eff(4)[folded r_def]] eff(5) by (simp add: r_def admitted_row_def)
  moreover have "sha pl payload = env_payload_digest e"
    using eff(3) payload_bytes_digest by (auto simp: stored_operation_ok_def queued_operation_def)
  moreover have "\<forall>x\<in>set (operations d'). conflicts r x \<longrightarrow> x = r" using ins(1,4) by auto
  moreover have "map_option next_edge_monotonic_position (counter d') = Some (?p + 1)"
    using ins(2) by (simp add: spent_counter_def)
  moreover have "offline_operation_id r = env_offline_operation_id e" "queue_state r = STORED_LOCAL"
    "enqueued_edge_monotonic_position r = ?p" "envelope_text r = json_stringify (envelope_json e)"
    "payload_canonical_json r = payload"
    by (simp_all add: r_def admitted_row_def)
  ultimately show ?thesis using eff(1,2) ins(1) by auto
qed


lemma example_insert_row: "row_checks example_world (admitted_row example_envelope ''{}'' None 0 0)"
  by (simp add: row_checks_def admitted_row_def example_envelope_def example_world_def example_platform_def
      EDGE_QUEUE_SCHEMA_VERSION_def sql_length_def position_in_range_def EDGE_QUEUE_MAX_MONOTONIC_POSITION_def
      edge_queue_settlement_matches_state_def edge_queue_settlement_proves_state_def
      edge_queue_answer_or_reason_def EDGE_QUEUE_SETTLED_STATES_def outcome_is_def check_passes_def)

text \<open>The read back of a fresh row returns what was admitted.\<close>

lemma admitted_entry:
  assumes "stored_operation_ok pl (queued_operation e payload receipt p)"
    and "json_faithful pl (envelope_json e)" "\<And>r. receipt = Some r \<Longrightarrow> json_faithful pl (receipt_json r)"
  shows "toEntry pl (admitted_row e payload receipt p n) = Inr \<lparr>stored = queued_operation e payload receipt p,
     queueState = STORED_LOCAL, attemptCount = 0, failureCategory = Some NOT_ATTEMPTED,
     firstStoredMonotonicMs = n, lastAttemptMonotonicMs = None, nextAttemptMonotonicMs = n\<rparr>"
proof -
  have e: "parse_envelope pl (envelope_json e) = Some e"
    using assms(1) by (intro parse_envelope_json) (simp add: stored_operation_ok_def queued_operation_def)
  have "read_column pl (parse_receipt pl) (map_option (\<lambda>r. json_stringify (receipt_json r)) receipt) = Inr receipt"
  proof (cases receipt)
    case (Some r)
    then have "parse_receipt pl (receipt_json r) = Some r"
      using assms(1) by (intro parse_receipt_json) (simp add: stored_operation_ok_def queued_operation_def)
    with Some assms(3)[OF Some] show ?thesis by (simp add: read_column_def parseJsonColumn_def json_faithful_def)
  qed (simp add: read_column_def)
  with e assms(1,2) show ?thesis
    by (simp add: toEntry_def admitted_row_def parseJsonColumn_def json_faithful_def read_column_def Let_def
        queued_operation_def toEdgeOperationState_def settled_state_iff assertDerivedColumnsAgree_def
        EDGE_QUEUE_INITIAL_FAILURE_CATEGORY_def)
qed

definition nul_free :: "string \<Rightarrow> bool" where
  "nul_free s \<longleftrightarrow> CHR 0x00 \<notin> set s"

lemma sql_length_nul_free: "nul_free s \<Longrightarrow> sql_length s = length s"
  unfolding sql_length_def nul_free_def by (subst takeWhile_eq_all_conv[THEN iffD2]) auto

lemma digest_nul_free: "DeviceDigest s \<Longrightarrow> nul_free s"
  by (auto simp: DeviceDigest_def nul_free_def list_all_iff is_digit_def)

lemma admitted_row_checks:
  assumes ok: "stored_operation_ok pl (queued_operation e payload receipt p)"
    and "json_faithful pl (envelope_json e)" "\<And>r. receipt = Some r \<Longrightarrow> json_faithful pl (receipt_json r)"
    and nul: "\<forall>t\<in>{payload, env_organisation_id e, env_site_id e, env_actor_user_id e, env_device_id e,
      env_policy_lease_id e}. nul_free t"
    and "0 \<le> n"
  shows "row_checks pl (admitted_row e payload receipt p n)"
proof -
  have e: "envelope_ok pl e" "2 \<le> length payload" "deviceSequence p"
    using ok by (simp_all add: stored_operation_ok_def queued_operation_def)
  then have "nul_free (env_payload_digest e)" by (intro digest_nul_free) (simp add: envelope_ok_def)
  with e nul assms(2,3,5) show ?thesis
    by (cases receipt) (auto simp: row_checks_def admitted_row_def EDGE_QUEUE_SCHEMA_VERSION_def json_faithful_def
        sql_length_nul_free envelope_ok_def scopedId_def DeviceDigest_def deviceSequence_def
        MAX_OFFLINE_DEVICE_SEQUENCE_def position_in_range_def EDGE_QUEUE_MAX_MONOTONIC_POSITION_def
        edge_queue_settlement_matches_state_def edge_queue_settlement_proves_state_def
        edge_queue_answer_or_reason_def EDGE_QUEUE_SETTLED_STATES_def outcome_is_def check_passes_def)
qed

lemma reclaim_succeeds:
  assumes "db_ok pl d"
  shows "\<exists>P. reclaimSettledInTransaction limit d = Inr ((), d\<lparr>operations := filter P (operations d)\<rparr>)"
proof -
  have "settlement_text r \<noteq> None" if "r \<in> set (operations d)" "offline_operation_id r \<in> set (oldest_settled d limit)" for r
  proof -
    from that(2) obtain x where x: "x \<in> set (operations d)" "settlement_text x \<noteq> None"
      "offline_operation_id x = offline_operation_id r"
      by (auto simp: oldest_settled_def sql_limit_def dest!: in_set_takeD split: if_splits)
    then have "r = x" using no_conflicts_same_id[of "operations d" r x] assms that(1)
      by (auto simp: db_ok_def conflicts_def)
    with x show ?thesis by simp
  qed
  then show ?thesis
    by (auto simp: reclaimSettledInTransaction_def sql_delete_def edge_queue_no_unsettled_delete_def)
qed

lemma reclaim_runs:
  assumes "db_ok pl d"
  obtains P where "(if n > 0 then reclaimSettledInTransaction n d else Inr ((), d)) = Inr ((), d\<lparr>operations := filter P (operations d)\<rparr>)"
  using reclaim_succeeds[OF assms, of n] that[of "\<lambda>_. True"] that by (cases "n > 0") auto

lemma row_of_appended:
  "row_of d i = None \<Longrightarrow> offline_operation_id r = i \<Longrightarrow> row_of (d\<lparr>counter := c, operations := operations d @ [r]\<rparr>) i = Some r"
proof -
  have "List.find Q xs = None \<Longrightarrow> Q r \<Longrightarrow> List.find Q (xs @ [r]) = Some r" for Q xs
    by (induction xs) (auto split: if_splits)
  then show "row_of d i = None \<Longrightarrow> offline_operation_id r = i \<Longrightarrow> ?thesis" by (simp add: row_of_def)
qed

lemma unsettled_fewer: "unsettledCount (d\<lparr>operations := filter P (operations d)\<rparr>) \<le> unsettledCount d"
proof -
  have "length (filter Q (filter P xs)) \<le> length (filter Q xs)" for Q :: "row \<Rightarrow> bool" and xs by (induction xs) auto
  then show ?thesis by (simp add: unsettledCount_def del: filter_filter)
qed


lemma example_stored: "stored_operation_ok example_world (queued_operation example_envelope ''{}'' None 0)"
proof -
  have "envelope_ok example_world example_envelope"
    by (intro example_envelope_ok) (simp_all add: example_world_def example_platform_def)
  moreover have "env_payload_digest example_envelope = replicate 64 CHR ''a''" by (simp add: example_envelope_def)
  ultimately show ?thesis using example_payload
    by (simp add: stored_operation_ok_def queued_operation_def deviceSequence_def MAX_OFFLINE_DEVICE_SEQUENCE_def)
qed

lemma example_faithful: "json_faithful example_world (envelope_json example_envelope)"
  using example_parse(1) by (simp add: json_faithful_def) (simp add: example_world_def example_platform_def)


text \<open>The example store: one admitted operation, ready, claimed.\<close>

definition example_store :: store where
  "example_store = perform example_world (Admit 0 example_envelope ''{}'' (\<lambda>_. Inr None)) (fresh_store 0 4096 1024)"

lemma example_store_ok: "store_ok example_world example_store"
  unfolding example_store_def by (rule conjunct1[OF perform_ok[OF fresh_store_ok]]) simp

lemma example_store_rows: "operations (db example_store) = [admitted_row example_envelope ''{}'' None 0 0]"
proof -
  let ?r = "admitted_row example_envelope ''{}'' None 0 0"
  have e: "toEntry example_world ?r \<noteq> Inl err" for err
    using admitted_entry[OF example_stored example_faithful, of 0] by simp
  have n: "durableNowMs (fresh_store 0 4096 1024) 0 = 0" by (simp add: durableNowMs_def fresh_store_def)
  show ?thesis
    using admitted_entry[OF example_stored example_faithful, of 0] example_insert_row example_stored n
    by (simp add: example_store_def admit_def transact_def admit_work_def Let_def fresh_store_def with_counter_def
        settledCount_def unsettledCount_def find_entry_def row_of_def position_held_def readCounter_def
        EDGE_QUEUE_MAX_MONOTONIC_POSITION_def admit_allocated_def sql_update_counter_def
        edge_queue_counter_never_rewinds_def counter_checks_def position_in_range_def sql_insert_def
        edge_queue_position_below_counter_def) (simp add: admitted_row_def)
qed


subsection \<open>Runs\<close>



text \<open>
  C1: Only central ends an entry. Along every run of store operations, admissions, claims,
  retries, prunes and reopens included, a row that is not settled stays in the queue, with its
  signed bytes unchanged, until the first operation that settles it; and that operation is a
  settle call of this entry with a terminal answer of central, whose text is the settlement stored
  and whose outcome is the state reached. So no sequence of operations drops an operation, or
  shows it applied, without an answer.
\<close>

theorem only_central_ends_an_entry:
  assumes "store_ok pl s" "r \<in> set (operations (db s))" "settlement_text r = None"
  shows "\<exists>k\<le>length xs. \<exists>r'\<in>set (operations (db (fold (perform pl) (take k xs) s))). follows r r' \<and>
     (if k = length xs \<and> settlement_text r' = None then True
      else 0 < k \<and> (\<exists>r''\<in>set (operations (db (fold (perform pl) (take (k - 1) xs) s))).
             follows r r'' \<and> answered_by (xs ! (k - 1)) r'' r'))"
proof (induction xs rule: rev_induct)
  case Nil
  with assms show ?case by (auto intro!: bexI[of _ r])
next
  case (snoc x xs)
  then obtain k r' where k: "k \<le> length xs" "r' \<in> set (operations (db (fold (perform pl) (take k xs) s)))"
    "follows r r'" and alt: "if k = length xs \<and> settlement_text r' = None then True
      else 0 < k \<and> (\<exists>r''\<in>set (operations (db (fold (perform pl) (take (k - 1) xs) s))).
             follows r r'' \<and> answered_by (xs ! (k - 1)) r'' r')" by blast
  show ?case
  proof (cases "k = length xs \<and> settlement_text r' = None")
    case False
    with alt have a: "0 < k" "\<exists>r''\<in>set (operations (db (fold (perform pl) (take (k - 1) xs) s))).
             follows r r'' \<and> answered_by (xs ! (k - 1)) r'' r'" by (simp_all only: if_False)
    have "k - 1 < length xs" using a(1) k(1) by simp
    then have "take (k - 1) (xs @ [x]) = take (k - 1) xs" "(xs @ [x]) ! (k - 1) = xs ! (k - 1)"
      "take k (xs @ [x]) = take k xs" using k(1) by (simp_all add: nth_append)
    with a k show ?thesis by (intro exI[of _ k]) auto
  next
    case True
    let ?s = "fold (perform pl) xs s"
    have ok: "store_ok pl ?s" by (rule queue.run_inv[OF assms(1)])
    have r': "r' \<in> set (operations (db ?s))" using k(2) True by simp
    have un: "settlement_text r' = None" using True by simp
    from perform_rows[OF ok r' un, of x] obtain r'' where r'':
      "r'' \<in> set (operations (db (perform pl x ?s)))" "follows r' r''"
      "settlement_text r'' = None \<or> answered_by x r' r''" by blast
    have "follows r r''" using k(3) r''(2) follows_trans by blast
    with r'' r' k(3) show ?thesis by (intro exI[of _ "Suc (length xs)"] conjI bexI[of _ r'']) (auto simp: nth_append)
  qed
qed

theorem only_central_ends_an_entry_witness:
  "\<exists>xs. xs = [Claim 0 0 ''op-1'', Reopen 3, Prune 9, Settle 4 ''op-1'' (CENTRAL_ACCEPTED ''ref'')]
     \<and> (\<exists>k\<le>length xs. \<exists>r'\<in>set (operations (db (fold (perform example_world) (take k xs) example_store))).
          follows (admitted_row example_envelope ''{}'' None 0 0) r'
          \<and> (k = length xs \<and> settlement_text r' = None \<or> 0 < k))"
proof -
  let ?r = "admitted_row example_envelope ''{}'' None 0 0"
  have "?r \<in> set (operations (db example_store))" "settlement_text ?r = None"
    by (simp_all add: example_store_rows) (simp add: admitted_row_def)
  from only_central_ends_an_entry[OF example_store_ok this,
      of "[Claim 0 0 ''op-1'', Reopen 3, Prune 9, Settle 4 ''op-1'' (CENTRAL_ACCEPTED ''ref'')]"]
  show ?thesis by (simp only: simp_thms ex_simps) (metis (no_types, lifting))
qed

subsection \<open>The heads\<close>

lemma map_result_all: "(\<And>x. x \<in> set xs \<Longrightarrow> \<exists>y. f x = Inr y) \<Longrightarrow> \<exists>ys. map_result f xs = Inr ys"
proof (induction xs)
  case (Cons x xs)
  then obtain y ys where "f x = Inr y" "map_result f xs = Inr ys" by fastforce
  then show ?case by simp
qed simp

lemma set_sql_limit: "set (sql_limit n xs) \<subseteq> set xs"
  by (auto simp: sql_limit_def dest: in_set_takeD)

lemma head_rows_set: "r \<in> set (head_rows s now limit) \<Longrightarrow> r \<in> set (operations (db s)) \<and> settlement_text r = None
    \<and> queue_state r \<in> set EDGE_QUEUE_FORWARDABLE_STATES \<and> next_attempt_monotonic_ms r \<le> durableNowMs s now
    \<and> is_head (db s) r"
  using set_sql_limit by (fastforce simp: head_rows_def)

lemma is_head_le: "is_head d r \<Longrightarrow> h \<in> set (operations d) \<Longrightarrow> settlement_text h = None
    \<Longrightarrow> namespace h = namespace r \<Longrightarrow> device_sequence r \<le> device_sequence h"
  by (auto simp: is_head_def unsettled_in_def intro!: Min_le)

lemma sql_limit_all: "int (length xs) \<le> n \<or> n < 0 \<Longrightarrow> sql_limit n xs = xs"
  by (auto simp: sql_limit_def)

lemma sorted_sql_limit: "sorted (map f xs) \<Longrightarrow> sorted (map f (sql_limit n xs))"
  by (auto simp: sql_limit_def sorted_wrt_take take_map[symmetric])

lemma distinct_sql_limit: "distinct xs \<Longrightarrow> distinct (sql_limit n xs)"
  by (simp add: sql_limit_def)



subsection \<open>Calls that succeed\<close>

lemma update_one_succeeds:
  assumes "open_ok pl d" "row_of d op = Some r" "update_ok pl r (f r)"
  shows "update_one pl op f d = Inr ((), d\<lparr>operations := map (\<lambda>x. if x = r then f r else x) (operations d)\<rparr>)"
proof -
  have id: "offline_operation_id x = op \<longleftrightarrow> x = r" if "x \<in> set (operations d)" for x
    using row_of_unique[OF assms(1,2) that] .
  then have "map (\<lambda>x. if offline_operation_id x = op then f x else x) (operations d)
      = map (\<lambda>x. if x = r then f r else x) (operations d)" by auto
  with id assms(3) show ?thesis by (simp add: update_one_def sql_update_def)
qed

lemma set_unknown_count_succeeds:
  "counter d = Some c \<Longrightarrow> counter_checks c \<Longrightarrow> 0 \<le> g (consecutive_unknown_transport_results c)
    \<Longrightarrow> set_unknown_count g d = Inr ((), d\<lparr>counter := Some (c\<lparr>consecutive_unknown_transport_results :=
       g (consecutive_unknown_transport_results c)\<rparr>)\<rparr>)"
  by (simp add: set_unknown_count_def sql_update_counter_def edge_queue_counter_never_rewinds_def counter_checks_def)

lemma markClock_succeeds:
  "counter d = Some c \<Longrightarrow> counter_checks c \<Longrightarrow> markClock s now d = Inr ((), d\<lparr>counter :=
     Some (c\<lparr>last_observed_monotonic_ms := max (last_observed_monotonic_ms c) (durableNowMs s now)\<rparr>)\<rparr>)"
  by (auto simp: markClock_def sql_update_counter_def edge_queue_counter_never_rewinds_def counter_checks_def)

lemma row_of_map:
  assumes "open_ok pl d" "row_of d op = Some r" "offline_operation_id r' = op"
    and "operations d' = map (\<lambda>x. if x = r then r' else x) (operations d)"
  shows "row_of d' op = Some r'"
proof -
  have "\<forall>x\<in>set xs. offline_operation_id x = op \<longleftrightarrow> x = r \<Longrightarrow> r \<in> set xs \<Longrightarrow>
     List.find (\<lambda>x. offline_operation_id x = op) (map (\<lambda>x. if x = r then r' else x) xs) = Some r'" for xs
    using assms(3) by (induction xs) auto
  from this[of "operations d"] show ?thesis
    using row_of_unique[OF assms(1,2)] row_of_Some[OF assms(2)] assms(4) by (simp add: row_of_def)
qed

text \<open>A legal rewriting that passes the constraints goes through.\<close>

lemma gate_succeeds:
  assumes ok: "store_ok pl s" and r: "row_of (db s) op = Some r" "settlement_text r = None"
    and legal: "queue_state r = to \<or> canTransitionEdgeQueueState (queue_state r) to"
    and a: "apply_row (queue_state r) (attempt_count r) (db s) = Inr ((), dn)"
    and fx: "operations dn = map (\<lambda>x. if x = r then r' else x) (operations (db s))"
      "counter dn = Some cn" "counter_checks cn" "offline_operation_id r' = op"
  shows "\<exists>s'. transitionTo s now op to apply_row = (Inr True, s') \<and> row_of (db s') op = Some r'"
proof -
  let ?d = "dn\<lparr>counter := Some (cn\<lparr>last_observed_monotonic_ms :=
    max (last_observed_monotonic_ms cn) (durableNowMs s now)\<rparr>)\<rparr>"
  have "transition_work s now op to apply_row (db s) = Inr (True, ?d)"
    using r legal a markClock_succeeds[OF fx(2,3)] by (auto simp: transition_work_def)
  then have "transitionTo s now op to apply_row = (Inr True, s\<lparr>db := ?d\<rparr>)"
    by (simp add: transitionTo_def transact_def)
  moreover have "open_ok pl (db s)" using ok by (simp add: store_ok_def)
  then have "row_of ?d op = Some r'" by (rule row_of_map[OF _ r(1) fx(4)]) (simp add: fx(1))
  ultimately show ?thesis by (intro exI[of _ "s\<lparr>db := ?d\<rparr>"]) simp
qed

lemma row_facts:
  assumes "store_ok pl s" "row_of (db s) op = Some r"
  shows "row_checks pl r" "row_book pl r" "offline_operation_id r = op" "r \<in> set (operations (db s))"
  using assms row_of_Some[OF assms(2)] by (auto simp: store_ok_def open_ok_def db_ok_def)

definition outcome_name :: "transport_result \<Rightarrow> string" where
  "outcome_name a = (case a of CENTRAL_ACCEPTED _ \<Rightarrow> ''CENTRAL_ACCEPTED'' | CENTRAL_REFUSED _ \<Rightarrow> ''CENTRAL_REFUSED''
     | Unknown _ \<Rightarrow> ''UNKNOWN'')"

lemma answered_row_update_ok:
  assumes "row_checks pl r" "settlement_text r = None" "terminal a"
    and "sql_json_valid pl (json_stringify (transport_json a))"
    and "sql_json_outcome pl (json_stringify (transport_json a)) = SqlText (outcome_name a)"
  shows "update_ok pl r (answered_row a q n r)"
proof (cases a)
  case (CENTRAL_ACCEPTED x1)
  with assms show ?thesis
    by (simp add: update_ok_def row_checks_def answered_row_def edge_queue_settlement_is_final_def
        edge_queue_signed_bytes_immutable_def edge_queue_receipt_is_write_once_def
        edge_queue_settlement_matches_state_def edge_queue_settlement_proves_state_def
        edge_queue_answer_or_reason_def EDGE_QUEUE_SETTLED_STATES_def
        EDGE_QUEUE_CENTRAL_ACKNOWLEDGED_STATES_def outcome_is_def check_passes_def outcome_name_def
        del: transport_json.simps) auto
next
  case (CENTRAL_REFUSED x2)
  with assms show ?thesis
    by (simp add: update_ok_def row_checks_def answered_row_def edge_queue_settlement_is_final_def
        edge_queue_signed_bytes_immutable_def edge_queue_receipt_is_write_once_def
        edge_queue_settlement_matches_state_def edge_queue_settlement_proves_state_def
        edge_queue_answer_or_reason_def EDGE_QUEUE_SETTLED_STATES_def
        EDGE_QUEUE_CENTRAL_ACKNOWLEDGED_STATES_def outcome_is_def check_passes_def outcome_name_def
        del: transport_json.simps) auto
qed (use assms in simp)

text \<open>
  C5: An answer is recorded, and recorded once. Settling an entry that is in flight with a
  terminal answer succeeds, reaches the state the answer's outcome names, stores the answer's text
  and clears the failure category; afterwards every further settle, claim, unknown result,
  progress report or ready mark on the entry answers false and changes nothing (or refuses an ill-
  formed argument), so an answer is applied once.
\<close>

theorem answer_is_recorded_and_final:
  assumes ok: "store_ok pl s" and r: "row_of (db s) op = Some r" "settlement_text r = None"
    and st: "queue_state r \<in> {FORWARDING, CENTRAL_RECEIVED, CENTRAL_APPLYING}"
    and a: "terminal a" "transport_ok a" "sql_json_valid pl (json_stringify (transport_json a))"
      "sql_json_outcome pl (json_stringify (transport_json a)) = SqlText (outcome_name a)"
  shows "\<exists>s' r'. settle pl s now op a = (Inr True, s') \<and> row_of (db s') op = Some r'
     \<and> queue_state r' = (case a of CENTRAL_ACCEPTED _ \<Rightarrow> CENTRAL_APPLIED | _ \<Rightarrow> FAILED_TERMINAL)
     \<and> settlement_text r' = Some (json_stringify (transport_json a)) \<and> failure_category r' = None
     \<and> settle pl s' t op b = (if \<not> transport_ok b then Inl Contract_Parse
          else if \<not> terminal b then Inl (Transition FORWARDING CENTRAL_APPLIED) else Inr False, s')
     \<and> claimForForwarding pl s' t t' op = (Inr False, s')
     \<and> recordTransportUnknown pl s' t op reason = (Inr False, s')
     \<and> recordCentralProgress pl s' t op progress = (Inr False, s')
     \<and> markReadyToForward pl s' t op = (Inr False, s')"
proof -
  note f = row_facts[OF ok r(1)]
  let ?g = "\<lambda>r. r\<lparr>queue_state := answered_state a, settlement_text := Some (json_stringify (transport_json a)),
    failure_category := None\<rparr>"
  let ?d = "(db s)\<lparr>operations := map (\<lambda>x. if x = r then ?g r else x) (operations (db s))\<rparr>"
  obtain c where c: "counter (db s) = Some c" "counter_checks c"
    using ok by (auto simp: store_ok_def open_ok_def db_ok_def split: option.splits)
  have "update_ok pl r (?g r)"
    using answered_row_update_ok[OF f(1) r(2) a(1,3,4), of "queue_state r" 0] by (simp add: answered_row_def)
  then have up: "update_one pl op ?g (db s) = Inr ((), ?d)"
    using ok r(1) by (intro update_one_succeeds) (simp_all add: store_ok_def)
  have cnt: "set_unknown_count (\<lambda>_. 0) ?d = Inr ((), ?d\<lparr>counter := Some (c\<lparr>consecutive_unknown_transport_results := 0\<rparr>)\<rparr>)"
    using c by (intro set_unknown_count_succeeds) simp_all
  have leg: "canTransitionEdgeQueueState (queue_state r) (answered_state a)"
    using st by (cases a) (auto simp: canTransitionEdgeQueueState_def)
  have "\<exists>s'. transitionTo s now op (answered_state a) (\<lambda>_ _ d. and_then (update_one pl op ?g d)
      (\<lambda>(_, d'). set_unknown_count (\<lambda>_. 0) d')) = (Inr True, s') \<and> row_of (db s') op = Some (?g r)"
    by (rule gate_succeeds[OF ok r disjI2[OF leg], where dn = "?d\<lparr>counter := Some (c\<lparr>consecutive_unknown_transport_results := 0\<rparr>)\<rparr>"
          and cn = "c\<lparr>consecutive_unknown_transport_results := 0\<rparr>"])
      (use up cnt c f in \<open>simp_all add: counter_checks_def\<close>)
  then obtain s' where s': "settle pl s now op a = (Inr True, s')" "row_of (db s') op = Some (?g r)"
    using a by (auto simp: settle_def)
  have fin: "transitionTo s' t op to ap = (Inr False, s')" for to ap t
    using s'(2) by (simp add: transitionTo_def transact_def transition_work_def)
  have "queue_state (?g r) = (case a of CENTRAL_ACCEPTED _ \<Rightarrow> CENTRAL_APPLIED | _ \<Rightarrow> FAILED_TERMINAL)"
    by (cases a) simp_all
  then show ?thesis using s' fin
    by (intro exI[of _ s'] exI[of _ "?g r"])
      (simp add: settle_def claimForForwarding_def recordTransportUnknown_def recordCentralProgress_def
        markReadyToForward_def Let_def del: transport_json.simps)
qed

lemma example_row_facts:
  "\<exists>s r. store_ok example_world s \<and> row_of (db s) ''op-1'' = Some r \<and> settlement_text r = None
     \<and> queue_state r = READY_TO_FORWARD \<and> 0 \<le> base s"
proof -
  let ?r = "admitted_row example_envelope ''{}'' None 0 0"
  have r: "row_of (db example_store) ''op-1'' = Some ?r"
    by (simp add: row_of_def example_store_rows) (simp add: admitted_row_def example_envelope_def)
  have c: "open_ok example_world (db example_store)" using example_store_ok by (simp add: store_ok_def)
  then obtain c where c': "counter (db example_store) = Some c" "counter_checks c"
    by (auto simp: open_ok_def db_ok_def split: option.splits)
  let ?f = "\<lambda>r. r\<lparr>queue_state := READY_TO_FORWARD\<rparr>"
  have "row_checks example_world ?r" by (rule example_insert_row)
  then have "update_ok example_world ?r (?f ?r)"
    by (auto simp: update_ok_def row_checks_def edge_queue_settlement_is_final_def
        edge_queue_signed_bytes_immutable_def edge_queue_receipt_is_write_once_def admitted_row_def
        edge_queue_settlement_matches_state_def edge_queue_settlement_proves_state_def
        edge_queue_answer_or_reason_def EDGE_QUEUE_SETTLED_STATES_def outcome_is_def check_passes_def)
  note up = update_one_succeeds[where f = ?f, OF c r this]
  have "\<exists>s'. transitionTo example_store 0 ''op-1'' READY_TO_FORWARD (\<lambda>_ _. update_one example_world ''op-1'' ?f)
      = (Inr True, s') \<and> row_of (db s') ''op-1'' = Some (?f ?r)"
    by (rule gate_succeeds[OF example_store_ok r, where cn = c and r' = "?f ?r"
          and dn = "(db example_store)\<lparr>operations := map (\<lambda>x. if x = ?r then ?f ?r else x) (operations (db example_store))\<rparr>"])
      (use c' up in \<open>simp_all add: admitted_row_def canTransitionEdgeQueueState_def example_envelope_def\<close>)
  then obtain s' where s': "markReadyToForward example_world example_store 0 ''op-1'' = (Inr True, s')"
    "row_of (db s') ''op-1'' = Some (?f ?r)" by (auto simp: markReadyToForward_def)
  have "base s' = base example_store"
    using s'(1) by (auto simp: markReadyToForward_def transitionTo_def transact_def split: sum.splits)
  also have "\<dots> = 0"
    by (auto simp: example_store_def admit_def transact_def fresh_store_def split: sum.splits)
  finally show ?thesis using markReady_ok[OF example_store_ok s'(1)] s'(2)
    by (intro exI[of _ s'] exI[of _ "?f ?r"]) (simp add: admitted_row_def)
qed

lemma claimed_row_update_ok:
  assumes "row_checks pl r" "settlement_text r = None" "0 \<le> t"
  shows "update_ok pl r (claimed_row t q (attempt_count r) r)"
proof -
  have "check_passes (sql_and (sql_or (Some True) a) (sql_or (Some True) b))" for a b
    by (simp add: check_passes_def)
  with assms retry_delay_bounds(1)[of "attempt_count r + 1"] show ?thesis
    by (auto simp: update_ok_def row_checks_def edge_queue_settlement_is_final_def claimed_row_def
        edge_queue_signed_bytes_immutable_def edge_queue_receipt_is_write_once_def
        edge_queue_settlement_matches_state_def edge_queue_settlement_proves_state_def
        edge_queue_answer_or_reason_def EDGE_QUEUE_SETTLED_STATES_def)
qed

lemma claim_succeeds:
  assumes ok: "store_ok pl s" and r: "row_of (db s) op = Some r" "settlement_text r = None"
    and st: "queue_state r \<in> set EDGE_QUEUE_FORWARDABLE_STATES" and b: "0 \<le> base s"
  shows "\<exists>s'. claimForForwarding pl s now now' op = (Inr True, s')
     \<and> row_of (db s') op = Some (claimed_row (durableNowMs s now) (queue_state r) (attempt_count r) r)"
proof -
  note f = row_facts[OF ok r(1)]
  have op: "open_ok pl (db s)" using ok by (simp add: store_ok_def)
  obtain c where c: "counter (db s) = Some c" "counter_checks c"
    using op by (auto simp: open_ok_def db_ok_def split: option.splits)
  let ?t = "durableNowMs s now" and ?q = "queue_state r"
  let ?f = "claimed_row ?t ?q (attempt_count r)"
  have "0 \<le> ?t" using b by (simp add: durableNowMs_def)
  then have up: "update_one pl op ?f (db s) = Inr ((), (db s)\<lparr>operations := map (\<lambda>x. if x = r then ?f r else x) (operations (db s))\<rparr>)"
    by (intro update_one_succeeds[OF op r(1)] claimed_row_update_ok[OF f(1) r(2)])
  have leg: "canTransitionEdgeQueueState ?q FORWARDING"
    using st by (auto simp: EDGE_QUEUE_FORWARDABLE_STATES_def canTransitionEdgeQueueState_def)
  have "\<exists>s'. transitionTo s now' op FORWARDING (\<lambda>_ attempts. let attempt = attempts + 1; n = ?t in
       update_one pl op (\<lambda>r. r\<lparr>queue_state := FORWARDING, attempt_count := attempt,
         failure_category := Some EDGE_QUEUE_CRASH_RECOVERY_CATEGORY, last_attempt_monotonic_ms := Some n,
         next_attempt_monotonic_ms := n + edgeQueueRetryDelayMs attempt\<rparr>)) = (Inr True, s')
     \<and> row_of (db s') op = Some (?f r)"
    by (rule gate_succeeds[OF ok r disjI2[OF leg], where cn = c
          and dn = "(db s)\<lparr>operations := map (\<lambda>x. if x = r then ?f r else x) (operations (db s))\<rparr>"])
      (use up c f in \<open>simp_all add: claimed_row_def Let_def\<close>)
  then show ?thesis by (simp add: claimForForwarding_def)
qed



lemma example_answer:
  "sql_json_outcome example_world (json_stringify (transport_json (CENTRAL_ACCEPTED ''ref''))) = SqlText ''CENTRAL_ACCEPTED''"
proof -
  let ?a = "transport_json (CENTRAL_ACCEPTED ''ref'')"
  have 1: "json_stringify ?a \<noteq> ''{}''"
    using stringify_prefix[of ?a "JObj []" "[]" "[]"] by (auto simp del: json_stringify.simps(7))
  have "json_stringify ?a \<noteq> json_stringify (envelope_json example_envelope)"
  proof
    assume "json_stringify ?a = json_stringify (envelope_json example_envelope)"
    then have "?a = envelope_json example_envelope"
      using stringify_prefix[of ?a "envelope_json example_envelope" "[]" "[]"] by (simp del: transport_json.simps)
    then show False by (simp add: envelope_json_def)
  qed
  with 1 show ?thesis
    by (simp add: example_world_def example_platform_def del: transport_json.simps) simp
qed

theorem answer_is_recorded_and_final_witness:
  "\<exists>s s' r'. settle example_world s 0 ''op-1'' (CENTRAL_ACCEPTED ''ref'') = (Inr True, s')
     \<and> row_of (db s') ''op-1'' = Some r' \<and> queue_state r' = CENTRAL_APPLIED
     \<and> settle example_world s' 0 ''op-1'' (CENTRAL_REFUSED ''no'') = (Inr False, s')"
proof -
  obtain s0 r0 where s0: "store_ok example_world s0" "row_of (db s0) ''op-1'' = Some r0" "settlement_text r0 = None"
    "queue_state r0 = READY_TO_FORWARD" "0 \<le> base s0" using example_row_facts by blast
  then have "queue_state r0 \<in> set EDGE_QUEUE_FORWARDABLE_STATES" by (simp add: EDGE_QUEUE_FORWARDABLE_STATES_def)
  with s0 obtain s r where s: "claimForForwarding example_world s0 0 0 ''op-1'' = (Inr True, s)"
    "row_of (db s) ''op-1'' = Some r" "queue_state r = FORWARDING"
    using claim_succeeds[OF s0(1-3) _ s0(5), of 0 0] by (auto simp: claimed_row_def)
  have ok: "store_ok example_world s" using claim_ok[OF s0(1) s(1)] by blast
  then have un: "settlement_text r = None"
    using row_facts(1)[OF ok s(2)] s(3)
    by (auto simp: row_checks_def edge_queue_settlement_matches_state_def EDGE_QUEUE_SETTLED_STATES_def)
  let ?a = "CENTRAL_ACCEPTED ''ref''"
  have a: "terminal ?a" "transport_ok ?a" "transport_ok (CENTRAL_REFUSED ''no'')" by (simp_all add: scopedId_def)
  have v: "sql_json_valid example_world t" for t by (simp add: example_world_def example_platform_def)
  have out: "sql_json_outcome example_world (json_stringify (transport_json ?a)) = SqlText (outcome_name ?a)"
    using example_answer by (simp add: outcome_name_def del: transport_json.simps)
  have st: "queue_state r \<in> {FORWARDING, CENTRAL_RECEIVED, CENTRAL_APPLYING}" using s(3) by simp
  from answer_is_recorded_and_final[OF ok s(2) un st a(1,2) v out, of 0 0 "CENTRAL_REFUSED ''no''" 0 NOT_ATTEMPTED Received] a(3)
  obtain s' r' where "settle example_world s 0 ''op-1'' ?a = (Inr True, s')" "row_of (db s') ''op-1'' = Some r'"
    "queue_state r' = CENTRAL_APPLIED" "settle example_world s' 0 ''op-1'' (CENTRAL_REFUSED ''no'') = (Inr False, s')"
    by (auto simp del: transport_json.simps transport_ok.simps)
  then show ?thesis by blast
qed

end
