(* ===== verification/Device_Keys.thy ===== *)
theory Device_Keys
  imports Device_Contracts
begin

text \<open>
  What every device evaluator rests on (packages/contracts/src/device-identity.ts): instants that
  fail closed, the key lifecycle, the registry key record with the refinements its schema checks,
  the one-shot consumption fact with the guard that reads it, and the durable store that reports it
  (services/core-api/src/modules/shield/device-replay.service.ts). The fact crosses an I/O boundary,
  so it is a JSON value the guard reads, not a typed record.
\<close>

subsection \<open>Instants\<close>

definition parseAuthoritativeInstant :: "platform \<Rightarrow> string \<Rightarrow> int option" where
  "parseAuthoritativeInstant pl value = date_parse pl value"

text \<open>The bag of instants of one decision, in the order its keys are written; all or nothing.\<close>

fun parseAuthoritativeInstants :: "platform \<Rightarrow> string list \<Rightarrow> int list option" where
  "parseAuthoritativeInstants pl [] = Some []"
| "parseAuthoritativeInstants pl (v # vs) = (case parseAuthoritativeInstant pl v of
     None \<Rightarrow> None
   | Some ms \<Rightarrow> (case parseAuthoritativeInstants pl vs of None \<Rightarrow> None | Some rest \<Rightarrow> Some (ms # rest)))"

lemma parse_instants_iff:
  "parseAuthoritativeInstants pl vs = Some ms \<longleftrightarrow> list_all2 (\<lambda>v m. date_parse pl v = Some m) vs ms"
proof (induction vs arbitrary: ms)
  case (Cons v vs)
  show ?case
    by (auto simp: parseAuthoritativeInstant_def list_all2_Cons1 Cons.IH[symmetric] split: option.splits)
qed auto

lemma parse_instants_None:
  "parseAuthoritativeInstants pl vs = None \<longleftrightarrow> (\<exists>v\<in>set vs. date_parse pl v = None)"
  by (induction vs) (auto simp: parseAuthoritativeInstant_def split: option.splits)

definition isExpiredAt :: "int \<Rightarrow> int \<Rightarrow> bool" where
  "isExpiredAt nowMs expiresAtMs \<longleftrightarrow> nowMs \<ge> expiresAtMs"

text \<open>\<open>refineDeviceInstantWindow\<close>: whether it adds no issue.\<close>

definition refineDeviceInstantWindow :: "platform \<Rightarrow> string \<Rightarrow> string \<Rightarrow> int \<Rightarrow> bool" where
  "refineDeviceInstantWindow pl issued_at expires_at maxLifetimeMs =
     (case parseAuthoritativeInstants pl [issued_at, expires_at] of
        Some [issued, expires] \<Rightarrow>
          if \<not> expires > issued then False else \<not> expires - issued > maxLifetimeMs
      | _ \<Rightarrow> False)"

subsection \<open>The key lifecycle\<close>

datatype key_state = CURRENT | ROTATED | REVOKED | COMPROMISED

definition ALLOWED_DEVICE_KEY_LIFECYCLE_TRANSITIONS :: "key_state \<Rightarrow> key_state list" where
  "ALLOWED_DEVICE_KEY_LIFECYCLE_TRANSITIONS s = (case s of
       CURRENT \<Rightarrow> [ROTATED, REVOKED, COMPROMISED]
     | ROTATED \<Rightarrow> [REVOKED, COMPROMISED]
     | REVOKED \<Rightarrow> [COMPROMISED]
     | COMPROMISED \<Rightarrow> [])"

definition canTransitionDeviceKeyLifecycle :: "key_state \<Rightarrow> key_state \<Rightarrow> bool" where
  "canTransitionDeviceKeyLifecycle from to \<longleftrightarrow> to \<in> set (ALLOWED_DEVICE_KEY_LIFECYCLE_TRANSITIONS from)"

definition isTerminalDeviceKeyLifecycleState :: "key_state \<Rightarrow> bool" where
  "isTerminalDeviceKeyLifecycleState state \<longleftrightarrow> length (ALLOWED_DEVICE_KEY_LIFECYCLE_TRANSITIONS state) = 0"

definition deviceKeyStatePermitsNewOperations :: "key_state \<Rightarrow> bool" where
  "deviceKeyStatePermitsNewOperations state \<longleftrightarrow> state = CURRENT"

definition deviceKeyStatePermitsHistoricalVerification :: "key_state \<Rightarrow> bool" where
  "deviceKeyStatePermitsHistoricalVerification state \<longleftrightarrow> state = CURRENT \<or> state = ROTATED"

datatype disposition = LOST | STOLEN | COMPROMISED_KEY

datatype key_storage = HARDWARE_BACKED | SOFTWARE

definition deviceKeyStoragePermitsTrusted :: "key_storage \<Rightarrow> bool" where
  "deviceKeyStoragePermitsTrusted storage \<longleftrightarrow> storage = HARDWARE_BACKED"

record registry_key =
  rk_schema_version :: int
  rk_organisation_id :: string
  rk_device_id :: string
  rk_key_id :: string
  rk_key_version :: int
  rk_public_key :: string
  rk_public_key_thumbprint :: string
  rk_signature_profile :: string
  rk_key_storage :: key_storage
  rk_status :: key_state
  rk_registered_at :: string
  rk_rotated_at :: "string option"
  rk_revoked_at :: "string option"
  rk_revocation_disposition :: "disposition option"

text \<open>The schema of a registry key record, with the SHA-256 of a key's bytes as \<open>sha_bytes\<close>.\<close>

definition registry_key_ok :: "platform \<Rightarrow> (bytes \<Rightarrow> string) \<Rightarrow> registry_key \<Rightarrow> bool" where
  "registry_key_ok pl sha_bytes k \<longleftrightarrow> rk_schema_version k = 1 \<and> scopedId (rk_organisation_id k)
     \<and> scopedId (rk_device_id k) \<and> scopedId (rk_key_id k) \<and> DeviceKeyVersion (rk_key_version k)
     \<and> \<not> isl (decodeCanonicalP256PublicKey (rk_public_key k)) \<and> DeviceDigest (rk_public_key_thumbprint k)
     \<and> isApprovedDeviceSignatureProfile (rk_signature_profile k)
     \<and> datetime_format pl (rk_registered_at k) \<and> pred_option (datetime_format pl) (rk_rotated_at k)
     \<and> pred_option (datetime_format pl) (rk_revoked_at k)
     \<and> deviceKeyThumbprintMatches sha_bytes (rk_public_key k) (rk_public_key_thumbprint k)
     \<and> \<not> (rk_status k = CURRENT \<and> (rk_rotated_at k \<noteq> None \<or> rk_revoked_at k \<noteq> None))
     \<and> \<not> (rk_status k = ROTATED \<and> rk_rotated_at k = None)
     \<and> \<not> ((rk_status k = REVOKED \<or> rk_status k = COMPROMISED) \<and> rk_revoked_at k = None)
     \<and> \<not> (rk_status k \<noteq> REVOKED \<and> rk_status k \<noteq> COMPROMISED \<and> rk_revocation_disposition k \<noteq> None)"

definition resolveRegistrySignatureProfile :: "registry_key \<Rightarrow> string \<Rightarrow> profile_binding" where
  "resolveRegistrySignatureProfile k claimed = bindClaimedSignatureProfile claimed (rk_signature_profile k)"

subsection \<open>The consumption fact\<close>

datatype consumption = First_Seen string string | Exact_Duplicate string string string
  | Changed_Semantics string string

fun fact_replay_key :: "consumption \<Rightarrow> string" where
  "fact_replay_key (First_Seen k f) = k"
| "fact_replay_key (Exact_Duplicate k f r) = k"
| "fact_replay_key (Changed_Semantics k f) = k"

fun fact_statement_fingerprint :: "consumption \<Rightarrow> string" where
  "fact_statement_fingerprint (First_Seen k f) = f"
| "fact_statement_fingerprint (Exact_Duplicate k f r) = f"
| "fact_statement_fingerprint (Changed_Semantics k f) = f"

text \<open>The JavaScript object of a fact.\<close>

fun consumption_json :: "consumption \<Rightarrow> json" where
  "consumption_json (First_Seen k f) = JObj [(''source'', JStr ''SENTINEL_NONCE_STORE''),
     (''outcome'', JStr ''FIRST_SEEN''), (''replay_key'', JStr k), (''statement_fingerprint'', JStr f),
     (''stored_outcome_ref'', JNull)]"
| "consumption_json (Exact_Duplicate k f r) = JObj [(''source'', JStr ''SENTINEL_NONCE_STORE''),
     (''outcome'', JStr ''EXACT_DUPLICATE''), (''replay_key'', JStr k), (''statement_fingerprint'', JStr f),
     (''stored_outcome_ref'', JStr r)]"
| "consumption_json (Changed_Semantics k f) = JObj [(''source'', JStr ''SENTINEL_NONCE_STORE''),
     (''outcome'', JStr ''REUSED_WITH_CHANGED_SEMANTICS''), (''replay_key'', JStr k),
     (''statement_fingerprint'', JStr f), (''stored_outcome_ref'', JNull)]"

definition consumption_keys :: "string list" where
  "consumption_keys = [''source'', ''outcome'', ''replay_key'', ''statement_fingerprint'', ''stored_outcome_ref'']"

text \<open>
  The fact as \<open>DeviceNonceConsumptionSchema\<close> reads it. The evaluators keep using the value they were
  handed, so the reference of a duplicate is the stored text, not the trimmed one.
\<close>

fun read_consumption :: "json \<Rightarrow> consumption option" where
  "read_consumption (JObj kvs) =
     (if strict consumption_keys kvs \<and> map_of kvs ''source'' = Some (JStr ''SENTINEL_NONCE_STORE'') then
       (case (as_string (map_of kvs ''outcome''), as_string (map_of kvs ''replay_key''),
              as_string (map_of kvs ''statement_fingerprint''), map_of kvs ''stored_outcome_ref'') of
          (Some out, Some k, Some f, Some ref) \<Rightarrow>
            if length k < 1 \<or> length f < 1 then None
            else if out = ''FIRST_SEEN'' then (if ref = JNull then Some (First_Seen k f) else None)
            else if out = ''EXACT_DUPLICATE'' then
              (case ref of JStr r \<Rightarrow> if length (trim r) < 1 then None else Some (Exact_Duplicate k f r)
               | _ \<Rightarrow> None)
            else if out = ''REUSED_WITH_CHANGED_SEMANTICS'' then
              (if ref = JNull then Some (Changed_Semantics k f) else None)
            else None
        | _ \<Rightarrow> None)
      else None)"
| "read_consumption _ = None"

definition isConsistentDeviceNonceConsumption :: "json \<Rightarrow> bool" where
  "isConsistentDeviceNonceConsumption report \<longleftrightarrow> read_consumption report \<noteq> None"

fun consumption_ok :: "consumption \<Rightarrow> bool" where
  "consumption_ok (First_Seen k f) = (k \<noteq> [] \<and> f \<noteq> [])"
| "consumption_ok (Exact_Duplicate k f r) = (k \<noteq> [] \<and> f \<noteq> [] \<and> trim r \<noteq> [])"
| "consumption_ok (Changed_Semantics k f) = (k \<noteq> [] \<and> f \<noteq> [])"

lemma read_consumption_json [simp]:
  "read_consumption (consumption_json c) = (if consumption_ok c then Some c else None)"
  by (cases c) (auto simp: strict_def consumption_keys_def Suc_le_eq)

lemma read_consumption_ok: "read_consumption j = Some c \<Longrightarrow> consumption_ok c"
  by (cases j rule: read_consumption.cases)
    (auto split: if_splits option.splits json.splits simp: Suc_le_eq)

text \<open>The pure classifier, over what the store holds for the identity.\<close>

definition classifyDeviceNonceConsumption :: "string \<Rightarrow> string \<Rightarrow> (string \<times> string) option \<Rightarrow> consumption" where
  "classifyDeviceNonceConsumption replay_key statement_fingerprint stored = (case stored of
       None \<Rightarrow> First_Seen replay_key statement_fingerprint
     | Some (stored_fingerprint, stored_outcome_ref) \<Rightarrow>
         if stored_fingerprint = statement_fingerprint
         then Exact_Duplicate replay_key statement_fingerprint stored_outcome_ref
         else Changed_Semantics replay_key statement_fingerprint)"

subsection \<open>The replay store\<close>

text \<open>
  The rows of \<open>device_nonce_consumptions\<close> under their unique index: organisation and digest of the
  replay key; the row holds the fingerprint and the outcome reference (which may be NULL).
\<close>

type_synonym replay_rows = "string \<times> string \<Rightarrow> (string \<times> string option) option"

definition peek :: "platform \<Rightarrow> string \<Rightarrow> string \<Rightarrow> replay_rows \<Rightarrow> (string \<times> string option) option" where
  "peek pl organisationId replayKey rows = rows (organisationId, sha pl replayKey)"

text \<open>INSERT ... ON CONFLICT DO NOTHING, then the classification of what was there.\<close>

definition consume :: "platform \<Rightarrow> string \<Rightarrow> string \<Rightarrow> string \<Rightarrow> string \<Rightarrow> replay_rows \<Rightarrow> consumption \<times> replay_rows" where
  "consume pl organisationId replayKey statementFingerprint candidateOutcomeRef rows =
     (let digest = sha pl replayKey in case rows (organisationId, digest) of
        None \<Rightarrow> (classifyDeviceNonceConsumption replayKey statementFingerprint None,
          rows((organisationId, digest) \<mapsto> (statementFingerprint, Some candidateOutcomeRef)))
      | Some (fp, ref) \<Rightarrow> (classifyDeviceNonceConsumption replayKey statementFingerprint
            (Some (fp, case ref of None \<Rightarrow> [] | Some r \<Rightarrow> r)), rows))"

lemma consume_keeps: "rows k = Some v \<Longrightarrow> snd (consume pl org key fp ref rows) k = Some v"
  by (auto simp: consume_def Let_def split: option.splits)

lemma consume_First_Seen:
  "fst (consume pl org key fp ref rows) = First_Seen k f \<longleftrightarrow>
     rows (org, sha pl key) = None \<and> k = key \<and> f = fp"
  by (auto simp: consume_def Let_def classifyDeviceNonceConsumption_def split: option.splits if_splits)

end
