(* ===== verification/Offline_Admissibility.thy ===== *)
theory Offline_Admissibility
  imports Device_Keys
begin

text \<open>
  Whether a queued device operation may take effect (packages/contracts/src/device-offline.ts): the
  policy lease and its window, the statement a device signs with its fingerprint and replay key, the
  Edge registry record and the witness it lends, \<open>evaluateOfflineOperationAdmissibility\<close> check by
  check in the order of the code, and the resolution of a revoked device's operation.
\<close>

subsection \<open>The policy lease\<close>

definition DEVICE_OFFLINE_LEASE_MAX_LIFETIME_MS :: int where
  "DEVICE_OFFLINE_LEASE_MAX_LIFETIME_MS = 21600000"

record policy_lease =
  le_schema_version :: int
  le_lease_id :: string
  le_organisation_id :: string
  le_site_id :: string
  le_device_id :: string
  le_actor_user_id :: string
  le_authority_basis_id :: string
  le_scope :: "operation_kind list"
  le_issued_at :: string
  le_expires_at :: string

definition policy_lease_ok :: "platform \<Rightarrow> policy_lease \<Rightarrow> bool" where
  "policy_lease_ok pl l \<longleftrightarrow> le_schema_version l = 1 \<and> scopedId (le_lease_id l) \<and> scopedId (le_organisation_id l)
     \<and> scopedId (le_site_id l) \<and> scopedId (le_device_id l) \<and> scopedId (le_actor_user_id l)
     \<and> scopedId (le_authority_basis_id l) \<and> 1 \<le> length (le_scope l) \<and> length (le_scope l) \<le> 64
     \<and> datetime_format pl (le_issued_at l) \<and> datetime_format pl (le_expires_at l)
     \<and> refineDeviceInstantWindow pl (le_issued_at l) (le_expires_at l) DEVICE_OFFLINE_LEASE_MAX_LIFETIME_MS
     \<and> card (set (le_scope l)) = length (le_scope l)"

datatype lease_standing = VALID | NOT_YET_VALID | EXPIRED | TIME_NOT_AUTHORITATIVE

definition classifyDevicePolicyLease :: "platform \<Rightarrow> policy_lease \<Rightarrow> string \<Rightarrow> lease_standing" where
  "classifyDevicePolicyLease pl l at_text =
     (case parseAuthoritativeInstants pl [at_text, le_issued_at l, le_expires_at l] of
        Some [instant, issued, expires] \<Rightarrow>
          if instant < issued then NOT_YET_VALID
          else if isExpiredAt instant expires then EXPIRED
          else VALID
      | _ \<Rightarrow> TIME_NOT_AUTHORITATIVE)"

text \<open>A readable instant of the half-open window.\<close>

definition in_window :: "platform \<Rightarrow> policy_lease \<Rightarrow> string \<Rightarrow> bool" where
  "in_window pl l t \<longleftrightarrow> (\<exists>instant issued expires. date_parse pl t = Some instant
     \<and> date_parse pl (le_issued_at l) = Some issued \<and> date_parse pl (le_expires_at l) = Some expires
     \<and> issued \<le> instant \<and> instant < expires)"

lemma classify_VALID: "classifyDevicePolicyLease pl l t = VALID \<longleftrightarrow> in_window pl l t"
  by (auto simp: classifyDevicePolicyLease_def in_window_def parseAuthoritativeInstant_def isExpiredAt_def
      split: option.splits)

subsection \<open>The signed statement\<close>

definition DEVICE_OFFLINE_OPERATION_DOMAIN :: string where
  "DEVICE_OFFLINE_OPERATION_DOMAIN = ''sentinel.device.offline-operation.v1''"

record statement_input =
  si_schema_version :: int
  si_offline_operation_id :: string
  si_organisation_id :: string
  si_site_id :: string
  si_actor_user_id :: string
  si_device_id :: string
  si_key_id :: string
  si_key_version :: int
  si_operation_kind :: operation_kind
  si_device_sequence :: int
  si_idempotency_key :: string
  si_payload_digest :: string
  si_policy_lease_id :: string
  si_nonce :: string
  si_created_at :: string
  si_signature_profile :: string

definition deviceOfflineOperationStatementInput :: "envelope \<Rightarrow> string \<Rightarrow> statement_input" where
  "deviceOfflineOperationStatementInput e serverResolvedProfile = \<lparr>
     si_schema_version = env_schema_version e,
     si_offline_operation_id = env_offline_operation_id e,
     si_organisation_id = env_organisation_id e,
     si_site_id = env_site_id e,
     si_actor_user_id = env_actor_user_id e,
     si_device_id = env_device_id e,
     si_key_id = env_key_id e,
     si_key_version = env_key_version e,
     si_operation_kind = env_operation_kind e,
     si_device_sequence = env_device_sequence e,
     si_idempotency_key = env_idempotency_key e,
     si_payload_digest = env_payload_digest e,
     si_policy_lease_id = env_policy_lease_id e,
     si_nonce = env_nonce e,
     si_created_at = env_created_at e,
     si_signature_profile = serverResolvedProfile\<rparr>"

definition deviceOfflineOperationStatementObject :: "statement_input \<Rightarrow> json" where
  "deviceOfflineOperationStatementObject i = JObj
    [(''domain'', JStr DEVICE_OFFLINE_OPERATION_DOMAIN),
     (''schema_version'', JInt (si_schema_version i)),
     (''offline_operation_id'', JStr (si_offline_operation_id i)),
     (''organisation_id'', JStr (si_organisation_id i)),
     (''site_id'', JStr (si_site_id i)),
     (''actor_user_id'', JStr (si_actor_user_id i)),
     (''device_id'', JStr (si_device_id i)),
     (''key_id'', JStr (si_key_id i)),
     (''key_version'', JInt (si_key_version i)),
     (''operation_kind'', JStr (kind_name (si_operation_kind i))),
     (''device_sequence'', JInt (si_device_sequence i)),
     (''idempotency_key'', JStr (si_idempotency_key i)),
     (''payload_digest'', JStr (si_payload_digest i)),
     (''policy_lease_id'', JStr (si_policy_lease_id i)),
     (''nonce'', JStr (si_nonce i)),
     (''created_at'', JStr (si_created_at i)),
     (''signature_profile'', JStr (si_signature_profile i))]"

text \<open>
  Both renderings go through \<open>canonicalDeviceJson\<close>, which throws on what JSON cannot carry; the
  objects here always have a JSON form (\<open>statement_safe\<close>, \<open>replay_safe\<close>), so \<open>the\<close> is applied to a value.
\<close>

definition canonicalDeviceOfflineOperationStatement :: "statement_input \<Rightarrow> string" where
  "canonicalDeviceOfflineOperationStatement i =
     the (canonical_device_json (deviceOfflineOperationStatementObject i))"

definition deviceOfflineOperationFingerprint :: "platform \<Rightarrow> statement_input \<Rightarrow> string" where
  "deviceOfflineOperationFingerprint pl i =
     the (device_canonical_digest (sha pl) (deviceOfflineOperationStatementObject i))"

definition DEVICE_OFFLINE_OPERATION_REPLAY_IDENTITY_DOMAIN :: string where
  "DEVICE_OFFLINE_OPERATION_REPLAY_IDENTITY_DOMAIN = ''sentinel.device.offline-operation.replay-identity.v1''"

definition replay_identity_object :: "envelope \<Rightarrow> json" where
  "replay_identity_object e = JObj
    [(''domain'', JStr DEVICE_OFFLINE_OPERATION_REPLAY_IDENTITY_DOMAIN),
     (''organisation_id'', JStr (env_organisation_id e)),
     (''site_id'', JStr (env_site_id e)),
     (''actor_user_id'', JStr (env_actor_user_id e)),
     (''device_id'', JStr (env_device_id e)),
     (''key_version'', JInt (env_key_version e)),
     (''nonce'', JStr (env_nonce e))]"

definition deviceOfflineOperationReplayKey :: "envelope \<Rightarrow> string" where
  "deviceOfflineOperationReplayKey e = the (canonical_device_json (replay_identity_object e))"

lemma statement_safe [simp]: "json_safe (deviceOfflineOperationStatementObject i)"
    "json_wf (deviceOfflineOperationStatementObject i)"
  by (simp_all add: deviceOfflineOperationStatementObject_def)

lemma replay_safe [simp]: "json_safe (replay_identity_object e)" "json_wf (replay_identity_object e)"
  by (simp_all add: replay_identity_object_def)

lemma fingerprint_sha:
  "deviceOfflineOperationFingerprint pl i = sha pl (canonicalDeviceOfflineOperationStatement i)"
  by (simp add: deviceOfflineOperationFingerprint_def canonicalDeviceOfflineOperationStatement_def
      device_canonical_digest_def canonical_device_json_def)

lemma canonical_text_inject:
  assumes "json_safe v" "json_safe w" "json_wf v" "json_wf w"
  shows "the (canonical_device_json v) = the (canonical_device_json w) \<longleftrightarrow> denote v = denote w"
  using canonical_device_json_denote[OF assms(3,4,1,2)] assms(1,2) by (auto simp: canonical_device_json_def)

lemma kind_name_inject [simp]: "kind_name k = kind_name k' \<longleftrightarrow> k = k'"
  using kind_of_name_name by (metis option.inject)

subsection \<open>The Edge registry and the witness\<close>

datatype edge_trust = EDGE_TRUSTED | EDGE_SUSPENDED | EDGE_REVOKED

record edge_key =
  ek_schema_version :: int
  ek_organisation_id :: string
  ek_edge_id :: string
  ek_edge_key_id :: string
  ek_edge_key_version :: int
  ek_public_key :: string
  ek_public_key_thumbprint :: string
  ek_signature_profile :: string
  ek_status :: key_state
  ek_edge_trust :: edge_trust
  ek_authorised_site_ids :: "string list"
  ek_registered_at :: string
  ek_revoked_at :: "string option"

definition edge_key_ok :: "platform \<Rightarrow> (bytes \<Rightarrow> string) \<Rightarrow> edge_key \<Rightarrow> bool" where
  "edge_key_ok pl sha_bytes k \<longleftrightarrow> ek_schema_version k = 1 \<and> scopedId (ek_organisation_id k)
     \<and> scopedId (ek_edge_id k) \<and> scopedId (ek_edge_key_id k) \<and> DeviceKeyVersion (ek_edge_key_version k)
     \<and> \<not> isl (decodeCanonicalP256PublicKey (ek_public_key k)) \<and> DeviceDigest (ek_public_key_thumbprint k)
     \<and> isApprovedDeviceSignatureProfile (ek_signature_profile k)
     \<and> (\<forall>s\<in>set (ek_authorised_site_ids k). scopedId s) \<and> 1 \<le> length (ek_authorised_site_ids k)
     \<and> datetime_format pl (ek_registered_at k) \<and> pred_option (datetime_format pl) (ek_revoked_at k)
     \<and> deviceKeyThumbprintMatches sha_bytes (ek_public_key k) (ek_public_key_thumbprint k)
     \<and> \<not> ((ek_status k = REVOKED \<or> ek_status k = COMPROMISED) \<and> ek_revoked_at k = None)"

datatype witness = No_Witness | Edge_Witness edge_receipt edge_key bool

subsection \<open>Admissibility\<close>

definition DEVICE_OFFLINE_STALE_TOLERANT_OPERATION_KINDS :: "operation_kind list" where
  "DEVICE_OFFLINE_STALE_TOLERANT_OPERATION_KINDS = [INCIDENT_FIELD_MESSAGE_ACKNOWLEDGE]"

definition deviceOfflineOperationRequiresTimeWitness :: "operation_kind \<Rightarrow> bool" where
  "deviceOfflineOperationRequiresTimeWitness kind \<longleftrightarrow> kind \<notin> set DEVICE_OFFLINE_STALE_TOLERANT_OPERATION_KINDS"

datatype refusal = SIGNATURE_NOT_VERIFIED | CREDENTIAL_REVOKED | PAYLOAD_DIGEST_MISMATCH | LEASE_MISSING
  | LEASE_IDENTITY_MISMATCH | LEASE_SCOPE_MISMATCH | LEASE_NOT_IN_FORCE | NO_TRUSTWORTHY_TIME_WITNESS
  | EDGE_NOT_TRUSTED | EDGE_SIGNATURE_NOT_VERIFIED | WITNESS_FINGERPRINT_MISMATCH | LEASE_ACTOR_MISMATCH
  | SIGNATURE_PROFILE_CLAIM_MISMATCH | EDGE_SIGNATURE_PROFILE_CLAIM_MISMATCH | EDGE_KEY_NOT_USABLE
  | REGISTRY_IDENTITY_MISMATCH | REGISTRY_KEY_MISMATCH | DEVICE_KEY_NOT_USABLE | EDGE_ORGANISATION_MISMATCH
  | EDGE_CREDENTIAL_REVOKED | EDGE_SITE_NOT_AUTHORISED | NONCE_REUSED_WITH_CHANGED_SEMANTICS
  | NONCE_CONSUMPTION_MISBOUND | NONCE_CONSUMPTION_INCONSISTENT | REFUSED_TIME_NOT_AUTHORITATIVE

record admissibility_input =
  ai_envelope :: envelope
  ai_lease :: "policy_lease option"
  ai_witness :: witness
  ai_now :: string
  ai_expectedPayloadDigest :: string
  ai_deviceRevokedAt :: "string option"
  ai_signatureVerified :: bool
  ai_registeredKey :: registry_key
  ai_consumption :: json

datatype time_basis = EDGE_WITNESS | SERVER_RECEIPT

text \<open>Admitted to proceed, admitted to converge on a stored outcome, or refused.\<close>

datatype admissibility = Proceed time_basis string string | Converge time_basis string string string
  | Refused refusal

text \<open>The checks before the one-shot fact: the key record, the signature, the payload, the lease.\<close>

definition origin_refusal :: "admissibility_input \<Rightarrow> refusal option" where
  "origin_refusal i = (let e = ai_envelope i; k = ai_registeredKey i in
     if rk_organisation_id k \<noteq> env_organisation_id e \<or> rk_device_id k \<noteq> env_device_id e
       then Some REGISTRY_IDENTITY_MISMATCH
     else if rk_key_id k \<noteq> env_key_id e \<or> rk_key_version k \<noteq> env_key_version e
       then Some REGISTRY_KEY_MISMATCH
     else if \<not> deviceKeyStatePermitsNewOperations (rk_status k) then Some DEVICE_KEY_NOT_USABLE
     else if rk_revoked_at k \<noteq> None then Some CREDENTIAL_REVOKED
     else (case bindClaimedSignatureProfile (env_claimed_signature_profile e) (rk_signature_profile k) of
         Bound _ \<Rightarrow>
           if \<not> ai_signatureVerified i then Some SIGNATURE_NOT_VERIFIED
           else if ai_deviceRevokedAt i \<noteq> None then Some CREDENTIAL_REVOKED
           else if env_payload_digest e \<noteq> ai_expectedPayloadDigest i then Some PAYLOAD_DIGEST_MISMATCH
           else (case ai_lease i of None \<Rightarrow> Some LEASE_MISSING
             | Some l \<Rightarrow>
               if le_lease_id l \<noteq> env_policy_lease_id e then Some LEASE_IDENTITY_MISMATCH
               else if le_organisation_id l \<noteq> env_organisation_id e \<or> le_site_id l \<noteq> env_site_id e
                   \<or> le_device_id l \<noteq> env_device_id e then Some LEASE_IDENTITY_MISMATCH
               else if le_actor_user_id l \<noteq> env_actor_user_id e then Some LEASE_ACTOR_MISMATCH
               else if env_operation_kind e \<notin> set (le_scope l) then Some LEASE_SCOPE_MISMATCH
               else None)
       | _ \<Rightarrow> Some SIGNATURE_PROFILE_CLAIM_MISMATCH))"

text \<open>The checks on an Edge witness, up to the instant it lends.\<close>

definition edge_instant :: "envelope \<Rightarrow> string \<Rightarrow> witness \<Rightarrow> refusal + string" where
  "edge_instant e fingerprint w = (case w of No_Witness \<Rightarrow> Inl NO_TRUSTWORTHY_TIME_WITNESS
     | Edge_Witness r k verified \<Rightarrow>
       if ek_organisation_id k \<noteq> env_organisation_id e then Inl EDGE_ORGANISATION_MISMATCH
       else if env_site_id e \<notin> set (ek_authorised_site_ids k) then Inl EDGE_SITE_NOT_AUTHORISED
       else if ek_edge_id k \<noteq> rcpt_edge_id r \<or> ek_edge_key_id k \<noteq> rcpt_edge_key_id r
           \<or> ek_edge_key_version k \<noteq> rcpt_edge_key_version r
           \<or> \<not> deviceKeyStatePermitsHistoricalVerification (ek_status k) then Inl EDGE_KEY_NOT_USABLE
       else if ek_revoked_at k \<noteq> None then Inl EDGE_CREDENTIAL_REVOKED
       else if ek_edge_trust k \<noteq> EDGE_TRUSTED then Inl EDGE_NOT_TRUSTED
       else (case bindClaimedSignatureProfile (rcpt_claimed_edge_signature_profile r) (ek_signature_profile k) of
           Bound _ \<Rightarrow>
             if \<not> verified then Inl EDGE_SIGNATURE_NOT_VERIFIED
             else if rcpt_witnessed_operation_fingerprint r \<noteq> fingerprint then Inl WITNESS_FINGERPRINT_MISMATCH
             else (case rcpt_edge_trusted_time r of None \<Rightarrow> Inl NO_TRUSTWORTHY_TIME_WITNESS
               | Some edgeTime \<Rightarrow> Inr edgeTime)
         | _ \<Rightarrow> Inl EDGE_SIGNATURE_PROFILE_CLAIM_MISMATCH))"

text \<open>The two exits: the lease judged at an instant of the basis, then proceed or converge.\<close>

definition judge_at :: "platform \<Rightarrow> policy_lease \<Rightarrow> time_basis \<Rightarrow> string \<Rightarrow> string \<Rightarrow> string option \<Rightarrow> admissibility" where
  "judge_at pl l basis instant fingerprint storedOutcomeRef = (case classifyDevicePolicyLease pl l instant of
       TIME_NOT_AUTHORITATIVE \<Rightarrow> Refused REFUSED_TIME_NOT_AUTHORITATIVE
     | VALID \<Rightarrow> (case storedOutcomeRef of
           Some ref \<Rightarrow> Converge basis instant fingerprint ref
         | None \<Rightarrow> Proceed basis instant fingerprint)
     | _ \<Rightarrow> Refused LEASE_NOT_IN_FORCE)"

fun stored_ref :: "consumption \<Rightarrow> string option" where
  "stored_ref (Exact_Duplicate k f r) = Some r"
| "stored_ref _ = None"

fun changed_semantics :: "consumption \<Rightarrow> bool" where
  "changed_semantics (Changed_Semantics k f) = True"
| "changed_semantics _ = False"

definition evaluateOfflineOperationAdmissibility :: "platform \<Rightarrow> admissibility_input \<Rightarrow> admissibility" where
  "evaluateOfflineOperationAdmissibility pl i = (let e = ai_envelope i in
     case (origin_refusal i, ai_lease i) of
       (Some r, _) \<Rightarrow> Refused r
     | (None, None) \<Rightarrow> Refused LEASE_MISSING
     | (None, Some l) \<Rightarrow>
       let fingerprint = deviceOfflineOperationFingerprint pl
             (deviceOfflineOperationStatementInput e (rk_signature_profile (ai_registeredKey i)));
           replayKey = deviceOfflineOperationReplayKey e in
       (case read_consumption (ai_consumption i) of
          None \<Rightarrow> Refused NONCE_CONSUMPTION_INCONSISTENT
        | Some report \<Rightarrow>
          if fact_replay_key report \<noteq> replayKey \<or> fact_statement_fingerprint report \<noteq> fingerprint
            then Refused NONCE_CONSUMPTION_MISBOUND
          else if changed_semantics report then Refused NONCE_REUSED_WITH_CHANGED_SEMANTICS
          else if deviceOfflineOperationRequiresTimeWitness (env_operation_kind e)
            then (case edge_instant e fingerprint (ai_witness i) of
                Inl r \<Rightarrow> Refused r
              | Inr edgeTime \<Rightarrow> judge_at pl l EDGE_WITNESS edgeTime fingerprint (stored_ref report))
          else judge_at pl l SERVER_RECEIPT (ai_now i) fingerprint (stored_ref report)))"

subsection \<open>What an admission establishes\<close>

text \<open>The facts about key, device, signature, payload and lease, as one conjunction.\<close>

definition origin_established :: "admissibility_input \<Rightarrow> policy_lease \<Rightarrow> bool" where
  "origin_established i l \<longleftrightarrow> (let e = ai_envelope i; k = ai_registeredKey i in
     rk_organisation_id k = env_organisation_id e \<and> rk_device_id k = env_device_id e
     \<and> rk_key_id k = env_key_id e \<and> rk_key_version k = env_key_version e
     \<and> rk_status k = CURRENT \<and> rk_revoked_at k = None \<and> ai_deviceRevokedAt i = None
     \<and> env_claimed_signature_profile e = rk_signature_profile k
     \<and> isApprovedDeviceSignatureProfile (rk_signature_profile k)
     \<and> ai_signatureVerified i \<and> env_payload_digest e = ai_expectedPayloadDigest i
     \<and> ai_lease i = Some l \<and> le_lease_id l = env_policy_lease_id e
     \<and> le_organisation_id l = env_organisation_id e \<and> le_site_id l = env_site_id e
     \<and> le_device_id l = env_device_id e \<and> le_actor_user_id l = env_actor_user_id e
     \<and> env_operation_kind e \<in> set (le_scope l))"

definition edge_places :: "envelope \<Rightarrow> string \<Rightarrow> witness \<Rightarrow> string \<Rightarrow> bool" where
  "edge_places e fingerprint w t \<longleftrightarrow> (\<exists>r k. w = Edge_Witness r k True
     \<and> ek_organisation_id k = env_organisation_id e \<and> env_site_id e \<in> set (ek_authorised_site_ids k)
     \<and> ek_edge_id k = rcpt_edge_id r \<and> ek_edge_key_id k = rcpt_edge_key_id r
     \<and> ek_edge_key_version k = rcpt_edge_key_version r \<and> ek_status k \<in> {CURRENT, ROTATED}
     \<and> ek_revoked_at k = None \<and> ek_edge_trust k = EDGE_TRUSTED
     \<and> rcpt_claimed_edge_signature_profile r = ek_signature_profile k
     \<and> isApprovedDeviceSignatureProfile (ek_signature_profile k)
     \<and> rcpt_witnessed_operation_fingerprint r = fingerprint \<and> rcpt_edge_trusted_time r = Some t)"

lemma bound_cases:
  "(case bindClaimedSignatureProfile c s of Bound p \<Rightarrow> x | _ \<Rightarrow> y)
     = (if c = s \<and> isApprovedDeviceSignatureProfile s then x else y)"
  by (simp add: bindClaimedSignatureProfile_def)

lemma origin_refusal_None: "origin_refusal i = None \<longleftrightarrow> (\<exists>l. origin_established i l)"
  by (cases "ai_lease i")
    (auto simp: origin_refusal_def origin_established_def Let_def bound_cases
      deviceKeyStatePermitsNewOperations_def)

lemma origin_lease: "origin_established i l \<Longrightarrow> ai_lease i = Some l"
  by (simp add: origin_established_def Let_def)

lemma edge_instant_Inr: "edge_instant e fp w = Inr t \<longleftrightarrow> edge_places e fp w t"
  by (cases w)
    (auto simp: edge_instant_def edge_places_def bound_cases deviceKeyStatePermitsHistoricalVerification_def
      split: option.splits)

lemma judge_at_Proceed: "judge_at pl l b t fp ref = Proceed b' t' fp' \<longleftrightarrow>
    in_window pl l t \<and> ref = None \<and> b' = b \<and> t' = t \<and> fp' = fp"
  by (auto simp: judge_at_def classify_VALID[symmetric] split: lease_standing.splits option.splits)

lemma judge_at_Converge: "judge_at pl l b t fp ref = Converge b' t' fp' r \<longleftrightarrow>
    in_window pl l t \<and> ref = Some r \<and> b' = b \<and> t' = t \<and> fp' = fp"
  by (auto simp: judge_at_def classify_VALID[symmetric] split: lease_standing.splits option.splits)

text \<open>The clock that places the operation: the Edge's for a time-bound kind, else the server's.\<close>

definition placed :: "admissibility_input \<Rightarrow> string \<Rightarrow> time_basis \<Rightarrow> string \<Rightarrow> bool" where
  "placed i fp b t \<longleftrightarrow> (if env_operation_kind (ai_envelope i) = INCIDENT_FIELD_MESSAGE_ACKNOWLEDGE
     then b = SERVER_RECEIPT \<and> t = ai_now i
     else b = EDGE_WITNESS \<and> edge_places (ai_envelope i) fp (ai_witness i) t)"

abbreviation "input_fingerprint pl i \<equiv> deviceOfflineOperationFingerprint pl
  (deviceOfflineOperationStatementInput (ai_envelope i) (rk_signature_profile (ai_registeredKey i)))"

lemma requires_witness: "deviceOfflineOperationRequiresTimeWitness k \<longleftrightarrow> k \<noteq> INCIDENT_FIELD_MESSAGE_ACKNOWLEDGE"
  by (simp add: deviceOfflineOperationRequiresTimeWitness_def DEVICE_OFFLINE_STALE_TOLERANT_OPERATION_KINDS_def)

text \<open>The evaluation once the origin is established, with the exits as one.\<close>

lemma evaluate_established:
  assumes "origin_established i l"
  shows "evaluateOfflineOperationAdmissibility pl i =
    (case read_consumption (ai_consumption i) of None \<Rightarrow> Refused NONCE_CONSUMPTION_INCONSISTENT
     | Some report \<Rightarrow>
        if fact_replay_key report \<noteq> deviceOfflineOperationReplayKey (ai_envelope i)
          \<or> fact_statement_fingerprint report \<noteq> input_fingerprint pl i then Refused NONCE_CONSUMPTION_MISBOUND
        else if changed_semantics report then Refused NONCE_REUSED_WITH_CHANGED_SEMANTICS
        else if env_operation_kind (ai_envelope i) \<noteq> INCIDENT_FIELD_MESSAGE_ACKNOWLEDGE
          then (case edge_instant (ai_envelope i) (input_fingerprint pl i) (ai_witness i) of
              Inl r \<Rightarrow> Refused r
            | Inr t \<Rightarrow> judge_at pl l EDGE_WITNESS t (input_fingerprint pl i) (stored_ref report))
        else judge_at pl l SERVER_RECEIPT (ai_now i) (input_fingerprint pl i) (stored_ref report))"
proof -
  have "origin_refusal i = None" "ai_lease i = Some l" using assms origin_refusal_None origin_lease by blast+
  then show ?thesis
    unfolding evaluateOfflineOperationAdmissibility_def Let_def requires_witness by (simp only: prod.case option.case)
qed

lemma evaluate_not_established:
  assumes "\<nexists>l. origin_established i l"
  shows "\<exists>r. evaluateOfflineOperationAdmissibility pl i = Refused r"
  using assms origin_refusal_None[of i] by (auto simp: evaluateOfflineOperationAdmissibility_def Let_def)

lemma proceed_iff:
  "evaluateOfflineOperationAdmissibility pl i = Proceed b t fp \<longleftrightarrow>
     (\<exists>l. origin_established i l \<and> fp = input_fingerprint pl i
        \<and> read_consumption (ai_consumption i)
            = Some (First_Seen (deviceOfflineOperationReplayKey (ai_envelope i)) fp)
        \<and> placed i fp b t \<and> in_window pl l t)"
proof (cases "\<exists>l. origin_established i l")
  case True
  then obtain l where l: "origin_established i l" ..
  then have uniq: "origin_established i m \<longleftrightarrow> m = l" for m by (metis origin_lease option.inject)
  show ?thesis
    by (auto simp: evaluate_established[OF l] uniq placed_def edge_instant_Inr[symmetric] judge_at_Proceed
        split: option.splits sum.splits elim: stored_ref.elims changed_semantics.elims)
qed (use evaluate_not_established[of i pl] in auto)

lemma converge_iff:
  "evaluateOfflineOperationAdmissibility pl i = Converge b t fp ref \<longleftrightarrow>
     (\<exists>l. origin_established i l \<and> fp = input_fingerprint pl i
        \<and> read_consumption (ai_consumption i)
            = Some (Exact_Duplicate (deviceOfflineOperationReplayKey (ai_envelope i)) fp ref)
        \<and> placed i fp b t \<and> in_window pl l t)"
proof (cases "\<exists>l. origin_established i l")
  case True
  then obtain l where l: "origin_established i l" ..
  then have uniq: "origin_established i m \<longleftrightarrow> m = l" for m by (metis origin_lease option.inject)
  show ?thesis
    by (auto simp: evaluate_established[OF l] uniq placed_def edge_instant_Inr[symmetric] judge_at_Converge
        split: option.splits sum.splits elim: stored_ref.elims changed_semantics.elims)
qed (use evaluate_not_established[of i pl] in auto)

text \<open>
  C10: What an admission establishes, exactly. The offline evaluator answers PROCEED exactly when:
  the registry key is this device's, of this organisation, the key and version named, CURRENT and
  not withdrawn; the device is not withdrawn; the claimed profile is the registry's; the signature
  verified; the payload digests to the signed digest; the lease is the one named, for the same
  organisation, site, device and actor, with the kind in scope; a clock that is not the device's
  (the server's for an acknowledgement, else the time of a verified receipt about this very
  statement, from a trusted, unrevoked Edge of the organisation entitled to the site) places it
  inside the half-open lease window; and the store's fact about this replay key and fingerprint is
  FIRST_SEEN. It answers CONVERGE exactly when the same holds with an EXACT_DUPLICATE that names
  an outcome. The device's created_at is nowhere among the conditions.
\<close>

theorem offline_admission_exact:
  "(evaluateOfflineOperationAdmissibility pl i = Proceed b t fp \<longleftrightarrow>
     (\<exists>l. origin_established i l \<and> placed i fp b t \<and> in_window pl l t \<and> fp = input_fingerprint pl i
        \<and> read_consumption (ai_consumption i)
            = Some (First_Seen (deviceOfflineOperationReplayKey (ai_envelope i)) fp)))
   \<and> (evaluateOfflineOperationAdmissibility pl i = Converge b t fp ref \<longleftrightarrow>
     (\<exists>l. origin_established i l \<and> placed i fp b t \<and> in_window pl l t \<and> fp = input_fingerprint pl i
        \<and> read_consumption (ai_consumption i)
            = Some (Exact_Duplicate (deviceOfflineOperationReplayKey (ai_envelope i)) fp ref)))"
  unfolding proceed_iff converge_iff by blast

subsection \<open>Identities\<close>

lemma denote_at: "denote (JObj kvs) = denote (JObj lvs) \<Longrightarrow>
    map_option denote (map_of kvs k) = map_option denote (map_of lvs k)"
  by (metis denote.simps(6) jvalue.inject(5) map_of_map_vals)

lemma denote_JInt [simp]: "denote (JInt a) = denote (JInt b) \<longleftrightarrow> a = b"
  by (auto simp: JInt_def dest: show_int_inj)

lemma replay_identity_denote:
  "denote (replay_identity_object e) = denote (replay_identity_object e') \<longleftrightarrow>
    env_organisation_id e = env_organisation_id e' \<and> env_site_id e = env_site_id e'
    \<and> env_actor_user_id e = env_actor_user_id e' \<and> env_device_id e = env_device_id e'
    \<and> env_key_version e = env_key_version e' \<and> env_nonce e = env_nonce e'"
proof
  assume eq: "denote (replay_identity_object e) = denote (replay_identity_object e')"
  note at_key = denote_at[OF eq[unfolded replay_identity_object_def]]
  show "env_organisation_id e = env_organisation_id e' \<and> env_site_id e = env_site_id e'
    \<and> env_actor_user_id e = env_actor_user_id e' \<and> env_device_id e = env_device_id e'
    \<and> env_key_version e = env_key_version e' \<and> env_nonce e = env_nonce e'"
    using at_key[of "''organisation_id''"] at_key[of "''site_id''"] at_key[of "''actor_user_id''"]
      at_key[of "''device_id''"] at_key[of "''key_version''"] at_key[of "''nonce''"] by simp
qed (simp add: replay_identity_object_def)

lemma statement_denote:
  "denote (deviceOfflineOperationStatementObject i) = denote (deviceOfflineOperationStatementObject j)
     \<longleftrightarrow> i = j"
proof
  assume eq: "denote (deviceOfflineOperationStatementObject i) = denote (deviceOfflineOperationStatementObject j)"
  note at_key = denote_at[OF eq[unfolded deviceOfflineOperationStatementObject_def]]
  have ids: "si_schema_version i = si_schema_version j" "si_offline_operation_id i = si_offline_operation_id j"
    "si_organisation_id i = si_organisation_id j" "si_site_id i = si_site_id j"
    "si_actor_user_id i = si_actor_user_id j" "si_device_id i = si_device_id j"
    "si_key_id i = si_key_id j" "si_key_version i = si_key_version j"
    using at_key[of "''schema_version''"] at_key[of "''offline_operation_id''"] at_key[of "''organisation_id''"]
      at_key[of "''site_id''"] at_key[of "''actor_user_id''"] at_key[of "''device_id''"]
      at_key[of "''key_id''"] at_key[of "''key_version''"] by simp_all
  have "si_operation_kind i = si_operation_kind j" "si_device_sequence i = si_device_sequence j"
    "si_idempotency_key i = si_idempotency_key j" "si_payload_digest i = si_payload_digest j"
    "si_policy_lease_id i = si_policy_lease_id j" "si_nonce i = si_nonce j"
    "si_created_at i = si_created_at j" "si_signature_profile i = si_signature_profile j"
    using at_key[of "''operation_kind''"] at_key[of "''device_sequence''"] at_key[of "''idempotency_key''"]
      at_key[of "''payload_digest''"] at_key[of "''policy_lease_id''"] at_key[of "''nonce''"]
      at_key[of "''created_at''"] at_key[of "''signature_profile''"] by simp_all
  with ids show "i = j" by (simp add: statement_input.equality)
qed simp

lemma replay_key_identity:
  "deviceOfflineOperationReplayKey e = deviceOfflineOperationReplayKey e' \<longleftrightarrow>
    env_organisation_id e = env_organisation_id e' \<and> env_site_id e = env_site_id e'
    \<and> env_actor_user_id e = env_actor_user_id e' \<and> env_device_id e = env_device_id e'
    \<and> env_key_version e = env_key_version e' \<and> env_nonce e = env_nonce e'"
  unfolding deviceOfflineOperationReplayKey_def
  by (simp only: canonical_text_inject replay_safe replay_identity_denote)

lemma statement_text_identity:
  "canonicalDeviceOfflineOperationStatement i = canonicalDeviceOfflineOperationStatement j \<longleftrightarrow> i = j"
  unfolding canonicalDeviceOfflineOperationStatement_def
  by (simp only: canonical_text_inject statement_safe statement_denote)

text \<open>
  C14: Replay keys and fingerprints identify. Two envelopes have the same replay key exactly when
  they agree on organisation, site, actor, device, key version and nonce; and (if the hash does
  not collide on their two statements) two statements have the same fingerprint exactly when every
  signed field agrees. No delimiter in a field forges another tuple.
\<close>

theorem offline_identities_do_not_collide:
  assumes "sha pl (canonicalDeviceOfflineOperationStatement i) = sha pl (canonicalDeviceOfflineOperationStatement j)
    \<longrightarrow> canonicalDeviceOfflineOperationStatement i = canonicalDeviceOfflineOperationStatement j"
  shows "(deviceOfflineOperationReplayKey e = deviceOfflineOperationReplayKey e' \<longleftrightarrow>
      env_organisation_id e = env_organisation_id e' \<and> env_site_id e = env_site_id e'
      \<and> env_actor_user_id e = env_actor_user_id e' \<and> env_device_id e = env_device_id e'
      \<and> env_key_version e = env_key_version e' \<and> env_nonce e = env_nonce e')
    \<and> (deviceOfflineOperationFingerprint pl i = deviceOfflineOperationFingerprint pl j \<longleftrightarrow> i = j)"
  using assms replay_key_identity[of e e'] statement_text_identity[of i j] by (auto simp: fingerprint_sha)

subsection \<open>Revocation\<close>

datatype device_trust = TRUST_TRUSTED | TRUST_DEGRADED | TRUST_OFFLINE | TRUST_SUSPICIOUS
  | TRUST_QUARANTINED | TRUST_COMPROMISED

record revocation_response =
  rr_trust :: device_trust
  rr_queued_domain_execution :: bool
  rr_invalidates_issued_contexts :: bool
  rr_discards_edge_buffer :: bool
  rr_identity_restorable :: bool

fun DEVICE_REVOCATION_RESPONSES :: "disposition \<Rightarrow> revocation_response" where
  "DEVICE_REVOCATION_RESPONSES LOST = \<lparr>rr_trust = TRUST_QUARANTINED, rr_queued_domain_execution = False,
     rr_invalidates_issued_contexts = True, rr_discards_edge_buffer = False, rr_identity_restorable = True\<rparr>"
| "DEVICE_REVOCATION_RESPONSES STOLEN = \<lparr>rr_trust = TRUST_COMPROMISED, rr_queued_domain_execution = False,
     rr_invalidates_issued_contexts = True, rr_discards_edge_buffer = True, rr_identity_restorable = False\<rparr>"
| "DEVICE_REVOCATION_RESPONSES COMPROMISED_KEY = \<lparr>rr_trust = TRUST_COMPROMISED, rr_queued_domain_execution = False,
     rr_invalidates_issued_contexts = True, rr_discards_edge_buffer = True, rr_identity_restorable = False\<rparr>"

text \<open>Sentinel's own record of a committed effect; its \<open>source\<close> is checked at run time.\<close>

record committed_evidence =
  ev_source :: string
  ev_offline_operation_id :: string
  ev_operation_fingerprint :: string
  ev_organisation_id :: string
  ev_site_id :: string
  ev_committed_at :: string
  ev_domain_record_ref :: string

datatype revoked_resolution = RESOLVE_AS_COMMITTED | REFUSE_NEW_EFFECT | REQUIRES_HUMAN_REENTRY | CONFLICT

record revoked_input =
  ri_disposition :: disposition
  ri_offline_operation_id :: string
  ri_operation_fingerprint :: string
  ri_organisation_id :: string
  ri_site_id :: string
  ri_priorCommittedEvidence :: "committed_evidence option"

definition resolveRevokedDeviceOperation :: "revoked_input \<Rightarrow> revoked_resolution" where
  "resolveRevokedDeviceOperation i =
     (case ri_priorCommittedEvidence i of
        Some ev \<Rightarrow>
          if ev_source ev = ''SENTINEL_DOMAIN_RECORD'' \<and> ev_offline_operation_id ev = ri_offline_operation_id i
          then if \<not> (ev_operation_fingerprint ev = ri_operation_fingerprint i
                \<and> ev_organisation_id ev = ri_organisation_id i \<and> ev_site_id ev = ri_site_id i)
            then CONFLICT
            else RESOLVE_AS_COMMITTED
          else if ri_disposition i = LOST then REQUIRES_HUMAN_REENTRY
          else REFUSE_NEW_EFFECT
      | None \<Rightarrow> if ri_disposition i = LOST then REQUIRES_HUMAN_REENTRY else REFUSE_NEW_EFFECT)"

text \<open>
  A revoked device's operation, taken from the envelope and the registry the evaluator would judge:
  \<open>revoked\<close> says the inputs carry a withdrawal of the device or of its key.
\<close>

definition revoked_case :: "platform \<Rightarrow> admissibility_input \<Rightarrow> disposition \<Rightarrow> committed_evidence option \<Rightarrow> revoked_input" where
  "revoked_case pl i d ev = \<lparr>ri_disposition = d,
     ri_offline_operation_id = env_offline_operation_id (ai_envelope i),
     ri_operation_fingerprint = input_fingerprint pl i,
     ri_organisation_id = env_organisation_id (ai_envelope i), ri_site_id = env_site_id (ai_envelope i),
     ri_priorCommittedEvidence = ev\<rparr>"

text \<open>
  C13: A withdrawn credential causes no new effect. If the key is not current, or carries a
  withdrawal, or the device does, the evaluator refuses, whatever else holds; the resolution of
  the operation is RESOLVE_AS_COMMITTED exactly when Sentinel's own record is about the same id,
  bytes, organisation and site; human re-entry is offered only for a disposition whose response
  keeps the identity restorable and the Edge buffer; and no response executes queued work.
\<close>

theorem revoked_operation_causes_no_new_effect:
  assumes "rk_status (ai_registeredKey i) \<noteq> CURRENT \<or> rk_revoked_at (ai_registeredKey i) \<noteq> None
    \<or> ai_deviceRevokedAt i \<noteq> None"
  shows "(\<exists>r. evaluateOfflineOperationAdmissibility pl i = Refused r)
    \<and> (resolveRevokedDeviceOperation (revoked_case pl i d ev) = RESOLVE_AS_COMMITTED \<longleftrightarrow>
        (\<exists>x. ev = Some x \<and> ev_source x = ''SENTINEL_DOMAIN_RECORD''
           \<and> ev_offline_operation_id x = env_offline_operation_id (ai_envelope i)
           \<and> ev_operation_fingerprint x = input_fingerprint pl i
           \<and> ev_organisation_id x = env_organisation_id (ai_envelope i)
           \<and> ev_site_id x = env_site_id (ai_envelope i)))
    \<and> (resolveRevokedDeviceOperation (revoked_case pl i d ev) = REQUIRES_HUMAN_REENTRY \<longrightarrow>
        rr_identity_restorable (DEVICE_REVOCATION_RESPONSES d)
        \<and> \<not> rr_discards_edge_buffer (DEVICE_REVOCATION_RESPONSES d))
    \<and> \<not> rr_queued_domain_execution (DEVICE_REVOCATION_RESPONSES d)"
proof (intro conjI)
  have "\<nexists>l. origin_established i l" using assms by (auto simp: origin_established_def Let_def)
  then show "\<exists>r. evaluateOfflineOperationAdmissibility pl i = Refused r" by (rule evaluate_not_established)
qed (cases ev; cases d; auto simp: resolveRevokedDeviceOperation_def revoked_case_def)+

subsection \<open>An admitted input\<close>

definition ack_envelope :: envelope where
  "ack_envelope = \<lparr>env_schema_version = 1, env_offline_operation_id = ''op-1'',
     env_organisation_id = ''org'', env_site_id = ''site'', env_actor_user_id = ''actor'', env_device_id = ''device'',
     env_key_id = ''key'', env_key_version = 1, env_operation_kind = INCIDENT_FIELD_MESSAGE_ACKNOWLEDGE,
     env_device_sequence = 0, env_idempotency_key = ''idem'', env_payload_digest = replicate 64 CHR ''a'',
     env_policy_lease_id = ''lease'', env_nonce = replicate 16 CHR ''n'', env_created_at = ''7'',
     env_claimed_signature_profile = ''P256_ECDSA_SHA256'',
     env_signature = to_base64url (bigIntToScalarBytes 1 @ bigIntToScalarBytes 1)\<rparr>"

definition ack_lease :: policy_lease where
  "ack_lease = \<lparr>le_schema_version = 1, le_lease_id = ''lease'', le_organisation_id = ''org'',
     le_site_id = ''site'', le_device_id = ''device'', le_actor_user_id = ''actor'',
     le_authority_basis_id = ''role'', le_scope = [INCIDENT_FIELD_MESSAGE_ACKNOWLEDGE],
     le_issued_at = ''10'', le_expires_at = ''20''\<rparr>"

definition ack_key :: registry_key where
  "ack_key = \<lparr>rk_schema_version = 1, rk_organisation_id = ''org'', rk_device_id = ''device'',
     rk_key_id = ''key'', rk_key_version = 1, rk_public_key = ''pk'', rk_public_key_thumbprint = ''tp'',
     rk_signature_profile = ''P256_ECDSA_SHA256'', rk_key_storage = HARDWARE_BACKED, rk_status = CURRENT,
     rk_registered_at = ''1'', rk_rotated_at = None, rk_revoked_at = None, rk_revocation_disposition = None\<rparr>"

definition ack_input :: "json \<Rightarrow> string \<Rightarrow> admissibility_input" where
  "ack_input report now = \<lparr>ai_envelope = ack_envelope, ai_lease = Some ack_lease, ai_witness = No_Witness,
     ai_now = now, ai_expectedPayloadDigest = replicate 64 CHR ''a'', ai_deviceRevokedAt = None,
     ai_signatureVerified = True, ai_registeredKey = ack_key, ai_consumption = report\<rparr>"

theorem revoked_operation_causes_no_new_effect_witness:
  "\<exists>r. evaluateOfflineOperationAdmissibility (example_platform [])
      (ack_input JNull ''15''\<lparr>ai_deviceRevokedAt := Some ''12''\<rparr>) = Refused r"
  using revoked_operation_causes_no_new_effect[of "ack_input JNull ''15''\<lparr>ai_deviceRevokedAt := Some ''12''\<rparr>"
      "example_platform []" LOST None] by simp

theorem offline_identities_do_not_collide_witness:
  "deviceOfflineOperationReplayKey ack_envelope
     \<noteq> deviceOfflineOperationReplayKey (ack_envelope\<lparr>env_nonce := replicate 16 CHR ''m''\<rparr>)
   \<and> deviceOfflineOperationReplayKey ack_envelope
     = deviceOfflineOperationReplayKey (ack_envelope\<lparr>env_created_at := ''9''\<rparr>)"
proof -
  let ?i = "deviceOfflineOperationStatementInput ack_envelope ''P256_ECDSA_SHA256''"
  note ids = offline_identities_do_not_collide[of "example_platform []" ?i ?i]
  from ids[of ack_envelope "ack_envelope\<lparr>env_nonce := replicate 16 CHR ''m''\<rparr>"]
    ids[of ack_envelope "ack_envelope\<lparr>env_created_at := ''9''\<rparr>"]
  show ?thesis by (simp add: ack_envelope_def numeral_eq_Suc)
qed

end
