(* ===== verification/Offline_Ingress.thy ===== *)
theory Offline_Ingress
  imports Offline_Admissibility
begin

text \<open>
  Where a queued operation enters the central service: the issue and resolution of policy leases
  (device-policy-lease.service.ts) and the ingress of a queued envelope
  (device-offline-ingress.service.ts), both in services/core-api/src/modules/device-gateway. What the
  two read from the database is the record \<open>server\<close>; ECDSA is its field \<open>verify\<close>. The ingress judges
  on one read of the replay store and spends the identity in a later transaction, so the two phases
  are two definitions, and \<open>ingress\<close> is their composition when nothing runs in between.
\<close>

subsection \<open>Policy leases\<close>

fun REQUIRED_ACTION_FOR_KIND :: "operation_kind \<Rightarrow> string" where
  "REQUIRED_ACTION_FOR_KIND INCIDENT_FIELD_MESSAGE_SEND = ''field.message.send''"
| "REQUIRED_ACTION_FOR_KIND INCIDENT_FIELD_MESSAGE_ACKNOWLEDGE = ''field.message.acknowledge''"
| "REQUIRED_ACTION_FOR_KIND _ = ''field.assignment.act''"

definition WP29A_ADMITTED_OFFLINE_OPERATION_KINDS :: "operation_kind list" where
  "WP29A_ADMITTED_OFFLINE_OPERATION_KINDS = DEVICE_OFFLINE_STALE_TOLERANT_OPERATION_KINDS"

record device_context =
  cx_organisation_id :: string
  cx_actor_user_id :: string
  cx_device_id :: string
  cx_authorised_site_ids :: "string list"
  cx_key_id :: string

record lease_row =
  lr_id :: string
  lr_organisationId :: string
  lr_deviceId :: string
  lr_siteId :: string
  lr_actorUserId :: string
  lr_authorityBasisId :: string
  lr_scope :: "string list"
  lr_issuedAt :: int
  lr_expiresAt :: int
  lr_revokedAt :: "int option"

text \<open>\<open>Date.prototype.toISOString\<close> is the argument \<open>iso_string\<close>. A row is read back through the schema.\<close>

definition parse_kinds :: "string list \<Rightarrow> operation_kind list option" where
  "parse_kinds names = (if \<forall>s\<in>set names. kind_of_name s \<noteq> None
     then Some (map (the \<circ> kind_of_name) names) else None)"

definition lease_of_row :: "platform \<Rightarrow> (int \<Rightarrow> string) \<Rightarrow> lease_row \<Rightarrow> policy_lease option" where
  "lease_of_row pl iso_string r = (case parse_kinds (lr_scope r) of None \<Rightarrow> None
     | Some kinds \<Rightarrow>
       let l = \<lparr>le_schema_version = 1, le_lease_id = lr_id r, le_organisation_id = lr_organisationId r,
             le_site_id = lr_siteId r, le_device_id = lr_deviceId r, le_actor_user_id = lr_actorUserId r,
             le_authority_basis_id = lr_authorityBasisId r, le_scope = kinds,
             le_issued_at = iso_string (lr_issuedAt r), le_expires_at = iso_string (lr_expiresAt r)\<rparr>
       in if policy_lease_ok pl l then Some l else None)"

definition findPolicyLease :: "lease_row list \<Rightarrow> string \<Rightarrow> string \<Rightarrow> lease_row option" where
  "findPolicyLease rows organisationId leaseId =
     List.find (\<lambda>r. lr_id r = leaseId \<and> lr_organisationId r = organisationId) rows"

definition resolve_lease :: "platform \<Rightarrow> (int \<Rightarrow> string) \<Rightarrow> lease_row list \<Rightarrow> string \<Rightarrow> string \<Rightarrow> policy_lease option" where
  "resolve_lease pl iso_string rows organisationId leaseId =
     (case findPolicyLease rows organisationId leaseId of None \<Rightarrow> None
      | Some r \<Rightarrow> if lr_revokedAt r \<noteq> None then None else lease_of_row pl iso_string r)"

definition revokePolicyLease :: "string \<Rightarrow> string \<Rightarrow> int \<Rightarrow> lease_row list \<Rightarrow> bool \<times> lease_row list" where
  "revokePolicyLease organisationId leaseId instant rows =
     (let hit = (\<lambda>r. lr_id r = leaseId \<and> lr_organisationId r = organisationId \<and> lr_revokedAt r = None)
      in (length (filter hit rows) = 1, map (\<lambda>r. if hit r then r\<lparr>lr_revokedAt := Some instant\<rparr> else r) rows))"

text \<open>The requested kinds in order of first mention; unknown names are dropped.\<close>

definition parseScope :: "string list \<Rightarrow> operation_kind list" where
  "parseScope requested = rev (remdups (rev (List.map_filter kind_of_name requested)))"

text \<open>
  The actor half of an issue: the authority resolved for a kind is nothing, or whether the actor holds
  the capability and at which sites. The loop gives up (\<open>None\<close>) at the first unresolvable authority.
\<close>

fun admitted_kinds :: "(string \<Rightarrow> (bool \<times> string list) option) \<Rightarrow> string \<Rightarrow> operation_kind list
    \<Rightarrow> operation_kind list option" where
  "admitted_kinds authority siteId [] = Some []"
| "admitted_kinds authority siteId (kind # kinds) = (case authority (REQUIRED_ACTION_FOR_KIND kind) of
     None \<Rightarrow> None
   | Some (holds, sites) \<Rightarrow>
     (case admitted_kinds authority siteId kinds of None \<Rightarrow> None
      | Some rest \<Rightarrow> Some (if holds \<and> siteId \<in> set sites then kind # rest else rest)))"

record issue_request =
  iq_context :: device_context
  iq_siteId :: string
  iq_requestedScope :: "string list"
  iq_authorityBasisId :: string
  iq_requestedLifetimeMs :: int

text \<open>
  \<open>issue\<close>: \<open>device_known\<close> and \<open>device_at_site\<close> are what the registry answers, \<open>fresh_id\<close> the generated
  id, \<open>now\<close> the server clock.
\<close>

definition issue_lease :: "platform \<Rightarrow> (int \<Rightarrow> string) \<Rightarrow> bool \<Rightarrow> bool \<Rightarrow> (string \<Rightarrow> (bool \<times> string list) option)
    \<Rightarrow> string \<Rightarrow> int \<Rightarrow> issue_request \<Rightarrow> lease_row list \<Rightarrow> policy_lease option \<times> lease_row list" where
  "issue_lease pl iso_string device_known device_at_site authority fresh_id now q rows =
     (let cx = iq_context q; requested = parseScope (iq_requestedScope q) in
      if iq_siteId q \<notin> set (cx_authorised_site_ids cx) then (None, rows)
      else if length requested = 0 then (None, rows)
      else if \<not> device_known then (None, rows)
      else if \<not> device_at_site then (None, rows)
      else (case admitted_kinds authority (iq_siteId q) requested of None \<Rightarrow> (None, rows)
        | Some admitted \<Rightarrow>
          if length admitted = 0 then (None, rows)
          else let lifetimeMs = min (max (iq_requestedLifetimeMs q) 0) DEVICE_OFFLINE_LEASE_MAX_LIFETIME_MS in
            if lifetimeMs = 0 then (None, rows)
            else let r = \<lparr>lr_id = fresh_id, lr_organisationId = cx_organisation_id cx,
                    lr_deviceId = cx_device_id cx, lr_siteId = iq_siteId q,
                    lr_actorUserId = cx_actor_user_id cx, lr_authorityBasisId = iq_authorityBasisId q,
                    lr_scope = map kind_name admitted, lr_issuedAt = now, lr_expiresAt = now + lifetimeMs,
                    lr_revokedAt = None\<rparr>
              in (case lease_of_row pl iso_string r of None \<Rightarrow> (None, rows) | Some l \<Rightarrow> (Some l, rows @ [r]))))"

subsection \<open>The ingress\<close>

fun obj_field :: "string \<Rightarrow> json \<Rightarrow> json option" where
  "obj_field k (JObj kvs) = map_of kvs k"
| "obj_field k _ = None"

text \<open>The queued operation id, read from an unverified body.\<close>

definition readClaimedOfflineOperationId :: "json \<Rightarrow> string option" where
  "readClaimedOfflineOperationId body =
     as_string (Option.bind (Option.bind (obj_field ''payload'' body) (obj_field ''envelope''))
       (obj_field ''offline_operation_id''))"

definition buildConsumptionFact :: "string \<Rightarrow> string \<Rightarrow> (string \<times> string option) option \<Rightarrow> consumption" where
  "buildConsumptionFact replayKey fingerprint peeked = (case peeked of
       None \<Rightarrow> First_Seen replayKey fingerprint
     | Some (storedFingerprint, storedOutcomeRef) \<Rightarrow>
       let sameBytes = (storedFingerprint = fingerprint);
           ref = (case storedOutcomeRef of None \<Rightarrow> [] | Some r \<Rightarrow> trim r) in
       if sameBytes \<and> length ref > 0 then Exact_Duplicate replayKey storedFingerprint ref
       else Changed_Semantics replayKey storedFingerprint)"

definition earliestInstant :: "platform \<Rightarrow> string option \<Rightarrow> string option \<Rightarrow> string option" where
  "earliestInstant pl left right = (case (left, right) of
       (None, _) \<Rightarrow> right
     | (_, None) \<Rightarrow> left
     | (Some l, Some r) \<Rightarrow> (case (date_parse pl l, date_parse pl r) of
           (None, _) \<Rightarrow> Some l
         | (_, None) \<Rightarrow> Some r
         | (Some lm, Some rm) \<Rightarrow> if lm \<le> rm then Some l else Some r))"

record server =
  sv_registryKey :: "string \<Rightarrow> string \<Rightarrow> registry_key option"
  sv_leases :: "lease_row list"
  sv_iso :: "int \<Rightarrow> string"
  sv_deviceRevokedAt :: "string \<Rightarrow> string \<Rightarrow> string option"
  sv_verify :: "string \<Rightarrow> string \<Rightarrow> bytes \<Rightarrow> bool"
  sv_now :: int

text \<open>\<open>P256KeyImporter.verifySignature\<close>: import and check of the key are the platform's.\<close>

definition verifySignature :: "(string \<Rightarrow> string \<Rightarrow> bytes \<Rightarrow> bool) \<Rightarrow> string \<Rightarrow> string \<Rightarrow> string \<Rightarrow> string \<Rightarrow> string \<Rightarrow> bool" where
  "verifySignature verify registeredPublicKey message signature serverResolvedProfile claimedProfile =
     (case bindClaimedSignatureProfile claimedProfile serverResolvedProfile of
        Bound _ \<Rightarrow> (case decodeCanonicalP256Signature signature of Inl _ \<Rightarrow> False
          | Inr sc \<Rightarrow> verify registeredPublicKey message (scalar_bytes sc))
      | _ \<Rightarrow> False)"

definition bindEnvelopeToContext :: "envelope \<Rightarrow> device_context \<Rightarrow> string \<Rightarrow> bool" where
  "bindEnvelopeToContext e cx proofSiteId \<longleftrightarrow>
     env_organisation_id e = cx_organisation_id cx \<and> env_device_id e = cx_device_id cx
     \<and> env_actor_user_id e = cx_actor_user_id cx \<and> env_site_id e = proofSiteId
     \<and> env_site_id e \<in> set (cx_authorised_site_ids cx)"

datatype ingress_reason = QUEUED_ENVELOPE_UNPARSEABLE | QUEUED_OPERATION_ID_MISBOUND
  | IDENTITY_BINDING_MISMATCH | OPERATION_KIND_NOT_ADMITTED | REGISTRY_KEY_UNRESOLVABLE
  | QUEUED_KEY_MISMATCH | QUEUED_PROFILE_MISMATCH | Contract refusal

text \<open>
  \<open>Judged e k f adm\<close>: admitted, with the envelope, replay key and fingerprint the later phase spends.
  \<open>Ingress_Threw\<close> is the TypeError of a payload with no JSON form.
\<close>

datatype verdict = Ingress_Refused ingress_reason | Ingress_Conflict | Ingress_Threw
  | Judged envelope string string admissibility

record submission =
  sb_context :: device_context
  sb_siteId :: string
  sb_target_id :: string
  sb_envelope :: json
  sb_payload :: json

text \<open>The four inputs of the evaluator, each from server state; there is no Edge on this path.\<close>

definition ingress_input :: "platform \<Rightarrow> server \<Rightarrow> submission \<Rightarrow> envelope \<Rightarrow> registry_key \<Rightarrow> string \<Rightarrow> replay_rows
    \<Rightarrow> admissibility_input" where
  "ingress_input pl sv sb e k expectedPayloadDigest rows =
     (let org = cx_organisation_id (sb_context sb);
          statementInput = deviceOfflineOperationStatementInput e (rk_signature_profile k);
          replayKey = deviceOfflineOperationReplayKey e
      in \<lparr>ai_envelope = e,
            ai_lease = resolve_lease pl (sv_iso sv) (sv_leases sv) org (env_policy_lease_id e),
            ai_witness = No_Witness, ai_now = sv_iso sv (sv_now sv),
            ai_expectedPayloadDigest = expectedPayloadDigest,
            ai_deviceRevokedAt = earliestInstant pl (sv_deviceRevokedAt sv org (cx_device_id (sb_context sb)))
              (rk_revoked_at k),
            ai_signatureVerified = verifySignature (sv_verify sv) (rk_public_key k)
              (canonicalDeviceOfflineOperationStatement statementInput) (env_signature e)
              (rk_signature_profile k) (env_claimed_signature_profile e),
            ai_registeredKey = k,
            ai_consumption = consumption_json (buildConsumptionFact replayKey
              (deviceOfflineOperationFingerprint pl statementInput) (peek pl org replayKey rows))\<rparr>)"

definition judge_envelope :: "platform \<Rightarrow> server \<Rightarrow> submission \<Rightarrow> envelope \<Rightarrow> registry_key \<Rightarrow> string \<Rightarrow> replay_rows \<Rightarrow> verdict" where
  "judge_envelope pl sv sb e k expectedPayloadDigest rows =
     (case evaluateOfflineOperationAdmissibility pl (ingress_input pl sv sb e k expectedPayloadDigest rows) of
        Refused r \<Rightarrow> if r = NONCE_REUSED_WITH_CHANGED_SEMANTICS then Ingress_Conflict
          else Ingress_Refused (Contract r)
      | adm \<Rightarrow> Judged e (deviceOfflineOperationReplayKey e)
          (deviceOfflineOperationFingerprint pl (deviceOfflineOperationStatementInput e (rk_signature_profile k))) adm)"

definition ingress_judge :: "platform \<Rightarrow> server \<Rightarrow> submission \<Rightarrow> replay_rows \<Rightarrow> verdict" where
  "ingress_judge pl sv sb rows = (case parse_envelope pl (sb_envelope sb) of
       None \<Rightarrow> Ingress_Refused QUEUED_ENVELOPE_UNPARSEABLE
     | Some e \<Rightarrow>
       if sb_target_id sb \<noteq> env_offline_operation_id e then Ingress_Refused QUEUED_OPERATION_ID_MISBOUND
       else if \<not> bindEnvelopeToContext e (sb_context sb) (sb_siteId sb)
         then Ingress_Refused IDENTITY_BINDING_MISMATCH
       else if env_operation_kind e \<notin> set WP29A_ADMITTED_OFFLINE_OPERATION_KINDS
         then Ingress_Refused OPERATION_KIND_NOT_ADMITTED
       else (case sv_registryKey sv (cx_organisation_id (sb_context sb)) (cx_key_id (sb_context sb)) of
           None \<Rightarrow> Ingress_Refused REGISTRY_KEY_UNRESOLVABLE
         | Some k \<Rightarrow>
           if env_key_id e \<noteq> rk_key_id k \<or> env_key_version e \<noteq> rk_key_version k
             then Ingress_Refused QUEUED_KEY_MISMATCH
           else (case device_canonical_digest (sha pl) (sb_payload sb) of None \<Rightarrow> Ingress_Threw
             | Some expectedPayloadDigest \<Rightarrow>
               (case bindClaimedSignatureProfile (env_claimed_signature_profile e) (rk_signature_profile k) of
                  Bound _ \<Rightarrow> judge_envelope pl sv sb e k expectedPayloadDigest rows
                | _ \<Rightarrow> Ingress_Refused QUEUED_PROFILE_MISMATCH))))"

text \<open>The second transaction, of an admitted submission: the identity is spent; its answer is dropped.\<close>

fun ingress_spend :: "platform \<Rightarrow> submission \<Rightarrow> verdict \<Rightarrow> replay_rows \<Rightarrow> replay_rows" where
  "ingress_spend pl sb (Judged e replayKey fingerprint adm) rows =
     snd (consume pl (cx_organisation_id (sb_context sb)) replayKey fingerprint (env_offline_operation_id e) rows)"
| "ingress_spend pl sb _ rows = rows"

definition ingress :: "platform \<Rightarrow> server \<Rightarrow> submission \<Rightarrow> replay_rows \<Rightarrow> verdict \<times> replay_rows" where
  "ingress pl sv sb rows = (let v = ingress_judge pl sv sb rows in (v, ingress_spend pl sb v rows))"

end
