(* ===== verification/Offline_Ingress_Properties.thy ===== *)
theory Offline_Ingress_Properties
  imports Offline_Ingress
begin

text \<open>
  What the ingress guarantees: a queued statement proceeds once, in any sequence of requests; where it
  does not (two requests at once share one identity; a reused identity is never reported as a
  conflict); and what an issued lease contains. The concrete server of the examples is at the end of
  each part.
\<close>

subsection \<open>Judging\<close>

lemma not_refused_established:
  assumes "evaluateOfflineOperationAdmissibility pl i = adm" "\<And>r. adm \<noteq> Refused r"
  shows "(\<exists>b t. adm = Proceed b t (input_fingerprint pl i) \<and> read_consumption (ai_consumption i)
      = Some (First_Seen (deviceOfflineOperationReplayKey (ai_envelope i)) (input_fingerprint pl i)))
    \<or> (\<exists>b t ref. adm = Converge b t (input_fingerprint pl i) ref \<and> read_consumption (ai_consumption i)
      = Some (Exact_Duplicate (deviceOfflineOperationReplayKey (ai_envelope i)) (input_fingerprint pl i) ref))"
proof (cases adm)
  case (Proceed b t fp)
  with assms(1) proceed_iff[of pl i b t fp] show ?thesis by blast
next
  case (Converge b t fp ref)
  with assms(1) converge_iff[of pl i b t fp ref] show ?thesis by blast
qed (use assms(2) in blast)

lemma ingress_input_simps [simp]:
  "ai_envelope (ingress_input pl sv sb e k d rows) = e"
  "ai_registeredKey (ingress_input pl sv sb e k d rows) = k"
  "ai_consumption (ingress_input pl sv sb e k d rows) = consumption_json
     (buildConsumptionFact (deviceOfflineOperationReplayKey e)
       (deviceOfflineOperationFingerprint pl (deviceOfflineOperationStatementInput e (rk_signature_profile k)))
       (peek pl (cx_organisation_id (sb_context sb)) (deviceOfflineOperationReplayKey e) rows))"
  by (simp_all add: ingress_input_def Let_def)

lemma judge_envelope_Judged:
  assumes "judge_envelope pl sv sb e0 k0 d rows = Judged e k f adm"
  shows "e = e0" "k = deviceOfflineOperationReplayKey e"
    "f = deviceOfflineOperationFingerprint pl (deviceOfflineOperationStatementInput e (rk_signature_profile k0))"
    "evaluateOfflineOperationAdmissibility pl (ingress_input pl sv sb e k0 d rows) = adm" "adm \<noteq> Refused r"
  using assms by (auto simp: judge_envelope_def split: admissibility.splits if_splits)

lemma ingress_judge_cases:
  assumes "ingress_judge pl sv sb rows = v"
  obtains (refused) r where "v = Ingress_Refused r" | (threw) "v = Ingress_Threw"
  | (evaluated) e k d where "v = judge_envelope pl sv sb e k d rows"
      "parse_envelope pl (sb_envelope sb) = Some e" "bindEnvelopeToContext e (sb_context sb) (sb_siteId sb)"
  using assms by (auto simp: ingress_judge_def split: option.splits if_splits profile_binding.splits)

text \<open>What a judged submission carries: its identities, and the answer the store's row gives.\<close>

lemma judged:
  assumes "ingress_judge pl sv sb rows = Judged e k f adm"
  shows "env_organisation_id e = cx_organisation_id (sb_context sb)" "k = deviceOfflineOperationReplayKey e"
    "uuid_format pl (env_offline_operation_id e)"
    "(\<exists>b t. adm = Proceed b t f) \<and> rows (cx_organisation_id (sb_context sb), sha pl k) = None
     \<or> (\<exists>b t r. adm = Converge b t f (trim r) \<and> rows (cx_organisation_id (sb_context sb), sha pl k) = Some (f, Some r))"
proof -
  obtain k0 d where j0: "judge_envelope pl sv sb e k0 d rows = Judged e k f adm"
    and e: "parse_envelope pl (sb_envelope sb) = Some e" "bindEnvelopeToContext e (sb_context sb) (sb_siteId sb)"
    using assms by (rule ingress_judge_cases) (simp, simp, metis judge_envelope_Judged(1))
  note j = judge_envelope_Judged[OF j0]
  show "env_organisation_id e = cx_organisation_id (sb_context sb)"
    using e(2) by (simp add: bindEnvelopeToContext_def)
  show "uuid_format pl (env_offline_operation_id e)"
    using parse_envelope_ok[OF e(1)] by (simp add: envelope_ok_def)
  show "k = deviceOfflineOperationReplayKey e" by (rule j(2))
  show "(\<exists>b t. adm = Proceed b t f) \<and> rows (cx_organisation_id (sb_context sb), sha pl k) = None
     \<or> (\<exists>b t r. adm = Converge b t f (trim r) \<and> rows (cx_organisation_id (sb_context sb), sha pl k) = Some (f, Some r))"
    using not_refused_established[OF j(4,5)]
    unfolding ingress_input_simps read_consumption_json j(2,3)
    by (auto simp: buildConsumptionFact_def peek_def Let_def split: if_splits option.splits)
qed

subsection \<open>One-shot identities\<close>

text \<open>
  A UUID is not blank. With that, every row the ingress writes names an outcome.
\<close>

definition replay_rows_ok :: "platform \<Rightarrow> replay_rows \<Rightarrow> bool" where
  "replay_rows_ok pl rows \<longleftrightarrow> (\<forall>s. uuid_format pl s \<longrightarrow> trim s \<noteq> [])
     \<and> (\<forall>id f ref. rows id = Some (f, ref) \<longrightarrow> (\<exists>r. ref = Some r \<and> trim r \<noteq> []))"

definition ingress_step :: "platform \<Rightarrow> server \<times> submission \<Rightarrow> replay_rows \<Rightarrow> replay_rows" where
  "ingress_step pl x rows = snd (ingress pl (fst x) (snd x) rows)"

lemma spend_rows: "ingress_spend pl sb v rows =
    (case v of Judged e k f adm \<Rightarrow> (case rows (cx_organisation_id (sb_context sb), sha pl k) of
        None \<Rightarrow> rows((cx_organisation_id (sb_context sb), sha pl k) \<mapsto> (f, Some (env_offline_operation_id e)))
      | Some _ \<Rightarrow> rows)
     | _ \<Rightarrow> rows)"
  by (cases v) (simp_all add: consume_def Let_def split: option.splits)

lemma ingress_step_ok: "replay_rows_ok pl rows \<Longrightarrow> replay_rows_ok pl (ingress_step pl x rows)"
  using judged(3)[of pl "fst x" "snd x" rows]
  by (auto simp: ingress_step_def ingress_def Let_def spend_rows replay_rows_ok_def
      split: verdict.splits option.splits)

lemma ingress_step_grows: "rows \<subseteq>\<^sub>m ingress_step pl x rows"
  by (auto simp: ingress_step_def ingress_def Let_def spend_rows map_le_def
      split: verdict.splits option.splits)

interpretation ingress: forward_machine "replay_rows_ok pl" "ingress_step pl" "(\<subseteq>\<^sub>m)" for pl
  by unfold_locales (use ingress_step_ok ingress_step_grows map_le_trans in auto)

text \<open>
  C11: A queued statement proceeds once. Once the ingress has let a submission proceed and spent
  its identity, any later submission under the same replay key of the organisation, after any
  sequence of other requests, is admitted only with the same fingerprint and only to converge on
  the first operation's id: never to a second effect.
\<close>

theorem queued_statement_proceeds_once:
  assumes "replay_rows_ok pl rows" "ingress pl sv sb rows = (Judged e k f (Proceed b t fp), rows')"
    and "fst (ingress pl sv' sb' (fold (ingress_step pl) xs rows')) = Judged e' k f' adm"
    and "env_organisation_id e' = env_organisation_id e"
  shows "f' = f \<and> (\<exists>b' t'. adm = Converge b' t' f (trim (env_offline_operation_id e)))"
proof -
  let ?id = "(env_organisation_id e, sha pl k)"
  have j1: "ingress_judge pl sv sb rows = Judged e k f (Proceed b t fp)"
    using assms(2) by (simp add: ingress_def Let_def)
  with assms(2) have j2: "rows' = ingress_spend pl sb (Judged e k f (Proceed b t fp)) rows"
    by (simp add: ingress_def Let_def)
  note j = j1 j2
  have "rows ?id = None" using judged(1,4)[OF j(1)] by auto
  then have "rows' ?id = Some (f, Some (env_offline_operation_id e))"
    using j(2) judged(1)[OF j(1)] by (simp add: consume_def Let_def)
  moreover have "rows' \<subseteq>\<^sub>m fold (ingress_step pl) xs rows'"
  proof -
    have "rows' = ingress_step pl (sv, sb) rows" using assms(2) by (simp add: ingress_step_def)
    then have "replay_rows_ok pl rows'" using ingress_step_ok[OF assms(1)] by simp
    then show ?thesis by (rule ingress.run_before)
  qed
  ultimately have row: "fold (ingress_step pl) xs rows' ?id = Some (f, Some (env_offline_operation_id e))"
    by (simp add: map_le_def dom_def)
  have "ingress_judge pl sv' sb' (fold (ingress_step pl) xs rows') = Judged e' k f' adm"
    using assms(3) by (simp add: ingress_def Let_def)
  from judged(1,4)[OF this] show ?thesis using row assms(4) by auto
qed

lemma refused_changed:
  assumes "evaluateOfflineOperationAdmissibility pl i = Refused NONCE_REUSED_WITH_CHANGED_SEMANTICS"
  shows "read_consumption (ai_consumption i)
    = Some (Changed_Semantics (deviceOfflineOperationReplayKey (ai_envelope i)) (input_fingerprint pl i))"
proof (cases "\<exists>l. origin_established i l")
  case True
  then obtain l where l: "origin_established i l" ..
  have "judge_at pl l b t fp ref \<noteq> Refused NONCE_REUSED_WITH_CHANGED_SEMANTICS" for b t fp ref
    by (auto simp: judge_at_def split: lease_standing.splits option.splits)
  moreover have "edge_instant e fp w \<noteq> Inl NONCE_REUSED_WITH_CHANGED_SEMANTICS" for e fp w
    by (auto simp: edge_instant_def bound_cases split: witness.splits option.splits)
  ultimately show ?thesis
    using assms unfolding evaluate_established[OF l]
    by (auto split: option.splits if_splits sum.splits elim: changed_semantics.elims)
next
  case False
  have "origin_refusal i \<noteq> Some NONCE_REUSED_WITH_CHANGED_SEMANTICS"
    by (auto simp: origin_refusal_def Let_def bound_cases split: option.splits)
  with False assms show ?thesis
    using origin_refusal_None[of i] by (auto simp: evaluateOfflineOperationAdmissibility_def Let_def split: option.splits)
qed

lemma conflict_row:
  assumes "ingress_judge pl sv sb rows = Ingress_Conflict"
  shows "\<exists>e p ref. rows (cx_organisation_id (sb_context sb), sha pl (deviceOfflineOperationReplayKey e))
      = Some (deviceOfflineOperationFingerprint pl (deviceOfflineOperationStatementInput e p), ref)
    \<and> (\<forall>r. ref = Some r \<longrightarrow> trim r = [])"
proof -
  obtain e k d where "judge_envelope pl sv sb e k d rows = Ingress_Conflict"
    using assms by (rule ingress_judge_cases) (simp, simp, metis)
  then have "evaluateOfflineOperationAdmissibility pl (ingress_input pl sv sb e k d rows)
      = Refused NONCE_REUSED_WITH_CHANGED_SEMANTICS"
    by (auto simp: judge_envelope_def split: admissibility.splits if_splits)
  from refused_changed[OF this]
  have "\<exists>ref. rows (cx_organisation_id (sb_context sb), sha pl (deviceOfflineOperationReplayKey e))
      = Some (deviceOfflineOperationFingerprint pl (deviceOfflineOperationStatementInput e (rk_signature_profile k)), ref)
    \<and> (\<forall>r. ref = Some r \<longrightarrow> trim r = [])"
    unfolding ingress_input_simps read_consumption_json
    by (auto simp: buildConsumptionFact_def peek_def Let_def split: if_splits option.splits)
  then show ?thesis by blast
qed

text \<open>
  A reused identity is never a conflict. The ingress answers CONFLICT only for a stored row
  with the same bytes that names no outcome; and no sequence of requests on a fresh store reaches
  such a row. A replay identity reused on different bytes is therefore answered as a refusal (the
  fact carries the stored fingerprint, which the evaluator reads as misbound) and the branch of
  the code for changed semantics is dead.
\<close>

theorem ingress_never_reports_conflict:
  assumes "\<forall>s. uuid_format pl s \<longrightarrow> trim s \<noteq> []"
  shows "fst (ingress pl sv sb (fold (ingress_step pl) xs Map.empty)) \<noteq> Ingress_Conflict
    \<and> (fst (ingress pl sv sb rows) = Ingress_Conflict \<longrightarrow>
        (\<exists>e p ref. rows (cx_organisation_id (sb_context sb), sha pl (deviceOfflineOperationReplayKey e))
            = Some (deviceOfflineOperationFingerprint pl (deviceOfflineOperationStatementInput e p), ref)
          \<and> (\<forall>r. ref = Some r \<longrightarrow> trim r = [])))"
proof (intro conjI impI)
  have "replay_rows_ok pl Map.empty" using assms by (simp add: replay_rows_ok_def)
  from ingress.run_inv[OF this]
  have ok: "replay_rows_ok pl (fold (ingress_step pl) xs Map.empty)" by blast
  show "fst (ingress pl sv sb (fold (ingress_step pl) xs Map.empty)) \<noteq> Ingress_Conflict"
  proof
    assume "fst (ingress pl sv sb (fold (ingress_step pl) xs Map.empty)) = Ingress_Conflict"
    then have "ingress_judge pl sv sb (fold (ingress_step pl) xs Map.empty) = Ingress_Conflict"
      by (simp add: ingress_def Let_def)
    from conflict_row[OF this] ok show False unfolding replay_rows_ok_def by metis
  qed
qed (simp add: ingress_def Let_def conflict_row)

subsection \<open>Two submissions at once\<close>

text \<open>
  Two requests whose transactions interleave: both judge on the rows as they stand, then both spend.
\<close>

definition racing :: "platform \<Rightarrow> server \<Rightarrow> submission \<Rightarrow> submission \<Rightarrow> replay_rows \<Rightarrow> verdict \<times> verdict \<times> replay_rows" where
  "racing pl sv sb1 sb2 rows =
     (let v1 = ingress_judge pl sv sb1 rows; v2 = ingress_judge pl sv sb2 rows
      in (v1, v2, ingress_spend pl sb2 v2 (ingress_spend pl sb1 v1 rows)))"

text \<open>A concrete server: a digest that keeps texts apart, instants in decimal, one lease, one key.\<close>

definition demo_platform :: platform where
  "demo_platform = (example_platform [])\<lparr>sha := (\<lambda>t. if t = ''{}'' then replicate 64 CHR ''a'' else t),
     uuid_format := (\<lambda>s. s = ''op-1'' \<or> s = ''op-2'')\<rparr>"

definition demo_server :: server where
  "demo_server = \<lparr>sv_registryKey = (\<lambda>_ _. Some ack_key),
     sv_leases = [\<lparr>lr_id = ''lease'', lr_organisationId = ''org'', lr_deviceId = ''device'', lr_siteId = ''site'',
       lr_actorUserId = ''actor'', lr_authorityBasisId = ''role'',
       lr_scope = [''INCIDENT_FIELD_MESSAGE_ACKNOWLEDGE''], lr_issuedAt = 10, lr_expiresAt = 20, lr_revokedAt = None\<rparr>],
     sv_iso = show_int, sv_deviceRevokedAt = (\<lambda>_ _. None), sv_verify = (\<lambda>_ _ _. True), sv_now = 15\<rparr>"

definition demo_submission :: "string \<Rightarrow> submission" where
  "demo_submission op = \<lparr>sb_context = \<lparr>cx_organisation_id = ''org'', cx_actor_user_id = ''actor'',
       cx_device_id = ''device'', cx_authorised_site_ids = [''site''], cx_key_id = ''key''\<rparr>,
     sb_siteId = ''site'', sb_target_id = op,
     sb_envelope = envelope_json (ack_envelope\<lparr>env_offline_operation_id := op\<rparr>), sb_payload = JObj []\<rparr>"

abbreviation "demo_key \<equiv> deviceOfflineOperationReplayKey ack_envelope"

abbreviation "demo_fingerprint op \<equiv> deviceOfflineOperationFingerprint demo_platform
  (deviceOfflineOperationStatementInput (ack_envelope\<lparr>env_offline_operation_id := op\<rparr>) ''P256_ECDSA_SHA256'')"

lemma ack_fields:
  "env_organisation_id ack_envelope = ''org''" "env_site_id ack_envelope = ''site''"
  "env_actor_user_id ack_envelope = ''actor''" "env_device_id ack_envelope = ''device''"
  "env_key_id ack_envelope = ''key''" "env_key_version ack_envelope = 1"
  "env_operation_kind ack_envelope = INCIDENT_FIELD_MESSAGE_ACKNOWLEDGE"
  "env_claimed_signature_profile ack_envelope = ''P256_ECDSA_SHA256''"
  "rk_key_id ack_key = ''key''" "rk_key_version ack_key = 1" "rk_signature_profile ack_key = ''P256_ECDSA_SHA256''"
  by (simp_all add: ack_envelope_def ack_key_def)

lemma demo_submission_fields:
  "sb_context (demo_submission op) = \<lparr>cx_organisation_id = ''org'', cx_actor_user_id = ''actor'',
       cx_device_id = ''device'', cx_authorised_site_ids = [''site''], cx_key_id = ''key''\<rparr>"
  "sb_siteId (demo_submission op) = ''site''" "sb_target_id (demo_submission op) = op"
  "sb_envelope (demo_submission op) = envelope_json (ack_envelope\<lparr>env_offline_operation_id := op\<rparr>)"
  "sb_payload (demo_submission op) = JObj []"
  by (simp_all add: demo_submission_def)

lemma demo_key_op: "deviceOfflineOperationReplayKey (ack_envelope\<lparr>env_offline_operation_id := op\<rparr>) = demo_key"
  by (simp add: replay_key_identity)

lemma demo_signature: "\<exists>sc. decodeCanonicalP256Signature (env_signature ack_envelope) = Inr sc"
proof -
  have "encodeCanonicalP256Signature 1 1 = Inr (env_signature ack_envelope)"
    by (simp add: encodeCanonicalP256Signature_def isLowS_def P256_CURVE_ORDER_def P256_HALF_CURVE_ORDER_def
        ack_envelope_def)
  from decode_encode[OF this] show ?thesis by blast
qed

lemma demo_envelope_ok:
  "op \<in> {''op-1'', ''op-2''} \<Longrightarrow> envelope_ok demo_platform (ack_envelope\<lparr>env_offline_operation_id := op\<rparr>)"
  using demo_signature
  by (auto simp: envelope_ok_def ack_envelope_def demo_platform_def example_platform_def scopedId_def
      deviceSequence_def DeviceKeyVersion_def DeviceNonce_def DeviceDigest_def MAX_OFFLINE_DEVICE_SEQUENCE_def
      isApprovedDeviceSignatureProfile_def DEVICE_SIGNATURE_PROFILES_def device_signature_ok_def is_digit_def list_all_iff)

lemma digits_value_int: "digits_value (show_int (int n)) = n"
  by (simp add: show_int_def digits_value_show)

definition demo_lease :: policy_lease where
  "demo_lease = ack_lease\<lparr>le_issued_at := show_int 10, le_expires_at := show_int 20\<rparr>"

lemma demo_instants: "date_parse demo_platform (show_int 10) = Some 10"
  "date_parse demo_platform (show_int 15) = Some 15" "date_parse demo_platform (show_int 20) = Some 20"
  using digits_value_int[of 10] digits_value_int[of 15] digits_value_int[of 20]
  by (simp_all add: demo_platform_def example_platform_def show_int_def)

lemma demo_lease_ok: "policy_lease_ok demo_platform demo_lease"
  using demo_instants
  by (simp add: policy_lease_ok_def demo_lease_def ack_lease_def scopedId_def refineDeviceInstantWindow_def
      parseAuthoritativeInstant_def DEVICE_OFFLINE_LEASE_MAX_LIFETIME_MS_def)
    (simp add: demo_platform_def example_platform_def)

lemma demo_resolve: "resolve_lease demo_platform show_int (sv_leases demo_server) ''org'' ''lease'' = Some demo_lease"
proof -
  have "parse_kinds [''INCIDENT_FIELD_MESSAGE_ACKNOWLEDGE''] = Some [INCIDENT_FIELD_MESSAGE_ACKNOWLEDGE]"
    using kind_of_name_name[of INCIDENT_FIELD_MESSAGE_ACKNOWLEDGE] by (simp add: parse_kinds_def)
  with demo_lease_ok show ?thesis
    by (simp add: resolve_lease_def findPolicyLease_def demo_server_def lease_of_row_def demo_lease_def ack_lease_def Let_def)
qed

lemma demo_texts: "demo_key \<noteq> []" "demo_fingerprint op \<noteq> []"
proof -
  have obj: "the (canonical_device_json (JObj kvs)) \<noteq> []" if "json_safe (JObj kvs)" for kvs
    using that by (simp add: canonical_device_json_def)
  show "demo_key \<noteq> []"
    using obj replay_safe[of ack_envelope] unfolding deviceOfflineOperationReplayKey_def replay_identity_object_def by blast
  have "canonicalDeviceOfflineOperationStatement i \<noteq> []" for i
    using obj statement_safe[of i]
    unfolding canonicalDeviceOfflineOperationStatement_def deviceOfflineOperationStatementObject_def by blast
  then show "demo_fingerprint op \<noteq> []"
    by (simp add: fingerprint_sha) (simp add: demo_platform_def)
qed

lemma demo_judge:
  assumes "rows (''org'', sha demo_platform demo_key) = None" "op \<in> {''op-1'', ''op-2''}"
  shows "ingress_judge demo_platform demo_server (demo_submission op) rows
    = Judged (ack_envelope\<lparr>env_offline_operation_id := op\<rparr>) demo_key (demo_fingerprint op)
        (Proceed SERVER_RECEIPT (show_int 15) (demo_fingerprint op))"
proof -
  let ?e = "ack_envelope\<lparr>env_offline_operation_id := op\<rparr>"
  let ?i = "ingress_input demo_platform demo_server (demo_submission op) ?e ack_key (replicate 64 CHR ''a'') rows"
  have prof: "isApprovedDeviceSignatureProfile ''P256_ECDSA_SHA256''"
    by (simp add: isApprovedDeviceSignatureProfile_def DEVICE_SIGNATURE_PROFILES_def)
  have "origin_established ?i demo_lease"
    using demo_resolve demo_signature prof
    by (auto simp: origin_established_def ingress_input_def Let_def demo_submission_def ack_envelope_def ack_key_def
        demo_lease_def ack_lease_def verifySignature_def bindClaimedSignatureProfile_def earliestInstant_def)
      (simp_all add: demo_server_def)
  moreover have "placed ?i (demo_fingerprint op) SERVER_RECEIPT (show_int 15)"
    by (simp add: placed_def ingress_input_def Let_def ack_envelope_def demo_server_def)
  moreover have "in_window demo_platform demo_lease (show_int 15)"
    using demo_instants by (simp add: in_window_def demo_lease_def)
  moreover have "read_consumption (ai_consumption ?i) = Some (First_Seen demo_key (demo_fingerprint op))"
    using assms(1) demo_texts
    unfolding ingress_input_simps read_consumption_json demo_key_op
    by (simp add: buildConsumptionFact_def peek_def demo_submission_def ack_key_def)
  ultimately have ev: "evaluateOfflineOperationAdmissibility demo_platform ?i
      = Proceed SERVER_RECEIPT (show_int 15) (demo_fingerprint op)"
    unfolding proceed_iff ingress_input_simps demo_key_op by (auto simp: ack_key_def)
  have "device_canonical_digest (sha demo_platform) (JObj []) = Some (replicate 64 CHR ''a'')"
    by (simp add: device_canonical_digest_def canonical_device_json_def demo_platform_def own_order_def)
  then show ?thesis
    using parse_envelope_json[OF demo_envelope_ok[OF assms(2)]] ev prof
    by (simp add: ingress_judge_def judge_envelope_def demo_key_op demo_submission_fields ack_fields
        bindEnvelopeToContext_def WP29A_ADMITTED_OFFLINE_OPERATION_KINDS_def
        DEVICE_OFFLINE_STALE_TOLERANT_OPERATION_KINDS_def bindClaimedSignatureProfile_def demo_server_def)
qed

text \<open>
  C12: Two requests at once share one identity. The ingress judges on a read of the replay store
  and spends the identity in a later transaction whose answer it drops: two submissions with the
  same replay identity and different statements that are judged before either is spent both
  proceed, and the store keeps only the first.
\<close>

theorem concurrent_submissions_share_an_identity:
  "\<exists>e1 e2 f1 f2. let sb1 = demo_submission ''op-1''; sb2 = demo_submission ''op-2'';
      (v1, v2, rows) = racing demo_platform demo_server sb1 sb2 Map.empty in
    v1 = Judged e1 demo_key f1 (Proceed SERVER_RECEIPT (show_int 15) f1)
    \<and> v2 = Judged e2 demo_key f2 (Proceed SERVER_RECEIPT (show_int 15) f2)
    \<and> f1 \<noteq> f2 \<and> env_offline_operation_id e1 \<noteq> env_offline_operation_id e2
    \<and> rows (''org'', sha demo_platform demo_key) = Some (f1, Some (env_offline_operation_id e1))"
proof -
  have t: "canonicalDeviceOfflineOperationStatement i \<noteq> ''{}''" for i
  proof
    assume "canonicalDeviceOfflineOperationStatement i = ''{}''"
    then have "the (canonical_device_json (deviceOfflineOperationStatementObject i)) = the (canonical_device_json (JObj []))"
      by (simp add: canonicalDeviceOfflineOperationStatement_def) (simp add: canonical_device_json_def own_order_def)
    then have "denote (deviceOfflineOperationStatementObject i) = denote (JObj [])"
      by (subst (asm) canonical_text_inject) simp_all
    from denote_at[OF this[unfolded deviceOfflineOperationStatementObject_def], of "''domain''"] show False by simp
  qed
  let ?st = "\<lambda>op. deviceOfflineOperationStatementInput (ack_envelope\<lparr>env_offline_operation_id := op\<rparr>) ''P256_ECDSA_SHA256''"
  have "demo_fingerprint op = canonicalDeviceOfflineOperationStatement (?st op)" for op
    using t by (simp add: fingerprint_sha) (simp add: demo_platform_def)
  moreover have "?st ''op-1'' \<noteq> ?st ''op-2''" by (simp add: deviceOfflineOperationStatementInput_def)
  ultimately have neq: "demo_fingerprint ''op-1'' \<noteq> demo_fingerprint ''op-2''"
    by (simp add: statement_text_identity)
  show ?thesis
    by (rule exI[of _ "ack_envelope\<lparr>env_offline_operation_id := ''op-1''\<rparr>"],
        rule exI[of _ "ack_envelope\<lparr>env_offline_operation_id := ''op-2''\<rparr>"],
        rule exI[of _ "demo_fingerprint ''op-1''"], rule exI[of _ "demo_fingerprint ''op-2''"])
      (simp add: racing_def demo_judge Let_def consume_def demo_submission_fields neq)
qed

theorem queued_statement_proceeds_once_witness:
  "\<exists>f rows'. ingress demo_platform demo_server (demo_submission ''op-1'') Map.empty
        = (Judged (ack_envelope\<lparr>env_offline_operation_id := ''op-1''\<rparr>) demo_key f (Proceed SERVER_RECEIPT (show_int 15) f), rows')
     \<and> (\<forall>adm f'. fst (ingress demo_platform demo_server (demo_submission ''op-1'') rows')
          = Judged (ack_envelope\<lparr>env_offline_operation_id := ''op-1''\<rparr>) demo_key f' adm
        \<longrightarrow> f' = f \<and> (\<exists>b t. adm = Converge b t f (trim ''op-1'')))"
proof -
  let ?e = "ack_envelope\<lparr>env_offline_operation_id := ''op-1''\<rparr>" and ?f = "demo_fingerprint ''op-1''"
  have ok: "replay_rows_ok demo_platform Map.empty"
    by (auto simp: replay_rows_ok_def demo_platform_def trim_def js_space_def)
  obtain rows' where first: "ingress demo_platform demo_server (demo_submission ''op-1'') Map.empty
      = (Judged ?e demo_key ?f (Proceed SERVER_RECEIPT (show_int 15) ?f), rows')"
    by (simp add: ingress_def Let_def demo_judge)
  have "f' = ?f \<and> (\<exists>b t. adm = Converge b t ?f (trim ''op-1''))"
    if "fst (ingress demo_platform demo_server (demo_submission ''op-1'') rows') = Judged ?e demo_key f' adm" for adm f'
    using queued_statement_proceeds_once[OF ok first, of demo_server "demo_submission ''op-1''" "[]" ?e f' adm] that
    by simp
  with first show ?thesis by blast
qed

theorem ingress_never_reports_conflict_witness:
  "fst (ingress demo_platform demo_server (demo_submission ''op-1'')
     (fold (ingress_step demo_platform) [(demo_server, demo_submission ''op-2'')] Map.empty)) \<noteq> Ingress_Conflict"
proof -
  have "\<forall>s. uuid_format demo_platform s \<longrightarrow> trim s \<noteq> []"
    by (auto simp: demo_platform_def trim_def js_space_def)
  from ingress_never_reports_conflict[OF this] show ?thesis by blast
qed

subsection \<open>Leases\<close>

lemma parse_kinds_names [simp]: "parse_kinds (map kind_name ks) = Some ks"
  by (induction ks) (auto simp: parse_kinds_def)

lemma kind_of_name_Some: "kind_of_name s = Some k \<longleftrightarrow> s = kind_name k"
proof
  assume "kind_of_name s = Some k"
  then show "s = kind_name k"
    by (auto simp: kind_of_name_def all_kinds_def split: if_splits)
qed simp

lemma set_parseScope: "set (parseScope names) = {k. kind_name k \<in> set names}"
  by (force simp: parseScope_def List.map_filter_def kind_of_name_Some)

lemma admitted_kinds_set:
  "admitted_kinds authority s ks = Some as \<Longrightarrow> set as = {k \<in> set ks. \<exists>sites.
     authority (REQUIRED_ACTION_FOR_KIND k) = Some (True, sites) \<and> s \<in> set sites}"
  by (induction ks arbitrary: as) (fastforce split: option.splits if_splits)+

lemma find_append: "(\<And>x. x \<in> set xs \<Longrightarrow> \<not> P x) \<Longrightarrow> List.find P (xs @ ys) = List.find P ys"
  by (induction xs) auto

lemma lease_of_row_Some:
  assumes "lease_of_row pl iso_string r = Some l"
  shows "policy_lease_ok pl l" "le_lease_id l = lr_id r" "le_organisation_id l = lr_organisationId r"
    "le_site_id l = lr_siteId r" "le_device_id l = lr_deviceId r" "le_actor_user_id l = lr_actorUserId r"
    "parse_kinds (lr_scope r) = Some (le_scope l)" "le_issued_at l = iso_string (lr_issuedAt r)"
    "le_expires_at l = iso_string (lr_expiresAt r)"
  using assms by (auto simp: lease_of_row_def Let_def split: option.splits if_splits)

text \<open>
  C15: An issued lease grants no more than it may. A lease that is issued satisfies the schema,
  belongs to the context's organisation, device and actor and to a site of the context, holds
  exactly the requested kinds for which the actor holds the capability at that site, lives for a
  positive time of at most the ceiling and the request; it resolves to itself afterwards, and to
  nothing once revoked.
\<close>

theorem issued_lease_is_narrow:
  assumes "issue_lease pl iso_string known at_site authority lid now q rows = (Some l, rows')"
    and fresh: "\<forall>r\<in>set rows. lr_id r \<noteq> lid"
  shows "policy_lease_ok pl l \<and> known \<and> at_site
    \<and> le_organisation_id l = cx_organisation_id (iq_context q) \<and> le_device_id l = cx_device_id (iq_context q)
    \<and> le_actor_user_id l = cx_actor_user_id (iq_context q)
    \<and> le_site_id l = iq_siteId q \<and> iq_siteId q \<in> set (cx_authorised_site_ids (iq_context q))
    \<and> set (le_scope l) = {k. kind_name k \<in> set (iq_requestedScope q)
        \<and> (\<exists>sites. authority (REQUIRED_ACTION_FOR_KIND k) = Some (True, sites) \<and> iq_siteId q \<in> set sites)}
    \<and> (\<exists>t. 0 < t \<and> t \<le> DEVICE_OFFLINE_LEASE_MAX_LIFETIME_MS \<and> t \<le> iq_requestedLifetimeMs q
        \<and> le_issued_at l = iso_string now \<and> le_expires_at l = iso_string (now + t))
    \<and> resolve_lease pl iso_string rows' (cx_organisation_id (iq_context q)) lid = Some l
    \<and> resolve_lease pl iso_string (snd (revokePolicyLease (cx_organisation_id (iq_context q)) lid instant rows'))
        (cx_organisation_id (iq_context q)) lid = None"
proof -
  let ?org = "cx_organisation_id (iq_context q)"
  define t where "t = min (max (iq_requestedLifetimeMs q) 0) DEVICE_OFFLINE_LEASE_MAX_LIFETIME_MS"
  obtain as where as: "admitted_kinds authority (iq_siteId q) (parseScope (iq_requestedScope q)) = Some as"
    and site: "iq_siteId q \<in> set (cx_authorised_site_ids (iq_context q))" "known" "at_site" "t \<noteq> 0"
    using assms(1) by (auto simp: issue_lease_def Let_def t_def split: if_splits option.splits)
  define r where "r = \<lparr>lr_id = lid, lr_organisationId = ?org,
      lr_deviceId = cx_device_id (iq_context q), lr_siteId = iq_siteId q,
      lr_actorUserId = cx_actor_user_id (iq_context q), lr_authorityBasisId = iq_authorityBasisId q,
      lr_scope = map kind_name as, lr_issuedAt = now, lr_expiresAt = now + t, lr_revokedAt = None\<rparr>"
  have row: "lease_of_row pl iso_string r = Some l" "rows' = rows @ [r]"
    using assms(1) as by (auto simp: issue_lease_def Let_def t_def r_def split: if_splits option.splits)
  note l = lease_of_row_Some[OF row(1)]
  have find: "findPolicyLease rows' ?org lid = Some r"
    using fresh by (simp add: row(2) findPolicyLease_def find_append) (simp add: r_def)
  have "List.find (\<lambda>x. lr_id x = lid \<and> lr_organisationId x = ?org)
      (snd (revokePolicyLease ?org lid instant rows')) = Some (r\<lparr>lr_revokedAt := Some instant\<rparr>)"
    using fresh unfolding row(2) revokePolicyLease_def Let_def snd_conv map_append
    by (subst find_append) (auto simp: r_def)
  then have "resolve_lease pl iso_string (snd (revokePolicyLease ?org lid instant rows')) ?org lid = None"
    by (simp add: resolve_lease_def findPolicyLease_def)
  moreover have "resolve_lease pl iso_string rows' ?org lid = Some l"
    using row(1) by (simp add: resolve_lease_def find) (simp add: r_def)
  moreover have "set (le_scope l) = {k. kind_name k \<in> set (iq_requestedScope q)
        \<and> (\<exists>sites. authority (REQUIRED_ACTION_FOR_KIND k) = Some (True, sites) \<and> iq_siteId q \<in> set sites)}"
    using l(7) admitted_kinds_set[OF as] by (simp add: r_def set_parseScope)
  moreover have "0 < t" "t \<le> DEVICE_OFFLINE_LEASE_MAX_LIFETIME_MS" "t \<le> iq_requestedLifetimeMs q"
    using site(4) by (auto simp: t_def DEVICE_OFFLINE_LEASE_MAX_LIFETIME_MS_def)
  ultimately show ?thesis using l site by (auto simp: r_def)
qed

theorem issued_lease_is_narrow_witness:
  "\<exists>rows'. issue_lease demo_platform show_int True True (\<lambda>_. Some (True, [''site''])) ''lease'' 10
      \<lparr>iq_context = sb_context (demo_submission ''op-1''), iq_siteId = ''site'',
        iq_requestedScope = [''UNHEARD_OF'', ''INCIDENT_FIELD_MESSAGE_ACKNOWLEDGE''], iq_authorityBasisId = ''role'',
        iq_requestedLifetimeMs = 10\<rparr> [] = (Some demo_lease, rows')
    \<and> resolve_lease demo_platform show_int rows' ''org'' ''lease'' = Some demo_lease"
proof -
  let ?q = "\<lparr>iq_context = sb_context (demo_submission ''op-1''), iq_siteId = ''site'',
    iq_requestedScope = [''UNHEARD_OF'', ''INCIDENT_FIELD_MESSAGE_ACKNOWLEDGE''], iq_authorityBasisId = ''role'',
    iq_requestedLifetimeMs = 10\<rparr>"
  have scope: "parseScope [''UNHEARD_OF'', ''INCIDENT_FIELD_MESSAGE_ACKNOWLEDGE''] = [INCIDENT_FIELD_MESSAGE_ACKNOWLEDGE]"
    by (simp add: parseScope_def List.map_filter_def kind_of_name_def all_kinds_def)
  have kinds: "parse_kinds [''INCIDENT_FIELD_MESSAGE_ACKNOWLEDGE''] = Some [INCIDENT_FIELD_MESSAGE_ACKNOWLEDGE]"
    using parse_kinds_names[of "[INCIDENT_FIELD_MESSAGE_ACKNOWLEDGE]"] by simp
  obtain rows' where issued: "issue_lease demo_platform show_int True True (\<lambda>_. Some (True, [''site''])) ''lease'' 10
      ?q [] = (Some demo_lease, rows')"
    using demo_lease_ok
    by (simp add: issue_lease_def Let_def scope demo_submission_fields DEVICE_OFFLINE_LEASE_MAX_LIFETIME_MS_def
        lease_of_row_def kinds demo_lease_def ack_lease_def)
  from issued_lease_is_narrow[OF issued] show ?thesis using issued by (auto simp: demo_submission_fields)
qed

end
