(* ===== verification/Access.thy ===== *)
theory Access
  imports Canonical_Json
begin

text \<open>
  Who may do what (services/core-api: identity/roles.ts, identity/classification.ts,
  identity/access.guard.ts, identity/list-pagination.ts and common/security/principal.ts): the
  table of the roles' actions, the principal and the capability test derived from it, the site
  scope a capability implies, and the guard every HTTP route runs behind. The guard's answer is
  a value, the conjunct it failed on; the status it turns it into is \<open>deny_status\<close>.
\<close>

subsection \<open>Roles and actions\<close>

definition ACTIONS :: "string list" where
  "ACTIONS = [
     ''incident.view'', ''incident.close'', ''incident.silent.approve'', ''field.acknowledge'',
     ''field.assignment.manage'', ''field.assignment.act'', ''field.state.write'',
     ''field.state.read'', ''field.message.send'', ''field.message.read'',
     ''field.message.acknowledge'', ''incident.field-message.oversight.read'',
     ''patrol.route.read'', ''patrol.route.manage'', ''patrol.run.read'', ''patrol.run.manage'',
     ''patrol.run.act'', ''patrol.checkpoint.verify'', ''whisper.signal.read'',
     ''whisper.signal.manage'', ''whisper.signal.approve'', ''whisper.device-action.invoke'',
     ''device.registry.read'', ''device.enrollment.issue'', ''device.enrollment.approve'',
     ''device.trust.manage'', ''device.key.rotate'', ''device.revoke'',
     ''device.trust.restore'', ''edge.enrolment.authorise'', ''edge.revoke'', ''event.ingest'',
     ''event.read'', ''evidence.ingest'', ''evidence.read'', ''evidence.verify'',
     ''ledger.read'', ''ledger.verify'', ''hypothesis.read'', ''presence.view'',
     ''constitution.policy.read'', ''org.admin'', ''site.admin'', ''user.admin'']"

definition ROLE_ACTIONS :: "string list js_record" where
  "ROLE_ACTIONS = [
     (''site.commander'', [
        ''incident.view'', ''incident.close'', ''incident.silent.approve'',
        ''field.acknowledge'', ''field.assignment.manage'', ''field.state.read'',
        ''evidence.read'', ''event.read'', ''hypothesis.read'', ''field.message.send'',
        ''field.message.read'', ''field.message.acknowledge'',
        ''incident.field-message.oversight.read'', ''patrol.route.read'',
        ''patrol.route.manage'', ''patrol.run.read'', ''patrol.run.manage'',
        ''whisper.signal.read'', ''whisper.signal.manage'', ''whisper.signal.approve'',
        ''device.registry.read'', ''device.enrollment.issue'', ''device.enrollment.approve'',
        ''device.trust.manage'', ''device.key.rotate'', ''device.revoke'',
        ''device.trust.restore'', ''edge.enrolment.authorise'', ''edge.revoke'']),
     (''operator'', [
        ''incident.view'', ''presence.view'', ''field.state.read'', ''event.ingest'',
        ''event.read'', ''hypothesis.read'', ''device.registry.read'']),
     (''dispatcher'', [
        ''incident.view'', ''presence.view'', ''field.assignment.manage'', ''field.state.read'',
        ''event.read'', ''hypothesis.read'', ''field.message.send'', ''field.message.read'',
        ''field.message.acknowledge'', ''patrol.route.read'', ''patrol.run.read'',
        ''patrol.run.manage'']),
     (''field.operative'', [
        ''field.acknowledge'', ''field.assignment.act'', ''field.state.write'',
        ''incident.view'', ''field.message.send'', ''field.message.read'',
        ''field.message.acknowledge'', ''patrol.run.read'', ''patrol.run.act'',
        ''patrol.checkpoint.verify'', ''whisper.device-action.invoke'']),
     (''investigator'', [
        ''evidence.read'', ''evidence.verify'', ''ledger.read'', ''ledger.verify'',
        ''incident.view'', ''event.read'', ''hypothesis.read'']),
     (''evidence.custodian'', [
        ''evidence.read'', ''evidence.ingest'', ''evidence.verify'']),
     (''admin'', [
        ''org.admin'', ''site.admin'', ''user.admin'', ''incident.view'',
        ''constitution.policy.read'', ''ledger.verify''])]"

definition isKnownRole :: "string \<Rightarrow> bool" where
  "isKnownRole role \<longleftrightarrow> lookup ROLE_ACTIONS role \<noteq> None"

definition roleHasAction :: "string \<Rightarrow> string \<Rightarrow> bool" where
  "roleHasAction role action = (case lookup ROLE_ACTIONS role of None \<Rightarrow> False
     | Some actions \<Rightarrow> action \<in> set actions)"

subsection \<open>Principals\<close>

record role_assignment =
  ra_role :: string
  ra_site_id :: "string option"

record principal =
  pr_user_id :: string
  pr_clearance :: int
  pr_organisation_id :: string
  pr_roles :: "role_assignment list"

definition hasAction :: "principal \<Rightarrow> string \<Rightarrow> bool" where
  "hasAction p action \<longleftrightarrow> (\<exists>a\<in>set (pr_roles p). roleHasAction (ra_role a) action)"

record site_scope =
  orgWide :: bool
  siteIds :: "string list"

definition granting :: "principal \<Rightarrow> string \<Rightarrow> role_assignment list" where
  "granting p action = filter (\<lambda>a. roleHasAction (ra_role a) action) (pr_roles p)"

text \<open>\<open>[...new Set(xs)]\<close> keeps the first of equal values.\<close>

definition js_set :: "'a list \<Rightarrow> 'a list" where
  "js_set xs = rev (remdups (rev xs))"

lemma set_js_set [simp]: "set (js_set xs) = set xs"
  by (simp add: js_set_def)

lemma distinct_js_set [simp]: "distinct (js_set xs)"
  by (simp add: js_set_def)

lemma length_js_set: "length (js_set xs) = length xs \<longleftrightarrow> distinct xs"
  by (metis card_distinct distinct_card distinct_js_set set_js_set)

lemma js_set_distinct: "distinct xs \<Longrightarrow> js_set xs = xs"
  by (simp add: js_set_def distinct_remdups_id)

definition intersectSiteScope :: "principal \<Rightarrow> string \<Rightarrow> site_scope" where
  "intersectSiteScope p action =
     \<lparr>orgWide = list_ex (\<lambda>a. ra_site_id a = None) (granting p action),
      siteIds = js_set (List.map_filter ra_site_id (granting p action))\<rparr>"

definition siteAllowed :: "site_scope \<Rightarrow> string \<Rightarrow> bool" where
  "siteAllowed sc siteId \<longleftrightarrow> orgWide sc \<or> siteId \<in> set (siteIds sc)"

text \<open>The authority the assignments confer at a site, with no table of scopes in between.\<close>

definition authority_at :: "principal \<Rightarrow> string \<Rightarrow> string \<Rightarrow> bool" where
  "authority_at p action siteId \<longleftrightarrow> (\<exists>a\<in>set (pr_roles p). roleHasAction (ra_role a) action
     \<and> (ra_site_id a = None \<or> ra_site_id a = Some siteId))"

lemma siteAllowed_authority: "siteAllowed (intersectSiteScope p action) siteId \<longleftrightarrow> authority_at p action siteId"
  by (auto simp: siteAllowed_def intersectSiteScope_def authority_at_def granting_def list_ex_iff
      map_filter_def image_iff)

lemma authority_hasAction: "authority_at p action siteId \<Longrightarrow> hasAction p action"
  by (auto simp: authority_at_def hasAction_def)

subsection \<open>The access guard\<close>

definition PURPOSE_REQUIRED_FROM :: int where
  "PURPOSE_REQUIRED_FROM = 2"

text \<open>
  A route: public, with no required action, or with an action and a classification. Of a request
  the guard reads the principal, the params, the query and the body (each possibly absent or not
  an object) and the purpose header (the first of several).
\<close>

datatype route = Public_Route | Unrestricted | Requires string int

record request =
  rq_principal :: "principal option"
  rq_sources :: "json option list"
  rq_purpose :: "string option"

datatype failed_conjunct = principal_missing | role_permits_action | organisation_matches
  | site_scope_matches | clearance | purpose_required

definition ORGANISATION_PARAM_KEYS :: "string list" where
  "ORGANISATION_PARAM_KEYS = [''organisationId'', ''organisation_id'']"

definition SITE_PARAM_KEYS :: "string list" where
  "SITE_PARAM_KEYS = [''siteId'', ''site_id'']"

fun property :: "json option \<Rightarrow> string \<Rightarrow> json option" where
  "property (Some (JObj kvs)) k = map_of kvs k"
| "property _ k = None"

fun named_value :: "json option \<Rightarrow> string option" where
  "named_value (Some (JStr s)) = (if s = [] then None else Some s)"
| "named_value _ = None"

definition candidates :: "json option list \<Rightarrow> string list \<Rightarrow> string list" where
  "candidates sources keys =
     List.map_filter named_value (concat (map (\<lambda>src. map (property src) keys) sources))"

definition findRequestValue :: "request \<Rightarrow> string list \<Rightarrow> string option" where
  "findRequestValue rq keys = (case candidates (rq_sources rq) keys of [] \<Rightarrow> None | v # _ \<Rightarrow> Some v)"

definition canActivate :: "route \<Rightarrow> request \<Rightarrow> failed_conjunct option" where
  "canActivate route rq = (case route of Public_Route \<Rightarrow> None | Unrestricted \<Rightarrow> None
     | Requires action classification \<Rightarrow> (case rq_principal rq of None \<Rightarrow> Some principal_missing
       | Some p \<Rightarrow>
         if granting p action = [] then Some role_permits_action
         else if (case findRequestValue rq ORGANISATION_PARAM_KEYS of None \<Rightarrow> False
             | Some org \<Rightarrow> org \<noteq> pr_organisation_id p) then Some organisation_matches
         else if (case findRequestValue rq SITE_PARAM_KEYS of None \<Rightarrow> False
             | Some site \<Rightarrow> \<not> list_ex (\<lambda>a. ra_site_id a = None \<or> ra_site_id a = Some site) (granting p action))
           then Some site_scope_matches
         else if pr_clearance p < classification then Some clearance
         else if PURPOSE_REQUIRED_FROM \<le> classification
             \<and> (case rq_purpose rq of None \<Rightarrow> True | Some t \<Rightarrow> trim t = []) then Some purpose_required
         else None))"

definition deny_status :: "failed_conjunct \<Rightarrow> nat" where
  "deny_status c = (if c = organisation_matches then 404 else 403)"

lemma granting_nonempty: "granting p action \<noteq> [] \<longleftrightarrow> hasAction p action"
  by (auto simp: granting_def hasAction_def filter_empty_conv)

lemma granting_at: "list_ex (\<lambda>a. ra_site_id a = None \<or> ra_site_id a = Some site) (granting p action)
    \<longleftrightarrow> authority_at p action site"
  by (auto simp: granting_def authority_at_def list_ex_iff)

text \<open>
  C26: What the guard requires. A guarded route is open exactly to a principal with a role that
  grants the action, when the organisation the request names first is absent or the principal's
  own, the site it names first is absent or one where a granting role applies, the clearance
  reaches the classification, and from SENSITIVE on a purpose that is not blank is given.
\<close>

theorem access_guard_exact:
  "canActivate (Requires action classification) rq = None \<longleftrightarrow>
     (\<exists>p. rq_principal rq = Some p \<and> hasAction p action
        \<and> (findRequestValue rq ORGANISATION_PARAM_KEYS \<in> {None, Some (pr_organisation_id p)})
        \<and> (\<nexists>site. findRequestValue rq SITE_PARAM_KEYS = Some site \<and> \<not> authority_at p action site)
        \<and> classification \<le> pr_clearance p
        \<and> (PURPOSE_REQUIRED_FROM > classification \<or> (\<exists>t. rq_purpose rq = Some t \<and> trim t \<noteq> [])))"
proof (cases "rq_principal rq")
  case None
  then show ?thesis by (simp add: canActivate_def)
next
  case (Some p)
  then show ?thesis
    by (auto simp: canActivate_def granting_at simp flip: granting_nonempty
        split: option.splits if_splits)
qed

text \<open>The roles that hold an action, read off the table.\<close>

definition holders :: "string \<Rightarrow> string list" where
  "holders action = map fst (filter (\<lambda>ra. action \<in> set (snd ra)) ROLE_ACTIONS)"

lemma distinct_roles: "distinct (map fst ROLE_ACTIONS)"
  by code_simp

lemma roleHasAction_holders: "roleHasAction role action \<longleftrightarrow> role \<in> set (holders action)"
proof -
  have "lookup ROLE_ACTIONS role = Some actions \<longleftrightarrow> (role, actions) \<in> set ROLE_ACTIONS" for actions
    unfolding lookup_def by (rule map_of_eq_Some_iff[OF distinct_roles])
  note table = this
  have "roleHasAction role action \<longleftrightarrow> (\<exists>actions. lookup ROLE_ACTIONS role = Some actions \<and> action \<in> set actions)"
    by (cases "lookup ROLE_ACTIONS role") (simp_all add: roleHasAction_def)
  also have "\<dots> \<longleftrightarrow> (\<exists>actions. (role, actions) \<in> set ROLE_ACTIONS \<and> action \<in> set actions)"
    unfolding table by (rule refl)
  also have "\<dots> \<longleftrightarrow> role \<in> set (holders action)"
    unfolding holders_def set_map set_filter image_iff by (simp only: mem_Collect_eq bex_simps split_paired_Ex fst_conv snd_conv Bex_def) blast
  finally show ?thesis .
qed

definition commander_authority :: "string list" where
  "commander_authority = [''incident.close'', ''incident.silent.approve'', ''incident.field-message.oversight.read'',
     ''patrol.route.manage'', ''whisper.signal.read'', ''whisper.signal.manage'', ''whisper.signal.approve'',
     ''device.enrollment.issue'', ''device.enrollment.approve'', ''device.trust.manage'', ''device.key.rotate'',
     ''device.revoke'', ''device.trust.restore'', ''edge.enrolment.authorise'', ''edge.revoke'']"

definition operative_authority :: "string list" where
  "operative_authority = [''field.assignment.act'', ''field.state.write'', ''patrol.run.act'',
     ''patrol.checkpoint.verify'', ''whisper.device-action.invoke'']"

text \<open>
  Who holds which authority. The device, Edge and Whisper management actions, oversight of
  messages, silent approval and closing of incidents are the site commander's alone; acting on
  assignments, patrols and device recognition is the field operative's alone; reading the device
  registry is shared with the operator only; messages are read by commander, dispatcher and
  operative; the administrator holds six directory actions and nothing else; and no role holds an
  action outside the vocabulary.
\<close>

theorem trust_authority_is_deliberate:
  "(\<lambda>a. {role. roleHasAction role a}) ` set commander_authority = {{''site.commander''}}
   \<and> (\<lambda>a. {role. roleHasAction role a}) ` set operative_authority = {{''field.operative''}}
   \<and> {role. roleHasAction role ''device.registry.read''} = {''site.commander'', ''operator''}
   \<and> {role. roleHasAction role ''field.message.read''} = {''site.commander'', ''dispatcher'', ''field.operative''}
   \<and> {a. roleHasAction ''admin'' a} = {''org.admin'', ''site.admin'', ''user.admin'', ''incident.view'',
        ''constitution.policy.read'', ''ledger.verify''}
   \<and> {a. \<exists>role. roleHasAction role a} \<subseteq> set ACTIONS"
proof -
  have roles: "{role. roleHasAction role a} = set (holders a)" for a
    by (simp add: roleHasAction_holders)
  have "map holders commander_authority = replicate 15 [''site.commander'']" by code_simp
  from arg_cong[OF this, of "\<lambda>hs. set ` set hs"]
  have 1: "(\<lambda>a. set (holders a)) ` set commander_authority = {{''site.commander''}}"
    by (simp add: image_image)
  have "map holders operative_authority = replicate 5 [''field.operative'']" by code_simp
  from arg_cong[OF this, of "\<lambda>hs. set ` set hs"]
  have 2: "(\<lambda>a. set (holders a)) ` set operative_authority = {{''field.operative''}}"
    by (simp add: image_image)
  have 3: "holders ''device.registry.read'' = [''site.commander'', ''operator'']" by code_simp
  have 4: "holders ''field.message.read'' = [''site.commander'', ''dispatcher'', ''field.operative'']" by code_simp
  have 5: "lookup ROLE_ACTIONS ''admin'' = Some [''org.admin'', ''site.admin'', ''user.admin'', ''incident.view'',
        ''constitution.policy.read'', ''ledger.verify'']" by code_simp
  have "list_all (\<lambda>ra. list_all (\<lambda>a. a \<in> set ACTIONS) (snd ra)) ROLE_ACTIONS" by code_simp
  then have table: "set actions \<subseteq> set ACTIONS" if "(role, actions) \<in> set ROLE_ACTIONS" for role actions
    using that unfolding list_all_iff by (metis snd_conv subsetI)
  have 6: "a \<in> set ACTIONS" if "roleHasAction role a" for role a
  proof (cases "lookup ROLE_ACTIONS role")
    case None
    with that show ?thesis by (simp add: roleHasAction_def)
  next
    case (Some actions)
    then have "(role, actions) \<in> set ROLE_ACTIONS" by (simp add: lookup_def map_of_SomeD)
    from table[OF this] that Some show ?thesis by (auto simp: roleHasAction_def)
  qed
  have "{a. roleHasAction ''admin'' a} = {''org.admin'', ''site.admin'', ''user.admin'', ''incident.view'',
        ''constitution.policy.read'', ''ledger.verify''}"
    by (simp only: roleHasAction_def 5 option.case Collect_mem_eq list.set)
  moreover have "{a. \<exists>role. roleHasAction role a} \<subseteq> set ACTIONS" using 6 by (auto simp only: subset_iff mem_Collect_eq)
  ultimately show ?thesis unfolding roles 3 4 list.set using 1 2 by (simp only:)
qed

end
