(* ===== verification/Field_Tables.thy ===== *)
theory Field_Tables
  imports Access Device_Contracts
begin

text \<open>
  The database of the field modules of services/core-api (prisma/schema/field.prisma): assignments
  with the evidence of their transitions, operative states, incident field messages with their
  recipients, and the audit, timeline and outbox rows written beside them. With it the statuses
  of an assignment (packages/contracts/src/field.ts), the errors a handler throws, and the text
  bounds the schemas share. A repository method that opens a transaction is one step on
  \<open>field_db\<close>: it returns the database after the commit, or the database it was given when it
  throws. New rows are appended; a row's identifier and the clocks are arguments.
\<close>

subsection \<open>Statuses and actions\<close>

datatype assignment_status = REQUESTED | ACCEPTED | DECLINED | IN_PROGRESS | COMPLETED | CANCELLED | EXPIRED

fun status_name :: "assignment_status \<Rightarrow> string" where
  "status_name REQUESTED = ''REQUESTED''"
| "status_name ACCEPTED = ''ACCEPTED''"
| "status_name DECLINED = ''DECLINED''"
| "status_name IN_PROGRESS = ''IN_PROGRESS''"
| "status_name COMPLETED = ''COMPLETED''"
| "status_name CANCELLED = ''CANCELLED''"
| "status_name EXPIRED = ''EXPIRED''"

fun ALLOWED_FIELD_ASSIGNMENT_STATUS_TRANSITIONS :: "assignment_status \<Rightarrow> assignment_status list" where
  "ALLOWED_FIELD_ASSIGNMENT_STATUS_TRANSITIONS REQUESTED = [ACCEPTED, DECLINED, CANCELLED, EXPIRED]"
| "ALLOWED_FIELD_ASSIGNMENT_STATUS_TRANSITIONS ACCEPTED = [IN_PROGRESS, CANCELLED, EXPIRED]"
| "ALLOWED_FIELD_ASSIGNMENT_STATUS_TRANSITIONS DECLINED = []"
| "ALLOWED_FIELD_ASSIGNMENT_STATUS_TRANSITIONS IN_PROGRESS = [COMPLETED, CANCELLED]"
| "ALLOWED_FIELD_ASSIGNMENT_STATUS_TRANSITIONS COMPLETED = []"
| "ALLOWED_FIELD_ASSIGNMENT_STATUS_TRANSITIONS CANCELLED = []"
| "ALLOWED_FIELD_ASSIGNMENT_STATUS_TRANSITIONS EXPIRED = []"

definition canTransitionFieldAssignmentStatus :: "assignment_status \<Rightarrow> assignment_status \<Rightarrow> bool" where
  "canTransitionFieldAssignmentStatus from to \<longleftrightarrow> to \<in> set (ALLOWED_FIELD_ASSIGNMENT_STATUS_TRANSITIONS from)"

datatype assignment_action = accept | decline | start | complete | cancel

fun ACTION_TARGETS :: "assignment_action \<Rightarrow> assignment_status" where
  "ACTION_TARGETS accept = ACCEPTED"
| "ACTION_TARGETS decline = DECLINED"
| "ACTION_TARGETS start = IN_PROGRESS"
| "ACTION_TARGETS complete = COMPLETED"
| "ACTION_TARGETS cancel = CANCELLED"

text \<open>Delivery (packages/contracts/src/delivery.ts).\<close>

datatype delivery_state = DELIVERY_REQUESTED | DELIVERED | ACKNOWLEDGED | EXECUTED | FAILED | DELIVERY_UNKNOWN

fun ALLOWED_DELIVERY_TRANSITIONS :: "delivery_state \<Rightarrow> delivery_state list" where
  "ALLOWED_DELIVERY_TRANSITIONS DELIVERY_REQUESTED = [DELIVERED, FAILED, DELIVERY_UNKNOWN]"
| "ALLOWED_DELIVERY_TRANSITIONS DELIVERED = [ACKNOWLEDGED, FAILED, DELIVERY_UNKNOWN]"
| "ALLOWED_DELIVERY_TRANSITIONS ACKNOWLEDGED = [EXECUTED, FAILED, DELIVERY_UNKNOWN]"
| "ALLOWED_DELIVERY_TRANSITIONS EXECUTED = []"
| "ALLOWED_DELIVERY_TRANSITIONS FAILED = [DELIVERY_REQUESTED]"
| "ALLOWED_DELIVERY_TRANSITIONS DELIVERY_UNKNOWN = [DELIVERY_REQUESTED, DELIVERED, ACKNOWLEDGED, EXECUTED, FAILED]"

definition canTransitionDelivery :: "delivery_state \<Rightarrow> delivery_state \<Rightarrow> bool" where
  "canTransitionDelivery from to \<longleftrightarrow> to \<in> set (ALLOWED_DELIVERY_TRANSITIONS from)"

subsection \<open>The tables\<close>

record assignment =
  as_id :: string
  as_organisationId :: string
  as_siteId :: string
  as_incidentId :: "string option"
  as_assigneeUserId :: string
  as_assignmentType :: string
  as_priority :: string
  as_status :: assignment_status
  as_deliveryState :: delivery_state
  as_needToKnowSummary :: string
  as_idempotencyKey :: string
  as_expiresAt :: "int option"
  as_acceptedAt :: "int option"
  as_startedAt :: "int option"
  as_completedAt :: "int option"
  as_cancelledAt :: "int option"
  as_declinedAt :: "int option"
  as_createdByUserId :: string
  as_updatedByUserId :: string
  as_acceptedByUserId :: "string option"
  as_createdAt :: int
  as_updatedAt :: int

text \<open>\<open>FieldAssignmentActionIdempotency\<close>: the evidence that an action committed.\<close>

record transition_evidence =
  ev_assignmentId :: string
  ev_action :: assignment_action
  ev_idempotencyKey :: string
  ev_actorUserId :: string

datatype audit_payload = Assignment_Created string string "string option"
  | Assignment_Moved string assignment_status assignment_status assignment_action
  | State_Updated string string int int

record audit_row =
  au_organisationId :: string
  au_siteId :: string
  au_assignmentId :: "string option"
  au_actorUserId :: string
  au_kind :: string
  au_payload :: audit_payload

record outbox_row =
  ob_organisationId :: string
  ob_siteId :: string
  ob_kind :: string
  ob_subject :: string

record user_row =
  us_id :: string
  us_organisationId :: string
  us_roles :: "role_assignment list"

record incident_row =
  in_id :: string
  in_organisationId :: string
  in_siteId :: string

text \<open>Sites are pairs of organisation and site. New rows are appended.\<close>

text \<open>\<open>FieldOperativeStateHistory\<close> and \<open>FieldOperativeCurrentState\<close> have the same columns.\<close>

record state_row =
  st_organisationId :: string
  st_siteId :: string
  st_userId :: string
  st_deviceId :: string
  st_state :: string
  st_location :: "json option"
  st_sourceAt :: int
  st_receivedAt :: int
  st_clientFreshnessMs :: int
  st_authoritativeFreshnessMs :: int
  st_traceId :: string

record recipient_row =
  rc_recipientUserId :: string
  rc_deliveryState :: delivery_state
  rc_deliveredAt :: "int option"
  rc_acknowledgedAt :: "int option"

text \<open>A message row with the recipient rows of its \<open>messageId\<close>.\<close>

record message_row =
  ms_id :: string
  ms_organisationId :: string
  ms_siteId :: string
  ms_incidentId :: string
  ms_senderUserId :: string
  ms_body :: "string option"
  ms_mediaRefs :: "string list"
  ms_retentionClass :: string
  ms_sentAt :: int
  ms_expiresAt :: "int option"
  ms_idempotencyKey :: string
  ms_traceId :: string
  ms_recipients :: "recipient_row list"

text \<open>\<open>IncidentFieldMessageActionIdempotency\<close>; its action is always acknowledge.\<close>

record ack_evidence =
  ae_messageId :: string
  ae_recipientUserId :: string
  ae_idempotencyKey :: string

record timeline_row =
  tl_incidentId :: string
  tl_kind :: string
  tl_actorUserId :: string
  tl_messageId :: string

record message_outbox_row =
  mo_organisationId :: string
  mo_siteId :: string
  mo_recipientUserId :: string
  mo_incidentId :: string
  mo_messageId :: string

record field_db =
  sites :: "(string \<times> string) list"
  users :: "user_row list"
  incidents :: "incident_row list"
  assignments :: "assignment list"
  evidence :: "transition_evidence list"
  audit_log :: "audit_row list"
  outbox :: "outbox_row list"
  state_idempotency :: "(string \<times> string \<times> string \<times> string \<times> string) list"
  state_history :: "state_row list"
  current_states :: "state_row list"
  messages :: "message_row list"
  ack_evidences :: "ack_evidence list"
  timeline :: "timeline_row list"
  message_outbox :: "message_outbox_row list"

definition siteExistsInOrganisation :: "string \<Rightarrow> string \<Rightarrow> field_db \<Rightarrow> bool" where
  "siteExistsInOrganisation org site db \<longleftrightarrow> (org, site) \<in> set (sites db)"


subsection \<open>Text bounds and enumerations\<close>

text \<open>\<open>Buffer.byteLength(s, 'utf8')\<close> for code units up to 255: one byte below 128, else two.\<close>

definition utf8_length :: "string \<Rightarrow> int" where
  "utf8_length s = sum_list (map (\<lambda>c. if (of_char c :: nat) < 128 then 1 else 2) s)"

definition MAX_SUMMARY_BYTES :: int where
  "MAX_SUMMARY_BYTES = 8192"

definition PRIORITIES :: "string list" where
  "PRIORITIES = [''SEV1'', ''SEV2'', ''SEV3'', ''SEV4'', ''SEV5'']"

definition bounded_text :: "nat \<Rightarrow> string \<Rightarrow> bool" where
  "bounded_text m s \<longleftrightarrow> 1 \<le> length s \<and> length s \<le> m"

definition not_before :: "int option \<Rightarrow> int option \<Rightarrow> bool" where
  "not_before t u \<longleftrightarrow> (case (t, u) of (Some a, Some b) \<Rightarrow> b \<le> a | _ \<Rightarrow> True)"

definition subject_char :: "char \<Rightarrow> bool" where
  "subject_char c \<longleftrightarrow> (let n = (of_char c :: nat) in (65 \<le> n \<and> n \<le> 90) \<or> (97 \<le> n \<and> n \<le> 122)
     \<or> (48 \<le> n \<and> n \<le> 57) \<or> n = 95 \<or> n = 58 \<or> n = 45)"

definition isSafeSubjectToken :: "string \<Rightarrow> bool" where
  "isSafeSubjectToken s \<longleftrightarrow> bounded_text 256 s \<and> list_all subject_char s"

subsection \<open>Errors\<close>

text \<open>
  What a handler throws: an \<open>HttpException\<close> with its status, or anything else (a driver error, a
  unique violation nobody caught, a failed schema), which carries no status.
\<close>

datatype thrown = Http nat | Fault

abbreviation "BadRequestException \<equiv> Http 400"
abbreviation "ForbiddenException \<equiv> Http 403"
abbreviation "NotFoundException \<equiv> Http 404"
abbreviation "ConflictException \<equiv> Http 409"

end
