(* ===== verification/Field_Assignments.thy ===== *)
theory Field_Assignments
  imports Field_Tables
begin

text \<open>
  Field assignments (services/core-api: field/field.repository.ts and field/field.service.ts):
  creation and transition of an assignment with their idempotency rows, audit and outbox, the
  contract assertion the repository makes, and the evidence probe. The clocks are arguments:
  \<open>now\<close> is the query engine's \<open>now()\<close>, \<open>at_ms\<close> the handler's \<open>new Date()\<close>.
\<close>

subsection \<open>The contract assertion\<close>

definition assignment_fields_ok :: "assignment \<Rightarrow> bool" where
  "assignment_fields_ok a \<longleftrightarrow> scopedId (as_id a) \<and> scopedId (as_organisationId a) \<and> scopedId (as_siteId a)
     \<and> (\<forall>i\<in>set_option (as_incidentId a). scopedId i) \<and> scopedId (as_assigneeUserId a)
     \<and> bounded_text 128 (as_assignmentType a) \<and> as_priority a \<in> set PRIORITIES
     \<and> as_needToKnowSummary a \<noteq> []
     \<and> utf8_length (as_needToKnowSummary a) \<le> MAX_SUMMARY_BYTES
     \<and> scopedId (as_createdByUserId a) \<and> scopedId (as_updatedByUserId a)
     \<and> (\<forall>u\<in>set_option (as_acceptedByUserId a). scopedId u)"

definition assignment_times_ok :: "assignment \<Rightarrow> bool" where
  "assignment_times_ok a \<longleftrightarrow> as_createdAt a \<le> as_updatedAt a
     \<and> not_before (as_expiresAt a) (Some (as_createdAt a))
     \<and> (as_status a \<in> {ACCEPTED, IN_PROGRESS, COMPLETED} \<longrightarrow> as_acceptedAt a \<noteq> None \<and> as_acceptedByUserId a \<noteq> None)
     \<and> not_before (as_acceptedAt a) (Some (as_createdAt a))
     \<and> (\<forall>u\<in>set_option (as_acceptedByUserId a). u = as_assigneeUserId a)
     \<and> (as_status a = COMPLETED \<longrightarrow> as_completedAt a \<noteq> None)
     \<and> not_before (as_completedAt a) (Some (as_createdAt a))
     \<and> not_before (as_completedAt a) (as_acceptedAt a)"

definition assertAssignmentContract :: "assignment \<Rightarrow> bool" where
  "assertAssignmentContract a \<longleftrightarrow> assignment_fields_ok a \<and> assignment_times_ok a"

subsection \<open>Creating an assignment\<close>

record create_input =
  ci_site_id :: string
  ci_incident_id :: "string option"
  ci_assignee_user_id :: string
  ci_assignment_type :: string
  ci_priority :: string
  ci_need_to_know_summary :: string
  ci_expires_at :: "int option"
  ci_idempotency_key :: string

definition create_input_ok :: "platform \<Rightarrow> create_input \<Rightarrow> bool" where
  "create_input_ok pl i \<longleftrightarrow> isSafeSubjectToken (ci_site_id i)
     \<and> (\<forall>x\<in>set_option (ci_incident_id i). uuid_format pl x) \<and> ci_assignee_user_id i \<noteq> []
     \<and> bounded_text 128 (ci_assignment_type i) \<and> ci_priority i \<in> set PRIORITIES
     \<and> bounded_text 8192 (ci_need_to_know_summary i) \<and> bounded_text 256 (ci_idempotency_key i)"

definition assigneeCanReceive :: "string \<Rightarrow> string \<Rightarrow> string \<Rightarrow> field_db \<Rightarrow> bool" where
  "assigneeCanReceive org site user db \<longleftrightarrow> list_ex (\<lambda>u. us_id u = user \<and> us_organisationId u = org
     \<and> list_ex (\<lambda>r. ra_role r = ''field.operative'' \<and> ra_site_id r = Some site) (us_roles u)) (users db)"

definition incidentExists :: "string \<Rightarrow> string \<Rightarrow> string \<Rightarrow> field_db \<Rightarrow> bool" where
  "incidentExists org site incident db \<longleftrightarrow> list_ex (\<lambda>i. in_id i = incident \<and> in_organisationId i = org
     \<and> in_siteId i = site) (incidents db)"

definition created_row :: "string \<Rightarrow> string \<Rightarrow> create_input \<Rightarrow> string \<Rightarrow> int \<Rightarrow> assignment" where
  "created_row org actor i newId now = \<lparr>as_id = newId, as_organisationId = org, as_siteId = ci_site_id i,
     as_incidentId = ci_incident_id i, as_assigneeUserId = ci_assignee_user_id i,
     as_assignmentType = ci_assignment_type i, as_priority = ci_priority i, as_status = REQUESTED,
     as_deliveryState = DELIVERY_REQUESTED, as_needToKnowSummary = ci_need_to_know_summary i,
     as_idempotencyKey = ci_idempotency_key i, as_expiresAt = ci_expires_at i, as_acceptedAt = None,
     as_startedAt = None, as_completedAt = None, as_cancelledAt = None, as_declinedAt = None,
     as_createdByUserId = actor, as_updatedByUserId = actor, as_acceptedByUserId = None,
     as_createdAt = now, as_updatedAt = now\<rparr>"

definition same_creation :: "string \<Rightarrow> create_input \<Rightarrow> assignment \<Rightarrow> bool" where
  "same_creation org i a \<longleftrightarrow> as_organisationId a = org \<and> as_siteId a = ci_site_id i
     \<and> as_idempotencyKey a = ci_idempotency_key i"

text \<open>
  The row, its audit entry and its outbox entry commit together; the assertion runs after the
  commit. A unique violation (of the creation identity, or of a clashing row id) is caught and
  answered with the row of the same creation identity, if there is one.
\<close>

definition createAssignment_repo ::
    "string \<Rightarrow> string \<Rightarrow> create_input \<Rightarrow> string \<Rightarrow> int \<Rightarrow> field_db \<Rightarrow> (thrown + assignment) \<times> field_db" where
  "createAssignment_repo org actor i newId now db =
     (if list_ex (\<lambda>a. as_id a = newId \<or> same_creation org i a) (assignments db)
      then (case List.find (same_creation org i) (assignments db) of None \<Rightarrow> (Inl Fault, db)
        | Some a \<Rightarrow> (if assertAssignmentContract a then Inr a else Inl Fault, db))
      else (let row = created_row org actor i newId now;
           db' = db\<lparr>assignments := assignments db @ [row],
             audit_log := audit_log db @ [\<lparr>au_organisationId = org, au_siteId = ci_site_id i,
               au_assignmentId = Some newId, au_actorUserId = actor, au_kind = ''FIELD_ASSIGNMENT_CREATED'',
               au_payload = Assignment_Created newId (ci_assignee_user_id i) (ci_incident_id i)\<rparr>],
             outbox := outbox db @ [\<lparr>ob_organisationId = org, ob_siteId = ci_site_id i,
               ob_kind = ''FIELD_ASSIGNMENT_CREATED'', ob_subject = newId\<rparr>]\<rparr>
         in (if assertAssignmentContract row then Inr row else Inl Fault, db')))"

definition createAssignment ::
    "principal \<Rightarrow> site_scope \<Rightarrow> create_input \<Rightarrow> string \<Rightarrow> int \<Rightarrow> field_db \<Rightarrow> (thrown + assignment) \<times> field_db" where
  "createAssignment p scope i newId now db =
     (let org = pr_organisation_id p; site = ci_site_id i in
      if \<not> siteAllowed scope site then (Inl ForbiddenException, db)
      else if \<not> siteExistsInOrganisation org site db then (Inl NotFoundException, db)
      else if \<not> assigneeCanReceive org site (ci_assignee_user_id i) db then (Inl BadRequestException, db)
      else if (case ci_incident_id i of None \<Rightarrow> False | Some x \<Rightarrow> x \<noteq> [] \<and> \<not> incidentExists org site x db)
        then (Inl BadRequestException, db)
      else createAssignment_repo org (pr_user_id p) i newId now db)"

subsection \<open>Moving an assignment\<close>

record transition_input =
  ti_organisationId :: string
  ti_assignmentId :: string
  ti_actorUserId :: string
  ti_action :: assignment_action
  ti_expectedStatus :: assignment_status
  ti_targetStatus :: assignment_status
  ti_idempotencyKey :: string
  ti_siteScope :: site_scope
  ti_actorMustBeAssignee :: bool

datatype transition_result = Updated assignment | Duplicate assignment | Noop assignment
  | Not_Found | Forbidden | Conflict assignment_status

definition visible :: "string \<Rightarrow> string \<Rightarrow> site_scope \<Rightarrow> assignment \<Rightarrow> bool" where
  "visible org assignmentId scope a \<longleftrightarrow> as_id a = assignmentId \<and> as_organisationId a = org
     \<and> siteAllowed scope (as_siteId a)"

definition moved_row :: "transition_input \<Rightarrow> int \<Rightarrow> int \<Rightarrow> assignment \<Rightarrow> assignment" where
  "moved_row t at_ms now a =
     (let a = a\<lparr>as_status := ti_targetStatus t, as_updatedByUserId := ti_actorUserId t, as_updatedAt := now\<rparr>
      in case ti_action t of
        accept \<Rightarrow> a\<lparr>as_acceptedAt := Some at_ms, as_acceptedByUserId := Some (ti_actorUserId t),
                   as_deliveryState := ACKNOWLEDGED\<rparr>
      | decline \<Rightarrow> a\<lparr>as_declinedAt := Some at_ms\<rparr>
      | start \<Rightarrow> a\<lparr>as_startedAt := Some at_ms\<rparr>
      | complete \<Rightarrow> a\<lparr>as_completedAt := Some at_ms\<rparr>
      | cancel \<Rightarrow> a\<lparr>as_cancelledAt := Some at_ms\<rparr>)"

definition replace_row :: "assignment \<Rightarrow> assignment list \<Rightarrow> assignment list" where
  "replace_row a = map (\<lambda>b. if as_id b = as_id a then a else b)"

definition action_known :: "assignment_action \<Rightarrow> string \<Rightarrow> string \<Rightarrow> field_db \<Rightarrow> bool" where
  "action_known action assignmentId key db \<longleftrightarrow> list_ex (\<lambda>e. ev_assignmentId e = assignmentId
     \<and> ev_action e = action \<and> ev_idempotencyKey e = key) (evidence db)"

definition moved_db :: "transition_input \<Rightarrow> assignment \<Rightarrow> assignment \<Rightarrow> field_db \<Rightarrow> field_db" where
  "moved_db t current updated db =
     (let kind = ''FIELD_ASSIGNMENT_'' @ status_name (ti_targetStatus t) in
      db\<lparr>assignments := replace_row updated (assignments db),
        evidence := evidence db @ [\<lparr>ev_assignmentId = as_id current, ev_action = ti_action t,
          ev_idempotencyKey = ti_idempotencyKey t, ev_actorUserId = ti_actorUserId t\<rparr>],
        audit_log := audit_log db @ [\<lparr>au_organisationId = as_organisationId current, au_siteId = as_siteId current,
          au_assignmentId = Some (as_id current), au_actorUserId = ti_actorUserId t, au_kind = kind,
          au_payload = Assignment_Moved (as_id current) (as_status current) (ti_targetStatus t) (ti_action t)\<rparr>],
        outbox := outbox db @ [\<lparr>ob_organisationId = as_organisationId current, ob_siteId = as_siteId current,
          ob_kind = kind, ob_subject = as_id current\<rparr>]\<rparr>)"

text \<open>The assertion is inside the transaction: when it throws, nothing is kept.\<close>

definition transitionAssignment_repo ::
    "transition_input \<Rightarrow> int \<Rightarrow> int \<Rightarrow> field_db \<Rightarrow> (thrown + transition_result) \<times> field_db" where
  "transitionAssignment_repo t at_ms now db =
     (case List.find (visible (ti_organisationId t) (ti_assignmentId t) (ti_siteScope t)) (assignments db) of
        None \<Rightarrow> (Inr Not_Found, db)
      | Some current \<Rightarrow>
          if ti_actorMustBeAssignee t \<and> as_assigneeUserId current \<noteq> ti_actorUserId t then (Inr Forbidden, db)
          else if action_known (ti_action t) (as_id current) (ti_idempotencyKey t) db then (Inr (Duplicate current), db)
          else if as_status current = ti_targetStatus t then (Inr (Noop current), db)
          else if as_status current \<noteq> ti_expectedStatus t
              \<or> \<not> canTransitionFieldAssignmentStatus (as_status current) (ti_targetStatus t)
            then (Inr (Conflict (as_status current)), db)
          else (let updated = moved_row t at_ms now current in
            if assertAssignmentContract updated then (Inr (Updated updated), moved_db t current updated db)
            else (Inl Fault, db)))"

fun mapTransitionResult :: "transition_result \<Rightarrow> thrown + assignment" where
  "mapTransitionResult Not_Found = Inl NotFoundException"
| "mapTransitionResult Forbidden = Inl ForbiddenException"
| "mapTransitionResult (Conflict _) = Inl ConflictException"
| "mapTransitionResult (Updated a) = Inr a"
| "mapTransitionResult (Duplicate a) = Inr a"
| "mapTransitionResult (Noop a) = Inr a"

definition transition_input_of ::
    "principal \<Rightarrow> site_scope \<Rightarrow> string \<Rightarrow> assignment_action \<Rightarrow> assignment_status \<Rightarrow> string \<Rightarrow> transition_input" where
  "transition_input_of p scope assignmentId action expected key =
     \<lparr>ti_organisationId = pr_organisation_id p, ti_assignmentId = assignmentId, ti_actorUserId = pr_user_id p,
      ti_action = action, ti_expectedStatus = expected, ti_targetStatus = ACTION_TARGETS action,
      ti_idempotencyKey = key, ti_siteScope = scope, ti_actorMustBeAssignee = (action \<noteq> cancel)\<rparr>"

definition transitionAssignment ::
    "principal \<Rightarrow> site_scope \<Rightarrow> string \<Rightarrow> assignment_action \<Rightarrow> assignment_status \<Rightarrow> string \<Rightarrow> int \<Rightarrow> int
     \<Rightarrow> field_db \<Rightarrow> (thrown + assignment) \<times> field_db" where
  "transitionAssignment p scope assignmentId action expected key at_ms now db =
     (case transitionAssignment_repo (transition_input_of p scope assignmentId action expected key) at_ms now db of
        (Inl e, db') \<Rightarrow> (Inl e, db')
      | (Inr r, db') \<Rightarrow> (mapTransitionResult r, db'))"

text \<open>\<open>parseAssignmentAction\<close>: the key is the only field a typed caller can get wrong.\<close>

definition parseAssignmentAction :: "string \<Rightarrow> thrown + string" where
  "parseAssignmentAction key = (if bounded_text 256 key then Inr key else Inl BadRequestException)"

subsection \<open>The evidence probe\<close>

definition findTransitionEvidence :: "string \<Rightarrow> string \<Rightarrow> assignment_action \<Rightarrow> string \<Rightarrow> string \<Rightarrow> field_db \<Rightarrow> bool" where
  "findTransitionEvidence org assignmentId action actor key db \<longleftrightarrow>
     list_ex (\<lambda>e. ev_assignmentId e = assignmentId \<and> ev_action e = action \<and> ev_idempotencyKey e = key
       \<and> ev_actorUserId e = actor
       \<and> list_ex (\<lambda>a. as_id a = assignmentId \<and> as_organisationId a = org) (assignments db)) (evidence db)"

definition probeTransitionEvidence :: "principal \<Rightarrow> string \<Rightarrow> assignment_action \<Rightarrow> string \<Rightarrow> field_db \<Rightarrow> assignment_status option" where
  "probeTransitionEvidence p assignmentId action key db =
     (if findTransitionEvidence (pr_organisation_id p) assignmentId action (pr_user_id p) key db
      then Some (ACTION_TARGETS action) else None)"

subsection \<open>One transition\<close>

text \<open>A transition commits a move, or it leaves the database as it was.\<close>

definition commits_move :: "transition_input \<Rightarrow> int \<Rightarrow> int \<Rightarrow> field_db \<Rightarrow> assignment \<Rightarrow> bool" where
  "commits_move t at_ms now db current \<longleftrightarrow>
     List.find (visible (ti_organisationId t) (ti_assignmentId t) (ti_siteScope t)) (assignments db) = Some current
     \<and> (ti_actorMustBeAssignee t \<longrightarrow> as_assigneeUserId current = ti_actorUserId t)
     \<and> \<not> action_known (ti_action t) (as_id current) (ti_idempotencyKey t) db
     \<and> as_status current = ti_expectedStatus t \<and> as_status current \<noteq> ti_targetStatus t
     \<and> canTransitionFieldAssignmentStatus (as_status current) (ti_targetStatus t)
     \<and> assertAssignmentContract (moved_row t at_ms now current)"

lemma transition_repo_cases:
  obtains (moved) current where "commits_move t at_ms now db current"
      "transitionAssignment_repo t at_ms now db =
         (Inr (Updated (moved_row t at_ms now current)), moved_db t current (moved_row t at_ms now current) db)"
  | (kept) r where "\<nexists>current. commits_move t at_ms now db current"
      "transitionAssignment_repo t at_ms now db = (r, db)" "\<nexists>a. r = Inr (Updated a)"
proof (cases "\<exists>current. commits_move t at_ms now db current")
  case True
  then obtain current where c: "commits_move t at_ms now db current" by blast
  then have "transitionAssignment_repo t at_ms now db =
      (Inr (Updated (moved_row t at_ms now current)), moved_db t current (moved_row t at_ms now current) db)"
    by (auto simp: commits_move_def transitionAssignment_repo_def Let_def)
  with c show ?thesis by (rule moved)
next
  case False
  then have "snd (transitionAssignment_repo t at_ms now db) = db
      \<and> (\<nexists>a. fst (transitionAssignment_repo t at_ms now db) = Inr (Updated a))"
    by (auto simp: commits_move_def transitionAssignment_repo_def Let_def split: option.splits)
  with False show ?thesis by (intro kept[of "fst (transitionAssignment_repo t at_ms now db)"]) (auto simp: prod_eq_iff)
qed

lemma moved_row_simps [simp]:
  "as_id (moved_row t at_ms now a) = as_id a"
  "as_organisationId (moved_row t at_ms now a) = as_organisationId a"
  "as_siteId (moved_row t at_ms now a) = as_siteId a"
  "as_incidentId (moved_row t at_ms now a) = as_incidentId a"
  "as_idempotencyKey (moved_row t at_ms now a) = as_idempotencyKey a"
  "as_assigneeUserId (moved_row t at_ms now a) = as_assigneeUserId a"
  "as_needToKnowSummary (moved_row t at_ms now a) = as_needToKnowSummary a"
  "as_expiresAt (moved_row t at_ms now a) = as_expiresAt a"
  "as_createdAt (moved_row t at_ms now a) = as_createdAt a"
  "as_status (moved_row t at_ms now a) = ti_targetStatus t"
  by (cases "ti_action t"; simp add: moved_row_def Let_def)+

lemma replace_row_ids [simp]: "map as_id (replace_row a xs) = map as_id xs"
  by (induction xs) (auto simp: replace_row_def)

lemma in_replace_row:
  "b \<in> set (replace_row a xs) \<longleftrightarrow> (b \<in> set xs \<and> as_id b \<noteq> as_id a) \<or> (b = a \<and> as_id a \<in> as_id ` set xs)"
  by (induction xs) (auto simp: replace_row_def)

lemma moved_db_simps [simp]:
  "assignments (moved_db t c u db) = replace_row u (assignments db)"
  "evidence (moved_db t c u db) = evidence db @ [\<lparr>ev_assignmentId = as_id c, ev_action = ti_action t,
     ev_idempotencyKey = ti_idempotencyKey t, ev_actorUserId = ti_actorUserId t\<rparr>]"
  "sites (moved_db t c u db) = sites db" "users (moved_db t c u db) = users db"
  "incidents (moved_db t c u db) = incidents db"
  "state_idempotency (moved_db t c u db) = state_idempotency db"
  "state_history (moved_db t c u db) = state_history db"
  "current_states (moved_db t c u db) = current_states db"
  "messages (moved_db t c u db) = messages db"
  "ack_evidences (moved_db t c u db) = ack_evidences db"
  "timeline (moved_db t c u db) = timeline db" "message_outbox (moved_db t c u db) = message_outbox db"
  by (simp_all add: moved_db_def Let_def)

subsection \<open>The invariant of the assignment tables\<close>

fun lifecycle :: "assignment_status \<Rightarrow> (assignment_status \<times> assignment_status) list \<Rightarrow> assignment_status \<Rightarrow> bool" where
  "lifecycle s [] t \<longleftrightarrow> s = t"
| "lifecycle s ((f, g) # ms) t \<longleftrightarrow> s = f \<and> canTransitionFieldAssignmentStatus f g \<and> lifecycle g ms t"

lemma lifecycle_snoc: "lifecycle s (ms @ [(f, g)]) t \<longleftrightarrow>
    lifecycle s ms f \<and> canTransitionFieldAssignmentStatus f g \<and> g = t"
  by (induction s ms t rule: lifecycle.induct) auto

text \<open>What the audit trail records of the moves of an assignment, and what the evidence rows record.\<close>

fun move_of :: "string \<Rightarrow> audit_payload \<Rightarrow> (assignment_status \<times> assignment_status) option" where
  "move_of i (Assignment_Moved j f g action) = (if i = j then Some (f, g) else None)"
| "move_of i _ = None"

definition moves :: "string \<Rightarrow> field_db \<Rightarrow> (assignment_status \<times> assignment_status) list" where
  "moves i db = List.map_filter (move_of i) (map au_payload (audit_log db))"

definition evidenced :: "string \<Rightarrow> field_db \<Rightarrow> assignment_action list" where
  "evidenced i db = map ev_action (filter (\<lambda>e. ev_assignmentId e = i) (evidence db))"

definition evidence_key :: "transition_evidence \<Rightarrow> string \<times> assignment_action \<times> string" where
  "evidence_key e = (ev_assignmentId e, ev_action e, ev_idempotencyKey e)"

definition creation_key :: "assignment \<Rightarrow> string \<times> string \<times> string" where
  "creation_key a = (as_organisationId a, as_siteId a, as_idempotencyKey a)"

definition assignment_ok :: "field_db \<Rightarrow> assignment \<Rightarrow> bool" where
  "assignment_ok db a \<longleftrightarrow> lifecycle REQUESTED (moves (as_id a) db) (as_status a)
     \<and> map snd (moves (as_id a) db) = map ACTION_TARGETS (evidenced (as_id a) db)"

definition assignments_ok :: "field_db \<Rightarrow> bool" where
  "assignments_ok db \<longleftrightarrow> distinct (map as_id (assignments db)) \<and> distinct (map creation_key (assignments db))
     \<and> distinct (map evidence_key (evidence db))
     \<and> (\<forall>e\<in>set (evidence db). ev_assignmentId e \<in> as_id ` set (assignments db))
     \<and> (\<forall>i. i \<notin> as_id ` set (assignments db) \<longrightarrow> moves i db = [])
     \<and> (\<forall>a\<in>set (assignments db). assignment_ok db a)"

lemma moves_append: "audit_log db' = audit_log db @ rs \<Longrightarrow>
    moves i db' = moves i db @ List.map_filter (move_of i) (map au_payload rs)"
  by (simp add: moves_def map_filter_def)

lemma moves_moved_db: "moves i (moved_db t c u db) =
    moves i db @ (if i = as_id c then [(as_status c, ti_targetStatus t)] else [])"
  by (subst moves_append[of "moved_db t c u db" db]) (auto simp: moved_db_def Let_def map_filter_def)

lemma evidenced_moved_db: "evidenced i (moved_db t c u db) =
    evidenced i db @ (if i = as_id c then [ti_action t] else [])"
  by (simp add: evidenced_def)

lemma creation_keys_replace: "\<forall>b\<in>set xs. as_id b = as_id a \<longrightarrow> creation_key b = creation_key a \<Longrightarrow>
    map creation_key (replace_row a xs) = map creation_key xs"
  by (induction xs) (auto simp: replace_row_def)

lemma same_id: "distinct (map as_id xs) \<Longrightarrow> a \<in> set xs \<Longrightarrow> b \<in> set xs \<Longrightarrow> as_id a = as_id b \<Longrightarrow> a = b"
  by (simp add: distinct_map inj_on_def)

lemma assignments_ok_moved:
  assumes "assignments_ok db" "commits_move t at_ms now db c" "ti_targetStatus t = ACTION_TARGETS (ti_action t)"
  shows "assignments_ok (moved_db t c (moved_row t at_ms now c) db)"
proof -
  let ?u = "moved_row t at_ms now c" and ?db = "moved_db t c (moved_row t at_ms now c) db"
  have c: "c \<in> set (assignments db)" using assms(2) by (auto simp: commits_move_def dest: find_SomeD)
  have fresh: "evidence_key \<lparr>ev_assignmentId = as_id c, ev_action = ti_action t,
      ev_idempotencyKey = ti_idempotencyKey t, ev_actorUserId = ti_actorUserId t\<rparr> \<notin> set (map evidence_key (evidence db))"
    using assms(2) by (auto simp: commits_move_def action_known_def list_ex_iff evidence_key_def)
  have keys: "map creation_key (assignments ?db) = map creation_key (assignments db)"
    unfolding moved_db_simps using assms(1) c
    by (intro creation_keys_replace) (auto simp: assignments_ok_def creation_key_def dest: same_id[OF _ c])
  have rows: "assignment_ok ?db a" if "a \<in> set (assignments ?db)" for a
  proof (cases "as_id a = as_id c")
    case True
    with that have a: "a = ?u" by (auto simp: in_replace_row)
    have "assignment_ok db c" using assms(1) c by (simp add: assignments_ok_def)
    moreover have "canTransitionFieldAssignmentStatus (as_status c) (ti_targetStatus t)"
      using assms(2) unfolding commits_move_def by blast
    ultimately show ?thesis
      by (simp add: a assignment_ok_def moves_moved_db evidenced_moved_db lifecycle_snoc assms(3))
  next
    case False
    with that have "a \<in> set (assignments db)" by (auto simp: in_replace_row)
    with assms(1) False show ?thesis
      by (simp add: assignments_ok_def assignment_ok_def moves_moved_db evidenced_moved_db)
  qed
  have ids: "as_id ` set (assignments ?db) = as_id ` set (assignments db)"
    by (metis moved_db_simps(1) replace_row_ids list.set_map)
  show ?thesis
    unfolding assignments_ok_def ids keys
    using assms(1) fresh rows c by (auto simp: assignments_ok_def moves_moved_db)
qed

lemma created_row_simps [simp]:
  "as_id (created_row org actor i newId now) = newId"
  "as_status (created_row org actor i newId now) = REQUESTED"
  "creation_key (created_row org actor i newId now) = (org, ci_site_id i, ci_idempotency_key i)"
  by (simp_all add: created_row_def creation_key_def)

definition creates :: "string \<Rightarrow> string \<Rightarrow> create_input \<Rightarrow> string \<Rightarrow> int \<Rightarrow> field_db \<Rightarrow> field_db" where
  "creates org actor i newId now db = db\<lparr>assignments := assignments db @ [created_row org actor i newId now],
     audit_log := audit_log db @ [\<lparr>au_organisationId = org, au_siteId = ci_site_id i,
       au_assignmentId = Some newId, au_actorUserId = actor, au_kind = ''FIELD_ASSIGNMENT_CREATED'',
       au_payload = Assignment_Created newId (ci_assignee_user_id i) (ci_incident_id i)\<rparr>],
     outbox := outbox db @ [\<lparr>ob_organisationId = org, ob_siteId = ci_site_id i,
       ob_kind = ''FIELD_ASSIGNMENT_CREATED'', ob_subject = newId\<rparr>]\<rparr>"

lemma create_repo_cases:
  obtains (created) "newId \<notin> as_id ` set (assignments db)"
      "(org, ci_site_id i, ci_idempotency_key i) \<notin> creation_key ` set (assignments db)"
      "createAssignment_repo org actor i newId now db =
         (if assertAssignmentContract (created_row org actor i newId now)
          then Inr (created_row org actor i newId now) else Inl Fault, creates org actor i newId now db)"
  | (kept) r where "createAssignment_repo org actor i newId now db = (r, db)"
proof (cases "list_ex (\<lambda>a. as_id a = newId \<or> same_creation org i a) (assignments db)")
  case True
  then have "snd (createAssignment_repo org actor i newId now db) = db"
    by (simp add: createAssignment_repo_def split: option.splits)
  then show ?thesis
    by (intro kept[of "fst (createAssignment_repo org actor i newId now db)"]) (simp add: prod_eq_iff)
next
  case False
  then have "newId \<notin> as_id ` set (assignments db)"
      "(org, ci_site_id i, ci_idempotency_key i) \<notin> creation_key ` set (assignments db)"
    by (auto simp: list_ex_iff same_creation_def creation_key_def)
  then show ?thesis
    by (rule created) (simp add: createAssignment_repo_def False creates_def Let_def)
qed

lemma creates_simps [simp]:
  "assignments (creates org actor i newId now db) = assignments db @ [created_row org actor i newId now]"
  "evidence (creates org actor i newId now db) = evidence db"
  "evidenced j (creates org actor i newId now db) = evidenced j db"
  "moves j (creates org actor i newId now db) = moves j db"
  by (simp_all add: creates_def evidenced_def moves_def map_filter_def)

lemma assignments_ok_creates:
  assumes "assignments_ok db" "newId \<notin> as_id ` set (assignments db)"
    "(org, ci_site_id i, ci_idempotency_key i) \<notin> creation_key ` set (assignments db)"
  shows "assignments_ok (creates org actor i newId now db)"
proof -
  have "evidenced newId db = []"
    using assms(1,2) by (auto simp: evidenced_def filter_empty_conv assignments_ok_def)
  moreover have "moves newId db = []" using assms(1,2) by (auto simp: assignments_ok_def)
  ultimately have "assignment_ok (creates org actor i newId now db) (created_row org actor i newId now)"
    by (simp add: assignment_ok_def)
  then show ?thesis
    using assms by (auto simp: assignments_ok_def assignment_ok_def)
qed

text \<open>A table that the assignment handlers do not touch is not read by the invariant.\<close>

lemma assignments_ok_cong:
  assumes "assignments db' = assignments db" "evidence db' = evidence db" "\<And>i. moves i db' = moves i db"
  shows "assignments_ok db' = assignments_ok db"
  using assms by (simp add: assignments_ok_def assignment_ok_def evidenced_def)

lemma assignments_ok_create: "assignments_ok db \<Longrightarrow> assignments_ok (snd (createAssignment p scope i newId now db))"
  by (cases rule: create_repo_cases[of newId db "pr_organisation_id p" i "pr_user_id p" now])
    (auto simp: createAssignment_def Let_def intro: assignments_ok_creates split: option.splits)

lemma target_of_input [simp]:
  "ti_targetStatus (transition_input_of p scope i action expected key) = ACTION_TARGETS action"
  "ti_action (transition_input_of p scope i action expected key) = action"
  "ti_assignmentId (transition_input_of p scope i action expected key) = i"
  "ti_organisationId (transition_input_of p scope i action expected key) = pr_organisation_id p"
  "ti_actorUserId (transition_input_of p scope i action expected key) = pr_user_id p"
  "ti_expectedStatus (transition_input_of p scope i action expected key) = expected"
  "ti_idempotencyKey (transition_input_of p scope i action expected key) = key"
  "ti_siteScope (transition_input_of p scope i action expected key) = scope"
  "ti_actorMustBeAssignee (transition_input_of p scope i action expected key) = (action \<noteq> cancel)"
  by (simp_all add: transition_input_of_def)

lemma transition_service:
  "transitionAssignment p scope i action expected key at_ms now db =
     (let rd = transitionAssignment_repo (transition_input_of p scope i action expected key) at_ms now db
      in (and_then (fst rd) mapTransitionResult, snd rd))"
  by (auto simp: transitionAssignment_def Let_def split: prod.splits sum.splits)

lemma assignments_ok_transition:
  "assignments_ok db \<Longrightarrow> assignments_ok (snd (transitionAssignment p scope i action expected key at_ms now db))"
  by (cases rule: transition_repo_cases[of "transition_input_of p scope i action expected key" at_ms now db])
    (simp_all add: transition_service Let_def assignments_ok_moved)

end
