(* ===== verification/Field_States.thy ===== *)
theory Field_States
  imports Field_Tables
begin

text \<open>
  Audited operative states (services/core-api: \<open>recordState\<close> of field/field.service.ts and
  field/field.repository.ts, with \<open>FieldOperativeStateUpdateSchema\<close> of packages/contracts): the
  update with its idempotency identity, the history row, the current state it overwrites, and the
  evidence probe. The two freshness columns are Prisma \<open>Int\<close>, 32 bits: the driver refuses a value
  that does not fit.
\<close>

definition FIELD_STATES :: "string list" where
  "FIELD_STATES = [''AVAILABLE'', ''PATROL'', ''OBSERVING'', ''RESPONDING'', ''ON_SCENE'', ''NEED_SUPPORT'',
     ''COMPROMISED'', ''OFF_DUTY'']"

definition MAX_BOUNDED_JSON_BYTES :: int where
  "MAX_BOUNDED_JSON_BYTES = 16384"

record state_input =
  si_site_id :: string
  si_device_id :: string
  si_state :: string
  si_location :: "json option"
  si_source_at :: int
  si_freshness_ms :: int
  si_idempotency_key :: string
  si_trace_id :: string

definition parseStateUpdate :: "state_input \<Rightarrow> thrown + state_input" where
  "parseStateUpdate i = (if isSafeSubjectToken (si_site_id i) \<and> bounded_text 256 (si_device_id i)
       \<and> si_state i \<in> set FIELD_STATES \<and> 0 \<le> si_freshness_ms i
       \<and> bounded_text 256 (si_idempotency_key i) \<and> bounded_text 256 (si_trace_id i)
     then Inr i else Inl BadRequestException)"

definition state_row_of :: "string \<Rightarrow> string \<Rightarrow> state_input \<Rightarrow> int \<Rightarrow> state_row" where
  "state_row_of org actor i receivedAt = \<lparr>st_organisationId = org, st_siteId = si_site_id i,
     st_userId = actor, st_deviceId = si_device_id i, st_state = si_state i, st_location = si_location i,
     st_sourceAt = si_source_at i, st_receivedAt = receivedAt, st_clientFreshnessMs = si_freshness_ms i,
     st_authoritativeFreshnessMs = max 0 (receivedAt - si_source_at i), st_traceId = si_trace_id i\<rparr>"

definition validateStateContract :: "state_row \<Rightarrow> bool" where
  "validateStateContract r \<longleftrightarrow> scopedId (st_organisationId r) \<and> scopedId (st_siteId r) \<and> scopedId (st_userId r)
     \<and> scopedId (st_deviceId r) \<and> st_state r \<in> set FIELD_STATES
     \<and> (\<forall>l\<in>set_option (st_location r). utf8_length (json_stringify l) \<le> MAX_BOUNDED_JSON_BYTES)
     \<and> 0 \<le> st_clientFreshnessMs r \<and> scopedId (st_traceId r)"

definition fits_int4 :: "int \<Rightarrow> bool" where
  "fits_int4 n \<longleftrightarrow> - (2 ^ 31) \<le> n \<and> n < 2 ^ 31"

definition state_identity :: "state_row \<Rightarrow> string \<Rightarrow> string \<times> string \<times> string \<times> string \<times> string" where
  "state_identity r key = (st_organisationId r, st_siteId r, st_userId r, st_deviceId r, key)"

definition same_operative :: "state_row \<Rightarrow> state_row \<Rightarrow> bool" where
  "same_operative r c \<longleftrightarrow> st_organisationId c = st_organisationId r \<and> st_siteId c = st_siteId r
     \<and> st_userId c = st_userId r"

definition upsert_state :: "state_row \<Rightarrow> state_row list \<Rightarrow> state_row list" where
  "upsert_state r cs = (if list_ex (same_operative r) cs
     then map (\<lambda>c. if same_operative r c then r else c) cs else cs @ [r])"

definition recordState_repo :: "state_row \<Rightarrow> string \<Rightarrow> field_db \<Rightarrow> (thrown + state_row \<times> bool) \<times> field_db" where
  "recordState_repo r key db =
     (if state_identity r key \<in> set (state_idempotency db)
      then (case List.find (same_operative r) (current_states db) of None \<Rightarrow> (Inl Fault, db)
        | Some c \<Rightarrow> (Inr (c, False), db))
      else if \<not> fits_int4 (st_clientFreshnessMs r) \<or> \<not> fits_int4 (st_authoritativeFreshnessMs r)
        then (Inl Fault, db)
      else (Inr (r, True), db\<lparr>state_idempotency := state_idempotency db @ [state_identity r key],
        state_history := state_history db @ [r],
        current_states := upsert_state r (current_states db),
        audit_log := audit_log db @ [\<lparr>au_organisationId = st_organisationId r, au_siteId = st_siteId r,
          au_assignmentId = None, au_actorUserId = st_userId r, au_kind = ''FIELD_STATE_UPDATED'',
          au_payload = State_Updated (st_userId r) (st_state r) (st_sourceAt r) (st_receivedAt r)\<rparr>],
        outbox := outbox db @ [\<lparr>ob_organisationId = st_organisationId r, ob_siteId = st_siteId r,
          ob_kind = ''FIELD_STATE_UPDATED'', ob_subject = st_userId r\<rparr>]\<rparr>))"

definition recordState ::
    "principal \<Rightarrow> site_scope \<Rightarrow> state_input \<Rightarrow> int \<Rightarrow> field_db \<Rightarrow> (thrown + state_row) \<times> field_db" where
  "recordState p scope i receivedAt db =
     (let org = pr_organisation_id p; r = state_row_of org (pr_user_id p) i receivedAt in
      if \<not> siteAllowed scope (si_site_id i) then (Inl ForbiddenException, db)
      else if \<not> siteExistsInOrganisation org (si_site_id i) db then (Inl NotFoundException, db)
      else if \<not> validateStateContract r then (Inl Fault, db)
      else (case recordState_repo r (si_idempotency_key i) db of (Inl e, db') \<Rightarrow> (Inl e, db')
        | (Inr (c, _), db') \<Rightarrow> (Inr c, db')))"

definition findStateEvidence :: "string \<Rightarrow> string \<Rightarrow> string \<Rightarrow> string \<Rightarrow> string \<Rightarrow> field_db \<Rightarrow> bool" where
  "findStateEvidence org site user device key db \<longleftrightarrow> (org, site, user, device, key) \<in> set (state_idempotency db)"

definition probeStateEvidence :: "principal \<Rightarrow> string \<Rightarrow> string \<Rightarrow> string \<Rightarrow> field_db \<Rightarrow> bool" where
  "probeStateEvidence p siteId deviceId key db =
     findStateEvidence (pr_organisation_id p) siteId (pr_user_id p) deviceId key db"

definition getCurrentState :: "principal \<Rightarrow> site_scope \<Rightarrow> string \<Rightarrow> field_db \<Rightarrow> thrown + state_row" where
  "getCurrentState p scope userId db =
     (if userId \<noteq> pr_user_id p \<and> \<not> hasAction p ''field.state.read'' then Inl ForbiddenException
      else case List.find (\<lambda>c. st_organisationId c = pr_organisation_id p \<and> st_userId c = userId
          \<and> siteAllowed scope (st_siteId c)) (current_states db) of
        None \<Rightarrow> Inl NotFoundException | Some c \<Rightarrow> Inr c)"

subsection \<open>The invariant of the state tables\<close>

definition operative :: "state_row \<Rightarrow> string \<times> string \<times> string" where
  "operative r = (st_organisationId r, st_siteId r, st_userId r)"

lemma same_operative_iff: "same_operative r c \<longleftrightarrow> operative c = operative r"
  by (auto simp: same_operative_def operative_def)

definition origin :: "state_row \<Rightarrow> string \<times> string \<times> string \<times> string" where
  "origin r = (st_organisationId r, st_siteId r, st_userId r, st_deviceId r)"

text \<open>
  One history row per identity, and the current row of an operative is the last one recorded: the
  last to arrive, whatever its \<open>source_at\<close>.
\<close>

definition states_ok :: "field_db \<Rightarrow> bool" where
  "states_ok db \<longleftrightarrow> distinct (state_idempotency db)
     \<and> map (\<lambda>(g, s, u, d, k). (g, s, u, d)) (state_idempotency db) = map origin (state_history db)
     \<and> distinct (map operative (current_states db))
     \<and> (\<forall>c\<in>set (current_states db). List.find (same_operative c) (rev (state_history db)) = Some c)
     \<and> operative ` set (current_states db) = operative ` set (state_history db)"

lemma upsert_operatives: "map operative (upsert_state r cs) =
    (if operative r \<in> operative ` set cs then map operative cs else map operative cs @ [operative r])"
proof (cases "operative r \<in> operative ` set cs")
  case True
  then have "list_ex (same_operative r) cs" by (auto simp: list_ex_iff same_operative_iff)
  moreover have "map operative (map (\<lambda>c. if same_operative r c then r else c) cs) = map operative cs"
    by (simp add: same_operative_iff)
  ultimately show ?thesis using True by (simp add: upsert_state_def)
next
  case False
  then have "\<not> list_ex (same_operative r) cs" by (auto simp: list_ex_iff same_operative_iff image_iff dest: sym)
  with False show ?thesis by (simp add: upsert_state_def)
qed

lemma in_upsert: "distinct (map operative cs) \<Longrightarrow>
    c \<in> set (upsert_state r cs) \<longleftrightarrow> (c \<in> set cs \<and> operative c \<noteq> operative r) \<or> c = r"
  by (auto simp: upsert_state_def list_ex_iff same_operative_iff)

lemma recordState_repo_cases:
  obtains (recorded) "state_identity r key \<notin> set (state_idempotency db)"
      "fst (recordState_repo r key db) = Inr (r, True)"
      "state_idempotency (snd (recordState_repo r key db)) = state_idempotency db @ [state_identity r key]"
      "state_history (snd (recordState_repo r key db)) = state_history db @ [r]"
      "current_states (snd (recordState_repo r key db)) = upsert_state r (current_states db)"
      "evidence (snd (recordState_repo r key db)) = evidence db"
      "assignments (snd (recordState_repo r key db)) = assignments db"
      "messages (snd (recordState_repo r key db)) = messages db"
      "ack_evidences (snd (recordState_repo r key db)) = ack_evidences db"
      "\<exists>pl. audit_log (snd (recordState_repo r key db)) = audit_log db @ [pl] \<and> (\<exists>a b c d. au_payload pl = State_Updated a b c d)"
  | (kept) "snd (recordState_repo r key db) = db" "\<And>c b. fst (recordState_repo r key db) = Inr (c, b) \<Longrightarrow> \<not> b"
proof (cases "state_identity r key \<in> set (state_idempotency db) \<or> \<not> fits_int4 (st_clientFreshnessMs r)
    \<or> \<not> fits_int4 (st_authoritativeFreshnessMs r)")
  case True
  then show ?thesis by (intro kept) (auto simp: recordState_repo_def split: option.splits if_splits)
next
  case False
  then show ?thesis by (intro recorded) (simp_all add: recordState_repo_def)
qed

lemma states_ok_recorded:
  assumes ok: "states_ok db" and new: "state_identity r key \<notin> set (state_idempotency db)"
    and db': "state_idempotency db' = state_idempotency db @ [state_identity r key]"
      "state_history db' = state_history db @ [r]" "current_states db' = upsert_state r (current_states db)"
  shows "states_ok db'"
proof -
  have d: "distinct (map operative (current_states db))" using ok by (simp add: states_ok_def)
  have ops: "map operative (current_states db') = (if operative r \<in> operative ` set (current_states db)
      then map operative (current_states db) else map operative (current_states db) @ [operative r])"
    by (simp add: db' upsert_operatives)
  have "operative ` set (current_states db') = insert (operative r) (operative ` set (current_states db))"
    using arg_cong[OF ops, of set] by auto
  moreover have "distinct (map operative (current_states db'))" unfolding ops using d by auto
  moreover have "List.find (same_operative c) (rev (state_history db')) = Some c" if "c \<in> set (current_states db')" for c
    using that ok by (auto simp: db' in_upsert[OF d] states_ok_def same_operative_iff)
  ultimately show ?thesis
    using ok new by (simp add: states_ok_def db' state_identity_def origin_def)
qed

lemma recordState_cases:
  obtains (ran) "fst (recordState p scope i t db) = map_sum (\<lambda>e. e) fst (fst (recordState_repo (state_row_of (pr_organisation_id p) (pr_user_id p) i t) (si_idempotency_key i) db))"
      "snd (recordState p scope i t db) =
       snd (recordState_repo (state_row_of (pr_organisation_id p) (pr_user_id p) i t) (si_idempotency_key i) db)"
  | (refused) e where "recordState p scope i t db = (Inl e, db)"
proof (cases "siteAllowed scope (si_site_id i) \<and> siteExistsInOrganisation (pr_organisation_id p) (si_site_id i) db
    \<and> validateStateContract (state_row_of (pr_organisation_id p) (pr_user_id p) i t)")
  case True
  then show ?thesis by (intro ran) (auto simp: recordState_def Let_def split: prod.splits sum.splits)
next
  case False
  then show ?thesis by (intro refused[of "projl (fst (recordState p scope i t db))"]) (auto simp: recordState_def Let_def)
qed

lemma states_ok_recordState: "states_ok db \<Longrightarrow> states_ok (snd (recordState p scope i t db))"
proof (cases rule: recordState_cases[of p scope i t db])
  case ran
  assume ok: "states_ok db"
  show ?thesis
  proof (cases rule: recordState_repo_cases[of "state_row_of (pr_organisation_id p) (pr_user_id p) i t"
        "si_idempotency_key i" db])
    case recorded
    from states_ok_recorded[OF ok recorded(1,3,4,5)] show ?thesis by (simp add: ran)
  qed (simp add: ran ok)
qed simp

lemma states_ok_cong: "state_idempotency db' = state_idempotency db \<Longrightarrow> state_history db' = state_history db \<Longrightarrow>
    current_states db' = current_states db \<Longrightarrow> states_ok db' = states_ok db"
  by (simp add: states_ok_def)

end
