(* ===== verification/Field_Messaging.thy ===== *)
theory Field_Messaging
  imports Field_Tables
begin

text \<open>
  Incident field messages (services/core-api: field-messaging.service.ts, -.repository.ts and
  -.eligibility.ts, with \<open>IncidentFieldMessageSchema\<close> of packages/contracts/src/field.ts): who may
  send and be named, the send transaction with its sender-scoped identity, the acknowledgement
  that only a delivered row allows, the transport step that makes a row delivered, and the two
  evidence probes. \<open>iso_string\<close> is \<open>Date.prototype.toISOString\<close>.
\<close>

subsection \<open>Eligibility\<close>

definition OPERATIONAL_ASSIGNMENT_STATUSES :: "assignment_status list" where
  "OPERATIONAL_ASSIGNMENT_STATUSES = [REQUESTED, ACCEPTED, IN_PROGRESS]"

definition appliesAtSite :: "role_assignment \<Rightarrow> string \<Rightarrow> bool" where
  "appliesAtSite r siteId \<longleftrightarrow> ra_site_id r = None \<or> ra_site_id r = Some siteId"

definition COMMAND_ROLES :: "string list" where
  "COMMAND_ROLES = [''site.commander'', ''dispatcher'']"

text \<open>The roles of a user and whether they hold an operational assignment on the incident.\<close>

type_synonym facts = "role_assignment list \<times> bool"

definition eligible :: "string \<Rightarrow> string \<Rightarrow> facts \<Rightarrow> bool" where
  "eligible action siteId f =
     (let qualifying = filter (\<lambda>r. appliesAtSite r siteId \<and> roleHasAction (ra_role r) action) (fst f)
      in if qualifying = [] then False
         else if list_ex (\<lambda>r. ra_role r \<in> set COMMAND_ROLES) qualifying then True
         else snd f)"

definition isEligibleRecipient :: "string \<Rightarrow> facts \<Rightarrow> bool" where
  "isEligibleRecipient siteId f = eligible ''field.message.read'' siteId f"

definition isEligibleSender :: "string \<Rightarrow> facts \<Rightarrow> string \<Rightarrow> bool" where
  "isEligibleSender siteId f sendAction = eligible sendAction siteId f"

definition loadEligibilityFacts :: "string \<Rightarrow> string \<Rightarrow> string \<Rightarrow> field_db \<Rightarrow> string \<Rightarrow> facts option" where
  "loadEligibilityFacts org siteId incidentId db userId =
     (case List.find (\<lambda>u. us_organisationId u = org \<and> us_id u = userId) (users db) of None \<Rightarrow> None
      | Some u \<Rightarrow> Some (us_roles u, list_ex (\<lambda>a. as_organisationId a = org \<and> as_siteId a = siteId
          \<and> as_incidentId a = Some incidentId \<and> as_assigneeUserId a = userId
          \<and> as_status a \<in> set OPERATIONAL_ASSIGNMENT_STATUSES) (assignments db)))"

subsection \<open>The message contract\<close>

definition MAX_INCIDENT_FIELD_MESSAGE_BODY_BYTES :: int where
  "MAX_INCIDENT_FIELD_MESSAGE_BODY_BYTES = 16384"

definition MAX_INCIDENT_FIELD_MESSAGE_BYTES :: int where
  "MAX_INCIDENT_FIELD_MESSAGE_BYTES = 65536"

definition MAX_INCIDENT_FIELD_MESSAGE_MEDIA_REFS :: nat where
  "MAX_INCIDENT_FIELD_MESSAGE_MEDIA_REFS = 64"

definition message_json :: "(int \<Rightarrow> string) \<Rightarrow> message_row \<Rightarrow> json" where
  "message_json iso_string m = JObj [(''schema_version'', JInt 1), (''incident_field_message_id'', JStr (ms_id m)),
     (''organisation_id'', JStr (ms_organisationId m)), (''site_id'', JStr (ms_siteId m)),
     (''incident_id'', JStr (ms_incidentId m)), (''sender_user_id'', JStr (ms_senderUserId m)),
     (''recipient_user_ids'', JArr (map (JStr \<circ> rc_recipientUserId) (ms_recipients m))),
     (''body'', opt_json JStr (ms_body m)), (''media_refs'', JArr (map JStr (ms_mediaRefs m))),
     (''delivery_state'', JStr ''REQUESTED''), (''retention_class'', JStr (ms_retentionClass m)),
     (''sent_at'', JStr (iso_string (ms_sentAt m))),
     (''expires_at'', opt_json (JStr \<circ> iso_string) (ms_expiresAt m)), (''trace_id'', JStr (ms_traceId m))]"

definition message_contract_ok :: "(int \<Rightarrow> string) \<Rightarrow> message_row \<Rightarrow> bool" where
  "message_contract_ok iso_string m \<longleftrightarrow> scopedId (ms_id m) \<and> scopedId (ms_organisationId m)
     \<and> scopedId (ms_siteId m) \<and> scopedId (ms_incidentId m) \<and> scopedId (ms_senderUserId m)
     \<and> list_all (scopedId \<circ> rc_recipientUserId) (ms_recipients m)
     \<and> 1 \<le> length (ms_recipients m) \<and> length (ms_recipients m) \<le> 128
     \<and> distinct (map rc_recipientUserId (ms_recipients m))
     \<and> (\<forall>b\<in>set_option (ms_body m). b \<noteq> [] \<and> utf8_length b \<le> MAX_INCIDENT_FIELD_MESSAGE_BODY_BYTES)
     \<and> list_all (bounded_text 512) (ms_mediaRefs m) \<and> length (ms_mediaRefs m) \<le> MAX_INCIDENT_FIELD_MESSAGE_MEDIA_REFS
     \<and> bounded_text 128 (ms_retentionClass m) \<and> bounded_text 256 (ms_traceId m)
     \<and> (ms_body m \<noteq> None \<or> ms_mediaRefs m \<noteq> [])
     \<and> not_before (ms_expiresAt m) (Some (ms_sentAt m))
     \<and> utf8_length (json_stringify (message_json iso_string m)) \<le> MAX_INCIDENT_FIELD_MESSAGE_BYTES"

subsection \<open>Sending\<close>

record send_input =
  sd_recipient_user_ids :: "string list"
  sd_body :: "string option"
  sd_media_refs :: "string list"
  sd_retention_class :: string
  sd_expires_at :: "int option"
  sd_idempotency_key :: string
  sd_trace_id :: string

definition parseSend :: "send_input \<Rightarrow> thrown + send_input" where
  "parseSend i = (if list_all (bounded_text 256) (sd_recipient_user_ids i)
       \<and> 1 \<le> length (sd_recipient_user_ids i) \<and> length (sd_recipient_user_ids i) \<le> 128
       \<and> (\<forall>b\<in>set_option (sd_body i). b \<noteq> []) \<and> list_all (bounded_text 512) (sd_media_refs i)
       \<and> length (sd_media_refs i) \<le> MAX_INCIDENT_FIELD_MESSAGE_MEDIA_REFS
       \<and> bounded_text 128 (sd_retention_class i) \<and> bounded_text 256 (sd_idempotency_key i)
       \<and> bounded_text 256 (sd_trace_id i)
     then Inr i else Inl BadRequestException)"

definition resolveIncidentScope :: "principal \<Rightarrow> site_scope \<Rightarrow> string \<Rightarrow> field_db \<Rightarrow> thrown + string" where
  "resolveIncidentScope p scope incidentId db =
     (case List.find (\<lambda>i. in_id i = incidentId \<and> in_organisationId i = pr_organisation_id p) (incidents db) of
        None \<Rightarrow> Inl NotFoundException
      | Some i \<Rightarrow> if \<not> siteAllowed scope (in_siteId i) then Inl NotFoundException
          else if \<not> siteExistsInOrganisation (pr_organisation_id p) (in_siteId i) db then Inl ConflictException
          else Inr (in_siteId i))"

definition message_of :: "principal \<Rightarrow> string \<Rightarrow> string \<Rightarrow> send_input \<Rightarrow> string \<Rightarrow> int \<Rightarrow> message_row" where
  "message_of p siteId incidentId i newId sentAt = \<lparr>ms_id = newId, ms_organisationId = pr_organisation_id p,
     ms_siteId = siteId, ms_incidentId = incidentId, ms_senderUserId = pr_user_id p, ms_body = sd_body i,
     ms_mediaRefs = sd_media_refs i, ms_retentionClass = sd_retention_class i, ms_sentAt = sentAt,
     ms_expiresAt = sd_expires_at i, ms_idempotencyKey = sd_idempotency_key i, ms_traceId = sd_trace_id i,
     ms_recipients = map (\<lambda>u. \<lparr>rc_recipientUserId = u, rc_deliveryState = DELIVERY_REQUESTED,
       rc_deliveredAt = None, rc_acknowledgedAt = None\<rparr>) (sd_recipient_user_ids i)\<rparr>"

definition send_key :: "message_row \<Rightarrow> string \<times> string \<times> string \<times> string" where
  "send_key m = (ms_organisationId m, ms_incidentId m, ms_senderUserId m, ms_idempotencyKey m)"

definition notify :: "message_row \<Rightarrow> string \<Rightarrow> message_outbox_row" where
  "notify m recipient = \<lparr>mo_organisationId = ms_organisationId m, mo_siteId = ms_siteId m,
     mo_recipientUserId = recipient, mo_incidentId = ms_incidentId m, mo_messageId = ms_id m\<rparr>"

definition send_repo :: "message_row \<Rightarrow> field_db \<Rightarrow> (thrown + message_row) \<times> field_db" where
  "send_repo m db =
     (if list_ex (\<lambda>n. ms_id n = ms_id m \<or> send_key n = send_key m) (messages db)
      then (case List.find (\<lambda>n. send_key n = send_key m) (messages db) of None \<Rightarrow> (Inl Fault, db)
        | Some n \<Rightarrow> (Inr n, db))
      else (Inr m, db\<lparr>messages := messages db @ [m],
        timeline := timeline db @ [\<lparr>tl_incidentId = ms_incidentId m, tl_kind = ''INCIDENT_FIELD_MESSAGE_SENT'',
          tl_actorUserId = ms_senderUserId m, tl_messageId = ms_id m\<rparr>],
        message_outbox := message_outbox db @ map (notify m \<circ> rc_recipientUserId) (ms_recipients m)\<rparr>))"

definition AGGREGATE_SIZE_PROBE_ID :: string where
  "AGGREGATE_SIZE_PROBE_ID = ''00000000-0000-0000-0000-000000000000''"

text \<open>The checks of \<open>send\<close> before it writes, in their order.\<close>

definition send_refusal ::
    "(int \<Rightarrow> string) \<Rightarrow> principal \<Rightarrow> string \<Rightarrow> string \<Rightarrow> send_input \<Rightarrow> int \<Rightarrow> field_db \<Rightarrow> thrown option" where
  "send_refusal iso_string p siteId incidentId i at_ms db =
     (let facts = loadEligibilityFacts (pr_organisation_id p) siteId incidentId db in
      if sd_body i = None \<and> sd_media_refs i = [] then Some BadRequestException
      else if (\<exists>b\<in>set_option (sd_body i). MAX_INCIDENT_FIELD_MESSAGE_BODY_BYTES < utf8_length b)
        then Some BadRequestException
      else if length (js_set (sd_recipient_user_ids i)) \<noteq> length (sd_recipient_user_ids i)
        then Some BadRequestException
      else if (case facts (pr_user_id p) of None \<Rightarrow> True
          | Some f \<Rightarrow> \<not> isEligibleSender siteId f ''field.message.send'') then Some ForbiddenException
      else if list_ex (\<lambda>u. case facts u of None \<Rightarrow> True | Some f \<Rightarrow> \<not> isEligibleRecipient siteId f)
          (js_set (sd_recipient_user_ids i)) then Some BadRequestException
      else if \<not> not_before (sd_expires_at i) (Some at_ms) then Some BadRequestException
      else if \<not> message_contract_ok iso_string (message_of p siteId incidentId i AGGREGATE_SIZE_PROBE_ID at_ms)
        then Some BadRequestException
      else None)"

definition send ::
    "(int \<Rightarrow> string) \<Rightarrow> principal \<Rightarrow> site_scope \<Rightarrow> string \<Rightarrow> send_input \<Rightarrow> string \<Rightarrow> int \<Rightarrow> int
     \<Rightarrow> field_db \<Rightarrow> (thrown + message_row) \<times> field_db" where
  "send iso_string p scope incidentId i newId at_ms now db =
     (case resolveIncidentScope p scope incidentId db of Inl e \<Rightarrow> (Inl e, db)
      | Inr siteId \<Rightarrow> (case send_refusal iso_string p siteId incidentId i at_ms db of Some e \<Rightarrow> (Inl e, db)
        | None \<Rightarrow> (case send_repo (message_of p siteId incidentId i newId now) db of (Inl e, db') \<Rightarrow> (Inl e, db')
          | (Inr m, db') \<Rightarrow> (if message_contract_ok iso_string m then Inr m else Inl Fault, db'))))"

definition findSendEvidence :: "string \<Rightarrow> string \<Rightarrow> string \<Rightarrow> string \<Rightarrow> field_db \<Rightarrow> message_row option" where
  "findSendEvidence org incidentId sender key db =
     List.find (\<lambda>m. send_key m = (org, incidentId, sender, key)) (messages db)"

definition probeSendEvidence :: "principal \<Rightarrow> string \<Rightarrow> string \<Rightarrow> field_db \<Rightarrow> (string \<times> string \<times> nat) option" where
  "probeSendEvidence p incidentId key db =
     map_option (\<lambda>m. (ms_id m, ms_incidentId m, length (ms_recipients m)))
       (findSendEvidence (pr_organisation_id p) incidentId (pr_user_id p) key db)"

subsection \<open>Acknowledging and delivering\<close>

definition ACKNOWLEDGE_REQUIRES_STATE :: delivery_state where
  "ACKNOWLEDGE_REQUIRES_STATE = DELIVERED"

definition parseAcknowledge :: "string \<Rightarrow> thrown + string" where
  "parseAcknowledge key = (if bounded_text 256 key then Inr key else Inl BadRequestException)"

definition replace_message :: "message_row \<Rightarrow> message_row list \<Rightarrow> message_row list" where
  "replace_message m = map (\<lambda>n. if ms_id n = ms_id m then m else n)"

definition set_recipient :: "string \<Rightarrow> (recipient_row \<Rightarrow> recipient_row) \<Rightarrow> message_row \<Rightarrow> message_row" where
  "set_recipient user f m = m\<lparr>ms_recipients := map (\<lambda>r. if rc_recipientUserId r = user then f r else r) (ms_recipients m)\<rparr>"

datatype acknowledge_result = Acknowledged message_row | Already message_row | Not_Recipient
  | Wrong_State delivery_state

definition acknowledge_key :: "string \<Rightarrow> string \<Rightarrow> string \<Rightarrow> ack_evidence" where
  "acknowledge_key messageId user key =
     \<lparr>ae_messageId = messageId, ae_recipientUserId = user, ae_idempotencyKey = key\<rparr>"

definition acknowledge_repo ::
    "string \<Rightarrow> string \<Rightarrow> string \<Rightarrow> string \<Rightarrow> site_scope \<Rightarrow> delivery_state \<Rightarrow> int \<Rightarrow> field_db \<Rightarrow> acknowledge_result \<times> field_db" where
  "acknowledge_repo org messageId user key scope requiredState at_ms db =
     (case List.find (\<lambda>m. ms_id m = messageId \<and> ms_organisationId m = org \<and> siteAllowed scope (ms_siteId m)) (messages db) of
        None \<Rightarrow> (Not_Recipient, db)
      | Some m \<Rightarrow> (case List.find (\<lambda>r. rc_recipientUserId r = user) (ms_recipients m) of
          None \<Rightarrow> (Not_Recipient, db)
        | Some r \<Rightarrow>
            if acknowledge_key messageId user key \<in> set (ack_evidences db) then (Already m, db)
            else if rc_deliveryState r = ACKNOWLEDGED then (Already m, db)
            else if rc_deliveryState r \<noteq> requiredState then (Wrong_State (rc_deliveryState r), db)
            else (let m' = set_recipient user
                  (\<lambda>r. r\<lparr>rc_deliveryState := ACKNOWLEDGED, rc_acknowledgedAt := Some at_ms\<rparr>) m
              in (Acknowledged m', db\<lparr>messages := replace_message m' (messages db),
                 ack_evidences := ack_evidences db @ [acknowledge_key messageId user key],
                 timeline := timeline db @ [\<lparr>tl_incidentId = ms_incidentId m,
                   tl_kind = ''INCIDENT_FIELD_MESSAGE_ACKNOWLEDGED'', tl_actorUserId = user, tl_messageId = messageId\<rparr>],
                 message_outbox := message_outbox db @ [notify m user]\<rparr>))))"

fun map_acknowledged :: "acknowledge_result \<Rightarrow> thrown + message_row" where
  "map_acknowledged Not_Recipient = Inl NotFoundException"
| "map_acknowledged (Wrong_State _) = Inl ConflictException"
| "map_acknowledged (Acknowledged m) = Inr m"
| "map_acknowledged (Already m) = Inr m"

definition acknowledge ::
    "principal \<Rightarrow> site_scope \<Rightarrow> string \<Rightarrow> string \<Rightarrow> int \<Rightarrow> field_db \<Rightarrow> (thrown + message_row) \<times> field_db" where
  "acknowledge p scope messageId key at_ms db =
     (let rd = acknowledge_repo (pr_organisation_id p) messageId (pr_user_id p) key scope
        ACKNOWLEDGE_REQUIRES_STATE at_ms db in (map_acknowledged (fst rd), snd rd))"

definition findAcknowledgeEvidence :: "string \<Rightarrow> string \<Rightarrow> string \<Rightarrow> string \<Rightarrow> field_db \<Rightarrow> bool" where
  "findAcknowledgeEvidence org messageId user key db \<longleftrightarrow> acknowledge_key messageId user key \<in> set (ack_evidences db)
     \<and> list_ex (\<lambda>m. ms_id m = messageId \<and> ms_organisationId m = org) (messages db)"

definition probeAcknowledgeEvidence :: "principal \<Rightarrow> string \<Rightarrow> string \<Rightarrow> field_db \<Rightarrow> bool" where
  "probeAcknowledgeEvidence p messageId key db =
     findAcknowledgeEvidence (pr_organisation_id p) messageId (pr_user_id p) key db"

text \<open>The consumer passes \<open>canTransition(from, DELIVERED)\<close> as \<open>canAdvance\<close>.\<close>

definition recordTransportDelivery ::
    "string \<Rightarrow> string \<Rightarrow> string \<Rightarrow> string \<Rightarrow> int \<Rightarrow> field_db \<Rightarrow> bool \<times> field_db" where
  "recordTransportDelivery org incidentId messageId user at_ms db =
     (case List.find (\<lambda>m. ms_id m = messageId \<and> ms_organisationId m = org \<and> ms_incidentId m = incidentId) (messages db) of
        None \<Rightarrow> (False, db)
      | Some m \<Rightarrow> (case List.find (\<lambda>r. rc_recipientUserId r = user) (ms_recipients m) of
          None \<Rightarrow> (False, db)
        | Some r \<Rightarrow> if rc_deliveryState r = DELIVERED \<or> \<not> canTransitionDelivery (rc_deliveryState r) DELIVERED
            then (False, db)
            else (True, db\<lparr>messages := replace_message (set_recipient user
              (\<lambda>r. r\<lparr>rc_deliveryState := DELIVERED, rc_deliveredAt := Some at_ms\<rparr>) m) (messages db)\<rparr>)))"

subsection \<open>Reading\<close>

definition isEntitled :: "message_row \<Rightarrow> string \<Rightarrow> bool" where
  "isEntitled m user \<longleftrightarrow> ms_senderUserId m = user \<or> list_ex (\<lambda>r. rc_recipientUserId r = user) (ms_recipients m)"

definition readEntitled :: "principal \<Rightarrow> site_scope \<Rightarrow> string \<Rightarrow> field_db \<Rightarrow> thrown + message_row" where
  "readEntitled p scope messageId db =
     (case List.find (\<lambda>m. ms_id m = messageId \<and> ms_organisationId m = pr_organisation_id p
          \<and> siteAllowed scope (ms_siteId m)) (messages db) of
        None \<Rightarrow> Inl NotFoundException
      | Some m \<Rightarrow> if isEntitled m (pr_user_id p) then Inr m else Inl NotFoundException)"

subsection \<open>The invariant of the message tables\<close>

text \<open>
  Per recipient row: acknowledged rows carry both instants and an acknowledgement, delivered rows
  the first; no other state is ever written.
\<close>

definition recipient_ok :: "recipient_row \<Rightarrow> bool" where
  "recipient_ok r \<longleftrightarrow> (case rc_deliveryState r of
       DELIVERY_REQUESTED \<Rightarrow> rc_deliveredAt r = None \<and> rc_acknowledgedAt r = None
     | DELIVERED \<Rightarrow> rc_deliveredAt r \<noteq> None \<and> rc_acknowledgedAt r = None
     | ACKNOWLEDGED \<Rightarrow> rc_deliveredAt r \<noteq> None \<and> rc_acknowledgedAt r \<noteq> None
     | _ \<Rightarrow> False)"

definition acks :: "string \<Rightarrow> string \<Rightarrow> field_db \<Rightarrow> ack_evidence list" where
  "acks messageId user db = filter (\<lambda>e. ae_messageId e = messageId \<and> ae_recipientUserId e = user) (ack_evidences db)"

definition message_ok :: "field_db \<Rightarrow> message_row \<Rightarrow> bool" where
  "message_ok db m \<longleftrightarrow> distinct (map rc_recipientUserId (ms_recipients m))
     \<and> (\<forall>r\<in>set (ms_recipients m). recipient_ok r
        \<and> length (acks (ms_id m) (rc_recipientUserId r) db) = (if rc_deliveryState r = ACKNOWLEDGED then 1 else 0))"

definition messages_ok :: "field_db \<Rightarrow> bool" where
  "messages_ok db \<longleftrightarrow> distinct (map ms_id (messages db)) \<and> distinct (map send_key (messages db))
     \<and> (\<forall>m\<in>set (messages db). message_ok db m)
     \<and> (\<forall>e\<in>set (ack_evidences db). \<exists>m\<in>set (messages db). ms_id m = ae_messageId e
          \<and> ae_recipientUserId e \<in> rc_recipientUserId ` set (ms_recipients m))"

lemma messages_ok_cong: "messages db' = messages db \<Longrightarrow> ack_evidences db' = ack_evidences db \<Longrightarrow>
    messages_ok db' = messages_ok db"
  by (simp add: messages_ok_def message_ok_def acks_def)

lemma send_repo_cases:
  obtains (sent) "ms_id m \<notin> ms_id ` set (messages db)" "send_key m \<notin> send_key ` set (messages db)"
      "fst (send_repo m db) = Inr m" "messages (snd (send_repo m db)) = messages db @ [m]"
      "ack_evidences (snd (send_repo m db)) = ack_evidences db"
  | (kept) "snd (send_repo m db) = db"
      "\<And>n. fst (send_repo m db) = Inr n \<Longrightarrow> n \<in> set (messages db) \<and> send_key n = send_key m"
proof (cases "list_ex (\<lambda>n. ms_id n = ms_id m \<or> send_key n = send_key m) (messages db)")
  case True
  then show ?thesis by (intro kept) (auto simp: send_repo_def find_Some_iff split: option.splits)
next
  case False
  then show ?thesis by (intro sent) (auto simp: send_repo_def list_ex_iff)
qed

lemma message_of_simps [simp]:
  "ms_id (message_of p siteId incidentId i newId now) = newId"
  "ms_recipients (message_of p siteId incidentId i newId now) = map (\<lambda>u. \<lparr>rc_recipientUserId = u,
     rc_deliveryState = DELIVERY_REQUESTED, rc_deliveredAt = None, rc_acknowledgedAt = None\<rparr>) (sd_recipient_user_ids i)"
  "send_key (message_of p siteId incidentId i newId now) =
     (pr_organisation_id p, incidentId, pr_user_id p, sd_idempotency_key i)"
  by (simp_all add: message_of_def send_key_def)

lemma messages_ok_sent:
  assumes "messages_ok db" "ms_id m \<notin> ms_id ` set (messages db)" "send_key m \<notin> send_key ` set (messages db)"
    "distinct (map rc_recipientUserId (ms_recipients m))"
    "\<forall>r\<in>set (ms_recipients m). recipient_ok r \<and> rc_deliveryState r \<noteq> ACKNOWLEDGED"
    "messages db' = messages db @ [m]" "ack_evidences db' = ack_evidences db"
  shows "messages_ok db'"
proof -
  have "ae_messageId e \<noteq> ms_id m" if "e \<in> set (ack_evidences db)" for e
    using assms(1,2) that unfolding messages_ok_def by (metis image_eqI)
  then have "acks (ms_id m) u db = []" for u by (auto simp: acks_def filter_empty_conv)
  then have "message_ok db' m" using assms(4,5,7) by (simp add: message_ok_def acks_def)
  with assms show ?thesis by (auto simp: messages_ok_def message_ok_def acks_def)
qed

lemma send_refusal_distinct:
  "send_refusal iso_string p siteId incidentId i at_ms db = None \<Longrightarrow> distinct (sd_recipient_user_ids i)"
  by (rule ccontr) (simp add: send_refusal_def Let_def length_js_set split: if_split_asm)

lemma messages_ok_send: "messages_ok db \<Longrightarrow> messages_ok (snd (send iso_string p scope incidentId i newId at_ms now db))"
proof (cases "resolveIncidentScope p scope incidentId db")
  case (Inr siteId)
  assume ok: "messages_ok db"
  show ?thesis
  proof (cases "send_refusal iso_string p siteId incidentId i at_ms db")
    case None
    then have d: "distinct (sd_recipient_user_ids i)" by (rule send_refusal_distinct)
    let ?m = "message_of p siteId incidentId i newId now"
    have "messages_ok (snd (send_repo ?m db))"
    proof (cases rule: send_repo_cases[of ?m db])
      case sent
      show ?thesis
      proof (rule messages_ok_sent[OF ok sent(1,2) _ _ sent(4,5)])
        show "distinct (map rc_recipientUserId (ms_recipients ?m))" using d by (simp add: o_def)
        show "\<forall>r\<in>set (ms_recipients ?m). recipient_ok r \<and> rc_deliveryState r \<noteq> ACKNOWLEDGED"
          by (simp add: recipient_ok_def)
      qed
    next
      case kept
      with ok show ?thesis by simp
    qed
    with Inr None show ?thesis by (auto simp: send_def split: prod.splits sum.splits)
  qed (use Inr ok in \<open>simp add: send_def\<close>)
qed (simp add: send_def)

lemma set_recipient_simps [simp]:
  "ms_id (set_recipient user f m) = ms_id m" "ms_organisationId (set_recipient user f m) = ms_organisationId m"
  "ms_incidentId (set_recipient user f m) = ms_incidentId m"
  "send_key (set_recipient user f m) = send_key m"
  "ms_recipients (set_recipient user f m) =
     map (\<lambda>r. if rc_recipientUserId r = user then f r else r) (ms_recipients m)"
  by (simp_all add: set_recipient_def send_key_def)

lemma in_replace_message:
  "n \<in> set (replace_message m ms) \<longleftrightarrow> (n \<in> set ms \<and> ms_id n \<noteq> ms_id m) \<or> (n = m \<and> ms_id m \<in> ms_id ` set ms)"
  by (induction ms) (auto simp: replace_message_def)

lemma map_replace_message:
  "\<forall>n\<in>set ms. ms_id n = ms_id m \<longrightarrow> f n = f m \<Longrightarrow> map f (replace_message m ms) = map f ms"
  by (induction ms) (auto simp: replace_message_def)

lemma same_message: "distinct (map ms_id ms) \<Longrightarrow> m \<in> set ms \<Longrightarrow> n \<in> set ms \<Longrightarrow> ms_id m = ms_id n \<Longrightarrow> m = n"
  by (simp add: distinct_map inj_on_def)

text \<open>Advancing the row of one recipient, with an acknowledgement row exactly when it is acknowledged.\<close>

lemma messages_ok_advance:
  assumes ok: "messages_ok db" and m: "m \<in> set (messages db)" and r: "r \<in> set (ms_recipients m)"
    and f: "\<And>x. rc_recipientUserId (f x) = rc_recipientUserId x" "recipient_ok (f r)"
    and state: "rc_deliveryState r \<noteq> ACKNOWLEDGED"
    and db': "messages db' = replace_message (set_recipient (rc_recipientUserId r) f m) (messages db)"
      "ack_evidences db' = ack_evidences db @ (if rc_deliveryState (f r) = ACKNOWLEDGED
         then [acknowledge_key (ms_id m) (rc_recipientUserId r) key] else [])"
  shows "messages_ok db'"
proof -
  let ?u = "rc_recipientUserId r" and ?m = "set_recipient (rc_recipientUserId r) f m"
  have ids: "distinct (map ms_id (messages db))" and mok: "message_ok db m"
    using ok m by (auto simp: messages_ok_def)
  have users: "map rc_recipientUserId (ms_recipients ?m) = map rc_recipientUserId (ms_recipients m)"
    by (simp add: f o_def)
  have only: "x = r" if "x \<in> set (ms_recipients m)" "rc_recipientUserId x = ?u" for x
    using mok r that by (auto simp: message_ok_def distinct_map dest: inj_onD)
  have acks': "acks i u db' = acks i u db @ (if rc_deliveryState (f r) = ACKNOWLEDGED \<and> i = ms_id m \<and> u = ?u
      then [acknowledge_key (ms_id m) ?u key] else [])" for i u
    by (simp add: acks_def db' acknowledge_key_def)
  have "message_ok db' ?m"
    unfolding message_ok_def users
  proof (intro conjI ballI)
    show "distinct (map rc_recipientUserId (ms_recipients m))" using mok by (simp add: message_ok_def)
    fix x assume "x \<in> set (ms_recipients ?m)"
    then obtain y where y: "y \<in> set (ms_recipients m)" "x = (if rc_recipientUserId y = ?u then f y else y)" by auto
    have "recipient_ok y \<and> length (acks (ms_id m) (rc_recipientUserId y) db) = (if rc_deliveryState y = ACKNOWLEDGED then 1 else 0)"
      using mok y(1) by (auto simp: message_ok_def)
    with y only[OF y(1)] f state show "recipient_ok x"
      and "length (acks (ms_id ?m) (rc_recipientUserId x) db') = (if rc_deliveryState x = ACKNOWLEDGED then 1 else 0)"
      by (auto simp: acks')
  qed
  moreover have "message_ok db' n" if "n \<in> set (messages db)" "ms_id n \<noteq> ms_id m" for n
    using ok that by (auto simp: messages_ok_def message_ok_def acks')
  ultimately have rows: "\<forall>n\<in>set (messages db'). message_ok db' n"
    by (auto simp: db' in_replace_message)
  have keys: "map send_key (messages db') = map send_key (messages db)" "map ms_id (messages db') = map ms_id (messages db)"
    unfolding db' by (intro map_replace_message ballI impI; use same_message[OF ids _ m] in force)+
  have "\<exists>n\<in>set (messages db'). ms_id n = ae_messageId e \<and> ae_recipientUserId e \<in> rc_recipientUserId ` set (ms_recipients n)"
    if e: "e \<in> set (ack_evidences db')" for e
  proof (cases "ae_messageId e = ms_id m")
    case True
    have "ae_recipientUserId e \<in> rc_recipientUserId ` set (ms_recipients m)"
    proof (cases "e \<in> set (ack_evidences db)")
      case old: True
      with ok obtain n where "n \<in> set (messages db)" "ms_id n = ae_messageId e"
        "ae_recipientUserId e \<in> rc_recipientUserId ` set (ms_recipients n)"
        unfolding messages_ok_def by blast
      with True same_message[OF ids _ m, of n] show ?thesis by simp
    next
      case False
      with e r show ?thesis by (auto simp: db' acknowledge_key_def split: if_splits)
    qed
    then have "ae_recipientUserId e \<in> set (map rc_recipientUserId (ms_recipients ?m))" unfolding users by simp
    with True m show ?thesis
      unfolding db' by (intro bexI[of _ ?m]) (auto simp: in_replace_message simp del: set_recipient_simps(5))
  next
    case False
    with e obtain n where "n \<in> set (messages db)" "ms_id n = ae_messageId e"
      "ae_recipientUserId e \<in> rc_recipientUserId ` set (ms_recipients n)"
      using ok by (auto simp: db' messages_ok_def acknowledge_key_def split: if_splits)
    with False show ?thesis unfolding db' by (intro bexI[of _ n]) (auto simp: in_replace_message)
  qed
  with rows keys ok show ?thesis by (simp add: messages_ok_def)
qed

abbreviation acked_row :: "int \<Rightarrow> recipient_row \<Rightarrow> recipient_row" where
  "acked_row at_ms r \<equiv> r\<lparr>rc_deliveryState := ACKNOWLEDGED, rc_acknowledgedAt := Some at_ms\<rparr>"

abbreviation delivered_row :: "int \<Rightarrow> recipient_row \<Rightarrow> recipient_row" where
  "delivered_row at_ms r \<equiv> r\<lparr>rc_deliveryState := DELIVERED, rc_deliveredAt := Some at_ms\<rparr>"

lemma acknowledge_cases:
  obtains (acked) m r where "m \<in> set (messages db)" "ms_id m = i" "ms_organisationId m = pr_organisation_id p"
      "r \<in> set (ms_recipients m)" "rc_recipientUserId r = pr_user_id p" "rc_deliveryState r = DELIVERED"
      "acknowledge_key i (pr_user_id p) key \<notin> set (ack_evidences db)"
      "fst (acknowledge p scope i key at_ms db) = Inr (set_recipient (pr_user_id p) (acked_row at_ms) m)"
      "messages (snd (acknowledge p scope i key at_ms db)) =
         replace_message (set_recipient (pr_user_id p) (acked_row at_ms) m) (messages db)"
      "ack_evidences (snd (acknowledge p scope i key at_ms db)) = ack_evidences db @ [acknowledge_key i (pr_user_id p) key]"
      "audit_log (snd (acknowledge p scope i key at_ms db)) = audit_log db"
  | (kept) "snd (acknowledge p scope i key at_ms db) = db"
proof (cases "snd (acknowledge p scope i key at_ms db) = db")
  case False
  let ?find = "List.find (\<lambda>m. ms_id m = i \<and> ms_organisationId m = pr_organisation_id p
    \<and> siteAllowed scope (ms_siteId m)) (messages db)"
  obtain m r where m: "?find = Some m" "List.find (\<lambda>r. rc_recipientUserId r = pr_user_id p) (ms_recipients m) = Some r"
    and r: "rc_deliveryState r = DELIVERED" and new: "acknowledge_key i (pr_user_id p) key \<notin> set (ack_evidences db)"
    using False by (auto simp: acknowledge_def acknowledge_repo_def Let_def ACKNOWLEDGE_REQUIRES_STATE_def
        split: option.splits if_splits)
  show ?thesis
    by (rule acked[of m r]; use m r new in \<open>simp add: acknowledge_def acknowledge_repo_def Let_def
        ACKNOWLEDGE_REQUIRES_STATE_def find_SomeD[OF m(1)] find_SomeD[OF m(2)]\<close>)
qed (rule kept)

lemma deliver_cases:
  obtains (delivered) m r where "m \<in> set (messages db)" "ms_id m = i"
      "r \<in> set (ms_recipients m)" "rc_recipientUserId r = user"
      "rc_deliveryState r \<noteq> DELIVERED" "canTransitionDelivery (rc_deliveryState r) DELIVERED"
      "messages (snd (recordTransportDelivery org incident i user at_ms db)) =
         replace_message (set_recipient user (delivered_row at_ms) m) (messages db)"
      "ack_evidences (snd (recordTransportDelivery org incident i user at_ms db)) = ack_evidences db"
      "audit_log (snd (recordTransportDelivery org incident i user at_ms db)) = audit_log db"
  | (kept) "snd (recordTransportDelivery org incident i user at_ms db) = db"
proof (cases "snd (recordTransportDelivery org incident i user at_ms db) = db")
  case False
  let ?find = "List.find (\<lambda>m. ms_id m = i \<and> ms_organisationId m = org \<and> ms_incidentId m = incident) (messages db)"
  obtain m r where m: "?find = Some m" "List.find (\<lambda>r. rc_recipientUserId r = user) (ms_recipients m) = Some r"
    and r: "rc_deliveryState r \<noteq> DELIVERED" "canTransitionDelivery (rc_deliveryState r) DELIVERED"
    using False by (auto simp: recordTransportDelivery_def split: option.splits if_splits)
  show ?thesis
    by (rule delivered[of m r]; use m r in \<open>simp add: recordTransportDelivery_def
        find_SomeD[OF m(1)] find_SomeD[OF m(2)]\<close>)
qed (rule kept)

lemma messages_ok_acknowledge:
  assumes ok: "messages_ok db"
  shows "messages_ok (snd (acknowledge p scope i key at_ms db))"
proof (cases rule: acknowledge_cases[of db i p key scope at_ms])
  case (acked m r)
  have "recipient_ok (acked_row at_ms r)"
    using ok acked(1,4,6) by (auto simp: messages_ok_def message_ok_def recipient_ok_def split: delivery_state.splits)
  with messages_ok_advance[where f = "acked_row at_ms" and key = key
      and db' = "snd (acknowledge p scope i key at_ms db)", OF ok acked(1,4)]
  show ?thesis using acked by simp
qed (use ok in simp)

lemma messages_ok_deliver:
  assumes ok: "messages_ok db"
  shows "messages_ok (snd (recordTransportDelivery org incident i user at_ms db))"
proof (cases rule: deliver_cases[of db i user org incident at_ms])
  case (delivered m r)
  have r: "recipient_ok r" using ok delivered(1,3) by (auto simp: messages_ok_def message_ok_def)
  with delivered(5,6) have requested: "rc_deliveryState r = DELIVERY_REQUESTED"
    by (cases "rc_deliveryState r") (auto simp: recipient_ok_def canTransitionDelivery_def)
  with r have "recipient_ok (delivered_row at_ms r)" by (simp add: recipient_ok_def)
  with messages_ok_advance[where f = "delivered_row at_ms"
      and db' = "snd (recordTransportDelivery org incident i user at_ms db)", OF ok delivered(1,3)]
  show ?thesis using delivered requested by simp
qed (use ok in simp)

end
