(* ===== verification/Field_Service.thy ===== *)
theory Field_Service
  imports Field_Assignments Field_States Field_Messaging
begin

text \<open>
  The field modules as one machine over the shared database: every handler that writes, and the
  changes other modules make to sites, users and incidents, which the handlers read. The machine
  keeps the three table invariants and only appends to the evidence, audit and outbox tables, an
  instance of \<open>forward_machine\<close>; the properties follow from the runs.
\<close>

subsection \<open>The operations\<close>

datatype field_op =
    Create_Assignment principal site_scope create_input string int
  | Move_Assignment principal site_scope string assignment_action assignment_status string int int
  | Record_State principal site_scope state_input int
  | Send_Message principal site_scope string send_input string int int
  | Acknowledge_Message principal site_scope string string int
  | Deliver_Message string string string string int
  | Change_Directory "(string \<times> string) list" "user_row list" "incident_row list"

fun field_step :: "(int \<Rightarrow> string) \<Rightarrow> field_op \<Rightarrow> field_db \<Rightarrow> field_db" where
  "field_step iso_string (Create_Assignment p scope i newId now) db = snd (createAssignment p scope i newId now db)"
| "field_step iso_string (Move_Assignment p scope i action expected key at_ms now) db =
     snd (transitionAssignment p scope i action expected key at_ms now db)"
| "field_step iso_string (Record_State p scope i t) db = snd (recordState p scope i t db)"
| "field_step iso_string (Send_Message p scope incident i newId at_ms now) db =
     snd (send iso_string p scope incident i newId at_ms now db)"
| "field_step iso_string (Acknowledge_Message p scope i key at_ms) db = snd (acknowledge p scope i key at_ms db)"
| "field_step iso_string (Deliver_Message org incident i user at_ms) db =
     snd (recordTransportDelivery org incident i user at_ms db)"
| "field_step iso_string (Change_Directory ss us ins) db = db\<lparr>sites := ss, users := us, incidents := ins\<rparr>"

definition empty_field_db :: field_db where
  "empty_field_db = \<lparr>sites = [], users = [], incidents = [], assignments = [], evidence = [], audit_log = [],
     outbox = [], state_idempotency = [], state_history = [], current_states = [], messages = [],
     ack_evidences = [], timeline = [], message_outbox = []\<rparr>"

definition field_ok :: "field_db \<Rightarrow> bool" where
  "field_ok db \<longleftrightarrow> assignments_ok db \<and> states_ok db \<and> messages_ok db"

lemma field_ok_empty: "field_ok empty_field_db"
  by (simp add: field_ok_def empty_field_db_def assignments_ok_def states_ok_def messages_ok_def moves_def map_filter_def)

subsection \<open>What each handler leaves alone\<close>

definition same_assignments :: "field_db \<Rightarrow> field_db \<Rightarrow> bool" where
  "same_assignments db db' \<longleftrightarrow> assignments db' = assignments db \<and> evidence db' = evidence db
     \<and> (\<forall>i. moves i db' = moves i db)"

definition same_states :: "field_db \<Rightarrow> field_db \<Rightarrow> bool" where
  "same_states db db' \<longleftrightarrow> state_idempotency db' = state_idempotency db \<and> state_history db' = state_history db
     \<and> current_states db' = current_states db"

definition same_messages :: "field_db \<Rightarrow> field_db \<Rightarrow> bool" where
  "same_messages db db' \<longleftrightarrow> messages db' = messages db \<and> ack_evidences db' = ack_evidences db"

lemmas frame_defs = same_assignments_def same_states_def same_messages_def

lemma frame_create: "same_states db (snd (createAssignment p scope i newId now db))"
    "same_messages db (snd (createAssignment p scope i newId now db))"
  by (cases rule: create_repo_cases[of newId db "pr_organisation_id p" i "pr_user_id p" now];
      simp add: createAssignment_def Let_def frame_defs creates_def split: option.splits)+

lemma frame_transition: "same_states db (snd (transitionAssignment p scope i action expected key at_ms now db))"
    "same_messages db (snd (transitionAssignment p scope i action expected key at_ms now db))"
  by (cases rule: transition_repo_cases[of "transition_input_of p scope i action expected key" at_ms now db];
      simp add: transition_service Let_def frame_defs)+

lemma frame_record: "same_assignments db (snd (recordState p scope i t db))"
    "same_messages db (snd (recordState p scope i t db))"
proof -
  let ?r = "state_row_of (pr_organisation_id p) (pr_user_id p) i t"
  have "same_assignments db (snd (recordState_repo ?r (si_idempotency_key i) db))
      \<and> same_messages db (snd (recordState_repo ?r (si_idempotency_key i) db))"
    by (cases rule: recordState_repo_cases[of ?r "si_idempotency_key i" db])
      (auto simp: frame_defs moves_def map_filter_def)
  then show "same_assignments db (snd (recordState p scope i t db))"
      "same_messages db (snd (recordState p scope i t db))"
    by (cases rule: recordState_cases[of p scope i t db]; simp add: frame_defs)+
qed

lemma frame_send: "same_assignments db (snd (send iso_string p scope incident i newId at_ms now db))"
    "same_states db (snd (send iso_string p scope incident i newId at_ms now db))"
  by (auto simp: send_def send_repo_def frame_defs moves_def split: prod.splits sum.splits option.splits if_splits)

lemma frame_acknowledge: "same_assignments db (snd (acknowledge p scope i key at_ms db))"
    "same_states db (snd (acknowledge p scope i key at_ms db))"
  by (auto simp: acknowledge_def acknowledge_repo_def Let_def frame_defs moves_def split: option.splits)

lemma frame_deliver: "same_assignments db (snd (recordTransportDelivery org incident i user at_ms db))"
    "same_states db (snd (recordTransportDelivery org incident i user at_ms db))"
  by (auto simp: recordTransportDelivery_def Let_def frame_defs moves_def split: option.splits)

lemma ok_frame: "same_assignments db db' \<Longrightarrow> assignments_ok db' = assignments_ok db"
    "same_states db db' \<Longrightarrow> states_ok db' = states_ok db"
    "same_messages db db' \<Longrightarrow> messages_ok db' = messages_ok db"
  by (simp_all add: frame_defs assignments_ok_cong[of db' db] states_ok_cong[of db' db] messages_ok_cong[of db' db])

lemma field_ok_step: "field_ok db \<Longrightarrow> field_ok (field_step iso_string x db)"
proof (cases x)
  case Change_Directory
  assume ok: "field_ok db"
  have "same_assignments db (field_step iso_string x db)" "same_states db (field_step iso_string x db)"
      "same_messages db (field_step iso_string x db)"
    by (simp_all add: Change_Directory frame_defs moves_def)
  with ok show ?thesis by (simp add: field_ok_def ok_frame[of db])
qed (simp_all add: field_ok_def assignments_ok_create assignments_ok_transition states_ok_recordState
    messages_ok_send messages_ok_acknowledge messages_ok_deliver
    ok_frame(2)[OF frame_create(1)] ok_frame(3)[OF frame_create(2)]
    ok_frame(2)[OF frame_transition(1)] ok_frame(3)[OF frame_transition(2)]
    ok_frame(1)[OF frame_record(1)] ok_frame(3)[OF frame_record(2)]
    ok_frame(1)[OF frame_send(1)] ok_frame(2)[OF frame_send(2)]
    ok_frame(1)[OF frame_acknowledge(1)] ok_frame(2)[OF frame_acknowledge(2)]
    ok_frame(1)[OF frame_deliver(1)] ok_frame(2)[OF frame_deliver(2)])

subsection \<open>What a run never takes back\<close>

text \<open>
  An assignment keeps its identity, its assignee and what it was created with; its history only
  grows. A message keeps its content and its named recipients. Evidence is never withdrawn.
\<close>

definition fixed_part :: "assignment \<Rightarrow> assignment" where
  "fixed_part a = a\<lparr>as_status := REQUESTED, as_deliveryState := DELIVERY_REQUESTED, as_acceptedAt := None,
     as_startedAt := None, as_completedAt := None, as_cancelledAt := None, as_declinedAt := None,
     as_updatedByUserId := [], as_acceptedByUserId := None, as_updatedAt := 0\<rparr>"

definition message_part :: "message_row \<Rightarrow> message_row \<times> string list" where
  "message_part m = (m\<lparr>ms_recipients := []\<rparr>, map rc_recipientUserId (ms_recipients m))"

definition grows :: "'a list \<Rightarrow> 'a list \<Rightarrow> bool" where
  "grows xs ys \<longleftrightarrow> (\<exists>zs. ys = xs @ zs)"

lemma grows_refl [simp]: "grows xs xs" "grows xs (xs @ zs)"
  by (simp_all add: grows_def)

lemma grows_trans: "grows xs ys \<Longrightarrow> grows ys zs \<Longrightarrow> grows xs zs"
  by (auto simp: grows_def)

lemma grows_subset: "grows xs ys \<Longrightarrow> set xs \<subseteq> set ys"
  by (auto simp: grows_def)

definition field_before :: "field_db \<Rightarrow> field_db \<Rightarrow> bool" where
  "field_before db db' \<longleftrightarrow> grows (map fixed_part (assignments db)) (map fixed_part (assignments db'))
     \<and> grows (evidence db) (evidence db') \<and> grows (audit_log db) (audit_log db')
     \<and> grows (state_idempotency db) (state_idempotency db') \<and> grows (state_history db) (state_history db')
     \<and> grows (map message_part (messages db)) (map message_part (messages db'))
     \<and> grows (ack_evidences db) (ack_evidences db')"

lemma fixed_part_moved: "fixed_part (moved_row t at_ms now a) = fixed_part a"
  by (cases "ti_action t") (simp_all add: fixed_part_def moved_row_def Let_def)

lemma map_fixed_replace: "\<forall>b\<in>set xs. as_id b = as_id a \<longrightarrow> fixed_part b = fixed_part a \<Longrightarrow>
    map fixed_part (replace_row a xs) = map fixed_part xs"
  by (induction xs) (auto simp: replace_row_def)

lemma audit_moved_db: "grows (audit_log db) (audit_log (moved_db t c u db))"
  by (simp add: moved_db_def Let_def)

lemma before_transition:
  assumes "assignments_ok db"
  shows "field_before db (snd (transitionAssignment p scope i action expected key at_ms now db))"
proof (cases rule: transition_repo_cases[of "transition_input_of p scope i action expected key" at_ms now db])
  case (moved c)
  then have c: "c \<in> set (assignments db)" by (auto simp: commits_move_def dest: find_SomeD)
  have ids: "distinct (map as_id (assignments db))" using assms by (simp add: assignments_ok_def)
  have "map fixed_part (replace_row (moved_row (transition_input_of p scope i action expected key) at_ms now c) (assignments db))
      = map fixed_part (assignments db)"
    by (intro map_fixed_replace ballI impI; use same_id[OF ids c] in \<open>force simp: fixed_part_moved\<close>)
  then show ?thesis
    unfolding transition_service moved(2) by (simp add: Let_def field_before_def audit_moved_db)
qed (simp add: transition_service Let_def field_before_def)

lemma before_create: "field_before db (snd (createAssignment p scope i newId now db))"
  by (cases rule: create_repo_cases[of newId db "pr_organisation_id p" i "pr_user_id p" now])
    (simp_all add: createAssignment_def Let_def field_before_def creates_def split: option.splits)

lemma before_record: "field_before db (snd (recordState p scope i t db))"
proof -
  let ?r = "state_row_of (pr_organisation_id p) (pr_user_id p) i t"
  have "field_before db (snd (recordState_repo ?r (si_idempotency_key i) db))"
    by (cases rule: recordState_repo_cases[of ?r "si_idempotency_key i" db]) (auto simp: field_before_def)
  then show ?thesis
    by (cases rule: recordState_cases[of p scope i t db]) (simp_all add: field_before_def)
qed

lemma before_send: "field_before db (snd (send iso_string p scope incident i newId at_ms now db))"
  by (auto simp: send_def send_repo_def field_before_def split: prod.splits sum.splits option.splits if_splits)

lemma message_part_set_recipient:
  assumes "\<And>x. rc_recipientUserId (f x) = rc_recipientUserId x"
  shows "message_part (set_recipient user f m) = message_part m"
  by (simp add: message_part_def set_recipient_def assms o_def)

lemma before_message_update:
  assumes "messages_ok db" "m \<in> set (messages db)" "\<And>x. rc_recipientUserId (f x) = rc_recipientUserId x"
    "messages db' = replace_message (set_recipient user f m) (messages db)"
    "grows (ack_evidences db) (ack_evidences db')" "same_assignments db db'" "same_states db db'"
    "audit_log db' = audit_log db"
  shows "field_before db db'"
proof -
  have ids: "distinct (map ms_id (messages db))" using assms(1) by (simp add: messages_ok_def)
  have "map message_part (messages db') = map message_part (messages db)"
    unfolding assms(4)
    by (intro map_replace_message ballI impI;
        use same_message[OF ids _ assms(2)] message_part_set_recipient[OF assms(3), of user m] in force)
  with assms(5-8) show ?thesis by (simp add: field_before_def frame_defs)
qed

lemma before_acknowledge: "messages_ok db \<Longrightarrow> field_before db (snd (acknowledge p scope i key at_ms db))"
proof (cases rule: acknowledge_cases[of db i p key scope at_ms])
  case (acked m r)
  assume "messages_ok db"
  from before_message_update[OF this acked(1) _ acked(9) _ frame_acknowledge acked(11)] acked(10)
  show ?thesis by simp
qed (simp add: field_before_def)

lemma before_deliver: "messages_ok db \<Longrightarrow> field_before db (snd (recordTransportDelivery org incident i user at_ms db))"
proof (cases rule: deliver_cases[of db i user org incident at_ms])
  case (delivered m r)
  assume "messages_ok db"
  from before_message_update[OF this delivered(1) _ delivered(7) _ frame_deliver delivered(9)] delivered(8)
  show ?thesis by simp
qed (simp add: field_before_def)

lemma field_before_step: "field_ok db \<Longrightarrow> field_before db (field_step iso_string x db)"
  by (cases x) (simp_all add: field_ok_def before_create before_transition before_record before_send
      before_acknowledge before_deliver, simp add: field_before_def)

lemma field_before_trans: "field_before a b \<Longrightarrow> field_before b c \<Longrightarrow> field_before a c"
  by (auto simp: field_before_def intro: grows_trans)

interpretation field: forward_machine field_ok "field_step iso_string" field_before for iso_string
  by unfold_locales
    (auto simp: field_ok_step field_before_step field_before_def[of a a for a] intro: field_before_trans)

subsection \<open>Histories\<close>

text \<open>No status leads back, so an assignment moves three times at most.\<close>

fun distance_to_end :: "assignment_status \<Rightarrow> nat" where
  "distance_to_end REQUESTED = 3"
| "distance_to_end ACCEPTED = 2"
| "distance_to_end IN_PROGRESS = 1"
| "distance_to_end _ = 0"

lemma transition_descends: "canTransitionFieldAssignmentStatus f g \<Longrightarrow> distance_to_end g < distance_to_end f"
  by (cases f) (auto simp: canTransitionFieldAssignmentStatus_def)

lemma lifecycle_bounded: "lifecycle s ms t \<Longrightarrow> length ms + distance_to_end t \<le> distance_to_end s"
  by (induction s ms t rule: lifecycle.induct) (auto dest: transition_descends)

lemma lifecycle_descends: "lifecycle s ms t \<Longrightarrow> m \<in> set ms \<Longrightarrow> distance_to_end (snd m) < distance_to_end s"
  by (induction s ms t rule: lifecycle.induct) (auto dest: transition_descends less_trans)

lemma lifecycle_distinct: "lifecycle s ms t \<Longrightarrow> distinct (map snd ms)"
  by (induction s ms t rule: lifecycle.induct) (auto dest: lifecycle_descends)

lemma field_runs_ok: "field_ok (fold (field_step iso_string) ops empty_field_db)"
  by (rule field.run_inv[OF field_ok_empty])

text \<open>
  C23: Assignment histories. In every state a run of the field modules reaches, from creation on,
  with the directory changing in between, the moves in an assignment's audit trail lead from
  REQUESTED to its status along the transition table; each has exactly one evidence row, of the
  action whose target it is; no action commits twice and at most three commit; and what the
  assignment was created with never changes.
\<close>

theorem field_runs_keep_history:
  assumes "db = fold (field_step iso_string) ops empty_field_db" "a \<in> set (assignments db)"
  shows "lifecycle REQUESTED (moves (as_id a) db) (as_status a)
    \<and> map snd (moves (as_id a) db) = map ACTION_TARGETS (evidenced (as_id a) db)
    \<and> distinct (evidenced (as_id a) db) \<and> length (evidenced (as_id a) db) \<le> 3
    \<and> (\<forall>more. fixed_part a \<in> fixed_part ` set (assignments (fold (field_step iso_string) more db)))"
proof -
  have ok: "field_ok db" unfolding assms(1) by (rule field_runs_ok)
  then have life: "lifecycle REQUESTED (moves (as_id a) db) (as_status a)"
    and ev: "map snd (moves (as_id a) db) = map ACTION_TARGETS (evidenced (as_id a) db)"
    using assms(2) by (auto simp: field_ok_def assignments_ok_def assignment_ok_def)
  have "distinct (map ACTION_TARGETS (evidenced (as_id a) db))"
    unfolding ev[symmetric] by (rule lifecycle_distinct[OF life])
  then have "distinct (evidenced (as_id a) db)" by (simp add: distinct_map)
  moreover have "length (evidenced (as_id a) db) \<le> 3"
    using lifecycle_bounded[OF life] arg_cong[OF ev, of length] by simp
  moreover have "fixed_part a \<in> fixed_part ` set (assignments (fold (field_step iso_string) more db))" for more
  proof -
    have "field_before db (fold (field_step iso_string) more db)" by (rule field.run_before[OF ok])
    then have "grows (map fixed_part (assignments db)) (map fixed_part (assignments (fold (field_step iso_string) more db)))"
      by (simp add: field_before_def)
    from grows_subset[OF this] assms(2) show ?thesis by auto
  qed
  ultimately show ?thesis using life ev by blast
qed

text \<open>A site with one operative and the commander who tasks them.\<close>

definition demo_operative :: principal where
  "demo_operative = \<lparr>pr_user_id = ''kim'', pr_clearance = 2, pr_organisation_id = ''acme'',
     pr_roles = [\<lparr>ra_role = ''field.operative'', ra_site_id = Some ''north''\<rparr>]\<rparr>"

definition demo_commander :: principal where
  "demo_commander = \<lparr>pr_user_id = ''ada'', pr_clearance = 3, pr_organisation_id = ''acme'',
     pr_roles = [\<lparr>ra_role = ''site.commander'', ra_site_id = Some ''north''\<rparr>]\<rparr>"

definition demo_scope :: site_scope where
  "demo_scope = \<lparr>orgWide = False, siteIds = [''north'']\<rparr>"

definition demo_directory :: field_op where
  "demo_directory = Change_Directory [(''acme'', ''north'')]
     [\<lparr>us_id = ''kim'', us_organisationId = ''acme'', us_roles = pr_roles demo_operative\<rparr>,
      \<lparr>us_id = ''ada'', us_organisationId = ''acme'', us_roles = pr_roles demo_commander\<rparr>]
     [\<lparr>in_id = ''i1'', in_organisationId = ''acme'', in_siteId = ''north''\<rparr>]"

definition demo_create :: "string \<Rightarrow> int option \<Rightarrow> field_op" where
  "demo_create summary expires = Create_Assignment demo_commander demo_scope \<lparr>ci_site_id = ''north'',
     ci_incident_id = Some ''i1'', ci_assignee_user_id = ''kim'', ci_assignment_type = ''CHECK'',
     ci_priority = ''SEV2'', ci_need_to_know_summary = summary, ci_expires_at = expires,
     ci_idempotency_key = ''create-1''\<rparr> ''a1'' 100"

definition demo_move :: "assignment_action \<Rightarrow> assignment_status \<Rightarrow> string \<Rightarrow> int \<Rightarrow> field_op" where
  "demo_move action expected key t = Move_Assignment demo_operative demo_scope ''a1'' action expected key t t"

definition demo_run :: "field_op list" where
  "demo_run = [demo_directory, demo_create ''look'' None, demo_move accept REQUESTED ''k1'' 110,
     demo_move accept REQUESTED ''k1'' 115, demo_move start ACCEPTED ''k2'' 120]"

lemma demo_run_assignments:
  "map (\<lambda>a. (as_id a, as_status a)) (assignments (fold (field_step (\<lambda>_. ''t'')) demo_run empty_field_db)) = [(''a1'', IN_PROGRESS)]
   \<and> evidenced ''a1'' (fold (field_step (\<lambda>_. ''t'')) demo_run empty_field_db) = [accept, start]"
  by code_simp

theorem field_runs_keep_history_witness:
  "\<exists>a\<in>set (assignments (fold (field_step (\<lambda>_. ''t'')) demo_run empty_field_db)).
     lifecycle REQUESTED (moves (as_id a) (fold (field_step (\<lambda>_. ''t'')) demo_run empty_field_db)) IN_PROGRESS"
proof -
  let ?db = "fold (field_step (\<lambda>_. ''t'')) demo_run empty_field_db"
  obtain a where "a \<in> set (assignments ?db)" "as_status a = IN_PROGRESS"
    using demo_run_assignments by (cases "assignments ?db") auto
  with field_runs_keep_history[OF refl, of a "\<lambda>_. ''t''" demo_run] show ?thesis by auto
qed

subsection \<open>Evidence\<close>

text \<open>
  C22: Evidence of a transition is its commit. A transition changes the database exactly when its
  conditions hold (visible in scope, by the assignee unless cancelled, unknown key, expected
  status, allowed move, contract kept); then there was no evidence before, the answer is the
  assignment at its target and one move is recorded; and after every call, refused and failed ones
  included, the probe of the key reports the action's target if this call committed, and what it
  reported before otherwise.
\<close>

theorem evidence_is_the_commit:
  assumes "assignments_ok db" "transitionAssignment p scope i action expected key at_ms now db = (r, db')"
  shows "(db' \<noteq> db \<longleftrightarrow> (\<exists>c. commits_move (transition_input_of p scope i action expected key) at_ms now db c))
    \<and> (db' \<noteq> db \<longrightarrow> probeTransitionEvidence p i action key db = None
         \<and> (\<exists>a. r = Inr a \<and> a \<in> set (assignments db') \<and> as_id a = i \<and> as_status a = ACTION_TARGETS action
              \<and> moves i db' = moves i db @ [(expected, ACTION_TARGETS action)]))
    \<and> probeTransitionEvidence p i action key db' =
        (if db' \<noteq> db then Some (ACTION_TARGETS action) else probeTransitionEvidence p i action key db)"
proof (cases rule: transition_repo_cases[of "transition_input_of p scope i action expected key" at_ms now db])
  case (moved c)
  let ?t = "transition_input_of p scope i action expected key"
  let ?u = "moved_row ?t at_ms now c"
  have eq: "r = Inr ?u" "db' = moved_db ?t c ?u db"
    using assms(2) by (simp_all add: transition_service Let_def moved)
  have find: "List.find (visible (pr_organisation_id p) i scope) (assignments db) = Some c"
    and c: "\<not> action_known action (as_id c) key db" "as_status c = expected"
    using moved(1) by (simp_all add: commits_move_def)
  have v: "c \<in> set (assignments db)" "as_id c = i" "as_organisationId c = pr_organisation_id p"
    using find_SomeD[OF find] by (auto simp: visible_def)
  have new: "db' \<noteq> db"
  proof
    assume "db' = db"
    then have "length (evidence db') = length (evidence db)" by simp
    then show False by (simp add: eq)
  qed
  have u: "?u \<in> set (assignments db')" using v by (auto simp: eq in_replace_row)
  have "probeTransitionEvidence p i action key db = None"
    using c v by (auto simp: probeTransitionEvidence_def findTransitionEvidence_def action_known_def list_ex_iff)
  moreover have "probeTransitionEvidence p i action key db' = Some (ACTION_TARGETS action)"
    using u v by (auto simp: probeTransitionEvidence_def findTransitionEvidence_def list_ex_iff eq(2) intro!: bexI[of _ ?u])
  ultimately show ?thesis
    using new moved(1) u v c(2) by (auto simp: eq moves_moved_db)
next
  case (kept r')
  with assms(2) show ?thesis by (auto simp: transition_service Let_def)
qed

text \<open>The directory of the example, with the assignment accepted.\<close>

definition demo_db :: "field_op list \<Rightarrow> field_db" where
  "demo_db ops = fold (field_step (\<lambda>_. ''t'')) ops empty_field_db"

lemma demo_db_ok: "field_ok (demo_db ops)"
  unfolding demo_db_def by (rule field_runs_ok)

theorem evidence_is_the_commit_witness:
  "probeTransitionEvidence demo_operative ''a1'' complete ''k3''
     (snd (transitionAssignment demo_operative demo_scope ''a1'' complete IN_PROGRESS ''k3'' 130 130 (demo_db demo_run)))
   = Some COMPLETED"
proof -
  let ?db = "demo_db demo_run"
  let ?t = "transitionAssignment demo_operative demo_scope ''a1'' complete IN_PROGRESS ''k3'' 130 130 ?db"
  have ok: "assignments_ok ?db" using demo_db_ok[of demo_run] by (simp add: field_ok_def)
  have "map as_status (assignments (snd ?t)) = [COMPLETED]" "map as_status (assignments ?db) = [IN_PROGRESS]"
    by code_simp+
  then have "snd ?t \<noteq> ?db" by auto
  with evidence_is_the_commit[OF ok, of demo_operative demo_scope "''a1''" complete IN_PROGRESS "''k3''" 130 130 "fst ?t" "snd ?t"]
  show ?thesis by simp
qed

subsection \<open>An assignment that nothing can move\<close>

text \<open>
  What the contract refuses and no transition repairs. The creation input is checked with looser
  bounds: the summary by its length in code units, the expiry not at all.
\<close>

definition unrepairable :: "assignment \<Rightarrow> bool" where
  "unrepairable a \<longleftrightarrow> MAX_SUMMARY_BYTES < utf8_length (as_needToKnowSummary a)
     \<or> (\<exists>e. as_expiresAt a = Some e \<and> e < as_createdAt a)"

lemma unrepairable_refused: "unrepairable a \<Longrightarrow> \<not> assertAssignmentContract a"
  by (auto simp: unrepairable_def assertAssignmentContract_def assignment_fields_ok_def assignment_times_ok_def not_before_def)

lemma unrepairable_fixed: "fixed_part a = fixed_part b \<Longrightarrow> unrepairable a = unrepairable b"
  by (cases a, cases b) (simp add: unrepairable_def fixed_part_def)

lemma unrepairable_moved [simp]: "unrepairable (moved_row t at_ms now a) = unrepairable a"
  by (simp add: unrepairable_def)

lemma unrepairable_stays_transition:
  assumes "a \<in> set (assignments db)" "unrepairable a" "assignments_ok db"
  shows "a \<in> set (assignments (snd (transitionAssignment p scope i action expected key at_ms now db)))"
proof (cases rule: transition_repo_cases[of "transition_input_of p scope i action expected key" at_ms now db])
  case (moved c)
  have "\<not> unrepairable c"
    using moved(1) unrepairable_refused by (fastforce simp: commits_move_def)
  moreover have "c \<in> set (assignments db)" using moved(1) by (auto simp: commits_move_def dest: find_SomeD)
  ultimately have "as_id a \<noteq> as_id c"
    using assms same_id[of "assignments db" a c] by (auto simp: assignments_ok_def)
  with assms(1) show ?thesis by (simp add: transition_service Let_def moved in_replace_row)
qed (use assms in \<open>simp add: transition_service Let_def\<close>)

lemma unrepairable_stays:
  assumes "a \<in> set (assignments db)" "unrepairable a" "field_ok db"
  shows "a \<in> set (assignments (field_step iso_string x db))"
proof (cases x)
  case (Create_Assignment p scope i newId now)
  with assms(1) show ?thesis
    by (cases rule: create_repo_cases[of newId db "pr_organisation_id p" i "pr_user_id p" now])
      (auto simp: createAssignment_def Let_def split: option.splits)
qed (use assms frame_record frame_send frame_acknowledge frame_deliver in
    \<open>simp_all add: field_ok_def unrepairable_stays_transition same_assignments_def\<close>)

lemma unrepairable_stays_run:
  assumes "a \<in> set (assignments db)" "unrepairable a" "field_ok db"
  shows "a \<in> set (assignments (fold (field_step iso_string) ops db))"
  using assms by (induction ops arbitrary: db) (auto simp: unrepairable_stays field_ok_step)

text \<open>
  C24: An assignment can be created that nothing can move. createAssignment bounds the summary by
  code units and the expiry not at all, and asserts the contract after its commit: with a summary
  of more bytes than the contract allows, or an expiry before the creation, the row is stored, the
  call throws an internal fault, and from then on no transition by anyone, cancel included, ever
  succeeds, since each asserts the same contract inside its transaction.
\<close>

theorem assignment_can_be_born_stuck:
  assumes "field_ok db" "createAssignment p scope i newId now db = (r, db')" "db' \<noteq> db"
    and "MAX_SUMMARY_BYTES < utf8_length (ci_need_to_know_summary i) \<or> (\<exists>e. ci_expires_at i = Some e \<and> e < now)"
  shows "r = Inl Fault \<and> (let row = created_row (pr_organisation_id p) (pr_user_id p) i newId now in
      row \<in> set (assignments db')
      \<and> (\<forall>ops. row \<in> set (assignments (fold (field_step iso_string) ops db')))
      \<and> (\<forall>q sc action expected key at_ms t ops a. fst (transitionAssignment q sc newId action expected key at_ms t
           (fold (field_step iso_string) ops db')) = Inr a \<longrightarrow> a = row))"
proof -
  let ?row = "created_row (pr_organisation_id p) (pr_user_id p) i newId now"
  have stuck: "unrepairable ?row" using assms(4) by (auto simp: unrepairable_def created_row_def)
  have r: "r = Inl Fault" and row: "?row \<in> set (assignments db')"
    using assms(2,3) unrepairable_refused[OF stuck]
    by (cases rule: create_repo_cases[of newId db "pr_organisation_id p" i "pr_user_id p" now];
        auto simp: createAssignment_def Let_def split: if_splits)+
  have ok: "field_ok db'" using field_ok_step[OF assms(1), of "\<lambda>_. []" "Create_Assignment p scope i newId now"] assms(2) by simp
  have stays: "?row \<in> set (assignments (fold (field_step iso_string) ops db'))" for ops
    by (rule unrepairable_stays_run[OF row stuck ok])
  have "a = ?row" if "fst (transitionAssignment q sc newId action expected key at_ms t
      (fold (field_step iso_string) ops db')) = Inr a" for q sc action expected key at_ms t ops a
  proof -
    let ?db = "fold (field_step iso_string) ops db'" and ?t = "transition_input_of q sc newId action expected key"
    have okd: "assignments_ok ?db" using field.run_inv[OF ok] by (simp add: field_ok_def)
    then have only: "c = ?row" if "c \<in> set (assignments ?db)" "as_id c = newId" for c
      using same_id[of "assignments ?db" c ?row] stays that by (simp add: assignments_ok_def)
    show ?thesis
    proof (cases rule: transition_repo_cases[of ?t at_ms t ?db])
      case (moved c)
      then have f: "List.find (visible (pr_organisation_id q) newId sc) (assignments ?db) = Some c"
        by (simp add: commits_move_def)
      have "c = ?row" using find_SomeD[OF f] by (intro only) (auto simp: visible_def)
      then have "\<not> assertAssignmentContract (moved_row ?t at_ms t c)"
        using stuck by (intro unrepairable_refused) simp
      with moved(1) show ?thesis by (simp add: commits_move_def)
    next
      case (kept r')
      with that obtain res where res: "r' = Inr res" "mapTransitionResult res = Inr a"
        by (auto simp: transition_service Let_def)
      with kept obtain c where f: "List.find (visible (pr_organisation_id q) newId sc) (assignments ?db) = Some c" "a = c"
        by (auto simp: transitionAssignment_repo_def Let_def split: option.splits if_splits)
      show ?thesis using find_SomeD[OF f(1)] f(2) by (intro only) (auto simp: visible_def)
    qed
  qed
  with r row stays show ?thesis by (simp add: Let_def)
qed

definition demo_expired :: create_input where
  "demo_expired = \<lparr>ci_site_id = ''north'', ci_incident_id = Some ''i1'', ci_assignee_user_id = ''kim'',
     ci_assignment_type = ''CHECK'', ci_priority = ''SEV2'', ci_need_to_know_summary = ''look'',
     ci_expires_at = Some 50, ci_idempotency_key = ''create-1''\<rparr>"

theorem assignment_can_be_born_stuck_witness:
  "\<exists>row. as_status row = REQUESTED \<and> (\<forall>ops. row \<in> set (assignments (fold (field_step (\<lambda>_. ''t'')) ops
     (snd (createAssignment demo_commander demo_scope demo_expired ''a1'' 100 (demo_db [demo_directory]))))))"
proof -
  let ?db = "demo_db [demo_directory]"
  let ?c = "createAssignment demo_commander demo_scope demo_expired ''a1'' 100 ?db"
  have "length (assignments (snd ?c)) = 1" "length (assignments ?db) = 0" by code_simp+
  then have new: "snd ?c \<noteq> ?db" by auto
  have "\<exists>e. ci_expires_at demo_expired = Some e \<and> e < 100" by (simp add: demo_expired_def)
  then show ?thesis
    using assignment_can_be_born_stuck[OF demo_db_ok prod.collapse[symmetric] new, of "\<lambda>_. ''t''"]
    by (auto simp: Let_def intro!: exI[of _ "created_row (pr_organisation_id demo_commander) (pr_user_id demo_commander) demo_expired ''a1'' 100"])
qed

subsection \<open>Messages\<close>

text \<open>
  C25: Acknowledged after delivery, once. In every reachable state each recipient row of a message
  is either requested, delivered with its delivery instant, or acknowledged with both instants and
  exactly one acknowledgement row; so no acknowledgement precedes or replaces the transport's
  evidence. One message exists per sender, incident and key, and its content and recipients never
  change.
\<close>

theorem acknowledged_after_delivery_once:
  assumes "db = fold (field_step iso_string) ops empty_field_db" "m \<in> set (messages db)" "r \<in> set (ms_recipients m)"
  shows "recipient_ok r
    \<and> length (acks (ms_id m) (rc_recipientUserId r) db) = (if rc_deliveryState r = ACKNOWLEDGED then 1 else 0)
    \<and> filter (\<lambda>n. send_key n = send_key m) (messages db) = [m]
    \<and> (\<forall>more. message_part m \<in> message_part ` set (messages (fold (field_step iso_string) more db)))"
proof -
  have ok: "field_ok db" unfolding assms(1) by (rule field_runs_ok)
  then have keys: "distinct (map send_key (messages db))"
    and row: "recipient_ok r" "length (acks (ms_id m) (rc_recipientUserId r) db) = (if rc_deliveryState r = ACKNOWLEDGED then 1 else 0)"
    using assms(2,3) by (auto simp: field_ok_def messages_ok_def message_ok_def)
  have "filter (\<lambda>n. f n = f m) ms = [m]" if "distinct (map f ms)" "m \<in> set ms" for f :: "message_row \<Rightarrow> 'a" and ms
    using that by (induction ms) (auto simp: filter_empty_conv image_iff)
  from this[OF keys assms(2)] have one: "filter (\<lambda>n. send_key n = send_key m) (messages db) = [m]" .
  have "message_part m \<in> message_part ` set (messages (fold (field_step iso_string) more db))" for more
  proof -
    have "field_before db (fold (field_step iso_string) more db)" by (rule field.run_before[OF ok])
    then have "grows (map message_part (messages db)) (map message_part (messages (fold (field_step iso_string) more db)))"
      by (simp add: field_before_def)
    from grows_subset[OF this] assms(2) show ?thesis by auto
  qed
  with row one show ?thesis by blast
qed

definition demo_send :: field_op where
  "demo_send = Send_Message demo_commander demo_scope ''i1'' \<lparr>sd_recipient_user_ids = [''kim''], sd_body = Some ''go'',
     sd_media_refs = [], sd_retention_class = ''SHORT'', sd_expires_at = None, sd_idempotency_key = ''s1'',
     sd_trace_id = ''t1''\<rparr> ''m1'' 130 130"

definition demo_message_run :: "field_op list" where
  "demo_message_run = demo_run @ [demo_send, Acknowledge_Message demo_operative demo_scope ''m1'' ''q1'' 131,
     Deliver_Message ''acme'' ''i1'' ''m1'' ''kim'' 132, Acknowledge_Message demo_operative demo_scope ''m1'' ''q2'' 133]"

lemma demo_message_run_rows: "map (\<lambda>m. map (\<lambda>r. (rc_deliveryState r, rc_deliveredAt r)) (ms_recipients m))
    (messages (demo_db demo_message_run)) = [[(ACKNOWLEDGED, Some 132)]]"
  by code_simp

theorem acknowledged_after_delivery_once_witness:
  "\<exists>m\<in>set (messages (demo_db demo_message_run)). \<exists>r\<in>set (ms_recipients m).
     length (acks (ms_id m) (rc_recipientUserId r) (demo_db demo_message_run)) = 1"
proof -
  obtain m r where "m \<in> set (messages (demo_db demo_message_run))" "r \<in> set (ms_recipients m)" "rc_deliveryState r = ACKNOWLEDGED"
    using demo_message_run_rows by (auto simp: map_eq_Cons_conv)
  with acknowledged_after_delivery_once[OF demo_db_def, of m demo_message_run r] show ?thesis by auto
qed

subsection \<open>Operative states\<close>

lemma known_state_found:
  assumes "states_ok db" "state_identity row key \<in> set (state_idempotency db)"
  shows "\<exists>c. List.find (same_operative row) (current_states db) = Some c"
proof -
  have "origin row \<in> set (map (\<lambda>(g, s, u, d, k). (g, s, u, d)) (state_idempotency db))"
    using assms(2) by (force simp: state_identity_def origin_def)
  then have "origin row \<in> set (map origin (state_history db))"
    using assms(1) unfolding states_ok_def by (simp only:)
  then obtain h where "h \<in> set (state_history db)" "origin h = origin row" by auto
  then have "h \<in> set (state_history db)" "operative h = operative row" by (simp_all add: origin_def operative_def)
  then have "operative row \<in> operative ` set (current_states db)"
    using assms(1) by (metis image_eqI states_ok_def)
  then show ?thesis
    by (cases "List.find (same_operative row) (current_states db)") (auto simp: find_None_iff same_operative_iff)
qed

lemma upsert_only: "distinct (map operative cs) \<Longrightarrow> filter (\<lambda>c. operative c = operative row) (upsert_state row cs) = [row]"
  by (induction cs) (auto simp: upsert_state_def same_operative_iff filter_empty_conv image_iff)

text \<open>
  An operative state is recorded once. An admitted state update under a known identity writes
  nothing and answers the operative's current row; under a new one it appends one history row,
  makes it the only current row of the operative whatever its source_at, and is found by the
  probe; but if the client's freshness or the age of the sample is 2^31 ms or more the 32-bit
  column refuses it and the answer is an internal fault.
\<close>

theorem state_update_exact:
  assumes "states_ok db" "recordState p scope i t db = (r, db')"
    and "row = state_row_of (pr_organisation_id p) (pr_user_id p) i t"
    and "siteAllowed scope (si_site_id i)" "siteExistsInOrganisation (pr_organisation_id p) (si_site_id i) db"
      "validateStateContract row"
  shows "if probeStateEvidence p (si_site_id i) (si_device_id i) (si_idempotency_key i) db
    then db' = db \<and> (\<exists>c\<in>set (current_states db). r = Inr c \<and> operative c = operative row)
    else if 2 ^ 31 \<le> si_freshness_ms i \<or> 2 ^ 31 \<le> t - si_source_at i then db' = db \<and> r = Inl Fault
    else r = Inr row \<and> state_history db' = state_history db @ [row]
      \<and> filter (\<lambda>c. operative c = operative row) (current_states db') = [row]
      \<and> probeStateEvidence p (si_site_id i) (si_device_id i) (si_idempotency_key i) db'"
proof -
  let ?key = "si_idempotency_key i"
  have eq: "r = map_sum (\<lambda>e. e) fst (fst (recordState_repo row ?key db))" "db' = snd (recordState_repo row ?key db)"
    using assms(2-6) by (auto simp: recordState_def Let_def split: prod.splits sum.splits)
  have probe: "probeStateEvidence p (si_site_id i) (si_device_id i) ?key d \<longleftrightarrow> state_identity row ?key \<in> set (state_idempotency d)" for d
    by (simp add: probeStateEvidence_def findStateEvidence_def state_identity_def assms(3) state_row_of_def)
  have fits: "\<not> fits_int4 (st_clientFreshnessMs row) \<or> \<not> fits_int4 (st_authoritativeFreshnessMs row)
      \<longleftrightarrow> 2 ^ 31 \<le> si_freshness_ms i \<or> 2 ^ 31 \<le> t - si_source_at i"
    using assms(6) by (auto simp: assms(3) state_row_of_def fits_int4_def validateStateContract_def)
  show ?thesis
  proof (cases "state_identity row ?key \<in> set (state_idempotency db)")
    case True
    from known_state_found[OF assms(1) this] obtain c where "List.find (same_operative row) (current_states db) = Some c" by blast
    with True show ?thesis
      using find_SomeD[of "same_operative row"] by (auto simp: probe eq recordState_repo_def same_operative_iff)
  next
    case new: False
    show ?thesis
    proof (cases "2 ^ 31 \<le> si_freshness_ms i \<or> 2 ^ 31 \<le> t - si_source_at i")
      case True
      with new fits show ?thesis by (simp add: probe eq recordState_repo_def)
    next
      case False
      with new fits have run: "recordState_repo row ?key db = (Inr (row, True), db')"
        by (simp add: eq(2) recordState_repo_def)
      have "distinct (map operative (current_states db))" using assms(1) by (simp add: states_ok_def)
      from upsert_only[OF this, of row] have "filter (\<lambda>c. operative c = operative row) (current_states db') = [row]"
        using new fits False by (simp add: eq(2) recordState_repo_def)
      moreover have "state_history db' = state_history db @ [row]" "probeStateEvidence p (si_site_id i) (si_device_id i) ?key db'"
        using new fits False by (simp_all add: probe eq(2) recordState_repo_def)
      ultimately show ?thesis using new False eq(1) run by (simp add: probe)
    qed
  qed
qed

definition demo_state :: "int \<Rightarrow> state_input" where
  "demo_state source = \<lparr>si_site_id = ''north'', si_device_id = ''d1'', si_state = ''PATROL'', si_location = None,
     si_source_at = source, si_freshness_ms = 5, si_idempotency_key = ''p1'', si_trace_id = ''t1''\<rparr>"

theorem state_update_exact_witness:
  "fst (recordState demo_operative demo_scope (demo_state 10) 3000000000 (demo_db [demo_directory])) = Inl Fault"
proof -
  let ?db = "demo_db [demo_directory]"
  have ok: "states_ok ?db" using demo_db_ok[of "[demo_directory]"] by (simp add: field_ok_def)
  have "siteAllowed demo_scope ''north''" "siteExistsInOrganisation ''acme'' ''north'' ?db"
      "validateStateContract (state_row_of ''acme'' ''kim'' (demo_state 10) 3000000000)"
      "\<not> probeStateEvidence demo_operative ''north'' ''d1'' ''p1'' ?db"
    by code_simp+
  then show ?thesis
    using state_update_exact[OF ok prod.collapse[symmetric] refl, of demo_scope "demo_state 10" demo_operative 3000000000]
    by (simp add: demo_state_def demo_operative_def)
qed

end
