(* ===== verification/Offline_Operation.thy ===== *)
theory Offline_Operation
  imports Field_Service Offline_Ingress
begin

text \<open>
  The contract of the offline replay (packages/contracts/src/field-offline.ts): the six admitted
  operations with their payloads as \<open>FieldOfflineOperationV2Schema\<close> reads them, the classification of
  a queue position, the canonical semantic request with its fingerprint, and the idempotency key
  the executor derives for the domain. An optional nullable property is \<open>None\<close> when absent and
  \<open>Some None\<close> when null: the two are different requests.
\<close>

subsection \<open>Payloads\<close>

record send_payload =
  sp_incident_id :: string
  sp_recipient_user_ids :: "string list"
  sp_body :: "string option option"
  sp_media_refs :: "string list option"
  sp_retention_class :: string
  sp_expires_at :: "string option option"

datatype payload = Transition_Payload string assignment_status | Send_Payload send_payload
  | Acknowledge_Payload string

definition send_payload_ok :: "platform \<Rightarrow> send_payload \<Rightarrow> bool" where
  "send_payload_ok pl p \<longleftrightarrow> uuid_format pl (sp_incident_id p)
     \<and> list_all scopedId (sp_recipient_user_ids p) \<and> 1 \<le> length (sp_recipient_user_ids p)
     \<and> length (sp_recipient_user_ids p) \<le> 128
     \<and> (\<forall>b\<in>set_option (sp_body p). \<forall>t\<in>set_option b. 1 \<le> length t)
     \<and> (\<forall>ms\<in>set_option (sp_media_refs p). list_all (bounded_text 512) ms
          \<and> length ms \<le> MAX_INCIDENT_FIELD_MESSAGE_MEDIA_REFS)
     \<and> bounded_text 128 (sp_retention_class p)
     \<and> (\<forall>e\<in>set_option (sp_expires_at p). \<forall>t\<in>set_option e. datetime_format pl t)
     \<and> length (js_set (sp_recipient_user_ids p)) = length (sp_recipient_user_ids p)
     \<and> \<not> (Option.bind (sp_body p) id = None \<and> (case sp_media_refs p of None \<Rightarrow> True | Some ms \<Rightarrow> ms = []))
     \<and> (\<forall>b\<in>set_option (Option.bind (sp_body p) id). utf8_length b \<le> MAX_INCIDENT_FIELD_MESSAGE_BODY_BYTES)"

text \<open>The payload schema a kind selects.\<close>

fun payload_ok :: "platform \<Rightarrow> operation_kind \<Rightarrow> payload \<Rightarrow> bool" where
  "payload_ok pl INCIDENT_FIELD_MESSAGE_SEND (Send_Payload p) \<longleftrightarrow> send_payload_ok pl p"
| "payload_ok pl INCIDENT_FIELD_MESSAGE_ACKNOWLEDGE (Acknowledge_Payload m) \<longleftrightarrow> uuid_format pl m"
| "payload_ok pl k (Transition_Payload a s) \<longleftrightarrow> k \<notin> {INCIDENT_FIELD_MESSAGE_SEND, INCIDENT_FIELD_MESSAGE_ACKNOWLEDGE}
     \<and> uuid_format pl a"
| "payload_ok pl k _ \<longleftrightarrow> False"

record offline_operation =
  fo_offline_operation_id :: string
  fo_organisation_id :: string
  fo_site_id :: string
  fo_device_id :: string
  fo_device_sequence :: int
  fo_idempotency_key :: string
  fo_created_at :: string
  fo_trace_id :: string
  fo_operation_kind :: operation_kind
  fo_payload :: payload

definition operation_ok :: "platform \<Rightarrow> offline_operation \<Rightarrow> bool" where
  "operation_ok pl o' \<longleftrightarrow> uuid_format pl (fo_offline_operation_id o') \<and> scopedId (fo_organisation_id o')
     \<and> scopedId (fo_site_id o') \<and> scopedId (fo_device_id o') \<and> deviceSequence (fo_device_sequence o')
     \<and> scopedId (fo_idempotency_key o') \<and> datetime_format pl (fo_created_at o') \<and> scopedId (fo_trace_id o')
     \<and> payload_ok pl (fo_operation_kind o') (fo_payload o')"

subsection \<open>Reading the wire\<close>

definition payload_json :: "payload \<Rightarrow> json" where
  "payload_json p = (case p of
     Transition_Payload a s \<Rightarrow> JObj [(''assignment_id'', JStr a), (''expected_status'', JStr (status_name s))]
   | Send_Payload q \<Rightarrow> JObj ([(''incident_id'', JStr (sp_incident_id q)),
         (''recipient_user_ids'', JArr (map JStr (sp_recipient_user_ids q)))]
       @ (case sp_body q of None \<Rightarrow> [] | Some b \<Rightarrow> [(''body'', opt_json JStr b)])
       @ (case sp_media_refs q of None \<Rightarrow> [] | Some ms \<Rightarrow> [(''media_refs'', JArr (map JStr ms))])
       @ [(''retention_class'', JStr (sp_retention_class q))]
       @ (case sp_expires_at q of None \<Rightarrow> [] | Some e \<Rightarrow> [(''expires_at'', opt_json JStr e)]))
   | Acknowledge_Payload m \<Rightarrow> JObj [(''message_id'', JStr m)])"

definition operation_json :: "offline_operation \<Rightarrow> json" where
  "operation_json o' = JObj [(''schema_version'', JInt 2),
     (''offline_operation_id'', JStr (fo_offline_operation_id o')),
     (''organisation_id'', JStr (fo_organisation_id o')), (''site_id'', JStr (fo_site_id o')),
     (''device_id'', JStr (fo_device_id o')), (''device_sequence'', JInt (fo_device_sequence o')),
     (''idempotency_key'', JStr (fo_idempotency_key o')), (''created_at'', JStr (fo_created_at o')),
     (''trace_id'', JStr (fo_trace_id o')), (''operation_kind'', JStr (kind_name (fo_operation_kind o'))),
     (''payload'', payload_json (fo_payload o'))]"

definition status_of_name :: "string \<Rightarrow> assignment_status option" where
  "status_of_name s = map_of (map (\<lambda>t. (status_name t, t))
     [REQUESTED, ACCEPTED, DECLINED, IN_PROGRESS, COMPLETED, CANCELLED, assignment_status.EXPIRED]) s"

fun as_strings :: "json option \<Rightarrow> string list option" where
  "as_strings (Some (JArr vs)) = (if \<forall>v\<in>set vs. as_string (Some v) \<noteq> None
     then Some (map (\<lambda>v. the (as_string (Some v))) vs) else None)"
| "as_strings _ = None"

text \<open>An optional property: absent, or what its schema reads.\<close>

definition optional :: "(json option \<Rightarrow> 'a option) \<Rightarrow> json option \<Rightarrow> 'a option option" where
  "optional f j = (case j of None \<Rightarrow> Some None | Some v \<Rightarrow> map_option Some (f (Some v)))"

fun read_payload :: "operation_kind \<Rightarrow> json option \<Rightarrow> payload option" where
  "read_payload INCIDENT_FIELD_MESSAGE_SEND (Some (JObj kvs)) =
     (if strict [''incident_id'', ''recipient_user_ids'', ''body'', ''media_refs'', ''retention_class'', ''expires_at''] kvs
      then (case (as_string (map_of kvs ''incident_id''), as_strings (map_of kvs ''recipient_user_ids''),
              optional (nullable as_string) (map_of kvs ''body''), optional as_strings (map_of kvs ''media_refs''),
              as_string (map_of kvs ''retention_class''), optional (nullable as_string) (map_of kvs ''expires_at'')) of
          (Some i, Some rs, Some b, Some ms, Some rc, Some e) \<Rightarrow>
            Some (Send_Payload \<lparr>sp_incident_id = i, sp_recipient_user_ids = rs, sp_body = b, sp_media_refs = ms,
              sp_retention_class = rc, sp_expires_at = e\<rparr>)
        | _ \<Rightarrow> None)
      else None)"
| "read_payload INCIDENT_FIELD_MESSAGE_ACKNOWLEDGE (Some (JObj kvs)) =
     (if strict [''message_id''] kvs then map_option Acknowledge_Payload (as_string (map_of kvs ''message_id'')) else None)"
| "read_payload _ (Some (JObj kvs)) =
     (if strict [''assignment_id'', ''expected_status''] kvs
      then (case (as_string (map_of kvs ''assignment_id''),
              Option.bind (as_string (map_of kvs ''expected_status'')) status_of_name) of
          (Some a, Some s) \<Rightarrow> Some (Transition_Payload a s) | _ \<Rightarrow> None)
      else None)"
| "read_payload _ _ = None"

definition operation_keys :: "string list" where
  "operation_keys = [''schema_version'', ''offline_operation_id'', ''organisation_id'', ''site_id'', ''device_id'',
     ''device_sequence'', ''idempotency_key'', ''created_at'', ''trace_id'', ''operation_kind'', ''payload'']"

text \<open>\<open>FieldOfflineOperationV2Schema.safeParse\<close>.\<close>

fun parse_operation :: "platform \<Rightarrow> json \<Rightarrow> offline_operation option" where
  "parse_operation pl (JObj kvs) =
     (if strict operation_keys kvs \<and> as_int (map_of kvs ''schema_version'') = Some 2 then
       (case (as_string (map_of kvs ''offline_operation_id''), as_string (map_of kvs ''organisation_id''),
              as_string (map_of kvs ''site_id''), as_string (map_of kvs ''device_id''),
              as_int (map_of kvs ''device_sequence''), as_string (map_of kvs ''idempotency_key''),
              as_string (map_of kvs ''created_at''), as_string (map_of kvs ''trace_id''),
              Option.bind (as_string (map_of kvs ''operation_kind''))
                (\<lambda>n. Option.bind (kind_of_name n) (\<lambda>k. map_option (Pair k) (read_payload k (map_of kvs ''payload''))))) of
          (Some i, Some org, Some site, Some dev, Some sq, Some key, Some created, Some trace, Some (k, p)) \<Rightarrow>
            let o' = \<lparr>fo_offline_operation_id = i, fo_organisation_id = org, fo_site_id = site, fo_device_id = dev,
              fo_device_sequence = sq, fo_idempotency_key = key, fo_created_at = created, fo_trace_id = trace,
              fo_operation_kind = k, fo_payload = p\<rparr>
            in if operation_ok pl o' then Some o' else None
        | _ \<Rightarrow> None)
      else None)"
| "parse_operation pl _ = None"

lemma status_of_name_name [simp]: "status_of_name (status_name s) = Some s"
  by (cases s) (simp_all add: status_of_name_def)

lemma as_strings_strs [simp]: "as_strings (Some (JArr (map JStr xs))) = Some xs"
  by (simp add: o_def)

lemma optional_simps [simp]: "optional f None = Some None"
    "optional f (Some v) = map_option Some (f (Some v))"
  by (simp_all add: optional_def)

lemma read_payload_json: "payload_ok pl k p \<Longrightarrow> read_payload k (Some (payload_json p)) = Some p"
proof (cases p)
  case (Send_Payload q)
  assume "payload_ok pl k p"
  then have "k = INCIDENT_FIELD_MESSAGE_SEND" using Send_Payload by (cases k) simp_all
  then show ?thesis
    unfolding Send_Payload payload_json_def
    by (cases "sp_body q"; cases "sp_media_refs q"; cases "sp_expires_at q")
      (simp_all add: strict_def o_def)
qed (cases k; simp add: payload_json_def strict_def)+

lemma parse_operation_json: "operation_ok pl o' \<Longrightarrow> parse_operation pl (operation_json o') = Some o'"
proof -
  assume ok: "operation_ok pl o'"
  then have "read_payload (fo_operation_kind o') (Some (payload_json (fo_payload o'))) = Some (fo_payload o')"
    by (intro read_payload_json[of pl]) (simp add: operation_ok_def)
  with ok show ?thesis
    by (cases o') (simp add: operation_json_def strict_def operation_keys_def)
qed

lemma parse_operation_ok: "parse_operation pl j = Some o' \<Longrightarrow> operation_ok pl o'"
  by (cases "(pl, j)" rule: parse_operation.cases) (auto simp: Let_def split: if_splits option.splits prod.splits)

subsection \<open>Queue positions\<close>

definition OFFLINE_SEQUENCE_START :: int where
  "OFFLINE_SEQUENCE_START = 0"

text \<open>\<open>None\<close> is an exhausted namespace.\<close>

definition nextExpectedOfflineSequence :: "int option \<Rightarrow> int option" where
  "nextExpectedOfflineSequence lastFinalized = (case lastFinalized of None \<Rightarrow> Some OFFLINE_SEQUENCE_START
     | Some n \<Rightarrow> if MAX_OFFLINE_DEVICE_SEQUENCE \<le> n then None else Some (n + 1))"

datatype sequence_class = FRESH | SEQUENCE_GAP | REPLAY | SEQUENCE_REUSED | SEQUENCE_STALE

text \<open>The receipt at the position: absent, or whether it holds the same semantic request.\<close>

definition classifyOfflineSequence :: "int option \<Rightarrow> int \<Rightarrow> bool option \<Rightarrow> sequence_class" where
  "classifyOfflineSequence lastFinalized incoming receipt =
     (let byReceipt = (case receipt of Some same \<Rightarrow> if same then REPLAY else SEQUENCE_REUSED | None \<Rightarrow> SEQUENCE_STALE)
      in case nextExpectedOfflineSequence lastFinalized of
        Some n \<Rightarrow> if incoming = n then FRESH else if n < incoming then SEQUENCE_GAP else byReceipt
      | None \<Rightarrow> byReceipt)"

subsection \<open>The semantic request\<close>

record replay_namespace =
  ns_organisation_id :: string
  ns_site_id :: string
  ns_user_id :: string
  ns_device_id :: string

definition canonicalOfflineJson :: "json \<Rightarrow> string" where
  "canonicalOfflineJson v = json_stringify (sort_keys_deep v)"

definition normalise_payload :: "payload \<Rightarrow> payload" where
  "normalise_payload p = (case p of
     Send_Payload q \<Rightarrow> Send_Payload (q\<lparr>sp_recipient_user_ids := sort (sp_recipient_user_ids q)\<rparr>) | _ \<Rightarrow> p)"

definition normaliseOfflineOperation :: "offline_operation \<Rightarrow> offline_operation" where
  "normaliseOfflineOperation o' = o'\<lparr>fo_payload := normalise_payload (fo_payload o')\<rparr>"

definition semantic_request_object :: "replay_namespace \<Rightarrow> offline_operation \<Rightarrow> json" where
  "semantic_request_object ns o' = (let n = normaliseOfflineOperation o' in JObj
     [(''namespace'', JObj [(''organisation_id'', JStr (ns_organisation_id ns)), (''site_id'', JStr (ns_site_id ns)),
        (''user_id'', JStr (ns_user_id ns)), (''device_id'', JStr (ns_device_id ns))]),
      (''offline_operation_id'', JStr (fo_offline_operation_id n)), (''device_sequence'', JInt (fo_device_sequence n)),
      (''idempotency_key'', JStr (fo_idempotency_key n)), (''operation_kind'', JStr (kind_name (fo_operation_kind n))),
      (''payload'', payload_json (fo_payload n)), (''created_at'', JStr (fo_created_at n))])"

definition canonicaliseOfflineSemanticRequest :: "replay_namespace \<Rightarrow> offline_operation \<Rightarrow> string" where
  "canonicaliseOfflineSemanticRequest ns o' = canonicalOfflineJson (semantic_request_object ns o')"

definition fingerprintOfflineSemanticRequest :: "platform \<Rightarrow> replay_namespace \<Rightarrow> offline_operation \<Rightarrow> string" where
  "fingerprintOfflineSemanticRequest pl ns o' = sha pl (canonicaliseOfflineSemanticRequest ns o')"

definition downstream_preimage :: "replay_namespace \<Rightarrow> string \<Rightarrow> operation_kind \<Rightarrow> string" where
  "downstream_preimage ns operationId kind = join [CHR 0x0A] [ns_organisation_id ns, ns_site_id ns, ns_user_id ns,
     ns_device_id ns, operationId, kind_name kind]"

definition deriveOfflineDownstreamIdempotencyKey :: "platform \<Rightarrow> replay_namespace \<Rightarrow> string \<Rightarrow> operation_kind \<Rightarrow> string" where
  "deriveOfflineDownstreamIdempotencyKey pl ns operationId kind = ''offline:'' @ sha pl (downstream_preimage ns operationId kind)"

text \<open>What the fingerprint is to tell apart: everything but the trace and the order of the recipients.\<close>

definition semantic_part :: "offline_operation \<Rightarrow> string \<times> int \<times> string \<times> operation_kind \<times> payload \<times> string" where
  "semantic_part o' = (fo_offline_operation_id o', fo_device_sequence o', fo_idempotency_key o',
     fo_operation_kind o', normalise_payload (fo_payload o'), fo_created_at o')"

lemma json_wf_opt [simp]: "json_wf (opt_json JStr x)" "json_safe (opt_json JStr x)"
  by (cases x; simp)+

lemma payload_json_wf [simp]: "json_wf (payload_json p)" "json_safe (payload_json p)"
  by (cases p; auto simp: payload_json_def split: option.splits)+

lemma semantic_safe [simp]: "json_wf (semantic_request_object ns o')" "json_safe (semantic_request_object ns o')"
  by (simp_all add: semantic_request_object_def Let_def)

lemma map_denote_JStr [simp]: "map (denote \<circ> JStr) xs = map (denote \<circ> JStr) ys \<longleftrightarrow> xs = ys"
  by (rule inj_map_eq_map) (simp add: inj_def)

lemma opt_str_denote [simp]: "denote (opt_json JStr x) = denote (opt_json JStr y) \<longleftrightarrow> x = y"
  by (cases x; cases y) simp_all

lemma send_payload_denote:
  assumes "denote (payload_json (Send_Payload p)) = denote (payload_json (Send_Payload q))"
  shows "p = q"
proof -
  note at_key = denote_at[OF assms[unfolded payload_json_def payload.case]]
  have "sp_body p = sp_body q"
    using at_key[of "''body''"] by (auto split: option.splits)
  moreover have "sp_media_refs p = sp_media_refs q"
    using at_key[of "''media_refs''"] by (auto split: option.splits)
  moreover have "sp_expires_at p = sp_expires_at q"
    using at_key[of "''expires_at''"] by (auto split: option.splits)
  moreover have "sp_incident_id p = sp_incident_id q" "sp_recipient_user_ids p = sp_recipient_user_ids q"
      "sp_retention_class p = sp_retention_class q"
    using at_key[of "''incident_id''"] at_key[of "''recipient_user_ids''"] at_key[of "''retention_class''"]
    by (auto split: option.splits)
  ultimately show ?thesis by simp
qed

lemma status_name_inject [simp]: "status_name s = status_name t \<longleftrightarrow> s = t"
  using status_of_name_name by (metis option.inject)

lemma payload_denote [simp]: "denote (payload_json p) = denote (payload_json q) \<longleftrightarrow> p = q"
proof
  assume eq: "denote (payload_json p) = denote (payload_json q)"
  let ?kvs = "\<lambda>v. case v of JObj kvs \<Rightarrow> kvs | _ \<Rightarrow> []"
  have obj: "payload_json x = JObj (?kvs (payload_json x))" for x
    by (cases x) (simp_all add: payload_json_def)
  have at_key: "map_option denote (map_of (?kvs (payload_json p)) k) = map_option denote (map_of (?kvs (payload_json q)) k)" for k
    using denote_at[of "?kvs (payload_json p)" "?kvs (payload_json q)" k] eq obj[of p] obj[of q] by metis
  show "p = q"
  proof (cases "\<exists>x y. p = Send_Payload x \<and> q = Send_Payload y")
    case True
    then show ?thesis using eq send_payload_denote by blast
  next
    case False
    then show ?thesis
      using at_key[of "''assignment_id''"] at_key[of "''expected_status''"] at_key[of "''message_id''"]
      by (cases p; cases q) (auto simp: payload_json_def split: option.splits)
  qed
qed simp

lemma kind_denote [simp]: "denote (JStr (kind_name k)) = denote (JStr (kind_name k')) \<longleftrightarrow> k = k'"
  by simp

lemma semantic_denote:
  "denote (semantic_request_object ns o') = denote (semantic_request_object ns' o'') \<longleftrightarrow>
     ns = ns' \<and> semantic_part o' = semantic_part o''"
proof
  assume eq: "denote (semantic_request_object ns o') = denote (semantic_request_object ns' o'')"
  note at_key = denote_at[OF eq[unfolded semantic_request_object_def Let_def]]
  have "fo_offline_operation_id o' = fo_offline_operation_id o''" "fo_device_sequence o' = fo_device_sequence o''"
    "fo_idempotency_key o' = fo_idempotency_key o''" "fo_operation_kind o' = fo_operation_kind o''"
    "normalise_payload (fo_payload o') = normalise_payload (fo_payload o'')" "fo_created_at o' = fo_created_at o''"
    using at_key[of "''offline_operation_id''"] at_key[of "''device_sequence''"] at_key[of "''idempotency_key''"]
      at_key[of "''operation_kind''"] at_key[of "''payload''"] at_key[of "''created_at''"]
    by (simp_all add: normaliseOfflineOperation_def)
  moreover have "denote (JObj [(''organisation_id'', JStr (ns_organisation_id ns)), (''site_id'', JStr (ns_site_id ns)),
        (''user_id'', JStr (ns_user_id ns)), (''device_id'', JStr (ns_device_id ns))])
      = denote (JObj [(''organisation_id'', JStr (ns_organisation_id ns')), (''site_id'', JStr (ns_site_id ns')),
        (''user_id'', JStr (ns_user_id ns')), (''device_id'', JStr (ns_device_id ns'))])"
    using at_key[of "''namespace''"] by simp
  note name_key = denote_at[OF this]
  have "ns = ns'"
    using name_key[of "''organisation_id''"] name_key[of "''site_id''"] name_key[of "''user_id''"] name_key[of "''device_id''"]
    by simp
  ultimately show "ns = ns' \<and> semantic_part o' = semantic_part o''" by (simp add: semantic_part_def)
next
  assume "ns = ns' \<and> semantic_part o' = semantic_part o''"
  then show "denote (semantic_request_object ns o') = denote (semantic_request_object ns' o'')"
    by (simp add: semantic_request_object_def semantic_part_def normaliseOfflineOperation_def Let_def)
qed

lemma semantic_text_identity:
  "canonicaliseOfflineSemanticRequest ns o' = canonicaliseOfflineSemanticRequest ns' o'' \<longleftrightarrow>
     ns = ns' \<and> semantic_part o' = semantic_part o''"
  using canonical_text_inject[OF semantic_safe(2) semantic_safe(2) semantic_safe(1) semantic_safe(1), of ns o' ns' o'']
  by (simp add: canonicaliseOfflineSemanticRequest_def canonicalOfflineJson_def canonical_device_json_def semantic_denote)

text \<open>The digest does not collide on the requests of a set.\<close>

definition collision_free :: "platform \<Rightarrow> (replay_namespace \<times> offline_operation) set \<Rightarrow> bool" where
  "collision_free pl R \<longleftrightarrow> (\<forall>(ns, o')\<in>R. \<forall>(ns', o'')\<in>R.
     fingerprintOfflineSemanticRequest pl ns o' = fingerprintOfflineSemanticRequest pl ns' o'' \<longrightarrow>
     canonicaliseOfflineSemanticRequest ns o' = canonicaliseOfflineSemanticRequest ns' o'')"

lemma fingerprint_identity: "collision_free pl R \<Longrightarrow> (ns, o') \<in> R \<Longrightarrow> (ns', o'') \<in> R \<Longrightarrow>
    fingerprintOfflineSemanticRequest pl ns o' = fingerprintOfflineSemanticRequest pl ns' o'' \<longleftrightarrow>
      ns = ns' \<and> semantic_part o' = semantic_part o''"
  using semantic_text_identity[of ns o' ns' o''] unfolding collision_free_def
  by (fastforce simp: fingerprintOfflineSemanticRequest_def)

text \<open>
  What makes two offline requests the same. When the hash does not collide on the two
  canonical texts, two admitted operations have one fingerprint exactly when their namespaces are
  equal and they agree on everything but the trace id and the order of the recipients.
\<close>

theorem offline_request_identity:
  assumes "sha pl (canonicaliseOfflineSemanticRequest ns o') = sha pl (canonicaliseOfflineSemanticRequest ns' o'')
    \<longrightarrow> canonicaliseOfflineSemanticRequest ns o' = canonicaliseOfflineSemanticRequest ns' o''"
  shows "fingerprintOfflineSemanticRequest pl ns o' = fingerprintOfflineSemanticRequest pl ns' o'' \<longleftrightarrow>
    ns = ns' \<and> normaliseOfflineOperation (o'\<lparr>fo_organisation_id := x, fo_site_id := y, fo_device_id := z, fo_trace_id := t\<rparr>)
      = normaliseOfflineOperation (o''\<lparr>fo_organisation_id := x, fo_site_id := y, fo_device_id := z, fo_trace_id := t\<rparr>)"
proof -
  have "normaliseOfflineOperation (o'\<lparr>fo_organisation_id := x, fo_site_id := y, fo_device_id := z, fo_trace_id := t\<rparr>)
      = normaliseOfflineOperation (o''\<lparr>fo_organisation_id := x, fo_site_id := y, fo_device_id := z, fo_trace_id := t\<rparr>)
      \<longleftrightarrow> semantic_part o' = semantic_part o''"
    by (cases o'; cases o'') (auto simp: normaliseOfflineOperation_def semantic_part_def)
  with semantic_text_identity[of ns o' ns' o''] assms show ?thesis
    unfolding fingerprintOfflineSemanticRequest_def by metis
qed

definition demo_message :: "string list \<Rightarrow> string \<Rightarrow> offline_operation" where
  "demo_message to trace = \<lparr>fo_offline_operation_id = ''o1'', fo_organisation_id = ''acme'', fo_site_id = ''north'',
     fo_device_id = ''d1'', fo_device_sequence = 0, fo_idempotency_key = ''k1'', fo_created_at = ''5'', fo_trace_id = trace,
     fo_operation_kind = INCIDENT_FIELD_MESSAGE_SEND, fo_payload = Send_Payload \<lparr>sp_incident_id = ''i1'',
       sp_recipient_user_ids = to, sp_body = Some (Some ''go''), sp_media_refs = None,
       sp_retention_class = ''SHORT'', sp_expires_at = None\<rparr>\<rparr>"

definition demo_namespace :: replay_namespace where
  "demo_namespace = \<lparr>ns_organisation_id = ''acme'', ns_site_id = ''north'', ns_user_id = ''kim'', ns_device_id = ''d1''\<rparr>"

theorem offline_request_identity_witness:
  "fingerprintOfflineSemanticRequest (example_platform []) demo_namespace (demo_message [''kim'', ''ada''] ''t1'')
   = fingerprintOfflineSemanticRequest (example_platform []) demo_namespace (demo_message [''ada'', ''kim''] ''t2'')"
proof -
  have same: "normaliseOfflineOperation (demo_message [''kim'', ''ada''] ''t1''\<lparr>fo_organisation_id := a, fo_site_id := b, fo_device_id := c, fo_trace_id := d\<rparr>)
      = normaliseOfflineOperation (demo_message [''ada'', ''kim''] ''t2''\<lparr>fo_organisation_id := a, fo_site_id := b, fo_device_id := c, fo_trace_id := d\<rparr>)" for a b c d
    by (simp add: normaliseOfflineOperation_def normalise_payload_def demo_message_def)
  then have "semantic_part (demo_message [''kim'', ''ada''] ''t1'') = semantic_part (demo_message [''ada'', ''kim''] ''t2'')"
    by (simp add: normaliseOfflineOperation_def semantic_part_def demo_message_def)
  then have "canonicaliseOfflineSemanticRequest demo_namespace (demo_message [''kim'', ''ada''] ''t1'')
      = canonicaliseOfflineSemanticRequest demo_namespace (demo_message [''ada'', ''kim''] ''t2'')"
    by (simp add: semantic_text_identity)
  with offline_request_identity[of "example_platform []" demo_namespace _ demo_namespace] same show ?thesis by blast
qed

subsection \<open>The derived key\<close>

lemma split_at_first: "x @ c # r = y @ c # s \<Longrightarrow> c \<notin> set x \<Longrightarrow> c \<notin> set y \<Longrightarrow> x = y \<and> r = s"
proof (induction x arbitrary: y)
  case Nil
  then show ?case by (cases y) auto
next
  case (Cons a x)
  then show ?case by (cases y) auto
qed

lemma join_inject: "length xs = length ys \<Longrightarrow> \<forall>x\<in>set xs \<union> set ys. c \<notin> set x \<Longrightarrow> join [c] xs = join [c] ys \<Longrightarrow> xs = ys"
proof (induction xs ys rule: list_induct2)
  case (Cons x xs y ys)
  show ?case
  proof (cases xs)
    case Nil
    with Cons show ?thesis by simp
  next
    case (Cons x' xs')
    then obtain y' ys' where ys: "ys = y' # ys'" using Cons.hyps by (cases ys) auto
    have "x = y \<and> join [c] xs = join [c] ys"
      using Cons.prems by (intro split_at_first[of x c _ y]) (auto simp: Cons ys)
    then show ?thesis using Cons.IH Cons.prems(1) by auto
  qed
qed simp

definition one_line :: "string \<Rightarrow> bool" where
  "one_line s \<longleftrightarrow> CHR 0x0A \<notin> set s"

definition namespace_ok :: "replay_namespace \<Rightarrow> bool" where
  "namespace_ok ns \<longleftrightarrow> scopedId (ns_organisation_id ns) \<and> scopedId (ns_site_id ns) \<and> scopedId (ns_user_id ns) \<and> scopedId (ns_device_id ns)"

lemma kind_one_line: "one_line (kind_name k)"
  by (cases k) (simp_all add: one_line_def)

text \<open>
  The derived key separates namespaces of one line only. For operations whose namespace texts
  hold no line feed, the preimages of the derived domain key are equal exactly when namespace,
  operation id and kind are; but with line feeds, which the schema admits, two different
  namespaces share a preimage and so a key.
\<close>

theorem downstream_key_separates_lines_only:
  "(\<forall>ns ns' i i' k k'. list_all one_line [ns_organisation_id ns, ns_site_id ns, ns_user_id ns, ns_device_id ns, i,
        ns_organisation_id ns', ns_site_id ns', ns_user_id ns', ns_device_id ns', i']
      \<and> downstream_preimage ns i k = downstream_preimage ns' i' k' \<longrightarrow> ns = ns' \<and> i = i' \<and> k = k')
   \<and> (\<exists>ns ns'. ns \<noteq> ns' \<and> ns_organisation_id ns \<noteq> ns_organisation_id ns' \<and> namespace_ok ns \<and> namespace_ok ns'
      \<and> (\<forall>pl i k. deriveOfflineDownstreamIdempotencyKey pl ns i k = deriveOfflineDownstreamIdempotencyKey pl ns' i k))"
proof (intro conjI allI impI)
  fix ns ns' i i' k k'
  assume a: "list_all one_line [ns_organisation_id ns, ns_site_id ns, ns_user_id ns, ns_device_id ns, i,
        ns_organisation_id ns', ns_site_id ns', ns_user_id ns', ns_device_id ns', i']
      \<and> downstream_preimage ns i k = downstream_preimage ns' i' k'"
  let ?parts = "\<lambda>ns i k. [ns_organisation_id ns, ns_site_id ns, ns_user_id ns, ns_device_id ns, i, kind_name k]"
  have "?parts ns i k = ?parts ns' i' k'"
    using a kind_one_line[of k] kind_one_line[of k'] unfolding one_line_def downstream_preimage_def
    by (intro join_inject[where c = "CHR 0x0A"]) simp_all
  then show "ns = ns'" "i = i'" "k = k'" by simp_all
next
  let ?a = "\<lparr>ns_organisation_id = ''a'', ns_site_id = ''b'' @ [CHR 0x0A] @ ''c'', ns_user_id = ''u'', ns_device_id = ''d''\<rparr>"
  let ?b = "\<lparr>ns_organisation_id = ''a'' @ [CHR 0x0A] @ ''b'', ns_site_id = ''c'', ns_user_id = ''u'', ns_device_id = ''d''\<rparr>"
  show "\<exists>ns ns'. ns \<noteq> ns' \<and> ns_organisation_id ns \<noteq> ns_organisation_id ns' \<and> namespace_ok ns \<and> namespace_ok ns'
      \<and> (\<forall>pl i k. deriveOfflineDownstreamIdempotencyKey pl ns i k = deriveOfflineDownstreamIdempotencyKey pl ns' i k)"
    by (intro exI[of _ ?a] exI[of _ ?b])
      (simp add: namespace_ok_def scopedId_def deriveOfflineDownstreamIdempotencyKey_def downstream_preimage_def)
qed

theorem downstream_key_separates_lines_only_witness:
  "downstream_preimage demo_namespace ''o1'' FIELD_ASSIGNMENT_START \<noteq> downstream_preimage demo_namespace ''o1'' FIELD_ASSIGNMENT_ACCEPT"
  using conjunct1[OF downstream_key_separates_lines_only, rule_format, of demo_namespace "''o1''" demo_namespace "''o1''"
      FIELD_ASSIGNMENT_START FIELD_ASSIGNMENT_ACCEPT]
  by (auto simp: demo_namespace_def one_line_def)

end
