(* ===== verification/Offline_Replay.thy ===== *)
theory Offline_Replay
  imports Offline_Operation
begin

text \<open>
  The offline replay executor (services/core-api/src/modules/field-offline): the cursor and receipt
  tables with the transactions of field-offline.repository.ts, and \<open>FieldOfflineReplayService.submit\<close>
  cut into the steps between two awaits of the database, so that submissions interleave the way
  their requests do. A repository transaction is one step on \<open>replay_db\<close>; the domain tables it calls
  into are its field \<open>domain\<close>. Clocks and generated ids are arguments.
\<close>

subsection \<open>Tables\<close>

datatype receipt_status = RECEIVED | APPLYING | APPLIED | REJECTED | UNKNOWN_STATUS

definition OFFLINE_CURSOR_ADVANCING_STATUSES :: "receipt_status list" where
  "OFFLINE_CURSOR_ADVANCING_STATUSES = [APPLIED, REJECTED]"

definition offlineReceiptAdvancesCursor :: "receipt_status \<Rightarrow> bool" where
  "offlineReceiptAdvancesCursor s \<longleftrightarrow> s \<in> set OFFLINE_CURSOR_ADVANCING_STATUSES"

datatype conflict_code = DEVICE_CONTEXT_MISMATCH | SITE_SCOPE_MISMATCH | GAP | REUSED | STALE
  | OPERATION_ID_REUSED | OPERATION_NOT_ALLOWED | OPERATION_IN_PROGRESS | DOMAIN_REJECTED | UNKNOWN_OUTCOME

record receipt =
  rr_id :: string
  rr_namespace :: replay_namespace
  rr_deviceSequence :: int
  rr_offlineOperationId :: string
  rr_operationKind :: operation_kind
  rr_requestFingerprint :: string
  rr_downstreamIdempotencyKey :: string
  rr_clientCreatedAt :: int
  rr_firstReceivedAt :: int
  rr_status :: receipt_status
  rr_outcome :: "receipt_status option"
  rr_conflictCode :: "conflict_code option"
  rr_resultRef :: "string option"
  rr_resultSnapshot :: "json option"
  rr_processingClaimedAt :: "int option"
  rr_attemptCount :: int
  rr_finalizedAt :: "int option"
  rr_firstTraceId :: string
  rr_policyLeaseId :: "string option"

text \<open>
  The audit rows of the replay: the namespace, the kind, and what the payload discloses
  (\<open>device_id\<close> is the namespace's, \<open>outcome\<close> the disposition when it is final).
\<close>

record replay_audit =
  ra_namespace :: replay_namespace
  ra_kind :: string
  ra_operation :: string
  ra_sequence :: int
  ra_operationKind :: operation_kind
  ra_requestFingerprint :: string
  ra_disposition :: receipt_status
  ra_conflict :: "conflict_code option"
  ra_trace :: string

record replay_db =
  cursors :: "(replay_namespace \<times> int option) list"
  receipts :: "receipt list"
  replay_audits :: "replay_audit list"
  policy_leases :: "(string \<times> string) list"
  domain :: field_db

subsection \<open>The repository\<close>

text \<open>
  \<open>ensureCursor\<close> swallows the unique violation of a row that exists; a new row needs its site (the
  composite foreign key). An exception is \<open>Some\<close>.
\<close>

definition ensureCursor :: "replay_namespace \<Rightarrow> replay_db \<Rightarrow> thrown option \<times> replay_db" where
  "ensureCursor ns db =
     (if map_of (cursors db) ns \<noteq> None then (None, db)
      else if \<not> siteExistsInOrganisation (ns_organisation_id ns) (ns_site_id ns) (domain db) then (Some Fault, db)
      else (None, db\<lparr>cursors := cursors db @ [(ns, None)]\<rparr>))"

definition lockCursor :: "replay_namespace \<Rightarrow> replay_db \<Rightarrow> int option option" where
  "lockCursor ns db = map_of (cursors db) ns"

definition readCursor :: "replay_namespace \<Rightarrow> replay_db \<Rightarrow> int option" where
  "readCursor ns db = (case map_of (cursors db) ns of None \<Rightarrow> None | Some c \<Rightarrow> c)"

definition findReceiptBySequence :: "replay_namespace \<Rightarrow> int \<Rightarrow> replay_db \<Rightarrow> receipt option" where
  "findReceiptBySequence ns sq db = List.find (\<lambda>r. rr_namespace r = ns \<and> rr_deviceSequence r = sq) (receipts db)"

definition findReceiptByOperationId :: "replay_namespace \<Rightarrow> string \<Rightarrow> replay_db \<Rightarrow> receipt option" where
  "findReceiptByOperationId ns i db = List.find (\<lambda>r. rr_namespace r = ns \<and> rr_offlineOperationId r = i) (receipts db)"

definition getReceiptById :: "string \<Rightarrow> replay_db \<Rightarrow> receipt option" where
  "getReceiptById i db = List.find (\<lambda>r. rr_id r = i) (receipts db)"

definition audited :: "receipt \<Rightarrow> string \<Rightarrow> receipt_status \<Rightarrow> conflict_code option \<Rightarrow> string \<Rightarrow> replay_audit" where
  "audited r kind disposition code trace = \<lparr>ra_namespace = rr_namespace r, ra_kind = kind,
     ra_operation = rr_offlineOperationId r, ra_sequence = rr_deviceSequence r,
     ra_operationKind = rr_operationKind r, ra_requestFingerprint = rr_requestFingerprint r,
     ra_disposition = disposition, ra_conflict = code, ra_trace = trace\<rparr>"

definition AUDIT_OFFLINE_OPERATION_RECEIVED :: string where
  "AUDIT_OFFLINE_OPERATION_RECEIVED = ''OFFLINE_OPERATION_RECEIVED''"

definition AUDIT_OFFLINE_OPERATION_FINALIZED :: string where
  "AUDIT_OFFLINE_OPERATION_FINALIZED = ''OFFLINE_OPERATION_FINALIZED''"

text \<open>
  \<open>createReceipt\<close> throws on a taken id, position or operation id, and on a lease the organisation does
  not have (the composite foreign key).
\<close>

definition createReceipt :: "receipt \<Rightarrow> replay_db \<Rightarrow> (thrown + receipt) \<times> replay_db" where
  "createReceipt r db =
     (if list_ex (\<lambda>q. rr_id q = rr_id r \<or> rr_namespace q = rr_namespace r
          \<and> (rr_deviceSequence q = rr_deviceSequence r \<or> rr_offlineOperationId q = rr_offlineOperationId r)) (receipts db)
      then (Inl Fault, db)
      else if (\<exists>l\<in>set_option (rr_policyLeaseId r). (ns_organisation_id (rr_namespace r), l) \<notin> set (policy_leases db))
        then (Inl Fault, db)
      else (Inr r, db\<lparr>receipts := receipts db @ [r],
        replay_audits := replay_audits db @ [audited r AUDIT_OFFLINE_OPERATION_RECEIVED RECEIVED None (rr_firstTraceId r)]\<rparr>))"

definition new_receipt :: "replay_namespace \<Rightarrow> offline_operation \<Rightarrow> string \<Rightarrow> string \<Rightarrow> string option \<Rightarrow> int \<Rightarrow> string \<Rightarrow> int \<Rightarrow> receipt" where
  "new_receipt ns o' fingerprint key lease created newId now = \<lparr>rr_id = newId, rr_namespace = ns,
     rr_deviceSequence = fo_device_sequence o', rr_offlineOperationId = fo_offline_operation_id o',
     rr_operationKind = fo_operation_kind o', rr_requestFingerprint = fingerprint,
     rr_downstreamIdempotencyKey = key, rr_clientCreatedAt = created, rr_firstReceivedAt = now,
     rr_status = RECEIVED, rr_outcome = None, rr_conflictCode = None, rr_resultRef = None,
     rr_resultSnapshot = None, rr_processingClaimedAt = None, rr_attemptCount = 0, rr_finalizedAt = None,
     rr_firstTraceId = fo_trace_id o', rr_policyLeaseId = lease\<rparr>"

definition update_receipt :: "string \<Rightarrow> (receipt \<Rightarrow> receipt) \<Rightarrow> receipt list \<Rightarrow> receipt list" where
  "update_receipt i f = map (\<lambda>r. if rr_id r = i then f r else r)"

definition OFFLINE_PROCESSING_LEASE_MS :: int where
  "OFFLINE_PROCESSING_LEASE_MS = 60000"

definition claimable :: "int \<Rightarrow> receipt \<Rightarrow> bool" where
  "claimable now r \<longleftrightarrow> rr_status r \<in> {RECEIVED, UNKNOWN_STATUS}
     \<or> rr_status r = APPLYING \<and> (\<exists>t\<in>set_option (rr_processingClaimedAt r). t < now - OFFLINE_PROCESSING_LEASE_MS)"

text \<open>The claim answers its generation, the attempt count after its own increment.\<close>

definition claimForProcessing :: "string \<Rightarrow> int \<Rightarrow> replay_db \<Rightarrow> int option \<times> replay_db" where
  "claimForProcessing i now db =
     (case getReceiptById i db of None \<Rightarrow> (None, db)
      | Some r \<Rightarrow> if \<not> claimable now r then (None, db)
          else (Some (rr_attemptCount r + 1), db\<lparr>receipts := update_receipt i
            (\<lambda>r. r\<lparr>rr_status := APPLYING, rr_processingClaimedAt := Some now, rr_attemptCount := rr_attemptCount r + 1\<rparr>)
            (receipts db)\<rparr>))"

text \<open>The compare-and-set fence of every write an attempt makes after its claim.\<close>

definition fenced :: "string \<Rightarrow> int \<Rightarrow> replay_db \<Rightarrow> bool" where
  "fenced i generation db \<longleftrightarrow> list_ex (\<lambda>r. rr_id r = i \<and> rr_status r = APPLYING \<and> rr_attemptCount r = generation) (receipts db)"

record finalize_input =
  vd_outcome :: receipt_status
  vd_conflictCode :: "conflict_code option"
  vd_resultRef :: "string option"
  vd_resultSnapshot :: "json option"

definition advance_cursor :: "replay_namespace \<Rightarrow> int \<Rightarrow> (replay_namespace \<times> int option) list \<Rightarrow> (replay_namespace \<times> int option) list" where
  "advance_cursor ns sq = map (\<lambda>(n, c). (n, if n = ns \<and> (\<forall>k\<in>set_option c. k < sq) then Some sq else c))"

datatype finalize_outcome = Finalized int "int option" | Fence_Lost

text \<open>\<open>r\<close> is the receipt as the attempt read it when it was admitted.\<close>

definition finalizeAndAdvance :: "receipt \<Rightarrow> int \<Rightarrow> finalize_input \<Rightarrow> string \<Rightarrow> int \<Rightarrow> replay_db \<Rightarrow> finalize_outcome \<times> replay_db" where
  "finalizeAndAdvance r generation v trace now db =
     (if \<not> fenced (rr_id r) generation db then (Fence_Lost, db)
      else let db' = db\<lparr>receipts := update_receipt (rr_id r)
               (\<lambda>q. q\<lparr>rr_status := vd_outcome v, rr_outcome := Some (vd_outcome v), rr_conflictCode := vd_conflictCode v,
                  rr_resultRef := vd_resultRef v, rr_resultSnapshot := vd_resultSnapshot v, rr_finalizedAt := Some now\<rparr>) (receipts db),
             cursors := advance_cursor (rr_namespace r) (rr_deviceSequence r) (cursors db),
             replay_audits := replay_audits db @ [audited r AUDIT_OFFLINE_OPERATION_FINALIZED (vd_outcome v) (vd_conflictCode v) trace]\<rparr>
        in (Finalized now (readCursor (rr_namespace r) db'), db'))"

text \<open>\<open>True\<close> when the mark was written.\<close>

definition markUnknown :: "receipt \<Rightarrow> int \<Rightarrow> string \<Rightarrow> replay_db \<Rightarrow> bool \<times> replay_db" where
  "markUnknown r generation trace db =
     (if \<not> fenced (rr_id r) generation db then (False, db)
      else (True, db\<lparr>receipts := update_receipt (rr_id r) (\<lambda>q. q\<lparr>rr_status := UNKNOWN_STATUS\<rparr>) (receipts db),
        replay_audits := replay_audits db @ [audited r AUDIT_OFFLINE_OPERATION_FINALIZED UNKNOWN_STATUS (Some UNKNOWN_OUTCOME) trace]\<rparr>))"

subsection \<open>Admission\<close>

record authenticated_context =
  ac_organisationId :: string
  ac_userId :: string
  ac_deviceId :: string
  ac_authorisedSiteIds :: "string list"

definition bindDeviceContext :: "principal \<Rightarrow> authenticated_context \<Rightarrow> offline_operation \<Rightarrow> string \<Rightarrow> conflict_code option" where
  "bindDeviceContext p cx o' action =
     (if pr_organisation_id p \<noteq> ac_organisationId cx then Some DEVICE_CONTEXT_MISMATCH
      else if pr_user_id p \<noteq> ac_userId cx then Some DEVICE_CONTEXT_MISMATCH
      else if fo_organisation_id o' \<noteq> ac_organisationId cx then Some DEVICE_CONTEXT_MISMATCH
      else if fo_device_id o' \<noteq> ac_deviceId cx then Some DEVICE_CONTEXT_MISMATCH
      else if fo_site_id o' \<notin> set (ac_authorisedSiteIds cx) then Some SITE_SCOPE_MISMATCH
      else if \<not> hasAction p action then Some OPERATION_NOT_ALLOWED
      else if \<not> siteAllowed (intersectSiteScope p action) (fo_site_id o') then Some SITE_SCOPE_MISMATCH
      else None)"

definition namespace_of :: "authenticated_context \<Rightarrow> offline_operation \<Rightarrow> replay_namespace" where
  "namespace_of cx o' = \<lparr>ns_organisation_id = ac_organisationId cx, ns_site_id = fo_site_id o',
     ns_user_id = ac_userId cx, ns_device_id = ac_deviceId cx\<rparr>"

definition isFinalized :: "receipt \<Rightarrow> bool" where
  "isFinalized r \<longleftrightarrow> offlineReceiptAdvancesCursor (rr_status r)"

datatype offline_admission = Admit_Proceed receipt "int option" | Admit_Replay receipt "int option"
  | Admit_Refuse conflict_code "int option"

text \<open>
  The first transaction, under the cursor lock. It throws when the cursor is missing, when the
  insert violates a constraint, or when \<open>created_at\<close> is no instant.
\<close>

definition admit_replay :: "platform \<Rightarrow> replay_namespace \<Rightarrow> offline_operation \<Rightarrow> string option \<Rightarrow> string \<Rightarrow> int \<Rightarrow> replay_db
    \<Rightarrow> (thrown + offline_admission) \<times> replay_db" where
  "admit_replay pl ns o' lease newId now db =
     (let fingerprint = fingerprintOfflineSemanticRequest pl ns o';
          sq = fo_device_sequence o'
      in case lockCursor ns db of None \<Rightarrow> (Inl Fault, db)
       | Some lastFinalized \<Rightarrow>
         let expected = nextExpectedOfflineSequence lastFinalized;
             byId = findReceiptByOperationId ns (fo_offline_operation_id o') db;
             found = findReceiptBySequence ns sq db
         in if \<exists>r\<in>set_option byId. rr_deviceSequence r \<noteq> sq then (Inr (Admit_Refuse OPERATION_ID_REUSED expected), db)
            else (case classifyOfflineSequence lastFinalized sq
                (map_option (\<lambda>r. rr_requestFingerprint r = fingerprint) found) of
              SEQUENCE_GAP \<Rightarrow> (Inr (Admit_Refuse GAP expected), db)
            | SEQUENCE_REUSED \<Rightarrow> (Inr (Admit_Refuse REUSED expected), db)
            | SEQUENCE_STALE \<Rightarrow> (Inr (Admit_Refuse STALE expected), db)
            | REPLAY \<Rightarrow> (case found of
                Some r \<Rightarrow> if isFinalized r then (Inr (Admit_Replay r lastFinalized), db)
                  else (Inr (Admit_Refuse UNKNOWN_OUTCOME expected), db)
              | None \<Rightarrow> (Inr (Admit_Refuse UNKNOWN_OUTCOME expected), db))
            | FRESH \<Rightarrow> (case found of
                Some r \<Rightarrow> if rr_requestFingerprint r \<noteq> fingerprint then (Inr (Admit_Refuse REUSED expected), db)
                  else if isFinalized r then (Inr (Admit_Replay r lastFinalized), db)
                  else (Inr (Admit_Proceed r lastFinalized), db)
              | None \<Rightarrow> (case date_parse pl (fo_created_at o') of None \<Rightarrow> (Inl Fault, db)
                | Some created \<Rightarrow>
                  (case createReceipt (new_receipt ns o' fingerprint
                      (deriveOfflineDownstreamIdempotencyKey pl ns (fo_offline_operation_id o') (fo_operation_kind o'))
                      lease created newId now) db of
                    (Inl e, db') \<Rightarrow> (Inl e, db')
                  | (Inr r, db') \<Rightarrow> (Inr (Admit_Proceed r lastFinalized), db'))))))"

subsection \<open>The domain call and its evidence\<close>

record effect =
  ef_resultRef :: string
  ef_resultSnapshot :: json

fun action_of_kind :: "operation_kind \<Rightarrow> assignment_action" where
  "action_of_kind FIELD_ASSIGNMENT_ACCEPT = accept"
| "action_of_kind FIELD_ASSIGNMENT_DECLINE = decline"
| "action_of_kind FIELD_ASSIGNMENT_START = start"
| "action_of_kind _ = complete"

definition transition_effect :: "string \<Rightarrow> assignment_status \<Rightarrow> effect" where
  "transition_effect assignmentId s = \<lparr>ef_resultRef = assignmentId,
     ef_resultSnapshot = JObj [(''assignment_id'', JStr assignmentId), (''status'', JStr (status_name s))]\<rparr>"

definition send_effect :: "string \<Rightarrow> string \<Rightarrow> nat \<Rightarrow> effect" where
  "send_effect messageId incidentId n = \<lparr>ef_resultRef = messageId,
     ef_resultSnapshot = JObj [(''incident_field_message_id'', JStr messageId), (''incident_id'', JStr incidentId),
       (''recipient_count'', JInt (int n))]\<rparr>"

definition acknowledge_effect :: "string \<Rightarrow> effect" where
  "acknowledge_effect messageId = \<lparr>ef_resultRef = messageId,
     ef_resultSnapshot = JObj [(''incident_field_message_id'', JStr messageId)]\<rparr>"

definition executeAssignmentTransition :: "principal \<Rightarrow> site_scope \<Rightarrow> string \<Rightarrow> assignment_status \<Rightarrow> assignment_action
    \<Rightarrow> string \<Rightarrow> int \<Rightarrow> int \<Rightarrow> field_db \<Rightarrow> (thrown + effect) \<times> field_db" where
  "executeAssignmentTransition p scope a expected action key at_ms now db =
     (case parseAssignmentAction key of Inl e \<Rightarrow> (Inl e, db)
      | Inr key \<Rightarrow> (let rd = transitionAssignment p scope a action expected key at_ms now db
          in (map_sum id (\<lambda>v. transition_effect (as_id v) (as_status v)) (fst rd), snd rd)))"

text \<open>The send input of the payload; \<open>None\<close> when \<open>expires_at\<close> is no instant, where the handler throws.\<close>

definition send_input_of :: "platform \<Rightarrow> send_payload \<Rightarrow> string \<Rightarrow> string \<Rightarrow> send_input option" where
  "send_input_of pl q key trace =
     (let i = \<lparr>sd_recipient_user_ids = sp_recipient_user_ids q, sd_body = Option.bind (sp_body q) id,
        sd_media_refs = (case sp_media_refs q of None \<Rightarrow> [] | Some ms \<Rightarrow> ms),
        sd_retention_class = sp_retention_class q, sd_expires_at = None, sd_idempotency_key = key, sd_trace_id = trace\<rparr>
      in case Option.bind (sp_expires_at q) id of None \<Rightarrow> Some i
         | Some t \<Rightarrow> map_option (\<lambda>e. i\<lparr>sd_expires_at := Some e\<rparr>) (date_parse pl t))"

definition executeMessageSend :: "platform \<Rightarrow> (int \<Rightarrow> string) \<Rightarrow> principal \<Rightarrow> site_scope \<Rightarrow> send_payload \<Rightarrow> string \<Rightarrow> string
    \<Rightarrow> string \<Rightarrow> int \<Rightarrow> int \<Rightarrow> field_db \<Rightarrow> (thrown + effect) \<times> field_db" where
  "executeMessageSend pl iso_string p scope q key trace newId at_ms now db =
     (case send_input_of pl q key trace of None \<Rightarrow> (Inl Fault, db)
      | Some i \<Rightarrow> (case parseSend i of Inl e \<Rightarrow> (Inl e, db)
        | Inr i \<Rightarrow> (let rd = send iso_string p scope (sp_incident_id q) i newId at_ms now db
            in (map_sum id (\<lambda>m. send_effect (ms_id m) (ms_incidentId m) (length (ms_recipients m))) (fst rd), snd rd))))"

definition executeMessageAcknowledge :: "principal \<Rightarrow> site_scope \<Rightarrow> string \<Rightarrow> string \<Rightarrow> int \<Rightarrow> field_db
    \<Rightarrow> (thrown + effect) \<times> field_db" where
  "executeMessageAcknowledge p scope messageId key at_ms db =
     (case parseAcknowledge key of Inl e \<Rightarrow> (Inl e, db)
      | Inr key \<Rightarrow> (let rd = acknowledge p scope messageId key at_ms db
          in (map_sum id (\<lambda>m. acknowledge_effect (ms_id m)) (fst rd), snd rd)))"

definition execute_operation :: "platform \<Rightarrow> (int \<Rightarrow> string) \<Rightarrow> principal \<Rightarrow> site_scope \<Rightarrow> offline_operation \<Rightarrow> string \<Rightarrow> string
    \<Rightarrow> int \<Rightarrow> int \<Rightarrow> field_db \<Rightarrow> (thrown + effect) \<times> field_db" where
  "execute_operation pl iso_string p scope o' key newId at_ms now db = (case fo_payload o' of
     Transition_Payload a expected \<Rightarrow>
       executeAssignmentTransition p scope a expected (action_of_kind (fo_operation_kind o')) key at_ms now db
   | Send_Payload q \<Rightarrow> executeMessageSend pl iso_string p scope q key (fo_trace_id o') newId at_ms now db
   | Acknowledge_Payload m \<Rightarrow> executeMessageAcknowledge p scope m key at_ms db)"

definition probeCommittedEffect :: "principal \<Rightarrow> offline_operation \<Rightarrow> string \<Rightarrow> field_db \<Rightarrow> effect option" where
  "probeCommittedEffect p o' key db = (case fo_payload o' of
     Transition_Payload a expected \<Rightarrow>
       map_option (transition_effect a) (probeTransitionEvidence p a (action_of_kind (fo_operation_kind o')) key db)
   | Send_Payload q \<Rightarrow> map_option (\<lambda>(i, incident, n). send_effect i incident n) (probeSendEvidence p (sp_incident_id q) key db)
   | Acknowledge_Payload m \<Rightarrow> if probeAcknowledgeEvidence p m key db then Some (acknowledge_effect m) else None)"

definition deterministicRejectionStatus :: "thrown \<Rightarrow> nat option" where
  "deterministicRejectionStatus e = (case e of Http s \<Rightarrow> if 400 \<le> s \<and> s < 500 then Some s else None | Fault \<Rightarrow> None)"

definition applied_verdict :: "effect \<Rightarrow> finalize_input" where
  "applied_verdict f = \<lparr>vd_outcome = APPLIED, vd_conflictCode = None, vd_resultRef = Some (ef_resultRef f),
     vd_resultSnapshot = Some (ef_resultSnapshot f)\<rparr>"

definition rejected_verdict :: "nat \<Rightarrow> finalize_input" where
  "rejected_verdict s = \<lparr>vd_outcome = REJECTED, vd_conflictCode = Some DOMAIN_REJECTED, vd_resultRef = None,
     vd_resultSnapshot = Some (JObj [(''http_status'', JInt (int s))])\<rparr>"

subsection \<open>Answers\<close>

record operation_result =
  os_offline_operation_id :: string
  os_device_sequence :: int
  os_operation_kind :: operation_kind
  os_outcome :: receipt_status
  os_replayed :: bool
  os_finalized_at :: int
  os_next_expected_sequence :: "int option"
  os_result_ref :: "string option"
  os_result_snapshot :: "json option"
  os_trace_id :: string

record replay_conflict =
  oc_conflict_code :: conflict_code
  oc_offline_operation_id :: string
  oc_device_sequence :: int
  oc_expected_sequence :: "int option"
  oc_trace_id :: string

datatype answer = Invalid | Result operation_result | Conflicted replay_conflict | Threw

text \<open>The schemas the answers are parsed with on the way out.\<close>

definition operation_result_ok :: "platform \<Rightarrow> operation_result \<Rightarrow> bool" where
  "operation_result_ok pl x \<longleftrightarrow> uuid_format pl (os_offline_operation_id x) \<and> deviceSequence (os_device_sequence x)
     \<and> os_outcome x \<in> {APPLIED, REJECTED} \<and> (\<forall>n\<in>set_option (os_next_expected_sequence x). deviceSequence n)
     \<and> (\<forall>i\<in>set_option (os_result_ref x). scopedId i)
     \<and> (\<forall>v\<in>set_option (os_result_snapshot x). utf8_length (json_stringify v) \<le> MAX_BOUNDED_JSON_BYTES)
     \<and> scopedId (os_trace_id x)"

definition replay_conflict_ok :: "platform \<Rightarrow> replay_conflict \<Rightarrow> bool" where
  "replay_conflict_ok pl x \<longleftrightarrow> uuid_format pl (oc_offline_operation_id x) \<and> deviceSequence (oc_device_sequence x)
     \<and> (\<forall>n\<in>set_option (oc_expected_sequence x). deviceSequence n) \<and> scopedId (oc_trace_id x)"

definition result_answer :: "platform \<Rightarrow> operation_result \<Rightarrow> answer" where
  "result_answer pl x = (if operation_result_ok pl x then Result x else Threw)"

definition conflict_answer :: "platform \<Rightarrow> conflict_code \<Rightarrow> offline_operation \<Rightarrow> int option \<Rightarrow> answer" where
  "conflict_answer pl code o' expected =
     (let x = \<lparr>oc_conflict_code = code, oc_offline_operation_id = fo_offline_operation_id o',
        oc_device_sequence = fo_device_sequence o', oc_expected_sequence = expected, oc_trace_id = fo_trace_id o'\<rparr>
      in if replay_conflict_ok pl x then Conflicted x else Threw)"

text \<open>\<open>toSnapshot\<close>: a stored value that is no object reads as absent.\<close>

definition toSnapshot :: "json option \<Rightarrow> json option" where
  "toSnapshot v = (case v of Some (JObj kvs) \<Rightarrow> Some (JObj kvs) | _ \<Rightarrow> None)"

definition replayStoredResult :: "platform \<Rightarrow> offline_operation \<Rightarrow> receipt \<Rightarrow> int option \<Rightarrow> answer" where
  "replayStoredResult pl o' r lastFinalized = (case (rr_outcome r, rr_finalizedAt r) of
     (Some out, Some t) \<Rightarrow> if out \<noteq> APPLIED \<and> out \<noteq> REJECTED
         then conflict_answer pl UNKNOWN_OUTCOME o' (nextExpectedOfflineSequence lastFinalized)
         else result_answer pl \<lparr>os_offline_operation_id = rr_offlineOperationId r, os_device_sequence = rr_deviceSequence r,
           os_operation_kind = rr_operationKind r, os_outcome = out, os_replayed = True, os_finalized_at = t,
           os_next_expected_sequence = nextExpectedOfflineSequence lastFinalized, os_result_ref = rr_resultRef r,
           os_result_snapshot = toSnapshot (rr_resultSnapshot r), os_trace_id = fo_trace_id o'\<rparr>
   | _ \<Rightarrow> conflict_answer pl UNKNOWN_OUTCOME o' (nextExpectedOfflineSequence lastFinalized))"

definition finalized_answer :: "platform \<Rightarrow> offline_operation \<Rightarrow> receipt \<Rightarrow> finalize_input \<Rightarrow> int \<Rightarrow> int option \<Rightarrow> answer" where
  "finalized_answer pl o' r v t lastFinalized = result_answer pl \<lparr>os_offline_operation_id = rr_offlineOperationId r,
     os_device_sequence = rr_deviceSequence r, os_operation_kind = rr_operationKind r, os_outcome = vd_outcome v,
     os_replayed = False, os_finalized_at = t, os_next_expected_sequence = nextExpectedOfflineSequence lastFinalized,
     os_result_ref = vd_resultRef v, os_result_snapshot = vd_resultSnapshot v, os_trace_id = fo_trace_id o'\<rparr>"

definition reportLostFence :: "platform \<Rightarrow> offline_operation \<Rightarrow> receipt option \<Rightarrow> int option \<Rightarrow> answer" where
  "reportLostFence pl o' current lastFinalized =
     (case current of
        Some r \<Rightarrow> if isFinalized r then replayStoredResult pl o' r lastFinalized
          else conflict_answer pl (if rr_status r = APPLYING then OPERATION_IN_PROGRESS else UNKNOWN_OUTCOME) o'
            (nextExpectedOfflineSequence lastFinalized)
      | None \<Rightarrow> conflict_answer pl UNKNOWN_OUTCOME o' (nextExpectedOfflineSequence lastFinalized))"

subsection \<open>A submission, step by step\<close>

record worker =
  wk_principal :: principal
  wk_namespace :: replay_namespace
  wk_operation :: offline_operation
  wk_lease :: "string option"

text \<open>What \<open>submit\<close> decides before it reads anything: an answer, or a submission to carry on with.\<close>

definition begin_submit :: "platform \<Rightarrow> principal \<Rightarrow> authenticated_context \<Rightarrow> json \<Rightarrow> string option \<Rightarrow> answer + worker" where
  "begin_submit pl p cx raw lease = (case parse_operation pl raw of None \<Rightarrow> Inl Invalid
     | Some o' \<Rightarrow> (case bindDeviceContext p cx o' (REQUIRED_ACTION_FOR_KIND (fo_operation_kind o')) of
         Some code \<Rightarrow> Inl (conflict_answer pl code o' None)
       | None \<Rightarrow> Inr \<lparr>wk_principal = p, wk_namespace = namespace_of cx o', wk_operation = o', wk_lease = lease\<rparr>))"

text \<open>
  Where a submission stands: the receipt is the one it was admitted with, the next fields are the
  sequence it would report and the generation of its claim.
\<close>

datatype phase = Bound | Sited | Ensured
  | Admitted receipt "int option"
  | Claimed receipt "int option" int
  | Executing receipt "int option" int
  | Judged receipt "int option" int finalize_input
  | Marking receipt "int option" int
  | Lost receipt
  | Lost_Read "receipt option"
  | Answered answer
  | Crashed

definition worker_scope :: "worker \<Rightarrow> site_scope" where
  "worker_scope w = intersectSiteScope (wk_principal w) (REQUIRED_ACTION_FOR_KIND (fo_operation_kind (wk_operation w)))"

fun advance :: "platform \<Rightarrow> (int \<Rightarrow> string) \<Rightarrow> worker \<Rightarrow> int \<Rightarrow> int \<Rightarrow> string \<Rightarrow> phase \<Rightarrow> replay_db \<Rightarrow> phase \<times> replay_db" where
  "advance pl iso_string w at_ms now newId Bound db =
     (if siteExistsInOrganisation (ns_organisation_id (wk_namespace w)) (ns_site_id (wk_namespace w)) (domain db)
      then (Sited, db) else (Answered (conflict_answer pl SITE_SCOPE_MISMATCH (wk_operation w) None), db))"
| "advance pl iso_string w at_ms now newId Sited db =
     (case ensureCursor (wk_namespace w) db of (Some e, db') \<Rightarrow> (Answered Threw, db') | (None, db') \<Rightarrow> (Ensured, db'))"
| "advance pl iso_string w at_ms now newId Ensured db =
     (case admit_replay pl (wk_namespace w) (wk_operation w) (wk_lease w) newId now db of
        (Inl e, db') \<Rightarrow> (Answered Threw, db')
      | (Inr (Admit_Refuse code expected), db') \<Rightarrow> (Answered (conflict_answer pl code (wk_operation w) expected), db')
      | (Inr (Admit_Replay r lastFinalized), db') \<Rightarrow> (Answered (replayStoredResult pl (wk_operation w) r lastFinalized), db')
      | (Inr (Admit_Proceed r lastFinalized), db') \<Rightarrow> (Admitted r lastFinalized, db'))"
| "advance pl iso_string w at_ms now newId (Admitted r lastFinalized) db =
     (let expected = nextExpectedOfflineSequence lastFinalized in
      case claimForProcessing (rr_id r) now db of
        (None, db') \<Rightarrow> (Answered (conflict_answer pl OPERATION_IN_PROGRESS (wk_operation w) expected), db')
      | (Some generation, db') \<Rightarrow> (Claimed r expected generation, db'))"
| "advance pl iso_string w at_ms now newId (Claimed r expected generation) db =
     (case (if generation > 1
        then probeCommittedEffect (wk_principal w) (wk_operation w) (rr_downstreamIdempotencyKey r) (domain db) else None) of
        Some f \<Rightarrow> (Judged r expected generation (applied_verdict f), db)
      | None \<Rightarrow> (Executing r expected generation, db))"
| "advance pl iso_string w at_ms now newId (Executing r expected generation) db =
     (case execute_operation pl iso_string (wk_principal w) (worker_scope w) (wk_operation w) (rr_downstreamIdempotencyKey r)
        newId at_ms now (domain db) of
        (Inr f, d) \<Rightarrow> (Judged r expected generation (applied_verdict f), db\<lparr>domain := d\<rparr>)
      | (Inl e, d) \<Rightarrow> ((case deterministicRejectionStatus e of None \<Rightarrow> Marking r expected generation
          | Some s \<Rightarrow> Judged r expected generation (rejected_verdict s)), db\<lparr>domain := d\<rparr>))"
| "advance pl iso_string w at_ms now newId (Judged r expected generation v) db =
     (case finalizeAndAdvance r generation v (fo_trace_id (wk_operation w)) now db of
        (Finalized t lastFinalized, db') \<Rightarrow> (Answered (finalized_answer pl (wk_operation w) r v t lastFinalized), db')
      | (Fence_Lost, db') \<Rightarrow> (Lost r, db'))"
| "advance pl iso_string w at_ms now newId (Marking r expected generation) db =
     (case markUnknown r generation (fo_trace_id (wk_operation w)) db of
        (True, db') \<Rightarrow> (Answered (conflict_answer pl UNKNOWN_OUTCOME (wk_operation w) expected), db')
      | (False, db') \<Rightarrow> (Lost r, db'))"
| "advance pl iso_string w at_ms now newId (Lost r) db = (Lost_Read (getReceiptById (rr_id r) db), db)"
| "advance pl iso_string w at_ms now newId (Lost_Read current) db =
     (Answered (reportLostFence pl (wk_operation w) current (readCursor (wk_namespace w) db)), db)"
| "advance pl iso_string w at_ms now newId (Answered a) db = (Answered a, db)"
| "advance pl iso_string w at_ms now newId Crashed db = (Crashed, db)"

text \<open>Where an exception of the step leads: around the domain call and the finalization it is caught.\<close>

fun thrown_phase :: "phase \<Rightarrow> phase" where
  "thrown_phase (Executing r expected generation) = Marking r expected generation"
| "thrown_phase (Judged r expected generation v) = Marking r expected generation"
| "thrown_phase (Answered a) = Answered a"
| "thrown_phase Crashed = Crashed"
| "thrown_phase _ = Answered Threw"

subsection \<open>Submissions that interleave\<close>

text \<open>
  A step may complete, fail before its transaction commits, or commit and lose the
  acknowledgement; a process may die between any two steps; the field modules and the lease
  service run in between.
\<close>

datatype fate = Completes | Fails_Before | Fails_After

datatype act = Submit principal authenticated_context json "string option"
  | Step nat fate int int string
  | Crash nat
  | Elsewhere field_op
  | Lease_Issued string string

record system =
  sys_db :: replay_db
  sys_workers :: "(worker \<times> phase) list"

fun fated :: "fate \<Rightarrow> phase \<Rightarrow> replay_db \<Rightarrow> phase \<times> replay_db \<Rightarrow> phase \<times> replay_db" where
  "fated Completes ph db done = done"
| "fated Fails_Before ph db done = (thrown_phase ph, db)"
| "fated Fails_After ph db done = (thrown_phase ph, snd done)"

fun crash_phase :: "phase \<Rightarrow> phase" where
  "crash_phase (Answered a) = Answered a"
| "crash_phase _ = Crashed"

fun act_step :: "platform \<Rightarrow> (int \<Rightarrow> string) \<Rightarrow> act \<Rightarrow> system \<Rightarrow> system" where
  "act_step pl iso_string (Submit p cx raw lease) s = (case begin_submit pl p cx raw lease of Inl a \<Rightarrow> s
     | Inr w \<Rightarrow> s\<lparr>sys_workers := sys_workers s @ [(w, Bound)]\<rparr>)"
| "act_step pl iso_string (Step i fate at_ms now newId) s =
     (if i < length (sys_workers s)
      then (case sys_workers s ! i of (w, ph) \<Rightarrow>
        (case fated fate ph (sys_db s) (advance pl iso_string w at_ms now newId ph (sys_db s)) of (ph', db') \<Rightarrow>
          \<lparr>sys_db = db', sys_workers = (sys_workers s)[i := (w, ph')]\<rparr>))
      else s)"
| "act_step pl iso_string (Crash i) s =
     (if i < length (sys_workers s)
      then (case sys_workers s ! i of (w, ph) \<Rightarrow> s\<lparr>sys_workers := (sys_workers s)[i := (w, crash_phase ph)]\<rparr>)
      else s)"
| "act_step pl iso_string (Elsewhere op) s = s\<lparr>sys_db := (sys_db s)\<lparr>domain := field_step iso_string op (domain (sys_db s))\<rparr>\<rparr>"
| "act_step pl iso_string (Lease_Issued org i) s = s\<lparr>sys_db := (sys_db s)\<lparr>policy_leases := policy_leases (sys_db s) @ [(org, i)]\<rparr>\<rparr>"

definition empty_system :: system where
  "empty_system = \<lparr>sys_db = \<lparr>cursors = [], receipts = [], replay_audits = [], policy_leases = [], domain = empty_field_db\<rparr>,
     sys_workers = []\<rparr>"

abbreviation replay_run :: "platform \<Rightarrow> (int \<Rightarrow> string) \<Rightarrow> act list \<Rightarrow> system" where
  "replay_run pl iso_string acts \<equiv> fold (act_step pl iso_string) acts empty_system"

end
