(* ===== verification/Offline_Replay_Tables.thy ===== *)
theory Offline_Replay_Tables
  imports Offline_Replay
begin

text \<open>
  The invariant of the cursor and receipt tables and its preservation by every repository
  transaction. The receipts of a namespace are its lane: they hold the positions 0, 1, 2, ... in
  order, all settled but possibly the last, and the cursor stands at the last settled one.
\<close>

definition lane :: "replay_namespace \<Rightarrow> replay_db \<Rightarrow> receipt list" where
  "lane ns db = filter (\<lambda>r. rr_namespace r = ns) (receipts db)"

definition cursor_of :: "nat \<Rightarrow> int option" where
  "cursor_of n = (if n = 0 then None else Some (int n - 1))"

definition lane_ok :: "receipt list \<Rightarrow> int option option \<Rightarrow> bool" where
  "lane_ok L c \<longleftrightarrow> map rr_deviceSequence L = map int [0..<length L] \<and> int (length L) \<le> MAX_OFFLINE_DEVICE_SEQUENCE + 1
     \<and> (\<exists>F R. L = F @ R \<and> list_all isFinalized F \<and> (R = [] \<or> (\<exists>r. R = [r] \<and> \<not> isFinalized r))
          \<and> (case c of None \<Rightarrow> L = [] | Some lastFinalized \<Rightarrow> lastFinalized = cursor_of (length F)))"

text \<open>What each status says about the other columns.\<close>

definition receipt_shape :: "receipt \<Rightarrow> bool" where
  "receipt_shape r \<longleftrightarrow> (case rr_status r of
       RECEIVED \<Rightarrow> rr_attemptCount r = 0 \<and> rr_outcome r = None \<and> rr_finalizedAt r = None
     | APPLYING \<Rightarrow> 1 \<le> rr_attemptCount r \<and> rr_outcome r = None \<and> rr_finalizedAt r = None \<and> rr_processingClaimedAt r \<noteq> None
     | UNKNOWN_STATUS \<Rightarrow> 1 \<le> rr_attemptCount r \<and> rr_outcome r = None \<and> rr_finalizedAt r = None
     | APPLIED \<Rightarrow> 1 \<le> rr_attemptCount r \<and> rr_outcome r = Some APPLIED \<and> rr_finalizedAt r \<noteq> None
         \<and> rr_conflictCode r = None \<and> rr_resultRef r \<noteq> None \<and> toSnapshot (rr_resultSnapshot r) = rr_resultSnapshot r
     | REJECTED \<Rightarrow> 1 \<le> rr_attemptCount r \<and> rr_outcome r = Some REJECTED \<and> rr_finalizedAt r \<noteq> None
         \<and> rr_conflictCode r = Some DOMAIN_REJECTED \<and> rr_resultRef r = None
         \<and> toSnapshot (rr_resultSnapshot r) = rr_resultSnapshot r)"

definition operation_key :: "receipt \<Rightarrow> replay_namespace \<times> string" where
  "operation_key r = (rr_namespace r, rr_offlineOperationId r)"

definition tables_ok :: "replay_db \<Rightarrow> bool" where
  "tables_ok db \<longleftrightarrow> distinct (map rr_id (receipts db)) \<and> distinct (map operation_key (receipts db))
     \<and> (\<forall>ns. lane_ok (lane ns db) (map_of (cursors db) ns)) \<and> (\<forall>r\<in>set (receipts db). receipt_shape r)"

lemma isFinalized_iff: "isFinalized r \<longleftrightarrow> rr_status r \<in> {APPLIED, REJECTED}"
  by (auto simp: isFinalized_def offlineReceiptAdvancesCursor_def OFFLINE_CURSOR_ADVANCING_STATUSES_def)

lemma in_lane: "r \<in> set (lane ns db) \<longleftrightarrow> r \<in> set (receipts db) \<and> rr_namespace r = ns"
  by (auto simp: lane_def)

lemma lane_cong: "receipts db' = receipts db \<Longrightarrow> lane ns db' = lane ns db"
  by (simp add: lane_def)

lemma tables_ok_cong: "receipts db' = receipts db \<Longrightarrow> cursors db' = cursors db \<Longrightarrow> tables_ok db' = tables_ok db"
  by (simp add: tables_ok_def lane_def)

lemma next_cursor_of: "int n \<le> MAX_OFFLINE_DEVICE_SEQUENCE + 1 \<Longrightarrow>
    nextExpectedOfflineSequence (cursor_of n) = (if int n \<le> MAX_OFFLINE_DEVICE_SEQUENCE then Some (int n) else None)"
  by (auto simp: nextExpectedOfflineSequence_def cursor_of_def OFFLINE_SEQUENCE_START_def MAX_OFFLINE_DEVICE_SEQUENCE_def)

lemma lane_position:
  assumes "map rr_deviceSequence L = map int [0..<length L]" "k < length L"
  shows "rr_deviceSequence (L ! k) = int k"
  using assms by (metis diff_zero length_map map_nth nth_map length_upt add_0 nth_upt)

text \<open>The open receipt of a lane is its last, and the cursor expects its position.\<close>

lemma lane_open:
  assumes "lane_ok L c" "r \<in> set L" "\<not> isFinalized r"
  obtains F where "L = F @ [r]" "list_all isFinalized F" "rr_deviceSequence r = int (length F)"
    "c = Some (cursor_of (length F))" "int (length F) \<le> MAX_OFFLINE_DEVICE_SEQUENCE"
proof -
  from assms(1) obtain F R where L: "L = F @ R" "list_all isFinalized F" "R = [] \<or> (\<exists>r. R = [r] \<and> \<not> isFinalized r)"
      "case c of None \<Rightarrow> L = [] | Some lastFinalized \<Rightarrow> lastFinalized = cursor_of (length F)"
    and seqs: "map rr_deviceSequence L = map int [0..<length L]" "int (length L) \<le> MAX_OFFLINE_DEVICE_SEQUENCE + 1"
    unfolding lane_ok_def by blast
  have R: "R = [r]" using L assms(2,3) by (auto simp: list_all_iff)
  then have "rr_deviceSequence r = int (length F)"
    using lane_position[OF seqs(1), of "length F"] by (simp add: L(1) nth_append)
  moreover have "c = Some (cursor_of (length F))" using L(1,4) R by (cases c) auto
  ultimately show ?thesis using that L R seqs(2) by simp
qed

lemma lane_settled:
  assumes "lane_ok L c" "r \<in> set L" "isFinalized r"
  obtains n where "c = Some (Some n)" "rr_deviceSequence r \<le> n" "0 \<le> rr_deviceSequence r" "n \<le> MAX_OFFLINE_DEVICE_SEQUENCE"
proof -
  from assms(1) obtain F R where L: "L = F @ R" "R = [] \<or> (\<exists>r. R = [r] \<and> \<not> isFinalized r)"
      "case c of None \<Rightarrow> L = [] | Some lastFinalized \<Rightarrow> lastFinalized = cursor_of (length F)"
    and seqs: "map rr_deviceSequence L = map int [0..<length L]" "int (length L) \<le> MAX_OFFLINE_DEVICE_SEQUENCE + 1"
    unfolding lane_ok_def by blast
  have "r \<in> set F" using L assms(2,3) by auto
  then obtain k where k: "k < length F" "r = F ! k" by (auto simp: in_set_conv_nth)
  then have "rr_deviceSequence r = int k" using lane_position[OF seqs(1), of k] by (simp add: L(1) nth_append)
  moreover have "c = Some (Some (int (length F) - 1))"
    using L(1,3) k(1) by (cases c) (auto simp: cursor_of_def)
  ultimately show ?thesis using that[of "int (length F) - 1"] k(1) seqs(2) L(1) by simp
qed

subsection \<open>Updating one receipt\<close>

lemma update_ids [simp]: "(\<And>r. rr_id (f r) = rr_id r) \<Longrightarrow> map rr_id (update_receipt i f rs) = map rr_id rs"
  by (induction rs) (simp_all add: update_receipt_def)

lemma update_none [simp]: "i \<notin> rr_id ` set rs \<Longrightarrow> update_receipt i f rs = rs"
  by (induction rs) (auto simp: update_receipt_def)

lemma update_append [simp]: "update_receipt i f (xs @ ys) = update_receipt i f xs @ update_receipt i f ys"
  by (simp add: update_receipt_def)

lemma update_single [simp]: "update_receipt i f [r] = [if rr_id r = i then f r else r]"
  by (simp add: update_receipt_def)

lemma in_update: "r \<in> set (update_receipt i f rs) \<longleftrightarrow>
    (\<exists>q\<in>set rs. rr_id q = i \<and> r = f q) \<or> (r \<in> set rs \<and> rr_id r \<noteq> i)"
  by (auto simp: update_receipt_def)

lemma update_map: "(\<And>r. g (f r) = g r) \<Longrightarrow> map g (update_receipt i f rs) = map g rs"
  by (induction rs) (simp_all add: update_receipt_def)

lemma lane_update: "(\<And>r. rr_namespace (f r) = rr_namespace r) \<Longrightarrow>
    filter (\<lambda>r. rr_namespace r = ns) (update_receipt i f rs) = update_receipt i f (filter (\<lambda>r. rr_namespace r = ns) rs)"
  by (induction rs) (simp_all add: update_receipt_def)

lemma same_receipt: "distinct (map rr_id rs) \<Longrightarrow> r \<in> set rs \<Longrightarrow> q \<in> set rs \<Longrightarrow> rr_id r = rr_id q \<Longrightarrow> r = q"
  by (metis distinct_map inj_onD)

text \<open>
  A receipt that is open is updated in place: the lane keeps its positions, and the cursor moves
  exactly when the receipt is settled by the update.
\<close>

lemma tables_ok_update:
  assumes ok: "tables_ok db" and r: "r \<in> set (receipts db)" "\<not> isFinalized r"
    and f: "\<And>q. rr_id (f q) = rr_id q" "\<And>q. rr_namespace (f q) = rr_namespace q"
      "\<And>q. rr_deviceSequence (f q) = rr_deviceSequence q" "\<And>q. operation_key (f q) = operation_key q"
    and shape: "receipt_shape (f r)"
    and rs: "receipts db' = update_receipt (rr_id r) f (receipts db)"
    and cs: "\<And>ns. ns \<noteq> rr_namespace r \<Longrightarrow> map_of (cursors db') ns = map_of (cursors db) ns"
      "map_of (cursors db') (rr_namespace r) =
        (if isFinalized (f r) then Some (Some (rr_deviceSequence r)) else map_of (cursors db) (rr_namespace r))"
  shows "tables_ok db'"
proof -
  have ids: "distinct (map rr_id (receipts db))" and lanes: "\<And>ns. lane_ok (lane ns db) (map_of (cursors db) ns)"
    using ok by (simp_all add: tables_ok_def)
  have "lane_ok (lane ns db') (map_of (cursors db') ns)" for ns
  proof (cases "ns = rr_namespace r")
    case False
    have "lane ns db' = update_receipt (rr_id r) f (lane ns db)"
      by (simp add: lane_def rs lane_update f)
    moreover have "rr_id r \<notin> rr_id ` set (lane ns db)"
      using False same_receipt[OF ids r(1)] by (force simp: in_lane)
    ultimately show ?thesis using lanes[of ns] cs(1)[OF False] by simp
  next
    case True
    obtain F where F: "lane ns db = F @ [r]" "list_all isFinalized F" "rr_deviceSequence r = int (length F)"
        "map_of (cursors db) ns = Some (cursor_of (length F))" "int (length F) \<le> MAX_OFFLINE_DEVICE_SEQUENCE"
      using r True by (rule_tac lane_open[OF lanes[of ns], of r]) (simp_all add: in_lane)
    have "distinct (map rr_id (lane ns db))" using ids by (simp add: lane_def distinct_map_filter)
    then have "rr_id r \<notin> rr_id ` set F" by (simp add: F(1))
    then have L: "lane ns db' = F @ [f r]"
      using F(1) by (simp add: lane_def rs lane_update f)
    have seqs: "map rr_deviceSequence (F @ [f r]) = map int [0..<length (F @ [f r])]"
      using lanes[of ns] by (simp add: lane_ok_def F(1) f)
    show ?thesis
    proof (cases "isFinalized (f r)")
      case True
      then have "map_of (cursors db') ns = Some (cursor_of (length (F @ [f r])))"
        using cs(2) \<open>ns = rr_namespace r\<close> F(3) by (simp add: cursor_of_def)
      then show ?thesis unfolding L lane_ok_def
        using seqs F(2,5) True by (intro conjI exI[of _ "F @ [f r]"] exI[of _ "[]"]) auto
    next
      case False
      then have "map_of (cursors db') ns = Some (cursor_of (length F))" using cs(2) \<open>ns = rr_namespace r\<close> F(4) by simp
      then show ?thesis unfolding L lane_ok_def
        using seqs F(2,5) False by (intro conjI exI[of _ F] exI[of _ "[f r]"]) auto
    qed
  qed
  moreover have "distinct (map rr_id (receipts db'))" using ids by (simp add: rs f)
  moreover have "distinct (map operation_key (receipts db'))" using ok by (simp add: tables_ok_def rs update_map f)
  moreover have "receipt_shape q" if "q \<in> set (receipts db')" for q
    using that ok shape same_receipt[OF ids _ r(1)] by (auto simp: rs in_update tables_ok_def)
  ultimately show ?thesis by (simp add: tables_ok_def)
qed

subsection \<open>What never changes\<close>

text \<open>A receipt keeps its identity, its attempts only grow, and once settled it is not written again.\<close>

definition identity :: "receipt \<Rightarrow> receipt" where
  "identity r = r\<lparr>rr_status := RECEIVED, rr_outcome := None, rr_conflictCode := None, rr_resultRef := None,
     rr_resultSnapshot := None, rr_processingClaimedAt := None, rr_attemptCount := 0, rr_finalizedAt := None\<rparr>"

definition receipt_before :: "receipt \<Rightarrow> receipt \<Rightarrow> bool" where
  "receipt_before r q \<longleftrightarrow> identity q = identity r \<and> rr_attemptCount r \<le> rr_attemptCount q \<and> (isFinalized r \<longrightarrow> q = r)"

definition receipts_before :: "receipt list \<Rightarrow> receipt list \<Rightarrow> bool" where
  "receipts_before rs qs \<longleftrightarrow> (\<exists>xs ys. qs = xs @ ys \<and> list_all2 receipt_before rs xs)"

fun cursor_before :: "int option \<Rightarrow> int option \<Rightarrow> bool" where
  "cursor_before None c \<longleftrightarrow> True"
| "cursor_before (Some m) c \<longleftrightarrow> (\<exists>n. c = Some n \<and> m \<le> n)"

definition cursors_before :: "(replay_namespace \<times> int option) list \<Rightarrow> (replay_namespace \<times> int option) list \<Rightarrow> bool" where
  "cursors_before cs ds \<longleftrightarrow> (\<forall>ns c. map_of cs ns = Some c \<longrightarrow> (\<exists>d. map_of ds ns = Some d \<and> cursor_before c d))"

definition replay_before :: "replay_db \<Rightarrow> replay_db \<Rightarrow> bool" where
  "replay_before db db' \<longleftrightarrow> receipts_before (receipts db) (receipts db') \<and> cursors_before (cursors db) (cursors db')
     \<and> field_before (domain db) (domain db') \<and> grows (replay_audits db) (replay_audits db')"

lemma identity_simps:
  assumes "identity q = identity r"
  shows "rr_id q = rr_id r" "rr_namespace q = rr_namespace r" "rr_deviceSequence q = rr_deviceSequence r"
    "rr_offlineOperationId q = rr_offlineOperationId r" "rr_operationKind q = rr_operationKind r"
    "rr_requestFingerprint q = rr_requestFingerprint r" "rr_downstreamIdempotencyKey q = rr_downstreamIdempotencyKey r"
  using assms by (cases q; cases r; simp add: identity_def)+

lemma receipt_before_refl [simp]: "receipt_before r r"
  by (simp add: receipt_before_def)

lemma receipt_before_trans: "receipt_before a b \<Longrightarrow> receipt_before b c \<Longrightarrow> receipt_before a c"
  by (auto simp: receipt_before_def)

lemma receipts_before_refl [simp]: "receipts_before rs rs"
  unfolding receipts_before_def by (intro exI[of _ rs] exI[of _ "[]"]) (simp add: list_all2_refl)

lemma receipts_before_trans:
  assumes "receipts_before a b" "receipts_before b c" shows "receipts_before a c"
proof -
  from assms obtain b1 b2 c1 c2 where b: "b = b1 @ b2" "list_all2 receipt_before a b1"
      and c: "c = c1 @ c2" "list_all2 receipt_before b c1"
    by (auto simp: receipts_before_def)
  from b(1) c(2) obtain d1 d2 where d: "c1 = d1 @ d2" "list_all2 receipt_before b1 d1"
    by (auto simp: list_all2_append1)
  have "list_all2 receipt_before a d1"
    by (rule list_all2_trans[OF _ b(2) d(2)]) (rule receipt_before_trans)
  with c(1) d(1) show ?thesis unfolding receipts_before_def by (intro exI[of _ d1] exI[of _ "d2 @ c2"]) simp
qed

lemma receipts_before_in: "receipts_before rs qs \<Longrightarrow> r \<in> set rs \<Longrightarrow> \<exists>q\<in>set qs. receipt_before r q"
  by (fastforce simp: receipts_before_def list_all2_conv_all_nth in_set_conv_nth nth_append)

lemma cursor_before_refl [simp]: "cursor_before c c"
  by (cases c) auto

lemma cursor_before_trans: "cursor_before a b \<Longrightarrow> cursor_before b c \<Longrightarrow> cursor_before a c"
  by (cases a) auto

lemma cursors_before_refl [simp]: "cursors_before cs cs"
  by (simp add: cursors_before_def)

lemma cursors_before_trans: "cursors_before a b \<Longrightarrow> cursors_before b c \<Longrightarrow> cursors_before a c"
  unfolding cursors_before_def by (meson cursor_before_trans)

lemma field_before_refl [simp]: "field_before d d"
  by (simp add: field_before_def)

lemma replay_before_refl [simp]: "replay_before db db"
  by (simp add: replay_before_def)

lemma replay_before_trans: "replay_before a b \<Longrightarrow> replay_before b c \<Longrightarrow> replay_before a c"
  unfolding replay_before_def by (meson receipts_before_trans cursors_before_trans field_before_trans grows_trans)

lemma receipts_before_append [simp]: "receipts_before rs (rs @ qs)"
  unfolding receipts_before_def by (intro exI[of _ rs] exI[of _ qs]) (simp add: list_all2_refl)

lemma receipts_before_update:
  assumes "distinct (map rr_id rs)" "r \<in> set rs" "receipt_before r (f r)"
  shows "receipts_before rs (update_receipt (rr_id r) f rs)"
proof -
  have "receipt_before q (if rr_id q = rr_id r then f q else q)" if "q \<in> set rs" for q
    using same_receipt[OF assms(1) that assms(2)] assms(3) by auto
  then have "list_all2 receipt_before rs (update_receipt (rr_id r) f rs)"
    by (simp add: update_receipt_def list_all2_conv_all_nth)
  then show ?thesis unfolding receipts_before_def by (intro exI[of _ "update_receipt (rr_id r) f rs"] exI[of _ "[]"]) simp
qed

lemma map_of_advance: "map_of (advance_cursor ns sq cs) n =
    map_option (\<lambda>c. if n = ns \<and> (\<forall>k\<in>set_option c. k < sq) then Some sq else c) (map_of cs n)"
  by (induction cs) (auto simp: advance_cursor_def)

lemma cursors_before_advance: "cursors_before cs (advance_cursor ns sq cs)"
proof -
  have "cursor_before c (Some sq)" if "\<forall>k\<in>set_option c. k < sq" for c using that by (cases c) auto
  then show ?thesis by (simp add: cursors_before_def map_of_advance)
qed

subsection \<open>The transactions\<close>

lemma ensure_cases:
  obtains (kept) "snd (ensureCursor ns db) = db" "fst (ensureCursor ns db) = None \<Longrightarrow> map_of (cursors db) ns \<noteq> None"
  | (made) "ensureCursor ns db = (None, db\<lparr>cursors := cursors db @ [(ns, None)]\<rparr>)" "map_of (cursors db) ns = None"
  by (cases "map_of (cursors db) ns"; cases "siteExistsInOrganisation (ns_organisation_id ns) (ns_site_id ns) (domain db)")
    (auto simp: ensureCursor_def)

lemma ensure_cursor:
  assumes "tables_ok db"
  shows "tables_ok (snd (ensureCursor ns db))" "replay_before db (snd (ensureCursor ns db))"
    "fst (ensureCursor ns db) = None \<Longrightarrow> map_of (cursors (snd (ensureCursor ns db))) ns \<noteq> None"
proof -
  have made: "tables_ok db'" if "map_of (cursors db) ns = None" "db' = db\<lparr>cursors := cursors db @ [(ns, None)]\<rparr>" for db'
  proof -
    have L: "lane_ok (lane n db) (map_of (cursors db) n)" for n using assms by (simp add: tables_ok_def)
    have "lane ns db = []" using L[of ns] that(1) by (auto simp: lane_ok_def)
    moreover have "lane_ok [] (Some None)"
      by (simp add: lane_ok_def cursor_of_def MAX_OFFLINE_DEVICE_SEQUENCE_def)
    moreover have "map_of (cursors db @ [(ns, None)]) n = (if n = ns then Some None else map_of (cursors db) n)" for n
      using that(1) by (simp add: map_add_def split: option.splits)
    ultimately have "lane_ok (lane n db) (map_of (cursors db @ [(ns, None)]) n)" for n
      using L[of n] by (cases "n = ns") simp_all
    then show ?thesis using assms by (simp add: tables_ok_def that(2) lane_def)
  qed
  have grown: "replay_before db (db\<lparr>cursors := cursors db @ [(ns, None)]\<rparr>)"
    by (simp add: replay_before_def cursors_before_def map_add_def)
  show "tables_ok (snd (ensureCursor ns db))" "replay_before db (snd (ensureCursor ns db))"
    "fst (ensureCursor ns db) = None \<Longrightarrow> map_of (cursors (snd (ensureCursor ns db))) ns \<noteq> None"
    by (cases rule: ensure_cases[of ns db]; simp add: assms made grown map_add_def)+
qed

lemma claim_cases:
  obtains (claimed) r where "r \<in> set (receipts db)" "rr_id r = i" "claimable now r"
      "claimForProcessing i now db = (Some (rr_attemptCount r + 1), db\<lparr>receipts := update_receipt (rr_id r)
        (\<lambda>r. r\<lparr>rr_status := APPLYING, rr_processingClaimedAt := Some now, rr_attemptCount := rr_attemptCount r + 1\<rparr>)
        (receipts db)\<rparr>)"
  | (kept) "claimForProcessing i now db = (None, db)"
proof (cases "getReceiptById i db")
  case None
  then show ?thesis by (intro kept) (simp add: claimForProcessing_def)
next
  case (Some r)
  then have r: "r \<in> set (receipts db)" "rr_id r = i" by (auto simp: getReceiptById_def dest: find_SomeD)
  show ?thesis
    using claimed[OF r] kept r(2) by (cases "claimable now r") (simp_all add: claimForProcessing_def Some)
qed

lemma claimable_open: "claimable now r \<Longrightarrow> \<not> isFinalized r"
  by (auto simp: claimable_def isFinalized_iff)

lemma claim:
  assumes "tables_ok db"
  shows "tables_ok (snd (claimForProcessing i now db))" "replay_before db (snd (claimForProcessing i now db))"
proof -
  let ?f = "\<lambda>r. r\<lparr>rr_status := APPLYING, rr_processingClaimedAt := Some now, rr_attemptCount := rr_attemptCount r + 1\<rparr>"
  have shape: "receipt_shape (?f r)" if "r \<in> set (receipts db)" "claimable now r" for r
    using that assms by (auto simp: tables_ok_def receipt_shape_def claimable_def split: receipt_status.splits)
  have "tables_ok (db\<lparr>receipts := update_receipt (rr_id r) ?f (receipts db)\<rparr>)
      \<and> replay_before db (db\<lparr>receipts := update_receipt (rr_id r) ?f (receipts db)\<rparr>)"
    if "r \<in> set (receipts db)" "claimable now r" for r
  proof
    show "tables_ok (db\<lparr>receipts := update_receipt (rr_id r) ?f (receipts db)\<rparr>)"
      by (rule tables_ok_update[OF assms that(1) claimable_open[OF that(2)], of ?f])
        (simp_all add: operation_key_def shape that isFinalized_iff)
    have "receipt_before r (?f r)" using claimable_open[OF that(2)] by (simp add: receipt_before_def identity_def)
    then show "replay_before db (db\<lparr>receipts := update_receipt (rr_id r) ?f (receipts db)\<rparr>)"
      using assms that(1) by (simp add: replay_before_def tables_ok_def receipts_before_update)
  qed
  then show "tables_ok (snd (claimForProcessing i now db))" "replay_before db (snd (claimForProcessing i now db))"
    by (cases rule: claim_cases[of db i now]; auto simp: assms)+
qed

definition verdict_ok :: "finalize_input \<Rightarrow> bool" where
  "verdict_ok v \<longleftrightarrow> ((\<exists>f. v = applied_verdict f) \<or> (\<exists>s. v = rejected_verdict s))
     \<and> toSnapshot (vd_resultSnapshot v) = vd_resultSnapshot v"

definition settled_with :: "finalize_input \<Rightarrow> int \<Rightarrow> receipt \<Rightarrow> receipt" where
  "settled_with v now q = q\<lparr>rr_status := vd_outcome v, rr_outcome := Some (vd_outcome v), rr_conflictCode := vd_conflictCode v,
     rr_resultRef := vd_resultRef v, rr_resultSnapshot := vd_resultSnapshot v, rr_finalizedAt := Some now\<rparr>"

lemma settled_simps [simp]:
  "rr_id (settled_with v now q) = rr_id q" "rr_namespace (settled_with v now q) = rr_namespace q"
  "rr_deviceSequence (settled_with v now q) = rr_deviceSequence q"
  "rr_offlineOperationId (settled_with v now q) = rr_offlineOperationId q"
  "rr_operationKind (settled_with v now q) = rr_operationKind q"
  "rr_requestFingerprint (settled_with v now q) = rr_requestFingerprint q"
  "rr_downstreamIdempotencyKey (settled_with v now q) = rr_downstreamIdempotencyKey q"
  "identity (settled_with v now q) = identity q" "rr_attemptCount (settled_with v now q) = rr_attemptCount q"
  "rr_status (settled_with v now q) = vd_outcome v" "rr_outcome (settled_with v now q) = Some (vd_outcome v)"
  "rr_resultRef (settled_with v now q) = vd_resultRef v" "rr_resultSnapshot (settled_with v now q) = vd_resultSnapshot v"
  "rr_finalizedAt (settled_with v now q) = Some now"
  by (simp_all add: settled_with_def identity_def)

lemma verdict_settles: "verdict_ok v \<Longrightarrow> isFinalized (settled_with v now q)"
  by (auto simp: verdict_ok_def isFinalized_iff applied_verdict_def rejected_verdict_def)

lemma fencedE:
  assumes "fenced i g db"
  obtains q where "q \<in> set (receipts db)" "rr_id q = i" "rr_status q = APPLYING" "rr_attemptCount q = g"
  using assms by (auto simp: fenced_def list_ex_iff)

lemma finalize_cases:
  obtains (finalized) q where "q \<in> set (receipts db)" "rr_id q = rr_id r" "rr_status q = APPLYING" "rr_attemptCount q = g"
      "snd (finalizeAndAdvance r g v trace now db) = db\<lparr>receipts := update_receipt (rr_id q) (settled_with v now) (receipts db),
         cursors := advance_cursor (rr_namespace r) (rr_deviceSequence r) (cursors db),
         replay_audits := replay_audits db @ [audited r AUDIT_OFFLINE_OPERATION_FINALIZED (vd_outcome v) (vd_conflictCode v) trace]\<rparr>"
      "fst (finalizeAndAdvance r g v trace now db) =
         Finalized now (readCursor (rr_namespace r) (snd (finalizeAndAdvance r g v trace now db)))"
  | (lost) "finalizeAndAdvance r g v trace now db = (Fence_Lost, db)"
proof (cases "fenced (rr_id r) g db")
  case True
  then obtain q where "q \<in> set (receipts db)" "rr_id q = rr_id r" "rr_status q = APPLYING" "rr_attemptCount q = g"
    by (rule fencedE)
  then show ?thesis using True by (intro finalized[of q]) (simp_all add: finalizeAndAdvance_def Let_def settled_with_def[abs_def])
qed (simp add: lost finalizeAndAdvance_def)

lemma finalized_tables:
  assumes ok: "tables_ok db" and q: "q \<in> set (receipts db)" "\<not> isFinalized q" "1 \<le> rr_attemptCount q" and v: "verdict_ok v"
    and db': "receipts db' = update_receipt (rr_id q) (settled_with v now) (receipts db)"
      "cursors db' = advance_cursor (rr_namespace q) (rr_deviceSequence q) (cursors db)"
  shows "tables_ok db'" "receipts_before (receipts db) (receipts db')"
    "readCursor (rr_namespace q) db' = Some (rr_deviceSequence q)"
proof -
  have lanes: "lane_ok (lane (rr_namespace q) db) (map_of (cursors db) (rr_namespace q))" using ok by (simp add: tables_ok_def)
  have member: "q \<in> set (lane (rr_namespace q) db)" using q(1) by (simp add: in_lane)
  obtain F where F: "lane (rr_namespace q) db = F @ [q]" "list_all isFinalized F" "rr_deviceSequence q = int (length F)"
      "map_of (cursors db) (rr_namespace q) = Some (cursor_of (length F))" "int (length F) \<le> MAX_OFFLINE_DEVICE_SEQUENCE"
    by (rule lane_open[OF lanes member q(2)])
  have cursor: "map_of (cursors db') (rr_namespace q) = Some (Some (rr_deviceSequence q))"
    using F(3,4) by (auto simp: db' map_of_advance cursor_of_def)
  have shape: "receipt_shape (settled_with v now q)"
    using v q(3) by (auto simp: verdict_ok_def receipt_shape_def settled_with_def applied_verdict_def rejected_verdict_def)
  have key: "operation_key (settled_with v now x) = operation_key x" for x by (simp add: operation_key_def)
  have others: "map_of (cursors db') ns = map_of (cursors db) ns" if "ns \<noteq> rr_namespace q" for ns
    using that by (cases "map_of (cursors db) ns") (simp_all add: db' map_of_advance)
  show "tables_ok db'"
    by (rule tables_ok_update[OF ok q(1,2), of "settled_with v now"])
      (simp_all add: key shape db'(1) others cursor verdict_settles[OF v])
  show "receipts_before (receipts db) (receipts db')"
    using ok q(1,2) unfolding db' by (intro receipts_before_update) (simp_all add: tables_ok_def receipt_before_def)
  show "readCursor (rr_namespace q) db' = Some (rr_deviceSequence q)" by (simp add: readCursor_def cursor)
qed

lemma finalize:
  assumes "tables_ok db" "q0 \<in> set (receipts db)" "identity q0 = identity r" "verdict_ok v"
  shows "tables_ok (snd (finalizeAndAdvance r g v trace now db))"
    "replay_before db (snd (finalizeAndAdvance r g v trace now db))"
    "fst (finalizeAndAdvance r g v trace now db) = Finalized t c \<Longrightarrow> t = now \<and> c = Some (rr_deviceSequence r)
       \<and> (\<exists>q\<in>set (receipts db). identity q = identity r \<and> \<not> isFinalized q \<and> settled_with v now q \<in> set (receipts (snd (finalizeAndAdvance r g v trace now db))))"
proof -
  note same = identity_simps[OF assms(3)]
  have fin: "tables_ok db' \<and> replay_before db db' \<and> readCursor (rr_namespace r) db' = Some (rr_deviceSequence r)
      \<and> identity q = identity r \<and> settled_with v now q \<in> set (receipts db')"
    if "q \<in> set (receipts db)" "rr_id q = rr_id r" "rr_status q = APPLYING"
      "db' = db\<lparr>receipts := update_receipt (rr_id q) (settled_with v now) (receipts db),
         cursors := advance_cursor (rr_namespace r) (rr_deviceSequence r) (cursors db), replay_audits := replay_audits db @ [a]\<rparr>" for q db' a
  proof -
    have "q = q0" using assms(1,2) that(1,2) same(1) by (intro same_receipt[of "receipts db"]) (simp_all add: tables_ok_def)
    then have q: "rr_namespace q = rr_namespace r" "rr_deviceSequence q = rr_deviceSequence r" "identity q = identity r"
      using same assms(3) by simp_all
    have "1 \<le> rr_attemptCount q" using assms(1) that(1,3) by (auto simp: tables_ok_def receipt_shape_def)
    then have "tables_ok db'" "receipts_before (receipts db) (receipts db')" "readCursor (rr_namespace q) db' = Some (rr_deviceSequence q)"
      using that q by (rule_tac finalized_tables[OF assms(1) that(1) _ _ assms(4), of db' now]; simp add: isFinalized_iff)+
    moreover have "settled_with v now q \<in> set (receipts db')" using that(1,4) by (auto simp: in_update)
    ultimately show ?thesis using q that(4) by (simp add: replay_before_def cursors_before_advance)
  qed
  show "tables_ok (snd (finalizeAndAdvance r g v trace now db))"
    "replay_before db (snd (finalizeAndAdvance r g v trace now db))"
    by (cases rule: finalize_cases[of db r g v trace now]; use fin assms(1) in force)+
  show "fst (finalizeAndAdvance r g v trace now db) = Finalized t c \<Longrightarrow> t = now \<and> c = Some (rr_deviceSequence r)
       \<and> (\<exists>q\<in>set (receipts db). identity q = identity r \<and> \<not> isFinalized q \<and> settled_with v now q \<in> set (receipts (snd (finalizeAndAdvance r g v trace now db))))"
  proof (cases rule: finalize_cases[of db r g v trace now])
    case (finalized q)
    moreover assume "fst (finalizeAndAdvance r g v trace now db) = Finalized t c"
    ultimately show ?thesis using fin[OF finalized(1-3) finalized(5)] by (auto simp: isFinalized_iff)
  qed simp
qed

lemma mark:
  assumes "tables_ok db"
  shows "tables_ok (snd (markUnknown r g trace db))" "replay_before db (snd (markUnknown r g trace db))"
proof -
  let ?f = "\<lambda>q. q\<lparr>rr_status := UNKNOWN_STATUS\<rparr>"
  have "tables_ok (db\<lparr>receipts := update_receipt (rr_id q) ?f (receipts db), replay_audits := as\<rparr>)
      \<and> receipts_before (receipts db) (update_receipt (rr_id q) ?f (receipts db))"
    if "q \<in> set (receipts db)" "rr_status q = APPLYING" for q as
  proof
    have shape: "receipt_shape (?f q)" using assms that by (auto simp: tables_ok_def receipt_shape_def)
    show "tables_ok (db\<lparr>receipts := update_receipt (rr_id q) ?f (receipts db), replay_audits := as\<rparr>)"
      by (rule tables_ok_update[OF assms that(1), of ?f])
        (simp_all add: operation_key_def shape that(2) isFinalized_iff)
    show "receipts_before (receipts db) (update_receipt (rr_id q) ?f (receipts db))"
      using assms that by (intro receipts_before_update) (simp_all add: tables_ok_def receipt_before_def identity_def isFinalized_iff)
  qed
  then show "tables_ok (snd (markUnknown r g trace db))" "replay_before db (snd (markUnknown r g trace db))"
    using assms fencedE[of "rr_id r" g db] by (auto simp: markUnknown_def replay_before_def Let_def) metis+
qed

subsection \<open>Admission\<close>

text \<open>The receipt is about this request: its namespace, its position, its fingerprint.\<close>

definition about :: "platform \<Rightarrow> replay_namespace \<Rightarrow> offline_operation \<Rightarrow> receipt \<Rightarrow> bool" where
  "about pl ns o' r \<longleftrightarrow> rr_namespace r = ns \<and> rr_deviceSequence r = fo_device_sequence o'
     \<and> rr_requestFingerprint r = fingerprintOfflineSemanticRequest pl ns o'"

lemma about_identity: "identity q = identity r \<Longrightarrow> about pl ns o' q = about pl ns o' r"
  using identity_simps[of q r] by (simp add: about_def)

lemma find_sequence_Some: "findReceiptBySequence ns sq db = Some r \<Longrightarrow>
    r \<in> set (receipts db) \<and> rr_namespace r = ns \<and> rr_deviceSequence r = sq"
  by (auto simp: findReceiptBySequence_def dest: find_SomeD)

lemma find_sequence_None: "findReceiptBySequence ns sq db = None \<longleftrightarrow>
    (\<forall>r\<in>set (receipts db). \<not> (rr_namespace r = ns \<and> rr_deviceSequence r = sq))"
  by (auto simp: findReceiptBySequence_def find_None_iff)

lemma classify_cases:
  "classifyOfflineSequence lf sq found = FRESH \<longleftrightarrow> nextExpectedOfflineSequence lf = Some sq"
  "classifyOfflineSequence lf sq found = REPLAY \<Longrightarrow> found = Some True"
  by (auto simp: classifyOfflineSequence_def Let_def split: option.splits if_splits)

lemma admit_replay_cases:
  obtains (created) r lf where "lockCursor ns db = Some lf" "nextExpectedOfflineSequence lf = Some (fo_device_sequence o')"
      "findReceiptBySequence ns (fo_device_sequence o') db = None"
      "admit_replay pl ns o' lease newId now db = (Inr (Admit_Proceed r lf), snd (createReceipt r db))"
      "fst (createReceipt r db) = Inr r" "\<exists>created. r = new_receipt ns o' (fingerprintOfflineSemanticRequest pl ns o')
        (deriveOfflineDownstreamIdempotencyKey pl ns (fo_offline_operation_id o') (fo_operation_kind o')) lease created newId now"
  | (found) r lf where "lockCursor ns db = Some lf" "nextExpectedOfflineSequence lf = Some (fo_device_sequence o')"
      "r \<in> set (receipts db)" "about pl ns o' r" "\<not> isFinalized r"
      "admit_replay pl ns o' lease newId now db = (Inr (Admit_Proceed r lf), db)"
  | (answered) r lf where "lockCursor ns db = Some lf" "r \<in> set (receipts db)" "about pl ns o' r" "isFinalized r"
      "admit_replay pl ns o' lease newId now db = (Inr (Admit_Replay r lf), db)"
  | (refused) code lf where "lockCursor ns db = Some lf"
      "admit_replay pl ns o' lease newId now db = (Inr (Admit_Refuse code (nextExpectedOfflineSequence lf)), db)"
  | (failed) e where "admit_replay pl ns o' lease newId now db = (Inl e, db)"
proof (cases "lockCursor ns db")
  case None
  then show ?thesis by (intro failed) (simp add: admit_replay_def Let_def)
next
  case (Some lf)
  let ?fp = "fingerprintOfflineSemanticRequest pl ns o'" and ?sq = "fo_device_sequence o'"
  let ?found = "findReceiptBySequence ns ?sq db"
  let ?cls = "classifyOfflineSequence lf ?sq (map_option (\<lambda>r. rr_requestFingerprint r = ?fp) ?found)"
  show ?thesis
  proof (cases "\<exists>r\<in>set_option (findReceiptByOperationId ns (fo_offline_operation_id o') db). rr_deviceSequence r \<noteq> ?sq")
    case True
    then show ?thesis using Some by (intro refused[of lf OPERATION_ID_REUSED]) (simp_all add: admit_replay_def Let_def)
  next
    case id: False
    show ?thesis
    proof (cases ?cls)
      case SEQUENCE_GAP
      then show ?thesis using Some id by (intro refused[of lf GAP]) (simp_all add: admit_replay_def Let_def)
    next
      case SEQUENCE_REUSED
      then show ?thesis using Some id by (intro refused[of lf REUSED]) (simp_all add: admit_replay_def Let_def)
    next
      case SEQUENCE_STALE
      then show ?thesis using Some id by (intro refused[of lf STALE]) (simp_all add: admit_replay_def Let_def)
    next
      case REPLAY
      then obtain r where r: "?found = Some r" "rr_requestFingerprint r = ?fp"
        using classify_cases(2)[of lf ?sq] by fastforce
      show ?thesis
      proof (cases "isFinalized r")
        case True
        then show ?thesis using Some id REPLAY r find_sequence_Some[OF r(1)]
          by (intro answered[of lf r]) (simp_all add: admit_replay_def Let_def about_def)
      next
        case False
        then show ?thesis using Some id REPLAY r by (intro refused[of lf UNKNOWN_OUTCOME]) (simp_all add: admit_replay_def Let_def)
      qed
    next
      case FRESH
      then have expects: "nextExpectedOfflineSequence lf = Some ?sq" by (simp add: classify_cases)
      show ?thesis
      proof (cases ?found)
        case (Some r)
        note r = find_sequence_Some[OF Some]
        note run = \<open>lockCursor ns db = Some lf\<close> id FRESH Some
        show ?thesis
        proof (cases "rr_requestFingerprint r = ?fp")
          case False
          then show ?thesis using run by (intro refused[of lf REUSED]) (simp_all add: admit_replay_def Let_def)
        next
          case same: True
          then have about: "about pl ns o' r" using r by (simp add: about_def)
          show ?thesis
          proof (cases "isFinalized r")
            case True
            then show ?thesis using run same about r by (intro answered[of lf r]) (simp_all add: admit_replay_def Let_def)
          next
            case False
            then show ?thesis using run same about r expects by (intro found[of lf r]) (simp_all add: admit_replay_def Let_def)
          qed
        qed
      next
        case None
        show ?thesis
        proof (cases "date_parse pl (fo_created_at o')")
          case None
          then show ?thesis using Some id FRESH \<open>?found = None\<close> by (intro failed) (simp add: admit_replay_def Let_def)
        next
          case (Some created)
          let ?r = "new_receipt ns o' ?fp (deriveOfflineDownstreamIdempotencyKey pl ns (fo_offline_operation_id o') (fo_operation_kind o'))
            lease created newId now"
          have either: "fst (createReceipt ?r db) = Inr ?r \<or> createReceipt ?r db = (Inl Fault, db)"
            by (simp add: createReceipt_def)
          then show ?thesis
          proof
            assume c: "fst (createReceipt ?r db) = Inr ?r"
            then have "admit_replay pl ns o' lease newId now db = (Inr (Admit_Proceed ?r lf), snd (createReceipt ?r db))"
              using Some \<open>lockCursor ns db = Some lf\<close> id FRESH \<open>?found = None\<close>
              by (cases "createReceipt ?r db") (simp add: admit_replay_def Let_def)
            then show ?thesis using created[of lf ?r] \<open>lockCursor ns db = Some lf\<close> expects \<open>?found = None\<close> c by blast
          next
            assume "createReceipt ?r db = (Inl Fault, db)"
            then show ?thesis using Some \<open>lockCursor ns db = Some lf\<close> id FRESH \<open>?found = None\<close>
              by (intro failed[of Fault]) (simp add: admit_replay_def Let_def)
          qed
        qed
      qed
    qed
  qed
qed

lemma create_cases:
  assumes "fst (createReceipt r db) = Inr r"
  shows "rr_id r \<notin> rr_id ` set (receipts db)" "operation_key r \<notin> operation_key ` set (receipts db)"
    "snd (createReceipt r db) = db\<lparr>receipts := receipts db @ [r],
       replay_audits := replay_audits db @ [audited r AUDIT_OFFLINE_OPERATION_RECEIVED RECEIVED None (rr_firstTraceId r)]\<rparr>"
  using assms by (auto simp: createReceipt_def operation_key_def list_ex_iff split: if_splits)

lemma new_receipt_simps [simp]:
  "rr_namespace (new_receipt ns o' fp key lease created newId now) = ns"
  "rr_deviceSequence (new_receipt ns o' fp key lease created newId now) = fo_device_sequence o'"
  "rr_requestFingerprint (new_receipt ns o' fp key lease created newId now) = fp"
  "rr_downstreamIdempotencyKey (new_receipt ns o' fp key lease created newId now) = key"
  "rr_status (new_receipt ns o' fp key lease created newId now) = RECEIVED"
  "rr_attemptCount (new_receipt ns o' fp key lease created newId now) = 0"
  "rr_outcome (new_receipt ns o' fp key lease created newId now) = None"
  "rr_finalizedAt (new_receipt ns o' fp key lease created newId now) = None"
  by (simp_all add: new_receipt_def)

lemma lane_full:
  assumes ok: "tables_ok db" and c: "map_of (cursors db) ns = Some lf" "nextExpectedOfflineSequence lf = Some sq"
    and none: "findReceiptBySequence ns sq db = None"
  shows "list_all isFinalized (lane ns db)" "sq = int (length (lane ns db))" "lf = cursor_of (length (lane ns db))"
    "sq \<le> MAX_OFFLINE_DEVICE_SEQUENCE"
proof -
  let ?L = "lane ns db"
  have L: "lane_ok ?L (Some lf)" using ok c(1) unfolding tables_ok_def by metis
  from L obtain F R where F: "?L = F @ R" "list_all isFinalized F" "R = [] \<or> (\<exists>r. R = [r] \<and> \<not> isFinalized r)" "lf = cursor_of (length F)"
    and seqs: "map rr_deviceSequence ?L = map int [0..<length ?L]" "int (length ?L) \<le> MAX_OFFLINE_DEVICE_SEQUENCE + 1"
    unfolding lane_ok_def option.case by blast
  have "int (length F) \<le> MAX_OFFLINE_DEVICE_SEQUENCE + 1" using seqs(2) F(1) by simp
  then have sq: "sq = int (length F)" "sq \<le> MAX_OFFLINE_DEVICE_SEQUENCE"
    using c(2) next_cursor_of[of "length F"] by (auto simp: F(4) split: if_splits)
  have "R = []"
  proof (rule ccontr)
    assume "R \<noteq> []"
    then obtain r where r: "R = [r]" using F(3) by auto
    then have "rr_deviceSequence r = sq" using lane_position[OF seqs(1), of "length F"] by (simp add: F(1) sq)
    moreover have "r \<in> set ?L" by (simp add: F(1) r)
    ultimately show False using none by (auto simp: find_sequence_None in_lane)
  qed
  with F sq show "list_all isFinalized ?L" "sq = int (length ?L)" "lf = cursor_of (length ?L)" "sq \<le> MAX_OFFLINE_DEVICE_SEQUENCE"
    by simp_all
qed

lemma created_tables:
  assumes ok: "tables_ok db" and c: "map_of (cursors db) ns = Some lf" "nextExpectedOfflineSequence lf = Some (rr_deviceSequence r)"
    and none: "findReceiptBySequence ns (rr_deviceSequence r) db = None"
    and r: "rr_namespace r = ns" "rr_status r = RECEIVED" "receipt_shape r"
    and fresh: "rr_id r \<notin> rr_id ` set (receipts db)" "operation_key r \<notin> operation_key ` set (receipts db)"
  shows "tables_ok (db\<lparr>receipts := receipts db @ [r], replay_audits := as\<rparr>)"
proof -
  let ?db = "db\<lparr>receipts := receipts db @ [r], replay_audits := as\<rparr>"
  note full = lane_full[OF ok c none]
  have "lane_ok (lane n ?db) (map_of (cursors db) n)" for n
  proof (cases "n = ns")
    case True
    have seqs: "map rr_deviceSequence (lane ns db) = map int [0..<length (lane ns db)]"
      using ok by (simp add: tables_ok_def lane_ok_def)
    have L: "lane n ?db = lane ns db @ [r]" using True r(1) by (simp add: lane_def)
    show ?thesis unfolding L lane_ok_def
      using seqs full c(1) True r(2) by (intro conjI exI[of _ "lane ns db"] exI[of _ "[r]"]) (simp_all add: isFinalized_iff)
  next
    case False
    then show ?thesis using ok r(1) by (simp add: tables_ok_def lane_def)
  qed
  then show ?thesis using ok fresh r(3) by (simp add: tables_ok_def)
qed

lemma admit_replay_keeps:
  assumes "tables_ok db"
  shows "tables_ok (snd (admit_replay pl ns o' lease newId now db))" "replay_before db (snd (admit_replay pl ns o' lease newId now db))"
    "fst (admit_replay pl ns o' lease newId now db) = Inr (Admit_Proceed r lf) \<Longrightarrow>
       r \<in> set (receipts (snd (admit_replay pl ns o' lease newId now db))) \<and> about pl ns o' r"
    "fst (admit_replay pl ns o' lease newId now db) = Inr (Admit_Replay r lf) \<Longrightarrow>
       r \<in> set (receipts (snd (admit_replay pl ns o' lease newId now db))) \<and> about pl ns o' r \<and> isFinalized r"
proof -
  have created: "tables_ok (snd (createReceipt r db)) \<and> replay_before db (snd (createReceipt r db))
      \<and> r \<in> set (receipts (snd (createReceipt r db)))"
    if "lockCursor ns db = Some lf" "nextExpectedOfflineSequence lf = Some (rr_deviceSequence r)"
      "findReceiptBySequence ns (rr_deviceSequence r) db = None" "fst (createReceipt r db) = Inr r"
      "rr_namespace r = ns" "rr_status r = RECEIVED" "receipt_shape r" for r lf
    using created_tables[OF assms _ that(2,3,5,6,7) create_cases(1,2)[OF that(4)]] that(1)
    by (simp add: create_cases(3)[OF that(4)] replay_before_def lockCursor_def)
  show "tables_ok (snd (admit_replay pl ns o' lease newId now db))" "replay_before db (snd (admit_replay pl ns o' lease newId now db))"
    "fst (admit_replay pl ns o' lease newId now db) = Inr (Admit_Proceed r lf) \<Longrightarrow>
       r \<in> set (receipts (snd (admit_replay pl ns o' lease newId now db))) \<and> about pl ns o' r"
    "fst (admit_replay pl ns o' lease newId now db) = Inr (Admit_Replay r lf) \<Longrightarrow>
       r \<in> set (receipts (snd (admit_replay pl ns o' lease newId now db))) \<and> about pl ns o' r \<and> isFinalized r"
    by (cases rule: admit_replay_cases[of ns db o' pl lease newId now];
        use assms created in \<open>auto simp: about_def receipt_shape_def\<close>)+
qed

subsection \<open>Where a receipt comes from\<close>

text \<open>A transaction adds no receipt of its own making: what was not there is an open copy, or settled by this verdict.\<close>

lemma identity_claimed [simp]:
  "identity (r\<lparr>rr_status := st, rr_processingClaimedAt := t, rr_attemptCount := n\<rparr>) = identity r"
  "identity (r\<lparr>rr_status := st\<rparr>) = identity r"
  by (simp_all add: identity_def)

lemma claim_receipts: "r \<in> set (receipts (snd (claimForProcessing i now db))) \<Longrightarrow>
    r \<in> set (receipts db) \<or> (\<exists>q\<in>set (receipts db). identity r = identity q \<and> rr_status r \<noteq> APPLIED)"
  by (cases rule: claim_cases[of db i now]) (auto simp: in_update)

lemma mark_receipts: "q \<in> set (receipts (snd (markUnknown r g trace db))) \<Longrightarrow>
    q \<in> set (receipts db) \<or> (\<exists>q'\<in>set (receipts db). identity q = identity q' \<and> rr_status q \<noteq> APPLIED)"
  by (auto simp: markUnknown_def in_update split: if_splits)

lemma finalize_receipts: "q \<in> set (receipts (snd (finalizeAndAdvance r g v trace now db))) \<Longrightarrow>
    q \<in> set (receipts db) \<or> (\<exists>q'\<in>set (receipts db). rr_id q' = rr_id r \<and> q = settled_with v now q')"
  by (cases rule: finalize_cases[of db r g v trace now]) (auto simp: in_update)

lemma untouched_domain [simp]:
  "domain (snd (ensureCursor ns db)) = domain db" "domain (snd (admit_replay pl ns o' lease newId now db)) = domain db"
  "domain (snd (claimForProcessing i now db)) = domain db" "domain (snd (markUnknown r g trace db)) = domain db"
  "domain (snd (finalizeAndAdvance r g v trace now db)) = domain db"
proof -
  show "domain (snd (admit_replay pl ns o' lease newId now db)) = domain db"
    by (cases rule: admit_replay_cases[of ns db o' pl lease newId now]) (simp_all add: create_cases)
qed (auto simp: ensureCursor_def claimForProcessing_def markUnknown_def finalizeAndAdvance_def Let_def split: option.splits)

end
