(* ===== verification/Offline_Replay_Runs.thy ===== *)
theory Offline_Replay_Runs
  imports Offline_Replay_Tables
begin

text \<open>
  The replay machine. First the contract between the executor and the domain it calls, a locale
  interpreted on the field modules: what the domain commits, its probe finds again, and it stays.
  Then the invariant of submissions that interleave, crash and are retried, and the proof that every
  step keeps it, an instance of \<open>forward_machine\<close>.
\<close>

subsection \<open>The domain's contract\<close>

locale evidence_domain =
  fixes ok :: "'d \<Rightarrow> bool" and before :: "'d \<Rightarrow> 'd \<Rightarrow> bool"
    and run :: "'x \<Rightarrow> 'c \<Rightarrow> 'd \<Rightarrow> ('err + 'e) \<times> 'd" and probe :: "'c \<Rightarrow> 'd \<Rightarrow> 'e option"
    and holds :: "'c \<Rightarrow> 'e \<Rightarrow> 'd \<Rightarrow> bool"
  assumes run_ok: "ok d \<Longrightarrow> ok (snd (run x c d))"
    and run_before: "ok d \<Longrightarrow> before d (snd (run x c d))"
    and run_holds: "ok d \<Longrightarrow> fst (run x c d) = Inr e \<Longrightarrow> holds c e (snd (run x c d))"
    and probe_holds: "probe c d = Some e \<Longrightarrow> holds c e d"
    and holds_stable: "holds c e d \<Longrightarrow> before d d' \<Longrightarrow> holds c e d'"
begin

text \<open>An attempt: the probe first when it is a retry, then the call.\<close>

definition attempt :: "bool \<Rightarrow> 'x \<Rightarrow> 'c \<Rightarrow> 'd \<Rightarrow> ('err + 'e) \<times> 'd" where
  "attempt retry x c d = (case (if retry then probe c d else None) of Some e \<Rightarrow> (Inr e, d) | None \<Rightarrow> run x c d)"

lemma attempt_ok: "ok d \<Longrightarrow> ok (snd (attempt retry x c d))"
  by (auto simp: attempt_def run_ok split: option.splits)

lemma attempt_truthful:
  assumes "ok d" "fst (attempt retry x c d) = Inr e" "before (snd (attempt retry x c d)) d'"
  shows "holds c e d'"
proof -
  have "holds c e (snd (attempt retry x c d))"
    using assms(1,2) by (auto simp: attempt_def run_holds probe_holds split: option.splits if_splits)
  then show ?thesis using assms(3) by (rule holds_stable)
qed

end

text \<open>
  What the field modules commit for an operation: \<open>c\<close> is the principal, the operation and the key.
\<close>

type_synonym command = "principal \<times> offline_operation \<times> string"

fun effect_holds :: "command \<Rightarrow> effect \<Rightarrow> field_db \<Rightarrow> bool" where
  "effect_holds (p, o', key) f db \<longleftrightarrow> (case fo_payload o' of
     Transition_Payload a expected \<Rightarrow> ef_resultRef f = a
       \<and> (\<exists>e\<in>set (evidence db). ev_assignmentId e = a \<and> ev_action e = action_of_kind (fo_operation_kind o'))
   | Send_Payload q \<Rightarrow> (ef_resultRef f, pr_organisation_id p, sp_incident_id q, pr_user_id p, key)
       \<in> (\<lambda>m. (ms_id m, send_key m)) ` set (messages db)
   | Acknowledge_Payload m \<Rightarrow> ef_resultRef f = m
       \<and> (\<exists>e\<in>set (ack_evidences db). ae_messageId e = m \<and> ae_recipientUserId e = pr_user_id p))
   \<and> toSnapshot (Some (ef_resultSnapshot f)) = Some (ef_resultSnapshot f)"

lemma effect_holds_stable:
  assumes "effect_holds c f db" "field_before db db'"
  shows "effect_holds c f db'"
proof -
  obtain p o' key where c: "c = (p, o', key)" by (cases c)
  have "set (evidence db) \<subseteq> set (evidence db')" "set (ack_evidences db) \<subseteq> set (ack_evidences db')"
    and m: "message_part ` set (messages db) \<subseteq> message_part ` set (messages db')"
    using assms(2) grows_subset by (fastforce simp: field_before_def)+
  moreover have "(\<lambda>m. (ms_id m, send_key m)) ` set (messages db) \<subseteq> (\<lambda>m. (ms_id m, send_key m)) ` set (messages db')"
  proof -
    have "(ms_id m, send_key m) = (\<lambda>n. (ms_id n, send_key n)) (fst (message_part m))" for m
      by (simp add: message_part_def send_key_def)
    then have "(\<lambda>m. (ms_id m, send_key m)) ` X = (\<lambda>n. (ms_id (fst n), send_key (fst n))) ` message_part ` X" for X
      by (simp add: image_image)
    with m show ?thesis by (simp add: image_mono)
  qed
  ultimately show ?thesis using assms(1) unfolding c by (auto split: payload.splits)
qed

lemma probe_effect: "probeCommittedEffect p o' key db = Some f \<Longrightarrow> effect_holds (p, o', key) f db"
proof (cases "fo_payload o'")
  case (Send_Payload q)
  assume "probeCommittedEffect p o' key db = Some f"
  then obtain m where "findSendEvidence (pr_organisation_id p) (sp_incident_id q) (pr_user_id p) key db = Some m"
      "f = send_effect (ms_id m) (ms_incidentId m) (length (ms_recipients m))"
    by (auto simp: probeCommittedEffect_def Send_Payload probeSendEvidence_def)
  then show ?thesis
    using find_SomeD[of _ "messages db" m] by (force simp: Send_Payload findSendEvidence_def send_effect_def toSnapshot_def)
next
  case (Acknowledge_Payload m)
  assume "probeCommittedEffect p o' key db = Some f"
  then have "acknowledge_key m (pr_user_id p) key \<in> set (ack_evidences db)" "f = acknowledge_effect m"
    by (auto simp: probeCommittedEffect_def Acknowledge_Payload probeAcknowledgeEvidence_def findAcknowledgeEvidence_def split: if_splits)
  then show ?thesis
    by (auto simp: Acknowledge_Payload acknowledge_effect_def toSnapshot_def acknowledge_key_def intro: bexI[rotated])
qed (auto simp: probeCommittedEffect_def probeTransitionEvidence_def findTransitionEvidence_def list_ex_iff
    transition_effect_def toSnapshot_def split: if_splits)

subsection \<open>The domain call\<close>

lemma lifecycle_last: "lifecycle s ms t \<Longrightarrow> s \<noteq> t \<Longrightarrow> t \<in> set (map snd ms)"
proof (induction s ms t rule: lifecycle.induct)
  case (2 s f g ms t)
  then show ?case by (cases "g = t") auto
qed simp

lemma target_inject: "ACTION_TARGETS a = ACTION_TARGETS b \<longleftrightarrow> a = b"
  by (cases a; cases b) simp_all

lemma at_target_evidenced:
  assumes "assignments_ok db" "v \<in> set (assignments db)" "as_status v = ACTION_TARGETS action"
  shows "\<exists>e\<in>set (evidence db). ev_assignmentId e = as_id v \<and> ev_action e = action"
proof -
  have ok: "lifecycle REQUESTED (moves (as_id v) db) (as_status v)"
      "map snd (moves (as_id v) db) = map ACTION_TARGETS (evidenced (as_id v) db)"
    using assms(1,2) by (simp_all add: assignments_ok_def assignment_ok_def)
  have "as_status v \<noteq> REQUESTED" using assms(3) by (cases action) simp_all
  then have "as_status v \<in> set (map snd (moves (as_id v) db))" using lifecycle_last[OF ok(1)] by simp
  then have "action \<in> set (evidenced (as_id v) db)" unfolding ok(2) assms(3) by (auto simp: target_inject)
  then show ?thesis by (auto simp: evidenced_def)
qed

lemma transition_holds:
  assumes "assignments_ok db" "fst (transitionAssignment p scope a action expected key at_ms now db) = Inr v"
  shows "as_id v = a \<and> (\<exists>e\<in>set (evidence (snd (transitionAssignment p scope a action expected key at_ms now db))).
    ev_assignmentId e = a \<and> ev_action e = action)"
proof (cases rule: transition_repo_cases[of "transition_input_of p scope a action expected key" at_ms now db])
  case (moved c)
  then have "List.find (visible (pr_organisation_id p) a scope) (assignments db) = Some c" by (simp add: commits_move_def)
  from find_SomeD[OF this] have "as_id c = a" by (simp add: visible_def)
  with moved assms(2) show ?thesis by (auto simp: transition_service Let_def)
next
  case (kept r)
  then obtain res where res: "r = Inr res" "mapTransitionResult res = Inr v"
    using assms(2) by (auto simp: transition_service Let_def)
  then have "res = Duplicate v \<or> res = Noop v" using kept(3) by (cases res) auto
  then have found: "List.find (visible (pr_organisation_id p) a scope) (assignments db) = Some v"
      and why: "(action_known action (as_id v) key db \<or> as_status v = ACTION_TARGETS action)"
    using kept(2) res(1) by (auto simp: transitionAssignment_repo_def Let_def split: option.splits if_splits)
  have v: "v \<in> set (assignments db)" "as_id v = a" using find_SomeD[OF found] by (simp_all add: visible_def)
  then have "\<exists>e\<in>set (evidence db). ev_assignmentId e = a \<and> ev_action e = action"
    using why at_target_evidenced[OF assms(1) v(1), of action] by (auto simp: action_known_def list_ex_iff)
  with v(2) kept(2) show ?thesis by (simp add: transition_service Let_def)
qed

lemma send_holds:
  assumes "fst (send iso_string p scope incident i newId at_ms now db) = Inr m"
  shows "m \<in> set (messages (snd (send iso_string p scope incident i newId at_ms now db)))
    \<and> send_key m = (pr_organisation_id p, incident, pr_user_id p, sd_idempotency_key i)"
proof -
  obtain site where run: "send iso_string p scope incident i newId at_ms now db =
      (case send_repo (message_of p site incident i newId now) db of (Inl e, db') \<Rightarrow> (Inl e, db')
          | (Inr m, db') \<Rightarrow> (if message_contract_ok iso_string m then Inr m else Inl Fault, db'))"
    using assms by (auto simp: send_def split: sum.splits option.splits)
  obtain res db' where sr: "send_repo (message_of p site incident i newId now) db = (res, db')" by (meson surj_pair)
  have "res = Inr m" "snd (send iso_string p scope incident i newId at_ms now db) = db'"
    using assms unfolding run sr by (auto split: sum.splits if_splits)
  then show ?thesis
    using sr by (cases rule: send_repo_cases[of "message_of p site incident i newId now" db]) auto
qed

lemma acknowledge_holds:
  assumes "messages_ok db" "fst (acknowledge p scope i key at_ms db) = Inr m"
  shows "ms_id m = i \<and> (\<exists>e\<in>set (ack_evidences (snd (acknowledge p scope i key at_ms db))).
    ae_messageId e = i \<and> ae_recipientUserId e = pr_user_id p)"
proof (cases rule: acknowledge_cases[of db i p key scope at_ms])
  case (acked n r)
  then show ?thesis using assms(2) by (auto simp: set_recipient_def acknowledge_key_def)
next
  case kept
  let ?find = "List.find (\<lambda>m. ms_id m = i \<and> ms_organisationId m = pr_organisation_id p \<and> siteAllowed scope (ms_siteId m)) (messages db)"
  have "\<exists>n r. ?find = Some n \<and> List.find (\<lambda>r. rc_recipientUserId r = pr_user_id p) (ms_recipients n) = Some r
      \<and> (acknowledge_key i (pr_user_id p) key \<in> set (ack_evidences db) \<or> rc_deliveryState r = ACKNOWLEDGED)
      \<and> ms_id m = ms_id n"
    using assms(2) kept by (auto simp: acknowledge_def acknowledge_repo_def Let_def set_recipient_def dest: arg_cong[where f = ack_evidences] split: option.splits if_splits)
  then obtain n r where n: "?find = Some n" "List.find (\<lambda>r. rc_recipientUserId r = pr_user_id p) (ms_recipients n) = Some r"
      "acknowledge_key i (pr_user_id p) key \<in> set (ack_evidences db) \<or> rc_deliveryState r = ACKNOWLEDGED" "ms_id m = ms_id n"
    by blast
  note mem = find_SomeD[OF n(1)] find_SomeD[OF n(2)]
  have "\<exists>e\<in>set (ack_evidences db). ae_messageId e = i \<and> ae_recipientUserId e = pr_user_id p"
  proof (cases "rc_deliveryState r = ACKNOWLEDGED")
    case True
    then have "length (acks i (pr_user_id p) db) = 1"
      using assms(1) mem unfolding messages_ok_def message_ok_def by metis
    then have "acks i (pr_user_id p) db \<noteq> []" by auto
    then show ?thesis by (auto simp: acks_def filter_empty_conv)
  next
    case False
    then show ?thesis using n(3) by (auto simp: acknowledge_key_def intro: bexI[rotated])
  qed
  then show ?thesis using kept mem n(4) by simp
qed

text \<open>What a call leaves in the database is a run of the field modules.\<close>

lemma execute_run: "\<exists>ops. snd (execute_operation pl iso_string p scope o' key newId at_ms now db) = fold (field_step iso_string) ops db"
proof -
  have none: "\<exists>ops. db = fold (field_step iso_string) ops db" by (rule exI[of _ "[]"]) simp
  have one: "\<exists>ops. field_step iso_string x db = fold (field_step iso_string) ops db" for x by (rule exI[of _ "[x]"]) simp
  show ?thesis
  proof (cases "fo_payload o'")
    case (Transition_Payload a expected)
    then show ?thesis
      using none one[of "Move_Assignment p scope a (action_of_kind (fo_operation_kind o')) expected key at_ms now"]
      by (simp add: execute_operation_def executeAssignmentTransition_def parseAssignmentAction_def Let_def)
  next
    case (Send_Payload q)
    then show ?thesis
      using none one[of "Send_Message p scope (sp_incident_id q) _ newId at_ms now"]
      by (auto simp: execute_operation_def executeMessageSend_def parseSend_def Let_def split: option.splits)
  next
    case (Acknowledge_Payload m)
    then show ?thesis
      using none one[of "Acknowledge_Message p scope m key at_ms"]
      by (simp add: execute_operation_def executeMessageAcknowledge_def parseAcknowledge_def Let_def)
  qed
qed

lemma send_input_key: "send_input_of pl q key trace = Some i \<Longrightarrow> sd_idempotency_key i = key"
  by (auto simp: send_input_of_def Let_def split: option.splits)

lemma execute_effect:
  assumes "field_ok db" "fst (execute_operation pl iso_string p scope o' key newId at_ms now db) = Inr f"
  shows "effect_holds (p, o', key) f (snd (execute_operation pl iso_string p scope o' key newId at_ms now db))"
proof (cases "fo_payload o'")
  case (Transition_Payload a expected)
  let ?t = "transitionAssignment p scope a (action_of_kind (fo_operation_kind o')) expected key at_ms now db"
  have run: "execute_operation pl iso_string p scope o' key newId at_ms now db =
      (map_sum id (\<lambda>v. transition_effect (as_id v) (as_status v)) (fst ?t), snd ?t)"
    using assms(2) by (auto simp: execute_operation_def Transition_Payload executeAssignmentTransition_def parseAssignmentAction_def Let_def split: if_splits)
  then obtain v where v: "fst ?t = Inr v" "f = transition_effect (as_id v) (as_status v)"
    using assms(2) by (cases "fst ?t") auto
  have "assignments_ok db" using assms(1) by (simp add: field_ok_def)
  from transition_holds[OF this v(1)] show ?thesis
    unfolding run by (simp add: Transition_Payload v(2) transition_effect_def toSnapshot_def)
next
  case (Send_Payload q)
  obtain i where i: "send_input_of pl q key (fo_trace_id o') = Some i"
    using assms(2) by (auto simp: execute_operation_def Send_Payload executeMessageSend_def split: option.splits)
  let ?t = "send iso_string p scope (sp_incident_id q) i newId at_ms now db"
  have run: "execute_operation pl iso_string p scope o' key newId at_ms now db =
      (map_sum id (\<lambda>m. send_effect (ms_id m) (ms_incidentId m) (length (ms_recipients m))) (fst ?t), snd ?t)"
    using assms(2) i by (auto simp: execute_operation_def Send_Payload executeMessageSend_def parseSend_def Let_def split: if_splits)
  then obtain m where m: "fst ?t = Inr m" "f = send_effect (ms_id m) (ms_incidentId m) (length (ms_recipients m))"
    using assms(2) by (cases "fst ?t") auto
  have "m \<in> set (messages (snd ?t)) \<and> send_key m = (pr_organisation_id p, sp_incident_id q, pr_user_id p, key)"
    using send_holds[OF m(1)] send_input_key[OF i] by simp
  then show ?thesis unfolding run by (force simp: Send_Payload m(2) send_effect_def toSnapshot_def)
next
  case (Acknowledge_Payload i)
  let ?t = "acknowledge p scope i key at_ms db"
  have run: "execute_operation pl iso_string p scope o' key newId at_ms now db = (map_sum id (\<lambda>m. acknowledge_effect (ms_id m)) (fst ?t), snd ?t)"
    using assms(2) by (auto simp: execute_operation_def Acknowledge_Payload executeMessageAcknowledge_def parseAcknowledge_def Let_def split: if_splits)
  then obtain m where m: "fst ?t = Inr m" "f = acknowledge_effect (ms_id m)"
    using assms(2) by (cases "fst ?t") auto
  have "messages_ok db" using assms(1) by (simp add: field_ok_def)
  from acknowledge_holds[OF this m(1)] show ?thesis
    unfolding run by (simp add: Acknowledge_Payload m(2) acknowledge_effect_def toSnapshot_def)
qed

text \<open>The call as the contract sees it: the scope, the generated id and the two clocks are the first argument.\<close>

fun run_command :: "platform \<Rightarrow> (int \<Rightarrow> string) \<Rightarrow> site_scope \<times> string \<times> int \<times> int \<Rightarrow> command \<Rightarrow> field_db \<Rightarrow> (thrown + effect) \<times> field_db" where
  "run_command pl iso_string (scope, newId, at_ms, now) (p, o', key) db = execute_operation pl iso_string p scope o' key newId at_ms now db"

fun probe_command :: "command \<Rightarrow> field_db \<Rightarrow> effect option" where
  "probe_command (p, o', key) db = probeCommittedEffect p o' key db"

interpretation domain_call: evidence_domain field_ok field_before "run_command pl iso_string" probe_command effect_holds
  for pl iso_string
proof
  fix d and x :: "site_scope \<times> string \<times> int \<times> int" and c :: command
  assume ok: "field_ok d"
  obtain scope newId at_ms now p o' key where xc: "x = (scope, newId, at_ms, now)" "c = (p, o', key)" by (metis surj_pair)
  obtain ops where ops: "snd (run_command pl iso_string x c d) = fold (field_step iso_string) ops d"
    unfolding xc run_command.simps using execute_run by blast
  show "field_ok (snd (run_command pl iso_string x c d))" unfolding ops by (rule field.run_inv[OF ok])
  show "field_before d (snd (run_command pl iso_string x c d))" unfolding ops by (rule field.run_before[OF ok])
  show "fst (run_command pl iso_string x c d) = Inr e \<Longrightarrow> effect_holds c e (snd (run_command pl iso_string x c d))" for e
    using execute_effect[OF ok] unfolding xc run_command.simps .
next
  show "probe_command c d = Some e \<Longrightarrow> effect_holds c e d" for c d e
    by (cases c) (simp only: probe_command.simps probe_effect)
  show "effect_holds c e d \<Longrightarrow> field_before d d' \<Longrightarrow> effect_holds c e d'" for c e d d'
    by (rule effect_holds_stable)
qed

subsection \<open>The invariant of the machine\<close>

definition matches :: "platform \<Rightarrow> worker \<Rightarrow> receipt \<Rightarrow> bool" where
  "matches pl w r \<longleftrightarrow> about pl (wk_namespace w) (wk_operation w) r"

definition command_of :: "worker \<Rightarrow> receipt \<Rightarrow> command" where
  "command_of w r = (wk_principal w, wk_operation w, rr_downstreamIdempotencyKey r)"

text \<open>What was decided before the submission started.\<close>

definition worker_ok :: "platform \<Rightarrow> worker \<Rightarrow> bool" where
  "worker_ok pl w \<longleftrightarrow> operation_ok pl (wk_operation w)
     \<and> wk_namespace w = \<lparr>ns_organisation_id = pr_organisation_id (wk_principal w), ns_site_id = fo_site_id (wk_operation w),
          ns_user_id = pr_user_id (wk_principal w), ns_device_id = fo_device_id (wk_operation w)\<rparr>
     \<and> fo_organisation_id (wk_operation w) = pr_organisation_id (wk_principal w)
     \<and> authority_at (wk_principal w) (REQUIRED_ACTION_FOR_KIND (fo_operation_kind (wk_operation w))) (fo_site_id (wk_operation w))"

definition held :: "platform \<Rightarrow> worker \<Rightarrow> receipt \<Rightarrow> replay_db \<Rightarrow> bool" where
  "held pl w r db \<longleftrightarrow> matches pl w r \<and> (\<exists>q\<in>set (receipts db). identity q = identity r)"

definition records :: "receipt \<Rightarrow> operation_result \<Rightarrow> bool" where
  "records q x \<longleftrightarrow> os_offline_operation_id x = rr_offlineOperationId q \<and> os_device_sequence x = rr_deviceSequence q
     \<and> os_operation_kind x = rr_operationKind q \<and> os_outcome x = rr_status q \<and> rr_finalizedAt q = Some (os_finalized_at x)
     \<and> os_result_ref x = rr_resultRef q \<and> os_result_snapshot x = rr_resultSnapshot q"

definition verdict_true :: "worker \<Rightarrow> receipt \<Rightarrow> finalize_input \<Rightarrow> field_db \<Rightarrow> bool" where
  "verdict_true w r v d \<longleftrightarrow> verdict_ok v \<and> (\<forall>f. v = applied_verdict f \<longrightarrow> effect_holds (command_of w r) f d)"

fun phase_ok :: "platform \<Rightarrow> worker \<Rightarrow> phase \<Rightarrow> replay_db \<Rightarrow> bool" where
  "phase_ok pl w (Admitted r lf) db \<longleftrightarrow> held pl w r db"
| "phase_ok pl w (Claimed r e g) db \<longleftrightarrow> held pl w r db"
| "phase_ok pl w (Executing r e g) db \<longleftrightarrow> held pl w r db"
| "phase_ok pl w (Judged r e g v) db \<longleftrightarrow> held pl w r db \<and> verdict_true w r v (domain db)"
| "phase_ok pl w (Marking r e g) db \<longleftrightarrow> held pl w r db"
| "phase_ok pl w (Lost r) db \<longleftrightarrow> held pl w r db"
| "phase_ok pl w (Lost_Read (Some r)) db \<longleftrightarrow> matches pl w r \<and> receipt_shape r \<and> (\<exists>q\<in>set (receipts db). receipt_before r q)"
| "phase_ok pl w (Answered (Result x)) db \<longleftrightarrow> (\<exists>q\<in>set (receipts db). matches pl w q \<and> isFinalized q \<and> records q x)"
| "phase_ok pl w _ db \<longleftrightarrow> True"

text \<open>
  Every receipt was made by a submission of the run, and one that says APPLIED has the effect of a
  submission with its fingerprint behind it.
\<close>

definition receipt_true :: "platform \<Rightarrow> worker set \<Rightarrow> field_db \<Rightarrow> receipt \<Rightarrow> bool" where
  "receipt_true pl W d r \<longleftrightarrow> rr_downstreamIdempotencyKey r =
       deriveOfflineDownstreamIdempotencyKey pl (rr_namespace r) (rr_offlineOperationId r) (rr_operationKind r)
     \<and> (\<exists>w\<in>W. matches pl w r \<and> rr_offlineOperationId r = fo_offline_operation_id (wk_operation w)
          \<and> rr_operationKind r = fo_operation_kind (wk_operation w))
     \<and> (rr_status r = APPLIED \<longrightarrow> (\<exists>w\<in>W. matches pl w r \<and>
          (\<exists>f. rr_resultRef r = Some (ef_resultRef f) \<and> effect_holds (command_of w r) f d)))"

definition db_ok :: "platform \<Rightarrow> worker set \<Rightarrow> replay_db \<Rightarrow> bool" where
  "db_ok pl W db \<longleftrightarrow> tables_ok db \<and> field_ok (domain db) \<and> (\<forall>r\<in>set (receipts db). receipt_true pl W (domain db) r)"

definition system_ok :: "platform \<Rightarrow> system \<Rightarrow> bool" where
  "system_ok pl s \<longleftrightarrow> db_ok pl (fst ` set (sys_workers s)) (sys_db s)
     \<and> (\<forall>(w, ph)\<in>set (sys_workers s). worker_ok pl w \<and> phase_ok pl w ph (sys_db s))"

lemma matches_identity: "identity q = identity r \<Longrightarrow> matches pl w q = matches pl w r"
  using about_identity[of q r] by (simp add: matches_def)

lemma held_before:
  assumes "held pl w r db" "replay_before db db'"
  shows "held pl w r db'"
proof -
  from assms(1) obtain q where q: "q \<in> set (receipts db)" "identity q = identity r" "matches pl w r"
    by (auto simp: held_def)
  from assms(2) obtain q' where "q' \<in> set (receipts db')" "receipt_before q q'"
    using receipts_before_in[OF _ q(1)] by (auto simp: replay_before_def)
  with q show ?thesis by (auto simp: held_def receipt_before_def)
qed

lemma verdict_true_before: "verdict_true w r v d \<Longrightarrow> field_before d d' \<Longrightarrow> verdict_true w r v d'"
  unfolding verdict_true_def by (blast intro: effect_holds_stable)

lemma phase_ok_before:
  assumes "phase_ok pl w ph db" "replay_before db db'"
  shows "phase_ok pl w ph db'"
proof -
  have rs: "receipts_before (receipts db) (receipts db')" and d: "field_before (domain db) (domain db')"
    using assms(2) by (simp_all add: replay_before_def)
  show ?thesis
  proof (cases "(pl, w, ph, db)" rule: phase_ok.cases)
    case (7 pl' w' r db'')
    with assms(1) obtain q where q: "q \<in> set (receipts db)" "receipt_before r q" by auto
    with receipts_before_in[OF rs] show ?thesis using 7 assms(1) by (auto intro: receipt_before_trans)
  next
    case (8 pl' w' x db'')
    with assms(1) obtain q where q: "q \<in> set (receipts db)" "matches pl w q" "isFinalized q" "records q x" by auto
    with receipts_before_in[OF rs q(1)] show ?thesis using 8 by (auto simp: receipt_before_def)
  qed (use assms held_before[OF _ assms(2)] verdict_true_before[OF _ d] in auto)
qed

subsection \<open>Every step keeps it\<close>

lemma receipt_true_before:
  assumes "receipt_true pl W d q" "identity r = identity q" "field_before d d'" "rr_status r = APPLIED \<Longrightarrow> r = q"
  shows "receipt_true pl W d' r"
proof -
  note same = identity_simps[OF assms(2)]
  have m: "matches pl w r = matches pl w q" for w by (rule matches_identity[OF assms(2)])
  have c: "command_of w r = command_of w q" for w by (simp add: command_of_def same)
  have "\<exists>w\<in>W. matches pl w r \<and> (\<exists>f. rr_resultRef r = Some (ef_resultRef f) \<and> effect_holds (command_of w r) f d')"
    if "rr_status r = APPLIED"
  proof -
    have "r = q" using that by (rule assms(4))
    with assms(1) that obtain w f where "w \<in> W" "matches pl w r" "rr_resultRef r = Some (ef_resultRef f)"
        "effect_holds (command_of w r) f d"
      by (auto simp: receipt_true_def)
    then show ?thesis using effect_holds_stable[OF _ assms(3)] by blast
  qed
  then show ?thesis using assms(1) by (simp add: receipt_true_def same m)
qed

lemma db_ok_step:
  assumes "db_ok pl W db" "tables_ok db'" "field_ok (domain db')" "field_before (domain db) (domain db')"
    and "\<And>r. r \<in> set (receipts db') \<Longrightarrow> r \<in> set (receipts db) \<or> (\<exists>q\<in>set (receipts db). identity r = identity q \<and> rr_status r \<noteq> APPLIED)
      \<or> receipt_true pl W (domain db') r"
  shows "db_ok pl W db'"
proof -
  have "receipt_true pl W (domain db') r" if "r \<in> set (receipts db')" for r
    using assms(5)[OF that] assms(1) receipt_true_before[OF _ _ assms(4), of pl W] by (auto simp: db_ok_def)
  with assms(2,3) show ?thesis by (simp add: db_ok_def)
qed

lemma phase_ok_conflict [simp]: "phase_ok pl w (Answered (conflict_answer pl code o' e)) db"
  by (simp add: conflict_answer_def Let_def)

lemma phase_ok_stored:
  assumes "q \<in> set (receipts db)" "matches pl w q" "isFinalized q" "receipt_shape q"
  shows "phase_ok pl w (Answered (replayStoredResult pl o' q lf)) db"
proof -
  obtain st t where q: "rr_outcome q = Some st" "rr_status q = st" "st \<in> {APPLIED, REJECTED}" "rr_finalizedAt q = Some t"
      "toSnapshot (rr_resultSnapshot q) = rr_resultSnapshot q"
    using assms(3,4) by (auto simp: isFinalized_iff receipt_shape_def)
  then have "replayStoredResult pl o' q lf = Threw \<or> (\<exists>x. replayStoredResult pl o' q lf = Result x \<and> records q x)"
    by (auto simp: replayStoredResult_def result_answer_def records_def)
  then show ?thesis using assms(1-3) by auto
qed

lemma phase_ok_thrown: "phase_ok pl w ph db \<Longrightarrow> phase_ok pl w (thrown_phase ph) db"
  by (cases ph) auto

lemma phase_ok_crash: "phase_ok pl w ph db \<Longrightarrow> phase_ok pl w (crash_phase ph) db"
  by (cases ph) auto

definition kept_by :: "platform \<Rightarrow> worker set \<Rightarrow> worker \<Rightarrow> replay_db \<Rightarrow> phase \<times> replay_db \<Rightarrow> bool" where
  "kept_by pl W w db res \<longleftrightarrow> db_ok pl W (snd res) \<and> replay_before db (snd res) \<and> phase_ok pl w (fst res) (snd res)"

lemma advance_unchanged: "db_ok pl W db \<Longrightarrow> phase_ok pl w ph db \<Longrightarrow> kept_by pl W w db (ph, db)"
  by (simp add: kept_by_def)

lemma advance_admit:
  assumes "db_ok pl W db" "w \<in> W"
  shows "kept_by pl W w db (advance pl iso_string w at_ms now newId Ensured db)"
proof -
  have ok: "tables_ok db" "field_ok (domain db)" using assms(1) by (simp_all add: db_ok_def)
  let ?ns = "wk_namespace w" and ?o = "wk_operation w"
  show ?thesis
  proof (cases rule: admit_replay_cases[of ?ns db ?o pl "wk_lease w" newId now])
    case (created r lf)
    let ?db = "snd (createReceipt r db)"
    have eq: "admit_replay pl ?ns ?o (wk_lease w) newId now db = (Inr (Admit_Proceed r lf), ?db)" by (rule created(4))
    have t: "tables_ok ?db" "replay_before db ?db" "about pl ?ns ?o r" "r \<in> set (receipts ?db)"
      using admit_replay_keeps[OF ok(1), of pl ?ns ?o "wk_lease w" newId now] by (simp_all add: eq)
    have "receipt_true pl W (domain db) r"
      using created(6) assms(2) t(3) by (auto simp: receipt_true_def matches_def new_receipt_def)
    then have "db_ok pl W ?db"
      using t(1) ok by (intro db_ok_step[OF assms(1)]) (auto simp: create_cases(3)[OF created(5)])
    with t show ?thesis by (auto simp: kept_by_def eq held_def matches_def)
  next
    case (found r lf)
    then show ?thesis using assms(1) by (auto simp: kept_by_def held_def matches_def)
  next
    case (answered r lf)
    then have "receipt_shape r" using ok by (simp add: tables_ok_def)
    with answered show ?thesis using assms(1) by (simp add: kept_by_def phase_ok_stored matches_def)
  next
    case (refused code lf)
    then show ?thesis using assms(1) by (simp add: kept_by_def)
  next
    case (failed e)
    then show ?thesis using assms(1) by (simp add: kept_by_def)
  qed
qed

lemma applied_inject [simp]: "applied_verdict f = applied_verdict f' \<longleftrightarrow> f = f'" "rejected_verdict st \<noteq> applied_verdict f"
  by (cases f; cases f'; simp add: applied_verdict_def) (simp add: applied_verdict_def rejected_verdict_def)

lemma effect_object: "effect_holds c f d \<Longrightarrow> toSnapshot (Some (ef_resultSnapshot f)) = Some (ef_resultSnapshot f)"
  by (cases c) simp

lemma verdict_true_applied: "verdict_true w r (applied_verdict f) d \<longleftrightarrow> effect_holds (command_of w r) f d"
proof -
  have "toSnapshot (vd_resultSnapshot (applied_verdict f)) = vd_resultSnapshot (applied_verdict f)"
    if "effect_holds (command_of w r) f d"
    using effect_object[OF that] by (simp add: applied_verdict_def)
  then show ?thesis unfolding verdict_true_def verdict_ok_def applied_inject by blast
qed

lemma verdict_true_rejected [simp]: "verdict_true w r (rejected_verdict st) d"
proof -
  have "toSnapshot (vd_resultSnapshot (rejected_verdict st)) = vd_resultSnapshot (rejected_verdict st)"
    by (simp add: rejected_verdict_def toSnapshot_def)
  then show ?thesis by (auto simp: verdict_true_def verdict_ok_def)
qed

lemma advance_claim:
  assumes "db_ok pl W db" "held pl w r db"
  shows "kept_by pl W w db (advance pl iso_string w at_ms now newId (Admitted r lf) db)"
proof -
  let ?c = "claimForProcessing (rr_id r) now db"
  have ok: "tables_ok db" "field_ok (domain db)" using assms(1) by (simp_all add: db_ok_def)
  have "db_ok pl W (snd ?c)"
    by (rule db_ok_step[OF assms(1) claim(1)[OF ok(1)]]) (simp_all add: ok, use claim_receipts in blast)
  moreover have "replay_before db (snd ?c)" by (rule claim[OF ok(1)])
  ultimately show ?thesis using held_before[OF assms(2)]
    by (cases ?c) (auto simp: kept_by_def Let_def split: option.splits)
qed

lemma advance_execute:
  assumes "db_ok pl W db" "held pl w r db"
  shows "kept_by pl W w db (advance pl iso_string w at_ms now newId (Executing r e g) db)"
proof -
  let ?x = "(worker_scope w, newId, at_ms, now)"
  let ?run = "execute_operation pl iso_string (wk_principal w) (worker_scope w) (wk_operation w) (rr_downstreamIdempotencyKey r) newId at_ms now (domain db)"
  let ?db = "db\<lparr>domain := snd ?run\<rparr>"
  have ok: "tables_ok db" "field_ok (domain db)" using assms(1) by (simp_all add: db_ok_def)
  have run: "?run = run_command pl iso_string ?x (command_of w r) (domain db)" by (simp add: command_of_def)
  have d: "field_ok (snd ?run)" "field_before (domain db) (snd ?run)"
    unfolding run by (rule domain_call.run_ok[OF ok(2)], rule domain_call.run_before[OF ok(2)])
  have holds: "effect_holds (command_of w r) f (snd ?run)" if "fst ?run = Inr f" for f
    using domain_call.run_holds[OF ok(2)] that unfolding run by blast
  have "tables_ok ?db" using ok(1) by (simp add: tables_ok_cong[of ?db db])
  then have db': "db_ok pl W ?db" using d by (intro db_ok_step[OF assms(1)]) simp_all
  have before: "replay_before db ?db" using d by (simp add: replay_before_def)
  have held': "held pl w r ?db" by (rule held_before[OF assms(2) before])
  show ?thesis
    using db' before held' holds
    by (cases ?run; cases "fst ?run") (auto simp: kept_by_def verdict_true_applied split: option.splits simp del: effect_holds.simps)
qed

lemma settled_true:
  assumes "receipt_true pl W d q" "identity q = identity r" "w \<in> W" "matches pl w r" "verdict_true w r v d"
  shows "receipt_true pl W d (settled_with v now q)"
proof -
  let ?s = "settled_with v now q"
  note same = identity_simps[OF assms(2)]
  have m: "matches pl x ?s = matches pl x q" "matches pl x r = matches pl x q" for x
    by (rule matches_identity, simp, rule matches_identity, simp add: assms(2))
  have c: "command_of w ?s = command_of w r" by (simp add: command_of_def same)
  have "\<exists>f. vd_resultRef v = Some (ef_resultRef f) \<and> effect_holds (command_of w r) f d" if "vd_outcome v = APPLIED"
  proof -
    from assms(5) that obtain f where f: "v = applied_verdict f"
      by (auto simp: verdict_true_def verdict_ok_def rejected_verdict_def)
    then have "effect_holds (command_of w r) f d" using assms(5) verdict_true_applied by blast
    with f show ?thesis by (auto simp: applied_verdict_def)
  qed
  then have "rr_status ?s = APPLIED \<longrightarrow> (\<exists>w\<in>W. matches pl w ?s \<and>
      (\<exists>f. rr_resultRef ?s = Some (ef_resultRef f) \<and> effect_holds (command_of w ?s) f d))"
    using assms(3,4) c m by (intro impI bexI[of _ w]) (simp_all del: effect_holds.simps)
  moreover have "rr_downstreamIdempotencyKey q = deriveOfflineDownstreamIdempotencyKey pl (rr_namespace q) (rr_offlineOperationId q) (rr_operationKind q)
     \<and> (\<exists>w\<in>W. matches pl w q \<and> rr_offlineOperationId q = fo_offline_operation_id (wk_operation w)
          \<and> rr_operationKind q = fo_operation_kind (wk_operation w))"
    using assms(1) unfolding receipt_true_def by blast
  ultimately show ?thesis unfolding receipt_true_def settled_simps m(1) by blast
qed

lemma advance_finalize:
  assumes "db_ok pl W db" "w \<in> W" "held pl w r db" "verdict_true w r v (domain db)"
  shows "kept_by pl W w db (advance pl iso_string w at_ms now newId (Judged r e g v) db)"
proof -
  let ?f = "finalizeAndAdvance r g v (fo_trace_id (wk_operation w)) now db"
  have ok: "tables_ok db" "field_ok (domain db)" and rows: "\<And>q. q \<in> set (receipts db) \<Longrightarrow> receipt_true pl W (domain db) q"
    using assms(1) by (simp_all add: db_ok_def)
  from assms(3) obtain q0 where q0: "q0 \<in> set (receipts db)" "identity q0 = identity r" "matches pl w r"
    by (auto simp: held_def)
  have v: "verdict_ok v" using assms(4) by (simp add: verdict_true_def)
  note fin = finalize[OF ok(1) q0(1,2) v, of g "fo_trace_id (wk_operation w)" now]
  have "db_ok pl W (snd ?f)"
  proof (rule db_ok_step[OF assms(1) fin(1)])
    fix q assume "q \<in> set (receipts (snd ?f))"
    then consider "q \<in> set (receipts db)" | q' where "q' \<in> set (receipts db)" "rr_id q' = rr_id r" "q = settled_with v now q'"
      using finalize_receipts by blast
    then show "q \<in> set (receipts db) \<or> (\<exists>q'\<in>set (receipts db). identity q = identity q' \<and> rr_status q \<noteq> APPLIED)
        \<or> receipt_true pl W (domain (snd ?f)) q"
    proof cases
      case 2
      then have "q' = q0" using same_receipt[of "receipts db" q' q0] q0 ok(1) identity_simps(1)[OF q0(2)]
        by (simp add: tables_ok_def)
      then show ?thesis using settled_true[OF rows[OF q0(1)] q0(2) assms(2) q0(3) assms(4)] 2(3) by simp
    qed blast
  qed (simp_all add: ok)
  moreover have "phase_ok pl w (Lost r) (snd ?f)" using held_before[OF assms(3) fin(2)] by simp
  moreover have "phase_ok pl w (Answered (finalized_answer pl (wk_operation w) r v t lf)) (snd ?f)"
    if settled: "fst ?f = Finalized t lf" for t lf
  proof -
    obtain q where q: "q \<in> set (receipts db)" "identity q = identity r" "settled_with v now q \<in> set (receipts (snd ?f))" "t = now"
      using fin(3)[OF settled] by blast
    have "matches pl w (settled_with v now q)" using q(2,3) q0(3) matches_identity[of "settled_with v now q" r] by simp
    moreover have "finalized_answer pl (wk_operation w) r v t lf = Threw
        \<or> (\<exists>x. finalized_answer pl (wk_operation w) r v t lf = Result x \<and> records (settled_with v now q) x)"
      using identity_simps[OF q(2)] by (simp add: finalized_answer_def result_answer_def records_def q(4))
    ultimately show ?thesis
      using q(3) verdict_settles[OF v, of now q] by (auto intro!: bexI[of _ "settled_with v now q"])
  qed
  ultimately show ?thesis using fin(2)
    by (cases ?f; cases "fst ?f") (auto simp: kept_by_def)
qed

lemma advance_mark:
  assumes "db_ok pl W db" "held pl w r db"
  shows "kept_by pl W w db (advance pl iso_string w at_ms now newId (Marking r e g) db)"
proof -
  let ?m = "markUnknown r g (fo_trace_id (wk_operation w)) db"
  have ok: "tables_ok db" "field_ok (domain db)" using assms(1) by (simp_all add: db_ok_def)
  have "db_ok pl W (snd ?m)"
    by (rule db_ok_step[OF assms(1) mark(1)[OF ok(1)]]) (simp_all add: ok, use mark_receipts in blast)
  then show ?thesis using mark(2)[OF ok(1), of r g "fo_trace_id (wk_operation w)"] held_before[OF assms(2)]
    by (cases ?m; cases "fst ?m") (auto simp: kept_by_def)
qed

lemma advance_ensure:
  assumes "db_ok pl W db"
  shows "kept_by pl W w db (advance pl iso_string w at_ms now newId Sited db)"
proof -
  let ?e = "ensureCursor (wk_namespace w) db"
  have ok: "tables_ok db" "field_ok (domain db)" using assms(1) by (simp_all add: db_ok_def)
  have rs: "receipts (snd ?e) = receipts db" by (simp add: ensureCursor_def)
  have "db_ok pl W (snd ?e)"
    by (rule db_ok_step[OF assms(1) ensure_cursor(1)[OF ok(1)]]) (simp_all add: ok rs)
  then show ?thesis using ensure_cursor(2)[OF ok(1), of "wk_namespace w"]
    by (cases ?e) (auto simp: kept_by_def split: option.splits)
qed

lemma advance_kept:
  assumes "db_ok pl W db" "w \<in> W" "phase_ok pl w ph db"
  shows "kept_by pl W w db (advance pl iso_string w at_ms now newId ph db)"
proof (cases ph)
  case Bound
  then show ?thesis using assms(1) by (simp add: kept_by_def)
next
  case (Claimed r e g)
  let ?d = "domain db"
  have "verdict_true w r (applied_verdict f) ?d"
    if "probeCommittedEffect (wk_principal w) (wk_operation w) (rr_downstreamIdempotencyKey r) ?d = Some f" for f
    using probe_effect[OF that] unfolding verdict_true_applied command_of_def .
  then show ?thesis using assms Claimed by (auto simp: kept_by_def split: option.splits)
next
  case (Lost r)
  have ok: "tables_ok db" using assms(1) by (simp add: db_ok_def)
  show ?thesis
  proof (cases "getReceiptById (rr_id r) db")
    case None
    then show ?thesis using assms(1) Lost by (simp add: kept_by_def)
  next
    case (Some q)
    then have q: "q \<in> set (receipts db)" "rr_id q = rr_id r" by (auto simp: getReceiptById_def dest: find_SomeD)
    from assms(3) Lost obtain q0 where q0: "q0 \<in> set (receipts db)" "identity q0 = identity r" "matches pl w r"
      by (auto simp: held_def)
    have "q = q0" using same_receipt[of "receipts db" q q0] q q0 ok identity_simps(1)[OF q0(2)] by (simp add: tables_ok_def)
    then have "matches pl w q" "receipt_shape q" using q0 ok matches_identity[OF q0(2)] by (simp_all add: tables_ok_def)
    then show ?thesis using assms(1) Lost Some q(1) by (auto simp: kept_by_def intro: bexI[of _ q])
  qed
next
  case (Lost_Read found)
  show ?thesis
  proof (cases found)
    case None
    then show ?thesis using assms(1) Lost_Read by (simp add: kept_by_def reportLostFence_def)
  next
    case (Some r)
    with assms(3) Lost_Read obtain q where q: "q \<in> set (receipts db)" "receipt_before r q" "matches pl w r" "receipt_shape r"
      by auto
    then have "phase_ok pl w (Answered (replayStoredResult pl (wk_operation w) r lf)) db" if "isFinalized r" for lf
      using that by (intro phase_ok_stored[of r]) (auto simp: receipt_before_def)
    then show ?thesis using assms(1) Lost_Read Some by (simp add: kept_by_def reportLostFence_def)
  qed
qed (use assms in \<open>simp_all add: advance_admit advance_claim advance_execute advance_finalize advance_mark advance_ensure
    advance_unchanged del: advance.simps(2-4,6-8)\<close>)

subsection \<open>The machine\<close>

text \<open>A submission keeps its request, and its answer once given.\<close>

definition worker_before :: "worker \<times> phase \<Rightarrow> worker \<times> phase \<Rightarrow> bool" where
  "worker_before x y \<longleftrightarrow> fst y = fst x \<and> (\<forall>a. snd x = Answered a \<longrightarrow> snd y = Answered a)"

definition system_before :: "system \<Rightarrow> system \<Rightarrow> bool" where
  "system_before s t \<longleftrightarrow> replay_before (sys_db s) (sys_db t)
     \<and> length (sys_workers s) \<le> length (sys_workers t)
     \<and> (\<forall>i<length (sys_workers s). worker_before (sys_workers s ! i) (sys_workers t ! i))"

lemma begin_submit_ok: "begin_submit pl p cx raw lease = Inr w \<Longrightarrow> worker_ok pl w"
proof -
  assume b: "begin_submit pl p cx raw lease = Inr w"
  then obtain o' where o': "parse_operation pl raw = Some o'"
      "bindDeviceContext p cx o' (REQUIRED_ACTION_FOR_KIND (fo_operation_kind o')) = None"
      "w = \<lparr>wk_principal = p, wk_namespace = namespace_of cx o', wk_operation = o', wk_lease = lease\<rparr>"
    by (auto simp: begin_submit_def split: option.splits)
  then show ?thesis
    using parse_operation_ok[OF o'(1)] siteAllowed_authority[of p "REQUIRED_ACTION_FOR_KIND (fo_operation_kind o')" "fo_site_id o'"]
    by (auto simp: worker_ok_def bindDeviceContext_def namespace_of_def split: if_splits)
qed

lemma db_ok_workers: "db_ok pl W db \<Longrightarrow> W \<subseteq> V \<Longrightarrow> db_ok pl V db"
  unfolding db_ok_def receipt_true_def by (meson subsetD)

lemma db_ok_domain:
  assumes "db_ok pl W db" "field_ok d" "field_before (domain db) d"
  shows "db_ok pl W (db\<lparr>domain := d\<rparr>)" "replay_before db (db\<lparr>domain := d\<rparr>)"
proof -
  have "tables_ok (db\<lparr>domain := d\<rparr>)" using assms(1) tables_ok_cong[of "db\<lparr>domain := d\<rparr>" db] by (simp add: db_ok_def)
  then show "db_ok pl W (db\<lparr>domain := d\<rparr>)" using assms(2,3) by (intro db_ok_step[OF assms(1)]) simp_all
  show "replay_before db (db\<lparr>domain := d\<rparr>)" using assms(3) by (simp add: replay_before_def)
qed

lemma fated_kept:
  assumes "db_ok pl W db" "w \<in> W" "phase_ok pl w ph db"
  shows "kept_by pl W w db (fated fate ph db (advance pl iso_string w at_ms now newId ph db))"
proof -
  note kept = advance_kept[OF assms, of iso_string at_ms now newId]
  show ?thesis
  proof (cases fate)
    case Completes
    with kept show ?thesis by simp
  next
    case Fails_Before
    with assms show ?thesis by (simp add: kept_by_def phase_ok_thrown)
  next
    case Fails_After
    have "phase_ok pl w ph (snd (advance pl iso_string w at_ms now newId ph db))"
      using kept assms(3) by (auto simp: kept_by_def intro: phase_ok_before)
    with Fails_After kept show ?thesis by (simp add: kept_by_def phase_ok_thrown)
  qed
qed

lemma fated_answered: "snd (fated fate (Answered a) db (advance pl iso_string w at_ms now newId (Answered a) db)) = db"
    "fst (fated fate (Answered a) db (advance pl iso_string w at_ms now newId (Answered a) db)) = Answered a"
  by (cases fate; simp)+

text \<open>One worker moves: the others' phases hold in the later database.\<close>

lemma system_move:
  assumes "system_ok pl s" "i < length (sys_workers s)" "sys_workers s ! i = (w, ph)"
    and "kept_by pl (fst ` set (sys_workers s)) w (sys_db s) (ph', db')" "\<And>a. ph = Answered a \<Longrightarrow> ph' = Answered a"
  shows "system_ok pl \<lparr>sys_db = db', sys_workers = (sys_workers s)[i := (w, ph')]\<rparr>"
    "system_before s \<lparr>sys_db = db', sys_workers = (sys_workers s)[i := (w, ph')]\<rparr>"
proof -
  let ?ws = "sys_workers s"
  have kept: "db_ok pl (fst ` set ?ws) db'" "replay_before (sys_db s) db'" "phase_ok pl w ph' db'"
    using assms(4) by (simp_all add: kept_by_def)
  have fst_same: "map fst (?ws[i := (w, ph')]) = map fst ?ws"
    using assms(2,3) by (metis fst_conv list_update_id map_update)
  have ok: "worker_ok pl w' \<and> phase_ok pl w' p' db'" if "(w', p') \<in> set (?ws[i := (w, ph')])" for w' p'
  proof (cases "(w', p') = (w, ph')")
    case True
    moreover have "(w, ph) \<in> set ?ws" using assms(2,3) by (metis nth_mem)
    ultimately show ?thesis using assms(1) kept(3) by (auto simp: system_ok_def)
  next
    case False
    then have "(w', p') \<in> set ?ws" using that set_update_subset_insert[of ?ws i] by blast
    then show ?thesis using assms(1) kept(2) by (auto simp: system_ok_def intro: phase_ok_before)
  qed
  have "fst ` set (?ws[i := (w, ph')]) = fst ` set ?ws" using fst_same by (metis set_map)
  then show "system_ok pl \<lparr>sys_db = db', sys_workers = ?ws[i := (w, ph')]\<rparr>" using ok kept(1) by (auto simp: system_ok_def)
  have "worker_before (?ws ! j) (?ws[i := (w, ph')] ! j)" if "j < length ?ws" for j
    using assms(3,5) that by (cases "j = i") (auto simp: worker_before_def)
  with kept(2) show "system_before s \<lparr>sys_db = db', sys_workers = ?ws[i := (w, ph')]\<rparr>"
    by (simp add: system_before_def)
qed

lemma system_before_refl [simp]: "system_before s s"
  by (simp add: system_before_def worker_before_def)

lemma system_before_trans: "system_before a b \<Longrightarrow> system_before b c \<Longrightarrow> system_before a c"
  unfolding system_before_def worker_before_def using replay_before_trans by (metis order_trans less_le_trans)

lemma system_domain:
  assumes "system_ok pl s" "db_ok pl (fst ` set (sys_workers s)) db'" "replay_before (sys_db s) db'"
  shows "system_ok pl (s\<lparr>sys_db := db'\<rparr>)" "system_before s (s\<lparr>sys_db := db'\<rparr>)"
  using assms by (auto simp: system_ok_def system_before_def worker_before_def intro: phase_ok_before)

lemma act_step_ok:
  assumes ok: "system_ok pl s"
  shows "system_ok pl (act_step pl iso_string a s) \<and> system_before s (act_step pl iso_string a s)"
proof (cases a)
  case (Submit p cx raw lease)
  show ?thesis
  proof (cases "begin_submit pl p cx raw lease")
    case (Inl x)
    then show ?thesis using ok Submit by simp
  next
    case (Inr w)
    have "db_ok pl (insert w (fst ` set (sys_workers s))) (sys_db s)"
      using ok by (rule_tac db_ok_workers[of pl "fst ` set (sys_workers s)"]) (auto simp: system_ok_def)
    then show ?thesis using Inr ok begin_submit_ok[OF Inr] Submit
      by (auto simp: system_ok_def system_before_def worker_before_def nth_append)
  qed
next
  case (Step i fate at_ms now newId)
  show ?thesis
  proof (cases "i < length (sys_workers s)")
    case True
    obtain w ph where w: "sys_workers s ! i = (w, ph)" by (meson surj_pair)
    then have "(w, ph) \<in> set (sys_workers s)" using True by (metis nth_mem)
    then have pre: "db_ok pl (fst ` set (sys_workers s)) (sys_db s)" "w \<in> fst ` set (sys_workers s)" "phase_ok pl w ph (sys_db s)"
      using ok by (force simp: system_ok_def)+
    obtain ph' db' where f: "fated fate ph (sys_db s) (advance pl iso_string w at_ms now newId ph (sys_db s)) = (ph', db')"
      by (meson surj_pair)
    have "ph' = Answered x" if "ph = Answered x" for x using f fated_answered(2) unfolding that by (metis fst_conv)
    moreover have "kept_by pl (fst ` set (sys_workers s)) w (sys_db s) (ph', db')"
      using fated_kept[OF pre, of fate iso_string at_ms now newId] by (simp add: f)
    ultimately show ?thesis using system_move[OF ok True w, of ph' db'] Step True w by (simp add: f)
  next
    case False
    then show ?thesis using ok Step by simp
  qed
next
  case (Crash i)
  show ?thesis
  proof (cases "i < length (sys_workers s)")
    case True
    obtain w ph where w: "sys_workers s ! i = (w, ph)" by (meson surj_pair)
    then have "(w, ph) \<in> set (sys_workers s)" using True by (metis nth_mem)
    then have "kept_by pl (fst ` set (sys_workers s)) w (sys_db s) (crash_phase ph, sys_db s)"
      using ok by (auto simp: kept_by_def system_ok_def phase_ok_crash)
    from system_move[OF ok True w this] show ?thesis using Crash True w by (cases s) auto
  next
    case False
    then show ?thesis using ok Crash by simp
  qed
next
  case (Elsewhere x)
  have "db_ok pl (fst ` set (sys_workers s)) (sys_db s)" using ok by (simp add: system_ok_def)
  from system_domain[OF ok db_ok_domain[OF this]] this show ?thesis
    using Elsewhere field_ok_step field_before_step by (auto simp: db_ok_def)
next
  case (Lease_Issued org i)
  let ?db = "(sys_db s)\<lparr>policy_leases := policy_leases (sys_db s) @ [(org, i)]\<rparr>"
  have db: "db_ok pl (fst ` set (sys_workers s)) (sys_db s)" using ok by (simp add: system_ok_def)
  have "tables_ok ?db" using db tables_ok_cong[of ?db "sys_db s"] by (simp add: db_ok_def)
  then have kept: "db_ok pl (fst ` set (sys_workers s)) ?db"
    using db by (simp add: db_ok_def)
  have "replay_before (sys_db s) ?db" by (simp add: replay_before_def)
  from system_domain[OF ok kept this] show ?thesis unfolding Lease_Issued by simp
qed

lemma system_ok_empty: "system_ok pl empty_system"
  by (simp add: system_ok_def empty_system_def db_ok_def field_ok_empty tables_ok_def lane_ok_def lane_def
      cursor_of_def MAX_OFFLINE_DEVICE_SEQUENCE_def)

interpretation replay: forward_machine "system_ok pl" "act_step pl iso_string" system_before for pl iso_string
  by unfold_locales (simp_all add: act_step_ok, rule system_before_trans)

lemma replay_run_ok: "system_ok pl (replay_run pl iso_string acts)"
  by (rule replay.run_inv[OF system_ok_empty])

end
