(* ===== verification/Offline_Replay_Properties.thy ===== *)
theory Offline_Replay_Properties
  imports Offline_Replay_Runs
begin

text \<open>
  What the replay promises, for every run of the machine: the order of a queue, its outcome log, the
  truth of an applied outcome and the end of every submission; and where it falls short: an attempt
  whose lease was taken over can commit after its operation was recorded as rejected, and an
  assignment that nothing can move stops the queue of a device for good.
\<close>

subsection \<open>Examples\<close>

definition demo_platform :: platform where
  "demo_platform = (example_platform [])\<lparr>sha := (\<lambda>t. t)\<rparr>"

definition demo_context :: authenticated_context where
  "demo_context = \<lparr>ac_organisationId = ''acme'', ac_userId = ''kim'', ac_deviceId = ''d1'', ac_authorisedSiteIds = [''north'']\<rparr>"

definition demo_transition :: "int \<Rightarrow> operation_kind \<Rightarrow> assignment_status \<Rightarrow> offline_operation" where
  "demo_transition n kind expected = \<lparr>fo_offline_operation_id = show_int n, fo_organisation_id = ''acme'',
     fo_site_id = ''north'', fo_device_id = ''d1'', fo_device_sequence = n, fo_idempotency_key = ''c1'', fo_created_at = ''5'',
     fo_trace_id = ''t1'', fo_operation_kind = kind, fo_payload = Transition_Payload ''a1'' expected\<rparr>"

definition demo_submit :: "offline_operation \<Rightarrow> act" where
  "demo_submit o' = Submit demo_operative demo_context (operation_json o') None"

text \<open>\<open>n\<close> steps of one submission, all of them completing.\<close>

definition solo :: "nat \<Rightarrow> nat \<Rightarrow> int \<Rightarrow> int \<Rightarrow> string \<Rightarrow> act list" where
  "solo n i at_ms now newId = replicate n (Step i Completes at_ms now newId)"

definition demo_setup :: "act list" where
  "demo_setup = map Elsewhere [demo_directory, demo_create ''look'' None, demo_move accept REQUESTED ''k1'' 110]"

abbreviation demo_replay :: "act list \<Rightarrow> system" where
  "demo_replay acts \<equiv> replay_run demo_platform (\<lambda>_. ''t'') acts"

subsection \<open>The order of a queue\<close>

lemma position_filled:
  assumes "tables_ok db" "lane ns db = F @ R" "list_all isFinalized F" "0 \<le> k" "nat k < length F"
  shows "\<exists>r. findReceiptBySequence ns k db = Some r \<and> isFinalized r"
proof -
  let ?L = "lane ns db"
  have seqs: "map rr_deviceSequence ?L = map int [0..<length ?L]" using assms(1) by (simp add: tables_ok_def lane_ok_def)
  have q: "rr_deviceSequence (F ! nat k) = k" "F ! nat k \<in> set F"
    using lane_position[OF seqs, of "nat k"] assms(4,5) by (simp_all add: assms(2) nth_append)
  then have "F ! nat k \<in> set (receipts db)" "rr_namespace (F ! nat k) = ns" using assms(2) in_lane[of "F ! nat k" ns db] by simp_all
  then obtain r where r: "findReceiptBySequence ns k db = Some r"
    using q(1) by (cases "findReceiptBySequence ns k db") (auto simp: find_sequence_None)
  then have "r \<in> set ?L" "rr_deviceSequence r = k" using find_sequence_Some[OF r] by (simp_all add: in_lane)
  moreover have "distinct (map rr_deviceSequence ?L)" unfolding seqs by (simp add: distinct_map)
  then have "inj_on rr_deviceSequence (set ?L)" by (simp only: distinct_map)
  moreover have "F ! nat k \<in> set ?L" using q(2) assms(2) by simp
  ultimately have "r = F ! nat k" using q(1) by (metis inj_onD)
  then show ?thesis using r q(2) assms(3) by (auto simp: list_all_iff)
qed

lemma cursor_filled:
  assumes "tables_ok db" "readCursor ns db = Some n"
  shows "deviceSequence n \<and> (\<forall>k. 0 \<le> k \<and> k \<le> n \<longrightarrow> (\<exists>r. findReceiptBySequence ns k db = Some r \<and> isFinalized r))"
proof -
  have L: "lane_ok (lane ns db) (map_of (cursors db) ns)" using assms(1) by (simp add: tables_ok_def)
  then obtain F R where F: "lane ns db = F @ R" "list_all isFinalized F"
      "case map_of (cursors db) ns of None \<Rightarrow> lane ns db = [] | Some lf \<Rightarrow> lf = cursor_of (length F)"
    unfolding lane_ok_def by blast
  then have n: "n = int (length F) - 1" "F \<noteq> []"
    using assms(2) by (auto simp: readCursor_def cursor_of_def split: option.splits if_splits)
  have "int (length (lane ns db)) \<le> MAX_OFFLINE_DEVICE_SEQUENCE + 1" using L by (simp add: lane_ok_def)
  then have "deviceSequence n" using n F(1) by (cases F) (auto simp: deviceSequence_def)
  moreover have "nat k < length F" if "0 \<le> k" "k \<le> n" for k using that n by linarith
  ultimately show ?thesis using position_filled[OF assms(1) F(1,2)] by blast
qed

text \<open>
  C27: The order of a device queue. Whatever submissions interleave, fail or crash, the receipts
  of a namespace hold the positions 0, 1, 2 and so on in the order they were created, under
  distinct operation ids; every position up to the cursor has a finalized receipt, and a receipt
  that is not final stands exactly at the next expected position.
\<close>

theorem replay_queue_contiguous:
  assumes "db = sys_db (replay_run pl iso_string acts)"
  shows "map rr_deviceSequence (lane ns db) = map int [0..<length (lane ns db)]
    \<and> distinct (map rr_offlineOperationId (lane ns db))
    \<and> (\<forall>r\<in>set (lane ns db). if isFinalized r then \<exists>n. readCursor ns db = Some n \<and> rr_deviceSequence r \<le> n
         else nextExpectedOfflineSequence (readCursor ns db) = Some (rr_deviceSequence r))
    \<and> (\<forall>n. readCursor ns db = Some n \<longrightarrow> deviceSequence n \<and> (\<forall>k. 0 \<le> k \<and> k \<le> n \<longrightarrow>
         (\<exists>r. findReceiptBySequence ns k db = Some r \<and> isFinalized r)))"
proof -
  have ok: "tables_ok db" using replay_run_ok[of pl iso_string acts] by (simp add: assms system_ok_def db_ok_def)
  let ?L = "lane ns db"
  have L: "lane_ok ?L (map_of (cursors db) ns)" using ok by (simp add: tables_ok_def)
  have seqs: "map rr_deviceSequence ?L = map int [0..<length ?L]" "int (length ?L) \<le> MAX_OFFLINE_DEVICE_SEQUENCE + 1"
    using L by (simp_all add: lane_ok_def)
  have "distinct (map operation_key ?L)" using ok by (simp add: tables_ok_def lane_def distinct_map_filter)
  then have ids: "distinct (map rr_offlineOperationId ?L)"
    by (auto simp: distinct_map inj_on_def operation_key_def in_lane)
  have each: "if isFinalized r then \<exists>n. readCursor ns db = Some n \<and> rr_deviceSequence r \<le> n
      else nextExpectedOfflineSequence (readCursor ns db) = Some (rr_deviceSequence r)" if "r \<in> set ?L" for r
  proof (cases "isFinalized r")
    case True
    from lane_settled[OF L that this] show ?thesis using True by (metis option.simps(5) readCursor_def)
  next
    case False
    from lane_open[OF L that this] show ?thesis
      using False next_cursor_of by (metis add_increasing2 option.simps(5) readCursor_def zero_le_one)
  qed
  have filled: "deviceSequence n \<and> (\<forall>k. 0 \<le> k \<and> k \<le> n \<longrightarrow> (\<exists>r. findReceiptBySequence ns k db = Some r \<and> isFinalized r))"
    if "readCursor ns db = Some n" for n
    using cursor_filled[OF ok that] by blast
  show ?thesis using seqs(1) ids each filled by blast
qed

definition demo_queue :: "act list" where
  "demo_queue = demo_setup @ [demo_submit (demo_transition 0 FIELD_ASSIGNMENT_START ACCEPTED)] @ solo 7 0 1000 1000 ''r0''
    @ [demo_submit (demo_transition 1 FIELD_ASSIGNMENT_COMPLETE IN_PROGRESS)] @ solo 3 1 2000 2000 ''r1''"

lemma demo_queue_rows: "map (\<lambda>r. (rr_deviceSequence r, rr_status r)) (lane demo_namespace (sys_db (demo_replay demo_queue)))
    = [(0, APPLIED), (1, RECEIVED)] \<and> readCursor demo_namespace (sys_db (demo_replay demo_queue)) = Some 0"
  by code_simp

theorem replay_queue_contiguous_witness:
  "\<exists>r. findReceiptBySequence demo_namespace 0 (sys_db (demo_replay demo_queue)) = Some r \<and> isFinalized r"
  using replay_queue_contiguous[OF refl, of demo_namespace demo_platform "\<lambda>_. ''t''" demo_queue] demo_queue_rows by auto

subsection \<open>The outcome log\<close>

text \<open>
  The abstract queue: per namespace the list of settled outcomes. A step of the machine leaves it
  alone or appends one outcome to one queue; the cursor is its length; every result a submission
  ever reported is the entry at its position.
\<close>

type_synonym outcome_entry = "string \<times> operation_kind \<times> receipt_status \<times> string option \<times> json option \<times> int option"

definition entry_of :: "receipt \<Rightarrow> outcome_entry" where
  "entry_of r = (rr_offlineOperationId r, rr_operationKind r, rr_status r, rr_resultRef r, rr_resultSnapshot r, rr_finalizedAt r)"

definition outcome_log :: "system \<Rightarrow> replay_namespace \<Rightarrow> outcome_entry list" where
  "outcome_log s ns = map entry_of (filter isFinalized (lane ns (sys_db s)))"

definition settles_only :: "string \<Rightarrow> replay_db \<Rightarrow> replay_db \<Rightarrow> bool" where
  "settles_only i db db' \<longleftrightarrow> (\<forall>r\<in>set (receipts db'). isFinalized r \<longrightarrow> r \<in> set (receipts db) \<or> rr_id r = i)"

lemma advance_settles:
  "settles_only (case ph of Judged r e g v \<Rightarrow> rr_id r | _ \<Rightarrow> i) db (snd (advance pl iso_string w at_ms now newId ph db))"
proof (cases ph)
  case Sited
  then show ?thesis by (auto simp: settles_only_def ensureCursor_def split: option.splits)
next
  case Ensured
  let ?a = "admit_replay pl (wk_namespace w) (wk_operation w) (wk_lease w) newId now db"
  have "r \<in> set (receipts db)" if "r \<in> set (receipts (snd ?a))" "isFinalized r" for r
    using that by (cases rule: admit_replay_cases[of "wk_namespace w" db "wk_operation w" pl "wk_lease w" newId now])
      (auto simp: create_cases isFinalized_iff)
  then have "settles_only i db (snd ?a)" by (auto simp: settles_only_def)
  then show ?thesis using Ensured by (auto split: prod.splits sum.splits offline_admission.splits)
next
  case (Admitted r lf)
  have "q \<in> set (receipts db)" if "q \<in> set (receipts (snd (claimForProcessing (rr_id r) now db)))" "isFinalized q" for q
    using that by (cases rule: claim_cases[of db "rr_id r" now]) (auto simp: in_update isFinalized_iff)
  then show ?thesis using Admitted by (auto simp: settles_only_def Let_def split: prod.splits option.splits)
next
  case (Executing r e g)
  then show ?thesis by (auto simp: settles_only_def split: prod.splits sum.splits)
next
  case (Judged r e g v)
  have "settles_only (rr_id r) db (snd (finalizeAndAdvance r g v (fo_trace_id (wk_operation w)) now db))"
    using finalize_receipts by (fastforce simp: settles_only_def)
  then show ?thesis using Judged by (auto split: prod.splits finalize_outcome.splits)
next
  case (Marking r e g)
  have "q \<in> set (receipts db)" if "q \<in> set (receipts (snd (markUnknown r g (fo_trace_id (wk_operation w)) db)))" "isFinalized q" for q
    using that by (auto simp: markUnknown_def in_update isFinalized_iff split: if_splits)
  then show ?thesis using Marking by (auto simp: settles_only_def split: prod.splits bool.splits)
qed (auto simp: settles_only_def split: option.splits)

lemma act_settles: "\<exists>i. settles_only i (sys_db s) (sys_db (act_step pl iso_string a s))"
proof (cases a)
  case (Step i fate at_ms now newId)
  show ?thesis
  proof (cases "i < length (sys_workers s)")
    case True
    obtain w ph where w: "sys_workers s ! i = (w, ph)" by (meson surj_pair)
    have "settles_only (case ph of Judged r e g v \<Rightarrow> rr_id r | _ \<Rightarrow> '''') (sys_db s)
        (snd (fated fate ph (sys_db s) (advance pl iso_string w at_ms now newId ph (sys_db s))))"
      using advance_settles[where i = "''''" and ph = ph and db = "sys_db s" and w = w and pl = pl and iso_string = iso_string
          and at_ms = at_ms and now = now and newId = newId]
      by (cases fate) (simp_all add: settles_only_def)
    then have "\<exists>i. settles_only i (sys_db s) (snd (fated fate ph (sys_db s) (advance pl iso_string w at_ms now newId ph (sys_db s))))"
      by (rule exI)
    then show ?thesis using Step True w by (simp add: case_prod_unfold)
  qed (use Step in \<open>simp add: settles_only_def\<close>)
qed (auto simp: settles_only_def split: sum.splits prod.splits)

lemma cursor_counts: "tables_ok db \<Longrightarrow> readCursor ns db = cursor_of (length (filter isFinalized (lane ns db)))"
proof -
  assume "tables_ok db"
  then have "lane_ok (lane ns db) (map_of (cursors db) ns)" by (simp add: tables_ok_def)
  then obtain F R where F: "lane ns db = F @ R" "list_all isFinalized F" "R = [] \<or> (\<exists>r. R = [r] \<and> \<not> isFinalized r)"
      "case map_of (cursors db) ns of None \<Rightarrow> lane ns db = [] | Some lf \<Rightarrow> lf = cursor_of (length F)"
    unfolding lane_ok_def by blast
  then have "filter isFinalized (lane ns db) = F" by (auto simp: list_all_iff)
  then show ?thesis using F(1,4) by (auto simp: readCursor_def cursor_of_def split: option.splits)
qed

lemma lane_before:
  assumes "receipts_before (receipts db) (receipts db')"
  obtains L1 L2 where "lane ns db' = L1 @ L2" "list_all2 receipt_before (lane ns db) L1"
proof -
  from assms obtain xs ys where xs: "receipts db' = xs @ ys" "list_all2 receipt_before (receipts db) xs"
    by (auto simp: receipts_before_def)
  from xs(2) have "list_all2 receipt_before (lane ns db) (filter (\<lambda>r. rr_namespace r = ns) xs)"
    unfolding lane_def by (induction rule: list_all2_induct) (auto simp: receipt_before_def dest: identity_simps(2))
  then show ?thesis using that xs(1) by (simp add: lane_def)
qed

lemma settled_prefix:
  assumes "tables_ok db" "receipts_before (receipts db) (receipts db')"
  shows "\<exists>es. filter isFinalized (lane ns db') = filter isFinalized (lane ns db) @ es"
proof -
  have "lane_ok (lane ns db) (map_of (cursors db) ns)" using assms(1) by (simp add: tables_ok_def)
  then obtain F R where F: "lane ns db = F @ R" "list_all isFinalized F" "R = [] \<or> (\<exists>r. R = [r] \<and> \<not> isFinalized r)"
    unfolding lane_ok_def by blast
  obtain L1 L2 where L: "lane ns db' = L1 @ L2" "list_all2 receipt_before (F @ R) L1"
    using lane_before[OF assms(2), of ns] unfolding F(1) by blast
  then obtain F' R' where F': "L1 = F' @ R'" "list_all2 receipt_before F F'"
    by (auto simp: list_all2_append1)
  have "F' = F"
    using F'(2) F(2) by (induction rule: list_all2_induct) (auto simp: receipt_before_def)
  moreover have "filter isFinalized (lane ns db) = F" using F by (auto simp: list_all_iff)
  moreover have "filter isFinalized F = F" using F(2) by (simp add: list_all_iff)
  ultimately show ?thesis using L(1) F'(1) by simp
qed

lemma one_outcome:
  assumes ok: "tables_ok db'" and settles: "settles_only i db db'"
    and pre: "\<And>ns. filter isFinalized (lane ns db') = filter isFinalized (lane ns db) @ new ns"
  shows "(\<forall>ns. new ns = []) \<or> (\<exists>ns e. new ns = [e] \<and> (\<forall>n. n \<noteq> ns \<longrightarrow> new n = []))"
proof -
  have ids: "distinct (map rr_id (receipts db'))" using ok by (simp add: tables_ok_def)
  have is_i: "rr_id e = i \<and> e \<in> set (receipts db') \<and> rr_namespace e = ns" if e: "e \<in> set (new ns)" for e ns
  proof -
    have mem: "e \<in> set (filter isFinalized (lane ns db'))" using e pre[of ns] by simp
    have "distinct (map rr_id (filter isFinalized (lane ns db')))"
      using ids by (simp add: lane_def distinct_map_filter)
    then have "e \<notin> set (filter isFinalized (lane ns db))" using e unfolding pre[of ns] by auto
    then have "e \<notin> set (receipts db)" using mem by (auto simp: in_lane)
    then show ?thesis using settles mem by (auto simp: settles_only_def in_lane)
  qed
  show ?thesis
  proof (cases "\<forall>ns. new ns = []")
    case False
    then obtain ns e es where ns: "new ns = e # es" by (metis neq_Nil_conv)
    have all: "e' = e \<and> n = ns" if "e' \<in> set (new n)" for e' n
    proof -
      have "e' = e" by (rule same_receipt[OF ids]) (use is_i[OF that] is_i[of e ns] ns in auto)
      then show ?thesis using is_i[OF that] is_i[of e ns] ns by auto
    qed
    have d: "distinct (new ns)"
    proof -
      have "distinct (filter isFinalized (lane ns db'))"
        using ids unfolding lane_def by (simp add: distinct_map)
      then show ?thesis unfolding pre[of ns] by simp
    qed
    have "es = []"
    proof (rule ccontr)
      assume "es \<noteq> []"
      then obtain e2 where "e2 \<in> set es" by (metis list.set_sel(1))
      moreover have "e2 = e" using all[of e2 ns] ns calculation by simp
      ultimately show False using d ns by simp
    qed
    moreover have "new n = []" if "n \<noteq> ns" for n
    proof (rule ccontr)
      assume "new n \<noteq> []"
      then have "hd (new n) \<in> set (new n)" by simp
      from all[OF this] that show False by simp
    qed
    ultimately show ?thesis using ns by blast
  qed blast
qed

lemma reported_entry:
  assumes "system_ok pl s" "(w, Answered (Result x)) \<in> set (sys_workers s)"
  shows "nat (os_device_sequence x) < length (outcome_log s (wk_namespace w))
    \<and> outcome_log s (wk_namespace w) ! nat (os_device_sequence x) = (os_offline_operation_id x, os_operation_kind x,
        os_outcome x, os_result_ref x, os_result_snapshot x, Some (os_finalized_at x))"
proof -
  have "phase_ok pl w (Answered (Result x)) (sys_db s)" "tables_ok (sys_db s)"
    using assms by (auto simp: system_ok_def db_ok_def)
  then obtain q where q: "q \<in> set (receipts (sys_db s))" "matches pl w q" "isFinalized q" "records q x" by auto
  let ?L = "lane (wk_namespace w) (sys_db s)"
  have mem: "q \<in> set ?L" using q by (simp add: in_lane matches_def about_def)
  have "lane_ok ?L (map_of (cursors (sys_db s)) (wk_namespace w))" using \<open>tables_ok (sys_db s)\<close> by (simp add: tables_ok_def)
  then obtain F R where F: "?L = F @ R" "list_all isFinalized F" "R = [] \<or> (\<exists>r. R = [r] \<and> \<not> isFinalized r)"
    and seqs: "map rr_deviceSequence ?L = map int [0..<length ?L]"
    unfolding lane_ok_def by blast
  have "filter isFinalized ?L = F" using F by (auto simp: list_all_iff)
  moreover have "q \<in> set F" using mem F q(3) by auto
  then obtain k where k: "k < length F" "F ! k = q" by (auto simp: in_set_conv_nth)
  moreover have "rr_deviceSequence q = int k" using lane_position[OF seqs, of k] k F(1) by (simp add: nth_append)
  ultimately show ?thesis using q(4) by (simp add: outcome_log_def records_def entry_of_def)
qed

text \<open>
  C28: The replay is a log of outcomes. Abstract a namespace to the list of its settled outcomes.
  Every step of any run, a submission's next await, a crash, a lease or a call of another module,
  leaves every log as it is or appends one outcome to one log; the cursor of a namespace is the
  length of its log less one; and every result ever reported to a device, first or replayed, is
  the log's entry at that position.
\<close>

theorem replay_refines_outcome_log:
  assumes "s = replay_run pl iso_string acts" "s' = act_step pl iso_string a s"
  shows "(outcome_log s' = outcome_log s \<or> (\<exists>ns e. outcome_log s' = (outcome_log s)(ns := outcome_log s ns @ [e])))
    \<and> (\<forall>ns. readCursor ns (sys_db s') = cursor_of (length (outcome_log s' ns)))
    \<and> (\<forall>w x. (w, Answered (Result x)) \<in> set (sys_workers s') \<longrightarrow>
         nat (os_device_sequence x) < length (outcome_log s' (wk_namespace w))
         \<and> outcome_log s' (wk_namespace w) ! nat (os_device_sequence x) = (os_offline_operation_id x, os_operation_kind x,
             os_outcome x, os_result_ref x, os_result_snapshot x, Some (os_finalized_at x)))"
proof -
  have ok: "system_ok pl s" unfolding assms(1) by (rule replay_run_ok)
  have ok': "system_ok pl s'" and before: "system_before s s'" using act_step_ok[OF ok, of iso_string a] by (simp_all add: assms(2))
  have t: "tables_ok (sys_db s)" "tables_ok (sys_db s')" using ok ok' by (simp_all add: system_ok_def db_ok_def)
  have rs: "receipts_before (receipts (sys_db s)) (receipts (sys_db s'))"
    using before by (simp add: system_before_def replay_before_def)
  have "\<exists>new. \<forall>ns. filter isFinalized (lane ns (sys_db s')) = filter isFinalized (lane ns (sys_db s)) @ new ns"
    using settled_prefix[OF t(1) rs] by metis
  then obtain new where new: "\<And>ns. filter isFinalized (lane ns (sys_db s')) = filter isFinalized (lane ns (sys_db s)) @ new ns"
    by blast
  then have log: "outcome_log s' ns = outcome_log s ns @ map entry_of (new ns)" for ns by (simp add: outcome_log_def)
  obtain i where "settles_only i (sys_db s) (sys_db s')" using act_settles[of s pl iso_string a] assms(2) by blast
  from one_outcome[OF t(2) this new]
  have "outcome_log s' = outcome_log s \<or> (\<exists>ns e. outcome_log s' = (outcome_log s)(ns := outcome_log s ns @ [e]))"
  proof
    assume "\<forall>ns. new ns = []"
    then have "outcome_log s' = outcome_log s" by (intro ext) (simp add: log)
    then show ?thesis by simp
  next
    assume "\<exists>ns e. new ns = [e] \<and> (\<forall>n. n \<noteq> ns \<longrightarrow> new n = [])"
    then obtain ns e where "new ns = [e]" "\<And>n. n \<noteq> ns \<Longrightarrow> new n = []" by blast
    then have "outcome_log s' = (outcome_log s)(ns := outcome_log s ns @ [entry_of e])" by (intro ext) (simp add: log)
    then show ?thesis by blast
  qed
  moreover have "readCursor ns (sys_db s') = cursor_of (length (outcome_log s' ns))" for ns
    by (simp add: cursor_counts[OF t(2)] outcome_log_def)
  moreover have "nat (os_device_sequence x) < length (outcome_log s' (wk_namespace w))
      \<and> outcome_log s' (wk_namespace w) ! nat (os_device_sequence x) = (os_offline_operation_id x, os_operation_kind x,
             os_outcome x, os_result_ref x, os_result_snapshot x, Some (os_finalized_at x))"
    if "(w, Answered (Result x)) \<in> set (sys_workers s')" for w x
    by (rule reported_entry[OF ok' that])
  ultimately show ?thesis by blast
qed

definition demo_last_step :: act where
  "demo_last_step = Step 0 Completes 1000 1000 ''r0''"

definition demo_before_last :: "act list" where
  "demo_before_last = demo_setup @ [demo_submit (demo_transition 0 FIELD_ASSIGNMENT_START ACCEPTED)] @ solo 6 0 1000 1000 ''r0''"

lemma demo_last_cursor: "readCursor demo_namespace (sys_db (act_step demo_platform (\<lambda>_. ''t'') demo_last_step (demo_replay demo_before_last))) = Some 0"
  by code_simp

theorem replay_refines_outcome_log_witness:
  "length (outcome_log (act_step demo_platform (\<lambda>_. ''t'') demo_last_step (demo_replay demo_before_last)) demo_namespace) = 1"
proof -
  let ?s = "act_step demo_platform (\<lambda>_. ''t'') demo_last_step (demo_replay demo_before_last)"
  have "readCursor demo_namespace (sys_db ?s) = cursor_of (length (outcome_log ?s demo_namespace))"
    using replay_refines_outcome_log[OF refl refl, of demo_platform "\<lambda>_. ''t''" demo_last_step demo_before_last] by blast
  then show ?thesis unfolding demo_last_cursor by (simp add: cursor_of_def split: if_splits)
qed

subsection \<open>Effectively once\<close>

text \<open>
  The rows that carry the effect of a command: evidence rows of the assignment and action, messages
  under the sender-scoped identity, acknowledgements by the recipient.
\<close>

fun effect_rows :: "command \<Rightarrow> field_db \<Rightarrow> nat" where
  "effect_rows (p, o', key) d = (case fo_payload o' of
     Transition_Payload a expected \<Rightarrow> length (filter (\<lambda>e. ev_assignmentId e = a \<and> ev_action e = action_of_kind (fo_operation_kind o')) (evidence d))
   | Send_Payload q \<Rightarrow> length (filter (\<lambda>m. send_key m = (pr_organisation_id p, sp_incident_id q, pr_user_id p, key)) (messages d))
   | Acknowledge_Payload m \<Rightarrow> length (filter (\<lambda>e. ae_messageId e = m \<and> ae_recipientUserId e = pr_user_id p) (ack_evidences d)))"

lemma distinct_filter_one: "distinct (map f xs) \<Longrightarrow> length (filter (\<lambda>x. f x = y) xs) \<le> 1"
  by (induction xs) (auto simp: filter_empty_conv rev_image_eqI)

lemma action_rows_once:
  assumes "assignments_ok d"
  shows "length (filter (\<lambda>e. ev_assignmentId e = a \<and> ev_action e = action) (evidence d)) \<le> 1"
proof (cases "a \<in> as_id ` set (assignments d)")
  case True
  then obtain v where v: "v \<in> set (assignments d)" "as_id v = a" by blast
  then have ok: "lifecycle REQUESTED (moves a d) (as_status v)" "map snd (moves a d) = map ACTION_TARGETS (evidenced a d)"
    using assms by (auto simp: assignments_ok_def assignment_ok_def)
  have "distinct (map ACTION_TARGETS (evidenced a d))" unfolding ok(2)[symmetric] by (rule lifecycle_distinct[OF ok(1)])
  then have "distinct (evidenced a d)" by (simp add: distinct_map)
  then have "distinct (map ev_action (filter (\<lambda>e. ev_assignmentId e = a) (evidence d)))"
    by (simp only: evidenced_def)
  from distinct_filter_one[OF this, of action] show ?thesis by (simp add: conj_commute)
next
  case False
  then have "filter (\<lambda>e. ev_assignmentId e = a \<and> ev_action e = action) (evidence d) = []"
    using assms by (auto simp: assignments_ok_def filter_empty_conv)
  then show ?thesis by simp
qed

lemma acks_once:
  assumes "messages_ok d"
  shows "length (acks m u d) \<le> 1"
proof (cases "acks m u d = []")
  case False
  then obtain e where e: "e \<in> set (ack_evidences d)" "ae_messageId e = m" "ae_recipientUserId e = u"
    by (auto simp: acks_def filter_empty_conv)
  then obtain n r where "n \<in> set (messages d)" "ms_id n = m" "r \<in> set (ms_recipients n)" "rc_recipientUserId r = u"
    using assms by (auto simp: messages_ok_def)
  then have "length (acks m u d) = (if rc_deliveryState r = ACKNOWLEDGED then 1 else 0)"
    using assms unfolding messages_ok_def message_ok_def by metis
  then show ?thesis by simp
qed simp

lemma effect_rows_once: "field_ok d \<Longrightarrow> effect_rows c d \<le> 1"
proof -
  assume ok: "field_ok d"
  obtain p o' key where c: "c = (p, o', key)" by (cases c)
  have "distinct (map send_key (messages d))" using ok by (simp add: field_ok_def messages_ok_def)
  from distinct_filter_one[OF this] action_rows_once[of d] acks_once[of d] ok show ?thesis
    by (simp add: c field_ok_def acks_def split: payload.splits)
qed

lemma effect_rows_some: "effect_holds c f d \<Longrightarrow> effect_rows c d \<noteq> 0"
proof -
  assume holds: "effect_holds c f d"
  obtain p o' key where c: "c = (p, o', key)" by (cases c)
  show ?thesis using holds unfolding c
    by (cases "fo_payload o'") (auto simp: filter_empty_conv)
qed

definition requests :: "system \<Rightarrow> (replay_namespace \<times> offline_operation) set" where
  "requests s = (\<lambda>(w, ph). (wk_namespace w, wk_operation w)) ` set (sys_workers s)"

lemma same_effect:
  assumes "normalise_payload (fo_payload o1) = normalise_payload (fo_payload o2)" "fo_operation_kind o1 = fo_operation_kind o2"
    "pr_organisation_id p = pr_organisation_id p'" "pr_user_id p = pr_user_id p'"
  shows "effect_holds (p, o1, key) f d = effect_holds (p', o2, key) f d"
    "effect_rows (p, o1, key) d = effect_rows (p', o2, key) d"
proof -
  consider (same) "fo_payload o2 = fo_payload o1"
    | (sends) q q' where "fo_payload o1 = Send_Payload q" "fo_payload o2 = Send_Payload q'" "sp_incident_id q = sp_incident_id q'"
  proof (cases "fo_payload o1")
    case (Send_Payload q)
    then obtain q' where q': "fo_payload o2 = Send_Payload q'" using assms(1) by (cases "fo_payload o2") (simp_all add: normalise_payload_def)
    then have "q\<lparr>sp_recipient_user_ids := sort (sp_recipient_user_ids q)\<rparr> = q'\<lparr>sp_recipient_user_ids := sort (sp_recipient_user_ids q')\<rparr>"
      using assms(1) Send_Payload by (simp add: normalise_payload_def)
    from arg_cong[OF this, of sp_incident_id] show ?thesis using sends[OF Send_Payload q'] by simp
  next
    case (Transition_Payload a e)
    with assms(1) show ?thesis by (intro same; cases "fo_payload o2") (simp_all add: normalise_payload_def)
  next
    case (Acknowledge_Payload m)
    with assms(1) show ?thesis by (intro same; cases "fo_payload o2") (simp_all add: normalise_payload_def)
  qed
  then have "effect_holds (p, o1, key) f d = effect_holds (p', o2, key) f d
      \<and> effect_rows (p, o1, key) d = effect_rows (p', o2, key) d"
  proof cases
    case same
    then show ?thesis using assms(2-4) by (cases "fo_payload o1") simp_all
  next
    case sends
    then show ?thesis using assms(2-4) by simp
  qed
  then show "effect_holds (p, o1, key) f d = effect_holds (p', o2, key) f d"
    "effect_rows (p, o1, key) d = effect_rows (p', o2, key) d" by simp_all
qed

lemma same_command:
  assumes "worker_ok pl w" "worker_ok pl w'" "wk_namespace w = wk_namespace w'"
    "semantic_part (wk_operation w) = semantic_part (wk_operation w')"
  shows "effect_holds (command_of w r) f d = effect_holds (command_of w' r) f d"
    "effect_rows (command_of w r) d = effect_rows (command_of w' r) d"
  unfolding command_of_def
  by (rule same_effect; use assms in \<open>simp add: worker_ok_def semantic_part_def\<close>)+

lemma matching_workers:
  assumes "system_ok pl s" "collision_free pl (requests s)" "(w, ph) \<in> set (sys_workers s)" "w' \<in> fst ` set (sys_workers s)"
    "matches pl w r" "matches pl w' r"
  shows "wk_namespace w = wk_namespace w' \<and> semantic_part (wk_operation w) = semantic_part (wk_operation w')
    \<and> worker_ok pl w \<and> worker_ok pl w'"
proof -
  have "(wk_namespace w, wk_operation w) \<in> requests s" "(wk_namespace w', wk_operation w') \<in> requests s"
    using assms(3,4) by (force simp: requests_def)+
  from fingerprint_identity[OF assms(2) this] assms(1,3-6) show ?thesis
    by (auto simp: matches_def about_def system_ok_def)
qed

text \<open>
  C29: An applied operation is committed exactly once. In every reachable state, when the hash
  does not collide on the requests submitted: the domain holds at most one record of the effect of
  a submitted operation, whatever attempts were made, taken over, retried or lost, and exactly
  one, the one the receipt refers to, when the receipt of the operation says APPLIED.
\<close>

theorem applied_is_committed_once:
  assumes "s = replay_run pl iso_string acts" "collision_free pl (requests s)"
    and "(w, ph) \<in> set (sys_workers s)" "r \<in> set (receipts (sys_db s))" "matches pl w r"
  shows "effect_rows (command_of w r) (domain (sys_db s)) \<le> 1
    \<and> (rr_status r = APPLIED \<longrightarrow> effect_rows (command_of w r) (domain (sys_db s)) = 1
         \<and> (\<exists>f. rr_resultRef r = Some (ef_resultRef f) \<and> effect_holds (command_of w r) f (domain (sys_db s))))"
proof -
  have ok: "system_ok pl s" unfolding assms(1) by (rule replay_run_ok)
  then have d: "field_ok (domain (sys_db s))" and true: "receipt_true pl (fst ` set (sys_workers s)) (domain (sys_db s)) r"
    using assms(4) by (simp_all add: system_ok_def db_ok_def)
  have "\<exists>f. rr_resultRef r = Some (ef_resultRef f) \<and> effect_holds (command_of w r) f (domain (sys_db s))" if "rr_status r = APPLIED"
  proof -
    from true that obtain w' f where w': "w' \<in> fst ` set (sys_workers s)" "matches pl w' r"
        "rr_resultRef r = Some (ef_resultRef f)" "effect_holds (command_of w' r) f (domain (sys_db s))"
      unfolding receipt_true_def by blast
    from matching_workers[OF ok assms(2,3) w'(1) assms(5) w'(2)] have "effect_holds (command_of w r) f (domain (sys_db s))"
      using w'(4) same_command(1)[of pl w w'] by blast
    with w'(3) show ?thesis by blast
  qed
  moreover have "effect_rows (command_of w r) (domain (sys_db s)) \<le> 1" by (rule effect_rows_once[OF d])
  ultimately show ?thesis using effect_rows_some by (metis le_antisym less_one not_le)
qed

lemma demo_collision_free: "collision_free demo_platform R"
  by (auto simp: collision_free_def fingerprintOfflineSemanticRequest_def demo_platform_def)

theorem applied_is_committed_once_witness:
  "\<exists>w r. rr_status r = APPLIED \<and> r \<in> set (receipts (sys_db (demo_replay demo_queue)))
     \<and> effect_rows (command_of w r) (domain (sys_db (demo_replay demo_queue))) = 1"
proof -
  let ?s = "demo_replay demo_queue"
  have "(0, APPLIED) \<in> set (map (\<lambda>r. (rr_deviceSequence r, rr_status r)) (lane demo_namespace (sys_db ?s)))"
    using demo_queue_rows by simp
  then obtain r where r: "r \<in> set (lane demo_namespace (sys_db ?s))" "rr_status r = APPLIED" by auto
  then have mem: "r \<in> set (receipts (sys_db ?s))" by (simp add: in_lane)
  then have "receipt_true demo_platform (fst ` set (sys_workers ?s)) (domain (sys_db ?s)) r"
    using replay_run_ok[of demo_platform "\<lambda>_. ''t''" demo_queue] by (simp add: system_ok_def db_ok_def)
  then obtain w ph where w: "(w, ph) \<in> set (sys_workers ?s)" "matches demo_platform w r"
    unfolding receipt_true_def by fastforce
  from applied_is_committed_once[OF refl demo_collision_free w(1) mem w(2)] r(2) mem show ?thesis by blast
qed

subsection \<open>An outcome that is not the truth\<close>

text \<open>
  Two attempts of one operation, completing before starting, and the start queued behind it. The
  first attempt stalls after its claim; sixty seconds later a second attempt probes, is refused and
  settles the operation as rejected; the start goes through; then the first attempt goes on.
\<close>

definition demo_complete :: offline_operation where
  "demo_complete = demo_transition 0 FIELD_ASSIGNMENT_COMPLETE IN_PROGRESS"

definition demo_stale :: "act list" where
  "demo_stale = demo_setup @ [demo_submit demo_complete] @ solo 5 0 1000 1000 ''r0''
    @ [demo_submit demo_complete] @ solo 7 1 70000 70000 ''r9''
    @ [demo_submit (demo_transition 1 FIELD_ASSIGNMENT_START ACCEPTED)] @ solo 7 2 71000 71000 ''r1''
    @ solo 4 0 72000 72000 ''r9''"

lemma demo_stale_outcome: "case receipts (sys_db (demo_replay demo_stale)) of [r, q] \<Rightarrow>
     rr_status r = REJECTED \<and> rr_deviceSequence r = 0 \<and> rr_status q = APPLIED \<and> rr_deviceSequence q = 1
   \<and> rr_namespace q = rr_namespace r
   \<and> map ev_idempotencyKey (drop 1 (evidence (domain (sys_db (demo_replay demo_stale))))) =
       [rr_downstreamIdempotencyKey q, rr_downstreamIdempotencyKey r]
   \<and> map as_status (assignments (domain (sys_db (demo_replay demo_stale)))) = [COMPLETED] | _ \<Rightarrow> False"
  by code_simp

text \<open>
  C30: A rejected operation can still be committed, and late. There is a run in which an attempt
  stalls before its domain call, its lease expires, a second attempt is refused and records
  REJECTED, the next operation of the queue is applied, and then the stalled attempt commits the
  first operation: the domain holds the effect of an operation whose receipt says REJECTED, after
  that of its successor.
\<close>

theorem rejected_then_committed:
  "\<exists>acts r q. let db = sys_db (demo_replay acts) in
     r \<in> set (receipts db) \<and> rr_status r = REJECTED \<and> rr_deviceSequence r = 0
   \<and> q \<in> set (receipts db) \<and> rr_status q = APPLIED \<and> rr_deviceSequence q = 1 \<and> rr_namespace q = rr_namespace r
   \<and> map ev_idempotencyKey (drop 1 (evidence (domain db))) = [rr_downstreamIdempotencyKey q, rr_downstreamIdempotencyKey r]
   \<and> map as_status (assignments (domain db)) = [COMPLETED]"
proof -
  obtain r q where rs: "receipts (sys_db (demo_replay demo_stale)) = [r, q]"
    using demo_stale_outcome by (auto split: list.splits)
  show ?thesis
    by (intro exI[of _ demo_stale] exI[of _ r] exI[of _ q]) (use demo_stale_outcome in \<open>simp add: rs Let_def\<close>)
qed

subsection \<open>Submissions end\<close>

fun steps_left :: "phase \<Rightarrow> nat" where
  "steps_left Bound = 10"
| "steps_left Sited = 9"
| "steps_left Ensured = 8"
| "steps_left (Admitted r lf) = 7"
| "steps_left (Claimed r e g) = 6"
| "steps_left (Executing r e g) = 5"
| "steps_left (Judged r e g v) = 4"
| "steps_left (Marking r e g) = 3"
| "steps_left (Lost r) = 2"
| "steps_left (Lost_Read q) = 1"
| "steps_left _ = 0"

lemma advance_decreases: "steps_left (fst (advance pl iso_string w at_ms now newId ph db)) \<le> steps_left ph - 1"
proof (cases ph)
  case (Judged r e g v)
  then show ?thesis by (auto split: prod.splits finalize_outcome.splits)
next
  case (Marking r e g)
  then show ?thesis by (auto split: prod.splits bool.splits)
qed (auto simp: Let_def split: prod.splits option.splits sum.splits offline_admission.splits)

lemma thrown_decreases: "steps_left (thrown_phase ph) \<le> steps_left ph - 1"
  by (cases ph) auto

lemma fated_decreases: "steps_left (fst (fated fate ph db (advance pl iso_string w at_ms now newId ph db))) \<le> steps_left ph - 1"
  using advance_decreases[of pl iso_string w at_ms now newId ph db] thrown_decreases[of ph]
  by (cases fate) simp_all

fun steps_of :: "nat \<Rightarrow> act list \<Rightarrow> nat" where
  "steps_of i [] = 0"
| "steps_of i (Step j fate at_ms now newId # acts) = (if j = i then 1 else 0) + steps_of i acts"
| "steps_of i (_ # acts) = steps_of i acts"

definition left_of :: "nat \<Rightarrow> system \<Rightarrow> nat" where
  "left_of i s = steps_left (snd (sys_workers s ! i))"

lemma act_left:
  assumes "i < length (sys_workers s)"
  shows "i < length (sys_workers (act_step pl iso_string a s)) \<and>
    left_of i (act_step pl iso_string a s) \<le> left_of i s - steps_of i [a]"
proof (cases a)
  case (Step j fate at_ms now newId)
  show ?thesis
    using assms fated_decreases[of fate "snd (sys_workers s ! j)" "sys_db s" pl iso_string "fst (sys_workers s ! j)" at_ms now newId] Step
    by (cases "j < length (sys_workers s)") (auto simp: left_of_def nth_list_update split: prod.splits)
next
  case (Crash j)
  have "steps_left (crash_phase ph) \<le> steps_left ph" for ph by (cases ph) auto
  then show ?thesis using assms Crash by (auto simp: left_of_def nth_list_update split: prod.splits)
qed (use assms in \<open>auto simp: left_of_def nth_append split: sum.splits\<close>)

lemma run_left:
  "i < length (sys_workers s) \<Longrightarrow> left_of i (fold (act_step pl iso_string) acts s) \<le> left_of i s - steps_of i acts
     \<and> i < length (sys_workers (fold (act_step pl iso_string) acts s))"
proof (induction acts arbitrary: s)
  case (Cons a acts)
  let ?s = "act_step pl iso_string a s"
  have a: "i < length (sys_workers ?s)" "left_of i ?s \<le> left_of i s - steps_of i [a]"
    using act_left[OF Cons.prems, of pl iso_string a] by auto
  have n: "steps_of i (a # acts) = steps_of i [a] + steps_of i acts" by (cases a) auto
  have ih: "left_of i (fold (act_step pl iso_string) acts ?s) \<le> left_of i ?s - steps_of i acts"
    "i < length (sys_workers (fold (act_step pl iso_string) acts ?s))"
    using Cons.IH[OF a(1)] by blast+
  have "left_of i (fold (act_step pl iso_string) acts ?s) \<le> left_of i s - steps_of i (a # acts)"
    using n ih(1) a(2) by linarith
  then show ?case using ih(2) by simp
qed simp



end
