(* ===== verification/Offline_Replay_Poison.thy ===== *)
theory Offline_Replay_Poison
  imports Offline_Replay_Properties
begin

text \<open>
  An order that no attempt can carry out or refuse. The transition of an assignment that fails its
  own contract throws inside the domain, which the executor cannot tell from an outage: the receipt
  is marked unknown and its position is never settled, so the queue of the device ends there.
\<close>

definition stuck_order :: "assignment \<Rightarrow> replay_namespace \<Rightarrow> offline_operation \<Rightarrow> bool" where
  "stuck_order a ns o' \<longleftrightarrow> unrepairable a \<and> as_status a = REQUESTED
     \<and> fo_operation_kind o' \<in> {FIELD_ASSIGNMENT_ACCEPT, FIELD_ASSIGNMENT_DECLINE}
     \<and> fo_payload o' = Transition_Payload (as_id a) REQUESTED
     \<and> ns_organisation_id ns = as_organisationId a \<and> ns_site_id ns = as_siteId a \<and> ns_user_id ns = as_assigneeUserId a"

subsection \<open>The call\<close>

lemma lifecycle_back: "lifecycle s ms s \<Longrightarrow> ms = []"
  using lifecycle_bounded[of s ms s] by simp

lemma requested_no_evidence:
  assumes "assignments_ok db" "a \<in> set (assignments db)" "as_status a = REQUESTED" "e \<in> set (evidence db)"
  shows "ev_assignmentId e \<noteq> as_id a"
proof
  assume e: "ev_assignmentId e = as_id a"
  have ok: "lifecycle REQUESTED (moves (as_id a) db) (as_status a)"
      "map snd (moves (as_id a) db) = map ACTION_TARGETS (evidenced (as_id a) db)"
    using assms(1,2) by (simp_all add: assignments_ok_def assignment_ok_def)
  have "moves (as_id a) db = []" by (rule lifecycle_back) (use ok(1) assms(3) in simp)
  then have "evidenced (as_id a) db = []" using ok(2) by simp
  then show False using assms(4) e by (auto simp: evidenced_def filter_empty_conv)
qed

lemma stuck_transition:
  assumes "assignments_ok db" "a \<in> set (assignments db)" "unrepairable a" "as_status a = REQUESTED"
    and "pr_organisation_id p = as_organisationId a" "pr_user_id p = as_assigneeUserId a" "siteAllowed scope (as_siteId a)"
    and "action = accept \<or> action = decline"
  shows "transitionAssignment p scope (as_id a) action REQUESTED key at_ms now db = (Inl Fault, db)"
proof -
  let ?t = "transition_input_of p scope (as_id a) action REQUESTED key"
  have ids: "distinct (map as_id (assignments db))" using assms(1) by (simp add: assignments_ok_def)
  have "visible (pr_organisation_id p) (as_id a) scope a" using assms(5,7) by (simp add: visible_def)
  then obtain c where c: "List.find (visible (pr_organisation_id p) (as_id a) scope) (assignments db) = Some c"
    using assms(2) by (cases "List.find (visible (pr_organisation_id p) (as_id a) scope) (assignments db)") (auto simp: find_None_iff)
  have "c = a" using same_id[OF ids _ assms(2)] find_SomeD[OF c] by (auto simp: visible_def)
  moreover have "\<not> action_known action (as_id a) key db"
    using requested_no_evidence[OF assms(1,2,4)] by (auto simp: action_known_def list_ex_iff)
  moreover have "\<not> assertAssignmentContract (moved_row ?t at_ms now a)"
    by (rule unrepairable_refused) (simp add: assms(3))
  moreover have "canTransitionFieldAssignmentStatus REQUESTED (ACTION_TARGETS action)" "REQUESTED \<noteq> ACTION_TARGETS action"
    using assms(8) by (auto simp: canTransitionFieldAssignmentStatus_def)
  ultimately show ?thesis
    using c assms(4,6) by (simp add: transitionAssignment_def transitionAssignment_repo_def transition_input_of_def Let_def)
qed

lemma stuck_call:
  assumes "stuck_order a (wk_namespace w) (wk_operation w)" "worker_ok pl w" "field_ok db" "a \<in> set (assignments db)"
    and "bounded_text 256 key"
  shows "probeCommittedEffect (wk_principal w) (wk_operation w) key' db = None"
    "execute_operation pl iso_string (wk_principal w) (worker_scope w) (wk_operation w) key newId at_ms now db = (Inl Fault, db)"
proof -
  have ok: "assignments_ok db" using assms(3) by (simp add: field_ok_def)
  have stuck: "unrepairable a" "as_status a = REQUESTED" "fo_payload (wk_operation w) = Transition_Payload (as_id a) REQUESTED"
      "fo_operation_kind (wk_operation w) = FIELD_ASSIGNMENT_ACCEPT \<or> fo_operation_kind (wk_operation w) = FIELD_ASSIGNMENT_DECLINE"
    using assms(1) by (auto simp: stuck_order_def)
  have who: "pr_organisation_id (wk_principal w) = as_organisationId a" "pr_user_id (wk_principal w) = as_assigneeUserId a"
      "siteAllowed (worker_scope w) (as_siteId a)"
    using assms(1,2) by (auto simp: stuck_order_def worker_ok_def worker_scope_def siteAllowed_authority)
  show "probeCommittedEffect (wk_principal w) (wk_operation w) key' db = None"
    using requested_no_evidence[OF ok assms(4) stuck(2)] stuck(3)
    by (auto simp: probeCommittedEffect_def probeTransitionEvidence_def findTransitionEvidence_def list_ex_iff)
  have "action_of_kind (fo_operation_kind (wk_operation w)) = accept \<or> action_of_kind (fo_operation_kind (wk_operation w)) = decline"
    using stuck(4) by auto
  from stuck_transition[OF ok assms(4) stuck(1,2) who this]
  show "execute_operation pl iso_string (wk_principal w) (worker_scope w) (wk_operation w) key newId at_ms now db = (Inl Fault, db)"
    using assms(5) by (simp add: execute_operation_def stuck(3) executeAssignmentTransition_def parseAssignmentAction_def)
qed

subsection \<open>The invariant\<close>

fun judging :: "platform \<Rightarrow> replay_namespace \<Rightarrow> offline_operation \<Rightarrow> phase \<Rightarrow> bool" where
  "judging pl ns o' (Judged r e g v) \<longleftrightarrow> about pl ns o' r"
| "judging pl ns o' _ \<longleftrightarrow> False"

definition wedged :: "platform \<Rightarrow> assignment \<Rightarrow> replay_namespace \<Rightarrow> offline_operation \<Rightarrow> system \<Rightarrow> bool" where
  "wedged pl a ns o' s \<longleftrightarrow> system_ok pl s \<and> a \<in> set (assignments (domain (sys_db s)))
     \<and> (\<forall>r\<in>set (receipts (sys_db s)). about pl ns o' r \<longrightarrow> \<not> isFinalized r)
     \<and> (\<forall>x\<in>set (sys_workers s). \<not> judging pl ns o' (snd x))"

lemma advance_domain: "\<exists>ops. domain (snd (advance pl iso_string w at_ms now newId ph db)) = fold (field_step iso_string) ops (domain db)"
proof -
  have same: "\<exists>ops. domain (snd (advance pl iso_string w at_ms now newId ph db)) = fold (field_step iso_string) ops (domain db)"
    if "domain (snd (advance pl iso_string w at_ms now newId ph db)) = domain db"
    using that by (intro exI[of _ "[]"]) simp
  show ?thesis
  proof (cases ph)
    case Sited
    have "domain (snd (ensureCursor (wk_namespace w) db)) = domain db" by simp
    then show ?thesis by (intro same, cases "ensureCursor (wk_namespace w) db") (auto simp: Sited split: prod.splits option.splits)
  next
    case Ensured
    have "domain (snd (admit_replay pl (wk_namespace w) (wk_operation w) (wk_lease w) newId now db)) = domain db" by simp
    then show ?thesis by (intro same, cases "admit_replay pl (wk_namespace w) (wk_operation w) (wk_lease w) newId now db") (auto simp: Ensured split: prod.splits sum.splits offline_admission.splits)
  next
    case (Admitted r lf)
    have "domain (snd (claimForProcessing (rr_id r) now db)) = domain db" by simp
    then show ?thesis by (intro same, cases "claimForProcessing (rr_id r) now db") (auto simp: Admitted Let_def split: prod.splits option.splits)
  next
    case (Judged r e g v)
    have "domain (snd (finalizeAndAdvance r g v (fo_trace_id (wk_operation w)) now db)) = domain db" by simp
    then show ?thesis by (intro same, cases "finalizeAndAdvance r g v (fo_trace_id (wk_operation w)) now db") (auto simp: Judged split: prod.splits finalize_outcome.splits)
  next
    case (Marking r e g)
    have "domain (snd (markUnknown r g (fo_trace_id (wk_operation w)) db)) = domain db" by simp
    then show ?thesis by (intro same, cases "markUnknown r g (fo_trace_id (wk_operation w)) db") (auto simp: Marking split: prod.splits bool.splits)
  next
    case (Executing r e g)
    then show ?thesis
      using execute_run[of pl iso_string "wk_principal w" "worker_scope w" "wk_operation w" "rr_downstreamIdempotencyKey r" newId at_ms now "domain db"]
      by (auto split: prod.splits sum.splits)
  next
    case (Claimed r e g)
    then show ?thesis by (intro same) (auto split: option.splits)
  qed (rule same; simp)+
qed

lemma requests_grow: "requests s \<subseteq> requests (act_step pl iso_string a s)"
proof (cases a)
  case (Step i fate at_ms now newId)
  show ?thesis
  proof (cases "i < length (sys_workers s)")
    case True
    obtain w ph where w: "sys_workers s ! i = (w, ph)" by (meson surj_pair)
    have "map fst ((sys_workers s)[i := (w, ph')]) = map fst (sys_workers s)" for ph'
      using True w by (metis fst_conv list_update_id map_update)
    then have "fst ` set ((sys_workers s)[i := (w, ph')]) = fst ` set (sys_workers s)" for ph' by (metis set_map)
    moreover have "requests t = (\<lambda>w. (wk_namespace w, wk_operation w)) ` fst ` set (sys_workers t)" for t
      by (force simp: requests_def)
    ultimately show ?thesis using Step True w by (simp split: prod.splits)
  qed (simp add: Step)
next
  case (Crash i)
  show ?thesis
  proof (cases "i < length (sys_workers s)")
    case True
    obtain w ph where w: "sys_workers s ! i = (w, ph)" by (meson surj_pair)
    have "map fst ((sys_workers s)[i := (w, ph')]) = map fst (sys_workers s)" for ph'
      using True w by (metis fst_conv list_update_id map_update)
    then have "fst ` set ((sys_workers s)[i := (w, ph')]) = fst ` set (sys_workers s)" for ph' by (metis set_map)
    moreover have "requests t = (\<lambda>w. (wk_namespace w, wk_operation w)) ` fst ` set (sys_workers t)" for t
      by (force simp: requests_def)
    ultimately show ?thesis using Crash True w by simp
  qed (simp add: Crash)
qed (auto simp: requests_def split: sum.splits)

lemma same_order:
  assumes "collision_free pl (insert (ns, o') (requests s))" "(w, ph) \<in> set (sys_workers s)" "matches pl w r" "about pl ns o' r"
  shows "wk_namespace w = ns \<and> semantic_part (wk_operation w) = semantic_part o'"
proof -
  have "(wk_namespace w, wk_operation w) \<in> insert (ns, o') (requests s)" using assms(2) by (force simp: requests_def)
  from fingerprint_identity[OF assms(1) this insertI1] assms(3,4) show ?thesis by (simp add: matches_def about_def)
qed

lemma stuck_same:
  assumes "stuck_order a ns o'" "semantic_part o'' = semantic_part o'"
  shows "stuck_order a ns o''"
proof -
  have "normalise_payload (fo_payload o'') = Transition_Payload (as_id a) REQUESTED" "fo_operation_kind o'' = fo_operation_kind o'"
    using assms by (auto simp: stuck_order_def semantic_part_def normalise_payload_def)
  then have "fo_payload o'' = Transition_Payload (as_id a) REQUESTED"
    by (cases "fo_payload o''") (simp_all add: normalise_payload_def)
  then show ?thesis using assms(1) \<open>fo_operation_kind o'' = fo_operation_kind o'\<close> by (simp add: stuck_order_def)
qed

lemma held_key:
  assumes "system_ok pl s" "collision_free pl (insert (ns, o') (requests s))" "held pl w r (sys_db s)" "about pl ns o' r"
  shows "rr_downstreamIdempotencyKey r = deriveOfflineDownstreamIdempotencyKey pl ns (fo_offline_operation_id o') (fo_operation_kind o')"
proof -
  from assms(3) obtain q where q: "q \<in> set (receipts (sys_db s))" "identity q = identity r" by (auto simp: held_def)
  then have "receipt_true pl (fst ` set (sys_workers s)) (domain (sys_db s)) q" using assms(1) by (simp add: system_ok_def db_ok_def)
  then obtain w' ph' where w': "(w', ph') \<in> set (sys_workers s)" "matches pl w' q"
      "rr_offlineOperationId q = fo_offline_operation_id (wk_operation w')" "rr_operationKind q = fo_operation_kind (wk_operation w')"
      "rr_downstreamIdempotencyKey q = deriveOfflineDownstreamIdempotencyKey pl (rr_namespace q) (rr_offlineOperationId q) (rr_operationKind q)"
    unfolding receipt_true_def by auto
  have "about pl ns o' q" using assms(4) about_identity[OF q(2)] by simp
  from same_order[OF assms(2) w'(1,2) this] show ?thesis
    using w'(3-5) identity_simps[OF q(2)] assms(4) by (simp add: semantic_part_def about_def)
qed

lemma wedged_advance:
  assumes "wedged pl a ns o' s" "stuck_order a ns o'" "collision_free pl (insert (ns, o') (requests s))"
    and "bounded_text 256 (deriveOfflineDownstreamIdempotencyKey pl ns (fo_offline_operation_id o') (fo_operation_kind o'))"
    and "(w, ph) \<in> set (sys_workers s)" "advance pl iso_string w at_ms now newId ph (sys_db s) = (ph', db')"
  shows "a \<in> set (assignments (domain db'))"
    and "\<forall>r\<in>set (receipts db'). about pl ns o' r \<longrightarrow> \<not> isFinalized r"
    and "\<not> judging pl ns o' ph'"
proof -
  have ok: "system_ok pl s" "a \<in> set (assignments (domain (sys_db s)))" "unrepairable a" and d: "field_ok (domain (sys_db s))"
    using assms(1,2) by (simp_all add: wedged_def stuck_order_def system_ok_def db_ok_def)
  have t: "tables_ok (sys_db s)" and w: "worker_ok pl w" "phase_ok pl w ph (sys_db s)"
    using ok(1) assms(5) by (auto simp: system_ok_def db_ok_def)
  show "a \<in> set (assignments (domain db'))"
    using advance_domain[of pl iso_string w at_ms now newId ph "sys_db s"] unrepairable_stays_run[OF ok(2,3) d] assms(6) by auto
  have kept: "tables_ok db'" "replay_before (sys_db s) db'"
    using advance_kept[of pl "fst ` set (sys_workers s)" "sys_db s" w ph iso_string at_ms now newId] ok(1) w(2) assms(5,6)
    by (force simp: kept_by_def system_ok_def db_ok_def)+
  have settles: "settles_only (case ph of Judged r e g v \<Rightarrow> rr_id r | _ \<Rightarrow> i) (sys_db s) db'" for i
    using advance_settles[where ph = ph and db = "sys_db s" and pl = pl and w = w and iso_string = iso_string and at_ms = at_ms
        and now = now and newId = newId and i = i] assms(6) by simp
  show "\<forall>r\<in>set (receipts db'). about pl ns o' r \<longrightarrow> \<not> isFinalized r"
  proof (intro ballI impI notI)
    fix r assume r: "r \<in> set (receipts db')" "about pl ns o' r" "isFinalized r"
    then have new: "r \<notin> set (receipts (sys_db s))" using assms(1) by (auto simp: wedged_def)
    then have "rr_id r = (case ph of Judged r e g v \<Rightarrow> rr_id r | _ \<Rightarrow> i)" for i
      using settles[of i] r by (auto simp: settles_only_def)
    from this[of "CHR 0x41 # rr_id r"] obtain r0 e g v where ph: "ph = Judged r0 e g v" "rr_id r = rr_id r0" by (cases ph) auto
    have "held pl w r0 (sys_db s)" using w(2) ph(1) by simp
    then obtain q where q: "q \<in> set (receipts db')" "identity q = identity r0"
      using held_before[OF _ kept(2), of pl w r0] unfolding held_def by blast
    then have "q = r" using same_receipt[of "receipts db'" q r] kept(1) r(1) ph(2) identity_simps(1)[OF q(2)] by (simp add: tables_ok_def)
    then have "about pl ns o' r0" using r(2) about_identity[OF q(2)] by simp
    moreover have "\<not> judging pl ns o' ph" using assms(1,5) by (force simp: wedged_def)
    ultimately show False using ph(1) by simp
  qed
  show "\<not> judging pl ns o' ph'"
  proof
    assume "judging pl ns o' ph'"
    then obtain r e g v where j: "ph' = Judged r e g v" and r: "about pl ns o' r" by (cases ph') auto
    from j assms(6) have ph: "ph = Claimed r e g \<or> ph = Executing r e g"
      by (cases ph) (auto simp: Let_def split: prod.splits sum.splits option.splits finalize_outcome.splits offline_admission.splits bool.splits if_splits)
    then have held: "held pl w r (sys_db s)" using w(2) by auto
    note same = same_order[OF assms(3,5) _ r]
    have "stuck_order a (wk_namespace w) (wk_operation w)" "bounded_text 256 (rr_downstreamIdempotencyKey r)"
      using same held stuck_same[OF assms(2)] held_key[OF ok(1) assms(3) held r] assms(4) by (auto simp: held_def)
    note call = stuck_call[OF this(1) w(1) d ok(2) this(2)]
    from ph j assms(6) call show False by (auto simp: deterministicRejectionStatus_def split: if_splits)
  qed
qed

lemma collision_free_subset: "collision_free pl R \<Longrightarrow> Q \<subseteq> R \<Longrightarrow> collision_free pl Q"
  unfolding collision_free_def by blast

lemma thrown_not_judging [simp]: "\<not> judging pl ns o' (thrown_phase ph)" "\<not> judging pl ns o' (crash_phase ph)"
  by (cases ph; simp)+

lemma wedged_move:
  assumes "wedged pl a ns o' s" "system_ok pl \<lparr>sys_db = db', sys_workers = (sys_workers s)[i := (w, ph')]\<rparr>"
    and "a \<in> set (assignments (domain db'))" "\<forall>r\<in>set (receipts db'). about pl ns o' r \<longrightarrow> \<not> isFinalized r"
    and "\<not> judging pl ns o' ph'"
  shows "wedged pl a ns o' \<lparr>sys_db = db', sys_workers = (sys_workers s)[i := (w, ph')]\<rparr>"
proof -
  have "\<not> judging pl ns o' (snd x)" if "x \<in> set ((sys_workers s)[i := (w, ph')])" for x
    using that set_update_subset_insert[of "sys_workers s" i "(w, ph')"] assms(1,5) by (auto simp: wedged_def)
  with assms(2-4) show ?thesis by (simp add: wedged_def)
qed

lemma wedged_step:
  assumes "wedged pl a ns o' s" "stuck_order a ns o'" "collision_free pl (insert (ns, o') (requests s))"
    and "bounded_text 256 (deriveOfflineDownstreamIdempotencyKey pl ns (fo_offline_operation_id o') (fo_operation_kind o'))"
  shows "wedged pl a ns o' (act_step pl iso_string x s)"
proof -
  have ok: "system_ok pl s" "system_ok pl (act_step pl iso_string x s)" using assms(1) act_step_ok by (auto simp: wedged_def)
  show ?thesis
  proof (cases x)
    case (Step i fate at_ms now newId)
    show ?thesis
    proof (cases "i < length (sys_workers s)")
      case True
      obtain w ph where w: "sys_workers s ! i = (w, ph)" by (meson surj_pair)
      then have mem: "(w, ph) \<in> set (sys_workers s)" using True by (metis nth_mem)
      obtain ph' db' where adv: "advance pl iso_string w at_ms now newId ph (sys_db s) = (ph', db')" by (meson surj_pair)
      note kept = wedged_advance[OF assms mem adv]
      have same: "a \<in> set (assignments (domain (sys_db s)))" "\<forall>r\<in>set (receipts (sys_db s)). about pl ns o' r \<longrightarrow> \<not> isFinalized r"
        using assms(1) by (simp_all add: wedged_def)
      show ?thesis
        using Step True w adv ok(2) kept same
        by (cases fate) (auto intro!: wedged_move[OF assms(1)])
    qed (use assms(1) Step in simp)
  next
    case (Crash i)
    show ?thesis
    proof (cases "i < length (sys_workers s)")
      case True
      obtain w ph where w: "sys_workers s ! i = (w, ph)" by (meson surj_pair)
      have "act_step pl iso_string x s = \<lparr>sys_db = sys_db s, sys_workers = (sys_workers s)[i := (w, crash_phase ph)]\<rparr>"
        using Crash True w by simp
      moreover have "a \<in> set (assignments (domain (sys_db s)))" "\<forall>r\<in>set (receipts (sys_db s)). about pl ns o' r \<longrightarrow> \<not> isFinalized r"
        using assms(1) by (simp_all add: wedged_def)
      ultimately show ?thesis using wedged_move[OF assms(1), of "sys_db s" i w "crash_phase ph"] ok(2) by simp
    qed (use assms(1) Crash in simp)
  next
    case (Elsewhere op)
    have "field_ok (domain (sys_db s))" using ok(1) by (simp add: system_ok_def db_ok_def)
    then have "a \<in> set (assignments (field_step iso_string op (domain (sys_db s))))"
      using assms(1,2) unrepairable_stays by (auto simp: wedged_def stuck_order_def)
    then show ?thesis using assms(1) ok(2) Elsewhere by (simp add: wedged_def)
  qed (use assms(1) ok(2) in \<open>auto simp: wedged_def split: sum.splits\<close>)
qed

lemma wedged_run:
  assumes "wedged pl a ns o' s" "stuck_order a ns o'" "collision_free pl (insert (ns, o') (requests (fold (act_step pl iso_string) acts s)))"
    and "bounded_text 256 (deriveOfflineDownstreamIdempotencyKey pl ns (fo_offline_operation_id o') (fo_operation_kind o'))"
  shows "wedged pl a ns o' (fold (act_step pl iso_string) acts s)"
  using assms(3)
proof (induction acts rule: rev_induct)
  case (snoc x acts)
  let ?t = "fold (act_step pl iso_string) acts s"
  have free: "collision_free pl (insert (ns, o') (requests ?t))"
    by (rule collision_free_subset[OF snoc.prems]) (use requests_grow[of ?t pl iso_string x] in auto)
  from wedged_step[OF snoc.IH[OF free] assms(2) free assms(4)] show ?case by simp
qed (simp add: assms(1))

subsection \<open>The end of the queue\<close>


definition demo_poison :: offline_operation where
  "demo_poison = demo_transition 0 FIELD_ASSIGNMENT_ACCEPT REQUESTED"

definition demo_poisoned :: "act list" where
  "demo_poisoned = map Elsewhere [demo_directory, demo_create ''look'' (Some 50)]"

definition demo_attempts :: "act list" where
  "demo_attempts = demo_submit demo_poison # solo 7 0 1000 1000 ''r0'' @ demo_submit demo_poison # solo 7 1 2000 2000 ''r1''"

lemma demo_poisoned_rows:
  "list_ex (\<lambda>a. as_expiresAt a = Some 50 \<and> as_createdAt a = 100 \<and> as_status a = REQUESTED \<and> as_id a = ''a1''
     \<and> as_organisationId a = ''acme'' \<and> as_siteId a = ''north'' \<and> as_assigneeUserId a = ''kim'')
     (assignments (domain (sys_db (demo_replay demo_poisoned))))"
  "receipts (sys_db (demo_replay demo_poisoned)) = []"
  "list_ex (\<lambda>r. about demo_platform demo_namespace demo_poison r \<and> rr_status r = UNKNOWN_STATUS \<and> rr_attemptCount r = 2)
     (receipts (sys_db (demo_replay (demo_poisoned @ demo_attempts))))"
  by code_simp+


end
