(* ===== verification/Key_Rotation.thy ===== *)
theory Key_Rotation
  imports Offline_Ingress
begin

text \<open>
  The contract of a key rotation (packages/contracts/src/device-key-rotation.ts): the four structures of
  the ceremony with the refinements of their schemas, the statements that are signed and fingerprinted,
  the one-shot identity, and the gate that judges the whole ceremony. From device-context.ts, the
  request proof by which the current key authorises the exact proposal.
\<close>

subsection \<open>The request\<close>

record rotation_request =
  kq_schema_version :: int
  kq_rotation_request_id :: string
  kq_organisation_id :: string
  kq_device_id :: string
  kq_current_key_id :: string
  kq_current_key_version :: int
  kq_proposed_key_id :: string
  kq_proposed_key_version :: int
  kq_new_public_key :: string
  kq_new_public_key_thumbprint :: string
  kq_new_key_storage :: key_storage
  kq_server_resolved_signature_profile :: string
  kq_requested_at :: string

definition rotation_request_ok :: "platform \<Rightarrow> (bytes \<Rightarrow> string) \<Rightarrow> rotation_request \<Rightarrow> bool" where
  "rotation_request_ok pl sha_bytes q \<longleftrightarrow> kq_schema_version q = 1 \<and> scopedId (kq_rotation_request_id q)
     \<and> scopedId (kq_organisation_id q) \<and> scopedId (kq_device_id q) \<and> scopedId (kq_current_key_id q)
     \<and> DeviceKeyVersion (kq_current_key_version q) \<and> scopedId (kq_proposed_key_id q)
     \<and> DeviceKeyVersion (kq_proposed_key_version q) \<and> \<not> isl (decodeCanonicalP256PublicKey (kq_new_public_key q))
     \<and> DeviceDigest (kq_new_public_key_thumbprint q)
     \<and> isApprovedDeviceSignatureProfile (kq_server_resolved_signature_profile q)
     \<and> datetime_format pl (kq_requested_at q)
     \<and> deviceKeyThumbprintMatches sha_bytes (kq_new_public_key q) (kq_new_public_key_thumbprint q)
     \<and> kq_proposed_key_version q = kq_current_key_version q + 1
     \<and> kq_proposed_key_id q \<noteq> kq_current_key_id q"

fun storage_name :: "key_storage \<Rightarrow> string" where
  "storage_name HARDWARE_BACKED = ''HARDWARE_BACKED''"
| "storage_name SOFTWARE = ''SOFTWARE''"

definition rotation_request_object :: "rotation_request \<Rightarrow> json" where
  "rotation_request_object q = JObj
    [(''domain'', JStr ''sentinel.device.key-rotation-request.v1''),
     (''schema_version'', JInt (kq_schema_version q)),
     (''rotation_request_id'', JStr (kq_rotation_request_id q)),
     (''organisation_id'', JStr (kq_organisation_id q)),
     (''device_id'', JStr (kq_device_id q)),
     (''current_key_id'', JStr (kq_current_key_id q)),
     (''current_key_version'', JInt (kq_current_key_version q)),
     (''proposed_key_id'', JStr (kq_proposed_key_id q)),
     (''proposed_key_version'', JInt (kq_proposed_key_version q)),
     (''new_public_key'', JStr (kq_new_public_key q)),
     (''new_public_key_thumbprint'', JStr (kq_new_public_key_thumbprint q)),
     (''new_key_storage'', JStr (storage_name (kq_new_key_storage q))),
     (''server_resolved_signature_profile'', JStr (kq_server_resolved_signature_profile q)),
     (''requested_at'', JStr (kq_requested_at q))]"

text \<open>
  \<open>canonicalDeviceJson\<close> throws on what JSON cannot carry; the objects of this theory are JSON safe, so
  \<open>the\<close> is applied to a value. A fingerprint is the digest of the parsed canonical text, which has that
  same text as its canonical form.
\<close>

definition canonicalDeviceKeyRotationRequestStatement :: "rotation_request \<Rightarrow> string" where
  "canonicalDeviceKeyRotationRequestStatement q = the (canonical_device_json (rotation_request_object q))"

definition deviceKeyRotationRequestFingerprint :: "platform \<Rightarrow> rotation_request \<Rightarrow> string" where
  "deviceKeyRotationRequestFingerprint pl q = sha pl (canonicalDeviceKeyRotationRequestStatement q)"

subsection \<open>The challenge\<close>

definition DEVICE_KEY_ROTATION_CHALLENGE_MAX_AGE_MS :: int where
  "DEVICE_KEY_ROTATION_CHALLENGE_MAX_AGE_MS = 120000"

record rotation_challenge =
  kc_schema_version :: int
  kc_challenge_id :: string
  kc_organisation_id :: string
  kc_device_id :: string
  kc_rotation_request_id :: string
  kc_rotation_request_fingerprint :: string
  kc_current_key_id :: string
  kc_current_key_version :: int
  kc_proposed_key_id :: string
  kc_proposed_key_version :: int
  kc_new_public_key_thumbprint :: string
  kc_nonce :: string
  kc_issued_at :: string
  kc_expires_at :: string

definition rotation_challenge_ok :: "platform \<Rightarrow> rotation_challenge \<Rightarrow> bool" where
  "rotation_challenge_ok pl c \<longleftrightarrow> kc_schema_version c = 1 \<and> scopedId (kc_challenge_id c)
     \<and> scopedId (kc_organisation_id c) \<and> scopedId (kc_device_id c) \<and> scopedId (kc_rotation_request_id c)
     \<and> DeviceDigest (kc_rotation_request_fingerprint c) \<and> scopedId (kc_current_key_id c)
     \<and> DeviceKeyVersion (kc_current_key_version c) \<and> scopedId (kc_proposed_key_id c)
     \<and> DeviceKeyVersion (kc_proposed_key_version c) \<and> DeviceDigest (kc_new_public_key_thumbprint c)
     \<and> DeviceNonce (kc_nonce c) \<and> datetime_format pl (kc_issued_at c) \<and> datetime_format pl (kc_expires_at c)
     \<and> refineDeviceInstantWindow pl (kc_issued_at c) (kc_expires_at c) DEVICE_KEY_ROTATION_CHALLENGE_MAX_AGE_MS
     \<and> kc_proposed_key_version c = kc_current_key_version c + 1"

subsection \<open>Possession of the new key\<close>

record possession_statement =
  ks_organisation_id :: string
  ks_device_id :: string
  ks_rotation_request_id :: string
  ks_rotation_request_fingerprint :: string
  ks_current_key_id :: string
  ks_current_key_version :: int
  ks_proposed_key_id :: string
  ks_proposed_key_version :: int
  ks_new_public_key_thumbprint :: string
  ks_rotation_challenge_id :: string
  ks_nonce :: string
  ks_signature_profile :: string

definition possession_statement_object :: "possession_statement \<Rightarrow> json" where
  "possession_statement_object s = JObj
    [(''domain'', JStr ''sentinel.device.key-rotation-possession.v1''),
     (''schema_version'', JInt 1),
     (''organisation_id'', JStr (ks_organisation_id s)),
     (''device_id'', JStr (ks_device_id s)),
     (''rotation_request_id'', JStr (ks_rotation_request_id s)),
     (''rotation_request_fingerprint'', JStr (ks_rotation_request_fingerprint s)),
     (''current_key_id'', JStr (ks_current_key_id s)),
     (''current_key_version'', JInt (ks_current_key_version s)),
     (''proposed_key_id'', JStr (ks_proposed_key_id s)),
     (''proposed_key_version'', JInt (ks_proposed_key_version s)),
     (''new_public_key_thumbprint'', JStr (ks_new_public_key_thumbprint s)),
     (''rotation_challenge_id'', JStr (ks_rotation_challenge_id s)),
     (''nonce'', JStr (ks_nonce s)),
     (''signature_profile'', JStr (ks_signature_profile s))]"

definition canonicalDeviceKeyRotationPossessionStatement :: "possession_statement \<Rightarrow> string" where
  "canonicalDeviceKeyRotationPossessionStatement s = the (canonical_device_json (possession_statement_object s))"

definition deviceKeyRotationPossessionStatementFingerprint :: "platform \<Rightarrow> possession_statement \<Rightarrow> string" where
  "deviceKeyRotationPossessionStatementFingerprint pl s = sha pl (canonicalDeviceKeyRotationPossessionStatement s)"

record possession_response =
  kr_challenge_id :: string
  kr_rotation_request_id :: string
  kr_claimed_signature_profile :: string
  kr_signature :: string
  kr_answered_at :: string

definition possession_response_ok :: "platform \<Rightarrow> possession_response \<Rightarrow> bool" where
  "possession_response_ok pl r \<longleftrightarrow> scopedId (kr_challenge_id r) \<and> scopedId (kr_rotation_request_id r)
     \<and> isApprovedDeviceSignatureProfile (kr_claimed_signature_profile r)
     \<and> \<not> isl (decodeCanonicalP256Signature (kr_signature r)) \<and> datetime_format pl (kr_answered_at r)"

record rotation_verification =
  kv_verified :: bool
  kv_organisation_id :: string
  kv_device_id :: string
  kv_rotation_request_id :: string
  kv_rotation_request_fingerprint :: string
  kv_rotation_challenge_id :: string
  kv_current_key_id :: string
  kv_current_key_version :: int
  kv_proposed_key_id :: string
  kv_proposed_key_version :: int
  kv_new_public_key_thumbprint :: string
  kv_signature_profile :: string
  kv_canonical_statement_fingerprint :: string
  kv_verified_at :: string

definition rotation_verification_ok :: "platform \<Rightarrow> rotation_verification \<Rightarrow> bool" where
  "rotation_verification_ok pl v \<longleftrightarrow> scopedId (kv_organisation_id v) \<and> scopedId (kv_device_id v)
     \<and> scopedId (kv_rotation_request_id v) \<and> DeviceDigest (kv_rotation_request_fingerprint v)
     \<and> scopedId (kv_rotation_challenge_id v) \<and> scopedId (kv_current_key_id v)
     \<and> DeviceKeyVersion (kv_current_key_version v) \<and> scopedId (kv_proposed_key_id v)
     \<and> DeviceKeyVersion (kv_proposed_key_version v) \<and> DeviceDigest (kv_new_public_key_thumbprint v)
     \<and> isApprovedDeviceSignatureProfile (kv_signature_profile v)
     \<and> DeviceDigest (kv_canonical_statement_fingerprint v) \<and> datetime_format pl (kv_verified_at v)"

subsection \<open>The one-shot identity\<close>

definition rotation_replay_object :: "rotation_request \<Rightarrow> rotation_challenge \<Rightarrow> json" where
  "rotation_replay_object q c = JObj
    [(''domain'', JStr ''sentinel.device.key-rotation.replay-identity.v1''),
     (''organisation_id'', JStr (kq_organisation_id q)),
     (''device_id'', JStr (kq_device_id q)),
     (''rotation_request_id'', JStr (kq_rotation_request_id q)),
     (''rotation_challenge_id'', JStr (kc_challenge_id c)),
     (''current_key_id'', JStr (kq_current_key_id q)),
     (''current_key_version'', JInt (kq_current_key_version q)),
     (''proposed_key_id'', JStr (kq_proposed_key_id q)),
     (''proposed_key_version'', JInt (kq_proposed_key_version q)),
     (''nonce'', JStr (kc_nonce c))]"

definition deviceKeyRotationReplayKey :: "rotation_request \<Rightarrow> rotation_challenge \<Rightarrow> string" where
  "deviceKeyRotationReplayKey q c = the (canonical_device_json (rotation_replay_object q c))"

subsection \<open>The request proof (device-context.ts)\<close>

datatype request_purpose = FIELD_OPERATION | OFFLINE_SYNC | RECONNECT_HANDSHAKE | WHISPER_DEVICE_ACTION
  | DEVICE_KEY_ROTATION | EDGE_TRANSPORT_DESCRIPTOR

fun purpose_name :: "request_purpose \<Rightarrow> string" where
  "purpose_name FIELD_OPERATION = ''FIELD_OPERATION''"
| "purpose_name OFFLINE_SYNC = ''OFFLINE_SYNC''"
| "purpose_name RECONNECT_HANDSHAKE = ''RECONNECT_HANDSHAKE''"
| "purpose_name WHISPER_DEVICE_ACTION = ''WHISPER_DEVICE_ACTION''"
| "purpose_name DEVICE_KEY_ROTATION = ''DEVICE_KEY_ROTATION''"
| "purpose_name EDGE_TRANSPORT_DESCRIPTOR = ''EDGE_TRANSPORT_DESCRIPTOR''"

record request_proof =
  pf_schema_version :: int
  pf_context_id :: string
  pf_organisation_id :: string
  pf_site_id :: string
  pf_actor_user_id :: string
  pf_device_id :: string
  pf_key_id :: string
  pf_key_version :: int
  pf_purpose :: request_purpose
  pf_payload_digest :: string
  pf_nonce :: string
  pf_issued_at :: string
  pf_claimed_signature_profile :: string
  pf_signature :: string

definition request_proof_ok :: "platform \<Rightarrow> request_proof \<Rightarrow> bool" where
  "request_proof_ok pl p \<longleftrightarrow> pf_schema_version p = 1 \<and> scopedId (pf_context_id p) \<and> scopedId (pf_organisation_id p)
     \<and> scopedId (pf_site_id p) \<and> scopedId (pf_actor_user_id p) \<and> scopedId (pf_device_id p)
     \<and> scopedId (pf_key_id p) \<and> DeviceKeyVersion (pf_key_version p) \<and> DeviceDigest (pf_payload_digest p)
     \<and> DeviceNonce (pf_nonce p) \<and> datetime_format pl (pf_issued_at p)
     \<and> isApprovedDeviceSignatureProfile (pf_claimed_signature_profile p)
     \<and> \<not> isl (decodeCanonicalP256Signature (pf_signature p))"

text \<open>\<open>canonicalDeviceRequestProofStatement(deviceRequestProofStatementInput(proof, profile))\<close>.\<close>

definition deviceRequestProofStatementObject :: "request_proof \<Rightarrow> string \<Rightarrow> json" where
  "deviceRequestProofStatementObject p profile = JObj
    [(''domain'', JStr ''sentinel.device.request-proof.v1''),
     (''schema_version'', JInt (pf_schema_version p)),
     (''context_id'', JStr (pf_context_id p)),
     (''organisation_id'', JStr (pf_organisation_id p)),
     (''site_id'', JStr (pf_site_id p)),
     (''actor_user_id'', JStr (pf_actor_user_id p)),
     (''device_id'', JStr (pf_device_id p)),
     (''key_id'', JStr (pf_key_id p)),
     (''key_version'', JInt (pf_key_version p)),
     (''purpose'', JStr (purpose_name (pf_purpose p))),
     (''payload_digest'', JStr (pf_payload_digest p)),
     (''nonce'', JStr (pf_nonce p)),
     (''issued_at'', JStr (pf_issued_at p)),
     (''signature_profile'', JStr profile)]"

definition canonicalDeviceRequestProofStatement :: "request_proof \<Rightarrow> string \<Rightarrow> string" where
  "canonicalDeviceRequestProofStatement p profile =
     the (canonical_device_json (deviceRequestProofStatementObject p profile))"

text \<open>Which trust admits which purpose.\<close>

fun DEVICE_PURPOSE_PERMITTED_TRUST :: "request_purpose \<Rightarrow> device_trust list" where
  "DEVICE_PURPOSE_PERMITTED_TRUST FIELD_OPERATION = [TRUST_TRUSTED, TRUST_DEGRADED]"
| "DEVICE_PURPOSE_PERMITTED_TRUST OFFLINE_SYNC = [TRUST_TRUSTED, TRUST_DEGRADED]"
| "DEVICE_PURPOSE_PERMITTED_TRUST RECONNECT_HANDSHAKE =
     [TRUST_TRUSTED, TRUST_DEGRADED, TRUST_SUSPICIOUS, TRUST_OFFLINE]"
| "DEVICE_PURPOSE_PERMITTED_TRUST WHISPER_DEVICE_ACTION = [TRUST_TRUSTED]"
| "DEVICE_PURPOSE_PERMITTED_TRUST DEVICE_KEY_ROTATION = [TRUST_TRUSTED, TRUST_DEGRADED]"
| "DEVICE_PURPOSE_PERMITTED_TRUST EDGE_TRANSPORT_DESCRIPTOR = [TRUST_TRUSTED, TRUST_DEGRADED]"

definition deviceTrustPermitsPurpose :: "device_trust \<Rightarrow> request_purpose \<Rightarrow> bool" where
  "deviceTrustPermitsPurpose trust purpose \<longleftrightarrow> trust \<in> set (DEVICE_PURPOSE_PERMITTED_TRUST purpose)"

subsection \<open>The gate\<close>

datatype rotation_refusal = SIGNATURE_PROFILE_CLAIM_MISMATCH | ROTATION_REQUEST_MISBOUND
  | CHALLENGE_MISBOUND | CHALLENGE_EXPIRED | CHALLENGE_NOT_YET_ISSUED | POSSESSION_VERIFIED_IN_FUTURE
  | POSSESSION_VERIFICATION_MISSING | POSSESSION_VERIFICATION_MISBOUND | POSSESSION_STATEMENT_MISMATCH
  | POSSESSION_PROFILE_MISMATCH | POSSESSION_NOT_PROVEN | CONTINUITY_PROOF_MISBOUND | CONTINUITY_NOT_PROVEN
  | NEW_KEY_NOT_RUNTIME_VALID | STALE_ROTATION | ROTATION_CONSUMPTION_MISBOUND
  | ROTATION_CONSUMPTION_INCONSISTENT | ROTATION_REUSED_WITH_CHANGED_SEMANTICS
  | ROTATION_TIME_NOT_AUTHORITATIVE

record rotation_registry =
  kg_organisation_id :: string
  kg_device_id :: string
  kg_current_key_id :: string
  kg_current_key_version :: int
  kg_current_key_status :: key_state
  kg_current_key_revoked :: bool
  kg_device_revoked :: bool
  kg_server_resolved_signature_profile :: string

text \<open>Continuity is the verdict on the current key's proof, with the payload digest the proof names.\<close>

record rotation_input =
  kd_request :: rotation_request
  kd_challenge :: rotation_challenge
  kd_possessionVerification :: "rotation_verification option"
  kd_continuity :: "(bool \<times> string) option"
  kd_newKeyRuntimeValid :: bool
  kd_registered :: rotation_registry
  kd_consumption :: json
  kd_now :: string

datatype rotation_decision = Rotate string int int | Rotation_Converge string string
  | Rotation_Refused rotation_refusal

definition challenge_bound :: "platform \<Rightarrow> rotation_request \<Rightarrow> rotation_challenge \<Rightarrow> bool" where
  "challenge_bound pl q c \<longleftrightarrow> kc_organisation_id c = kq_organisation_id q \<and> kc_device_id c = kq_device_id q
     \<and> kc_rotation_request_id c = kq_rotation_request_id q
     \<and> kc_rotation_request_fingerprint c = deviceKeyRotationRequestFingerprint pl q
     \<and> kc_current_key_id c = kq_current_key_id q \<and> kc_current_key_version c = kq_current_key_version q
     \<and> kc_proposed_key_id c = kq_proposed_key_id q \<and> kc_proposed_key_version c = kq_proposed_key_version q
     \<and> kc_new_public_key_thumbprint c = kq_new_public_key_thumbprint q"

definition rotation_current :: "rotation_request \<Rightarrow> rotation_registry \<Rightarrow> bool" where
  "rotation_current q g \<longleftrightarrow> kg_current_key_id g = kq_current_key_id q
     \<and> kg_current_key_version g = kq_current_key_version q \<and> kg_current_key_status g = CURRENT
     \<and> \<not> kg_current_key_revoked g \<and> \<not> kg_device_revoked g"

definition verification_bound :: "platform \<Rightarrow> rotation_request \<Rightarrow> rotation_challenge \<Rightarrow> rotation_verification \<Rightarrow> bool" where
  "verification_bound pl q c v \<longleftrightarrow> kv_organisation_id v = kq_organisation_id q \<and> kv_device_id v = kq_device_id q
     \<and> kv_rotation_request_id v = kq_rotation_request_id q
     \<and> kv_rotation_request_fingerprint v = deviceKeyRotationRequestFingerprint pl q
     \<and> kv_rotation_challenge_id v = kc_challenge_id c
     \<and> kv_current_key_id v = kq_current_key_id q \<and> kv_current_key_version v = kq_current_key_version q
     \<and> kv_proposed_key_id v = kq_proposed_key_id q \<and> kv_proposed_key_version v = kq_proposed_key_version q
     \<and> kv_new_public_key_thumbprint v = kq_new_public_key_thumbprint q"

definition expected_possession :: "platform \<Rightarrow> rotation_request \<Rightarrow> rotation_challenge \<Rightarrow> string \<Rightarrow> possession_statement" where
  "expected_possession pl q c profile = \<lparr>ks_organisation_id = kq_organisation_id q, ks_device_id = kq_device_id q,
     ks_rotation_request_id = kq_rotation_request_id q,
     ks_rotation_request_fingerprint = deviceKeyRotationRequestFingerprint pl q,
     ks_current_key_id = kq_current_key_id q, ks_current_key_version = kq_current_key_version q,
     ks_proposed_key_id = kq_proposed_key_id q, ks_proposed_key_version = kq_proposed_key_version q,
     ks_new_public_key_thumbprint = kq_new_public_key_thumbprint q, ks_rotation_challenge_id = kc_challenge_id c,
     ks_nonce = kc_nonce c, ks_signature_profile = profile\<rparr>"

text \<open>The instants of the possession verdict, all judged on the server's \<open>verified_at\<close>.\<close>

definition rotation_window_refusal :: "platform \<Rightarrow> string \<Rightarrow> rotation_verification \<Rightarrow> rotation_challenge \<Rightarrow> rotation_refusal option" where
  "rotation_window_refusal pl now v c =
     (case parseAuthoritativeInstants pl [now, kv_verified_at v, kc_issued_at c, kc_expires_at c] of
        Some [now, verified, issued, expires] \<Rightarrow>
          if verified < issued then Some CHALLENGE_NOT_YET_ISSUED
          else if verified > now then Some POSSESSION_VERIFIED_IN_FUTURE
          else if isExpiredAt verified expires then Some CHALLENGE_EXPIRED else None
      | _ \<Rightarrow> Some ROTATION_TIME_NOT_AUTHORITATIVE)"

definition evaluateDeviceKeyRotation :: "platform \<Rightarrow> rotation_input \<Rightarrow> rotation_decision" where
  "evaluateDeviceKeyRotation pl i =
     (let q = kd_request i; c = kd_challenge i; g = kd_registered i in
      case bindClaimedSignatureProfile (kq_server_resolved_signature_profile q) (kg_server_resolved_signature_profile g) of
        Bound profile \<Rightarrow>
          let fingerprint = deviceKeyRotationRequestFingerprint pl q in
          if kq_organisation_id q \<noteq> kg_organisation_id g \<or> kq_device_id q \<noteq> kg_device_id g
            then Rotation_Refused ROTATION_REQUEST_MISBOUND
          else if \<not> challenge_bound pl q c then Rotation_Refused CHALLENGE_MISBOUND
          else if \<not> rotation_current q g then Rotation_Refused STALE_ROTATION
          else if \<not> kd_newKeyRuntimeValid i then Rotation_Refused NEW_KEY_NOT_RUNTIME_VALID
          else (case read_consumption (kd_consumption i) of
              None \<Rightarrow> Rotation_Refused ROTATION_CONSUMPTION_INCONSISTENT
            | Some report \<Rightarrow>
              if fact_replay_key report \<noteq> deviceKeyRotationReplayKey q c \<or> fact_statement_fingerprint report \<noteq> fingerprint
                then Rotation_Refused ROTATION_CONSUMPTION_MISBOUND
              else if changed_semantics report then Rotation_Refused ROTATION_REUSED_WITH_CHANGED_SEMANTICS
              else (case kd_continuity i of
                  None \<Rightarrow> Rotation_Refused CONTINUITY_PROOF_MISBOUND
                | Some (proven, purpose_payload_digest) \<Rightarrow>
                  if purpose_payload_digest \<noteq> fingerprint then Rotation_Refused CONTINUITY_PROOF_MISBOUND
                  else if \<not> proven then Rotation_Refused CONTINUITY_NOT_PROVEN
                  else (case kd_possessionVerification i of
                      None \<Rightarrow> Rotation_Refused POSSESSION_VERIFICATION_MISSING
                    | Some v \<Rightarrow>
                      if \<not> verification_bound pl q c v then Rotation_Refused POSSESSION_VERIFICATION_MISBOUND
                      else if kv_canonical_statement_fingerprint v \<noteq>
                          deviceKeyRotationPossessionStatementFingerprint pl (expected_possession pl q c profile)
                        then Rotation_Refused POSSESSION_STATEMENT_MISMATCH
                      else if kv_signature_profile v \<noteq> profile then Rotation_Refused POSSESSION_PROFILE_MISMATCH
                      else (case rotation_window_refusal pl (kd_now i) v c of
                          Some r \<Rightarrow> Rotation_Refused r
                        | None \<Rightarrow>
                          if \<not> kv_verified v then Rotation_Refused POSSESSION_NOT_PROVEN
                          else (case stored_ref report of
                              Some ref \<Rightarrow> Rotation_Converge fingerprint ref
                            | None \<Rightarrow> Rotate fingerprint (kq_current_key_version q) (kq_proposed_key_version q))))))
      | _ \<Rightarrow> Rotation_Refused SIGNATURE_PROFILE_CLAIM_MISMATCH)"

subsection \<open>What a rotation establishes\<close>

lemma rotate_cases:
  "evaluateDeviceKeyRotation pl i = Rotate f v w \<Longrightarrow> rotation_current (kd_request i) (kd_registered i)
     \<and> kq_organisation_id (kd_request i) = kg_organisation_id (kd_registered i)
     \<and> kq_device_id (kd_request i) = kg_device_id (kd_registered i)
     \<and> v = kq_current_key_version (kd_request i) \<and> w = kq_proposed_key_version (kd_request i)"
  by (auto simp: evaluateDeviceKeyRotation_def Let_def split: profile_binding.splits if_splits option.splits)

end
