(* ===== verification/Device_Trust.thy ===== *)
theory Device_Trust
  imports Key_Rotation Access
begin

text \<open>
  The trust a device is held in. First the rules of packages/contracts/src/device-identity.ts: what an
  attestation is worth as time passes, the trust a fresh enrolment starts in, and which trust may follow
  which on what evidence. Then services/core-api/src/modules/shield: which observation decides
  (attestation.standing.ts) and who may change a device (shield.authority.ts).
\<close>

subsection \<open>Attestation (device-identity.ts)\<close>

datatype attestation_outcome = AT_VERIFIED | AT_NEGATIVE | AT_INVALID | AT_REVOKED | AT_UNAVAILABLE

definition DEVICE_NEGATIVE_ATTESTATION_OUTCOMES :: "attestation_outcome list" where
  "DEVICE_NEGATIVE_ATTESTATION_OUTCOMES = [AT_NEGATIVE, AT_INVALID, AT_REVOKED]"

datatype attestation_standing = ST_CURRENT | ST_LAST_KNOWN_GOOD | ST_EXPIRED | ST_NEGATIVE
  | ST_INELIGIBLE | ST_INCONSISTENT

definition DEVICE_ATTESTATION_UNAVAILABLE_GRACE_MS :: int where
  "DEVICE_ATTESTATION_UNAVAILABLE_GRACE_MS = 21600000"

record standing_input =
  sn_outcome :: attestation_outcome
  sn_lastVerifiedAt :: "string option"
  sn_now :: string
  sn_hasPriorVerified :: bool

text \<open>The standing, with the age of the last known good result where it is the basis.\<close>

definition evaluateAttestationStanding :: "platform \<Rightarrow> standing_input \<Rightarrow> attestation_standing \<times> int option" where
  "evaluateAttestationStanding pl i =
     (if sn_outcome i \<in> set DEVICE_NEGATIVE_ATTESTATION_OUTCOMES then (ST_NEGATIVE, None)
      else if sn_outcome i = AT_VERIFIED then (ST_CURRENT, None)
      else if \<not> sn_hasPriorVerified i then (ST_INELIGIBLE, None)
      else case sn_lastVerifiedAt i of None \<Rightarrow> (ST_INELIGIBLE, None)
        | Some lastVerifiedAt \<Rightarrow> (case parseAuthoritativeInstants pl [sn_now i, lastVerifiedAt] of
            Some [now, lastVerified] \<Rightarrow>
              if now - lastVerified < 0 then (ST_INCONSISTENT, None)
              else if now - lastVerified > DEVICE_ATTESTATION_UNAVAILABLE_GRACE_MS
                then (ST_EXPIRED, Some (now - lastVerified))
              else (ST_LAST_KNOWN_GOOD, Some (now - lastVerified))
          | _ \<Rightarrow> (ST_INCONSISTENT, None)))"

definition attestationStandingPermitsTrusted :: "attestation_standing \<Rightarrow> bool" where
  "attestationStandingPermitsTrusted standing \<longleftrightarrow> standing = ST_CURRENT \<or> standing = ST_LAST_KNOWN_GOOD"

definition initialDeviceTrustOnEnrollment :: "key_storage \<Rightarrow> attestation_standing \<Rightarrow> device_trust" where
  "initialDeviceTrustOnEnrollment keyStorage standing =
     (if standing = ST_NEGATIVE then TRUST_QUARANTINED
      else if \<not> deviceKeyStoragePermitsTrusted keyStorage then TRUST_DEGRADED
      else if standing = ST_CURRENT then TRUST_TRUSTED else TRUST_DEGRADED)"

subsection \<open>Trust transitions (device-identity.ts)\<close>

fun ALLOWED_DEVICE_TRUST_TRANSITIONS :: "device_trust \<Rightarrow> device_trust list" where
  "ALLOWED_DEVICE_TRUST_TRANSITIONS TRUST_TRUSTED =
     [TRUST_DEGRADED, TRUST_SUSPICIOUS, TRUST_QUARANTINED, TRUST_COMPROMISED, TRUST_OFFLINE]"
| "ALLOWED_DEVICE_TRUST_TRANSITIONS TRUST_DEGRADED =
     [TRUST_TRUSTED, TRUST_SUSPICIOUS, TRUST_QUARANTINED, TRUST_COMPROMISED, TRUST_OFFLINE]"
| "ALLOWED_DEVICE_TRUST_TRANSITIONS TRUST_SUSPICIOUS =
     [TRUST_TRUSTED, TRUST_DEGRADED, TRUST_QUARANTINED, TRUST_COMPROMISED, TRUST_OFFLINE]"
| "ALLOWED_DEVICE_TRUST_TRANSITIONS TRUST_QUARANTINED =
     [TRUST_TRUSTED, TRUST_DEGRADED, TRUST_SUSPICIOUS, TRUST_COMPROMISED, TRUST_OFFLINE]"
| "ALLOWED_DEVICE_TRUST_TRANSITIONS TRUST_COMPROMISED = []"
| "ALLOWED_DEVICE_TRUST_TRANSITIONS TRUST_OFFLINE =
     [TRUST_TRUSTED, TRUST_DEGRADED, TRUST_SUSPICIOUS, TRUST_QUARANTINED, TRUST_COMPROMISED]"

definition isTerminalDeviceTrust :: "device_trust \<Rightarrow> bool" where
  "isTerminalDeviceTrust t \<longleftrightarrow> length (ALLOWED_DEVICE_TRUST_TRANSITIONS t) = 0"

definition DEVICE_TRUST_RESTORATION_CAPABILITY :: string where
  "DEVICE_TRUST_RESTORATION_CAPABILITY = ''device.trust.restore''"

definition DEVICE_TRUST_RESTORATION_REQUIRED_FROM :: "device_trust list" where
  "DEVICE_TRUST_RESTORATION_REQUIRED_FROM = [TRUST_SUSPICIOUS, TRUST_QUARANTINED]"

definition DEVICE_TRUST_UPWARD_TARGETS :: "device_trust list" where
  "DEVICE_TRUST_UPWARD_TARGETS = [TRUST_TRUSTED, TRUST_DEGRADED]"

record restoration_decision =
  rd_decided_by_user_id :: string
  rd_capability :: string
  rd_decided_at :: string

record transition_basis =
  tb_controlledRestoration :: "restoration_decision option"
  tb_attestationStanding :: attestation_standing
  tb_keyStorage :: key_storage
  tb_credentialContinuityIntact :: bool
  tb_revoked :: bool
  tb_previouslyEligible :: bool

datatype trust_refusal = TRANSITION_NOT_IN_MATRIX | SOURCE_STATE_TERMINAL | CREDENTIAL_REVOKED
  | RESTORATION_DECISION_REQUIRED | RESTORATION_CAPABILITY_MISSING | CREDENTIAL_CONTINUITY_LOST
  | ATTESTATION_NOT_QUALIFYING | KEY_STORAGE_NOT_HARDWARE_BACKED | RECONNECT_BASIS_NOT_ESTABLISHED

text \<open>The refusal, \<open>None\<close> where the transition is allowed.\<close>

definition evaluateDeviceTrustTransition ::
    "device_trust \<Rightarrow> device_trust \<Rightarrow> transition_basis \<Rightarrow> trust_refusal option" where
  "evaluateDeviceTrustTransition from to b =
     (if isTerminalDeviceTrust from then Some SOURCE_STATE_TERMINAL
      else if to \<notin> set (ALLOWED_DEVICE_TRUST_TRANSITIONS from) then Some TRANSITION_NOT_IN_MATRIX
      else if to \<notin> set DEVICE_TRUST_UPWARD_TARGETS then None
      else if tb_revoked b then Some CREDENTIAL_REVOKED
      else
        let restoration = (if from \<notin> set DEVICE_TRUST_RESTORATION_REQUIRED_FROM then None
              else case tb_controlledRestoration b of None \<Rightarrow> Some RESTORATION_DECISION_REQUIRED
                | Some d \<Rightarrow>
                    if rd_capability d \<noteq> DEVICE_TRUST_RESTORATION_CAPABILITY then Some RESTORATION_CAPABILITY_MISSING
                    else if \<not> tb_credentialContinuityIntact b then Some CREDENTIAL_CONTINUITY_LOST
                    else if tb_attestationStanding b = ST_NEGATIVE \<or> tb_attestationStanding b = ST_INELIGIBLE
                      then Some ATTESTATION_NOT_QUALIFYING else None);
            reconnect = (if \<not> (from = TRUST_OFFLINE \<and> to = TRUST_TRUSTED) then None
              else if \<not> tb_credentialContinuityIntact b then Some CREDENTIAL_CONTINUITY_LOST
              else if \<not> tb_previouslyEligible b then Some RECONNECT_BASIS_NOT_ESTABLISHED else None);
            trusted = (if to \<noteq> TRUST_TRUSTED then None
              else if \<not> deviceKeyStoragePermitsTrusted (tb_keyStorage b) then Some KEY_STORAGE_NOT_HARDWARE_BACKED
              else if \<not> attestationStandingPermitsTrusted (tb_attestationStanding b) then Some ATTESTATION_NOT_QUALIFYING
              else if \<not> tb_credentialContinuityIntact b then Some CREDENTIAL_CONTINUITY_LOST else None)
        in if restoration \<noteq> None then restoration else if reconnect \<noteq> None then reconnect else trusted)"

definition canTransitionDeviceTrust :: "device_trust \<Rightarrow> device_trust \<Rightarrow> transition_basis \<Rightarrow> bool" where
  "canTransitionDeviceTrust from to b \<longleftrightarrow> evaluateDeviceTrustTransition from to b = None"

subsection \<open>Which observation decides (attestation.standing.ts)\<close>

text \<open>
  Instants of rows are milliseconds, always finite, so the guards of \<open>selectAttestationEvidence\<close> on
  \<open>Number.isFinite\<close> never refuse and have no branch here.
\<close>

record attestation_fact =
  af_outcome :: attestation_outcome
  af_evaluatedAt :: int

record attestation_reads =
  ev_latest :: "attestation_fact option"
  ev_decisive :: "attestation_fact option"
  ev_now :: int

record selected_evidence =
  se_outcome :: attestation_outcome
  se_lastVerifiedAt :: "int option"
  se_hasPriorVerified :: bool

text \<open>\<open>None\<close> is \<open>INCONSISTENT\<close>.\<close>

definition selectAttestationEvidence :: "attestation_reads \<Rightarrow> selected_evidence option" where
  "selectAttestationEvidence r = (let never = \<lparr>se_outcome = AT_UNAVAILABLE, se_lastVerifiedAt = None,
        se_hasPriorVerified = False\<rparr>
     in case ev_latest r of None \<Rightarrow> Some never
      | Some latest \<Rightarrow>
          if af_evaluatedAt latest > ev_now r \<or> (case ev_decisive r of None \<Rightarrow> False
               | Some d \<Rightarrow> af_evaluatedAt d > ev_now r) then None
          else case ev_decisive r of None \<Rightarrow> Some never
            | Some decisive \<Rightarrow>
                if af_evaluatedAt decisive > af_evaluatedAt latest then None
                else if af_outcome decisive \<noteq> AT_VERIFIED then Some \<lparr>se_outcome = af_outcome decisive,
                  se_lastVerifiedAt = None, se_hasPriorVerified = False\<rparr>
                else Some \<lparr>se_outcome = (if af_outcome latest = AT_UNAVAILABLE then AT_UNAVAILABLE else AT_VERIFIED),
                  se_lastVerifiedAt = Some (af_evaluatedAt decisive), se_hasPriorVerified = True\<rparr>)"

text \<open>\<open>iso_string\<close> is \<open>Date.prototype.toISOString\<close>.\<close>

definition resolveAttestationStanding ::
    "platform \<Rightarrow> (int \<Rightarrow> string) \<Rightarrow> attestation_reads \<Rightarrow> attestation_standing" where
  "resolveAttestationStanding pl iso_string r = (case selectAttestationEvidence r of
       None \<Rightarrow> ST_INCONSISTENT
     | Some e \<Rightarrow> fst (evaluateAttestationStanding pl \<lparr>sn_outcome = se_outcome e,
         sn_lastVerifiedAt = map_option iso_string (se_lastVerifiedAt e), sn_now = iso_string (ev_now r),
         sn_hasPriorVerified = se_hasPriorVerified e\<rparr>))"

definition effectiveDeviceTrust :: "device_trust \<Rightarrow> attestation_standing \<Rightarrow> device_trust" where
  "effectiveDeviceTrust persistedTrust standing =
     (if persistedTrust \<noteq> TRUST_TRUSTED then persistedTrust
      else if attestationStandingPermitsTrusted standing then TRUST_TRUSTED else TRUST_DEGRADED)"

subsection \<open>Authority (shield.authority.ts)\<close>

datatype shield_refusal = NOT_AUTHORISED | SITE_NOT_IN_SCOPE | DEVICE_NOT_FOUND | DEVICE_KEY_NOT_FOUND
  | DEVICE_CREDENTIAL_WITHDRAWN | DEVICE_HAS_NO_CURRENT_KEY | PUBLIC_KEY_NOT_RUNTIME_VALID
  | MALFORMED_CONTRACT_STRUCTURE | ROTATION_REQUEST_NOT_FOUND | ROTATION_CHALLENGE_NOT_FOUND
  | ROTATION_STATE_INVALID | ROTATION_OUTCOME_UNRESOLVABLE | Trust_Refusal trust_refusal
  | Rotation_Refusal rotation_refusal

definition checkDeviceAuthority :: "principal \<Rightarrow> string \<Rightarrow> string \<Rightarrow> string option \<Rightarrow> shield_refusal option" where
  "checkDeviceAuthority p action organisationId siteId =
     (if pr_organisation_id p \<noteq> organisationId then Some NOT_AUTHORISED
      else if \<not> hasAction p action then Some NOT_AUTHORISED
      else case siteId of None \<Rightarrow> None
        | Some s \<Rightarrow> let scope = intersectSiteScope p action in
            if orgWide scope then None else if s \<in> set (siteIds scope) then None else Some SITE_NOT_IN_SCOPE)"

definition readableSiteIds :: "principal \<Rightarrow> string \<Rightarrow> string list option" where
  "readableSiteIds p action = (let scope = intersectSiteScope p action in
     if orgWide scope then None else Some (siteIds scope))"

definition hasOrganisationWideDeviceAuthority :: "principal \<Rightarrow> string \<Rightarrow> string \<Rightarrow> bool" where
  "hasOrganisationWideDeviceAuthority p action organisationId \<longleftrightarrow>
     (if pr_organisation_id p \<noteq> organisationId then False
      else if \<not> hasAction p action then False else orgWide (intersectSiteScope p action))"

definition projectReadableDeviceSites ::
    "principal \<Rightarrow> string \<Rightarrow> string \<Rightarrow> string list \<Rightarrow> string list option" where
  "projectReadableDeviceSites p action organisationId deviceSiteIds =
     (if checkDeviceAuthority p action organisationId None \<noteq> None then None
      else if hasOrganisationWideDeviceAuthority p action organisationId then Some deviceSiteIds
      else let visible = filter (\<lambda>s. s \<in> set (siteIds (intersectSiteScope p action))) deviceSiteIds
        in if visible = [] then None else Some visible)"

text \<open>Authority over the whole physical device; the refusal is always \<open>DEVICE_NOT_FOUND\<close>.\<close>

definition checkGlobalDeviceMutationAuthority ::
    "principal \<Rightarrow> string \<Rightarrow> string \<Rightarrow> string list \<Rightarrow> shield_refusal option" where
  "checkGlobalDeviceMutationAuthority p action organisationId deviceSiteIds =
     (if checkDeviceAuthority p action organisationId None \<noteq> None then Some DEVICE_NOT_FOUND
      else if hasOrganisationWideDeviceAuthority p action organisationId then None
      else if length deviceSiteIds = 0 then Some DEVICE_NOT_FOUND
      else if list_all (\<lambda>s. s \<in> set (siteIds (intersectSiteScope p action))) deviceSiteIds then None
      else Some DEVICE_NOT_FOUND)"

lemma global_authority_exact:
  "checkGlobalDeviceMutationAuthority p action org sites = None \<longleftrightarrow>
     pr_organisation_id p = org \<and> hasAction p action
     \<and> (orgWide (intersectSiteScope p action) \<or> sites \<noteq> [] \<and> (\<forall>s\<in>set sites. authority_at p action s))"
  by (auto simp: checkGlobalDeviceMutationAuthority_def checkDeviceAuthority_def Let_def list_all_iff
      hasOrganisationWideDeviceAuthority_def siteAllowed_authority[symmetric] siteAllowed_def)

end
