(* ===== verification/Shield_Registry.thy ===== *)
theory Shield_Registry
  imports Device_Trust
begin

text \<open>
  The device registry: the tables of prisma/schema/shield.prisma that a device's trust and keys live in,
  and the reads and writes of shield.repository.ts over them, with the unique indexes and the foreign
  keys between these tables. The services compose these writes into transactions: one step that takes
  the database and returns it after the commit, unchanged where the code throws.
\<close>

subsection \<open>Tables\<close>

datatype custody = PERSONAL | CONTROLLED_SHARED

record device_row =
  dv_id :: string
  dv_organisationId :: string
  dv_custody :: custody
  dv_enrolledByUserId :: string
  dv_intendedUserId :: string
  dv_sequenceNamespaceId :: string
  dv_trust :: device_trust
  dv_revocationDisposition :: "disposition option"
  dv_revokedAt :: "int option"
  dv_currentKeyId :: "string option"
  dv_currentKeyVersion :: "int option"
  dv_enrollmentRequestId :: string
  dv_enrolledAt :: int

record key_row =
  dk_id :: string
  dk_organisationId :: string
  dk_deviceId :: string
  dk_keyId :: string
  dk_keyVersion :: int
  dk_publicKey :: string
  dk_publicKeyThumbprint :: string
  dk_signatureProfile :: string
  dk_keyStorage :: key_storage
  dk_status :: key_state
  dk_registeredAt :: int
  dk_rotatedAt :: "int option"
  dk_revokedAt :: "int option"
  dk_revocationDisposition :: "disposition option"

record scope_row =
  sc_organisationId :: string
  sc_deviceId :: string
  sc_siteId :: string
  sc_custody :: custody
  sc_assignedUserId :: "string option"
  sc_custodyRegimeId :: "string option"
  sc_associatedAt :: int
  sc_releasedAt :: "int option"

record observation_row =
  ob_id :: string
  ob_organisationId :: string
  ob_deviceId :: "string option"
  ob_enrollmentRequestId :: "string option"
  ob_outcome :: attestation_outcome
  ob_attestationReference :: "string option"
  ob_evaluatedAt :: int
  ob_observedAt :: int
  ob_traceId :: string

text \<open>\<open>None\<close> as the previous trust is \<open>DEVICE_TRUST_PREVIOUS_NONE\<close>.\<close>

record transition_row =
  tn_organisationId :: string
  tn_deviceId :: string
  tn_previousTrust :: "device_trust option"
  tn_newTrust :: device_trust
  tn_reason :: string
  tn_evidenceRefs :: "string list"
  tn_authorisedByUserId :: "string option"
  tn_occurredAt :: int
  tn_traceId :: string

text \<open>The security events these operations record, with their payload.\<close>

datatype security_event =
    BOOTSTRAP_CONSUMED string string string string string
  | DEVICE_ENROLLED string string string string custody string string int string key_storage string device_trust
  | TRUST_CHANGED "device_trust option" device_trust string "string option"
  | DEVICE_QUARANTINED device_trust string
  | DEVICE_LOST device_trust device_trust disposition
  | DEVICE_STOLEN device_trust device_trust disposition string int
  | DEVICE_REVOKED disposition device_trust device_trust int
  | KEY_REVOKED string int disposition
  | KEY_COMPROMISED string int disposition
  | KEY_ROTATED string string string int string int string key_storage string
  | REPLAY_CONFLICT string string rotation_refusal

record event_row =
  et_organisationId :: string
  et_deviceId :: string
  et_actorUserId :: "string option"
  et_event :: security_event
  et_occurredAt :: int
  et_traceId :: string

datatype enrollment_state = ENR_REQUESTED | ENR_APPROVED | ENR_POSSESSION_PROVEN | ENR_ENROLLED
  | ENR_REJECTED | ENR_EXPIRED | ENR_REVOKED

record ceremony_row =
  ce_id :: string
  ce_organisationId :: string
  ce_state :: enrollment_state

datatype rotation_state = ROTATION_STATE_REQUESTED | ROTATION_STATE_CHALLENGED | ROTATION_STATE_ROTATED

record rotation_row =
  ro_id :: string
  ro_organisationId :: string
  ro_deviceId :: string
  ro_currentKeyId :: string
  ro_currentKeyVersion :: int
  ro_proposedKeyId :: string
  ro_proposedKeyVersion :: int
  ro_newPublicKey :: string
  ro_newPublicKeyThumbprint :: string
  ro_newKeyStorage :: key_storage
  ro_serverResolvedSignatureProfile :: string
  ro_requestFingerprint :: string
  ro_requestedAt :: int
  ro_state :: rotation_state

record rotation_challenge_row =
  rh_id :: string
  rh_organisationId :: string
  rh_deviceId :: string
  rh_rotationRequestId :: string
  rh_rotationRequestFingerprint :: string
  rh_currentKeyId :: string
  rh_currentKeyVersion :: int
  rh_proposedKeyId :: string
  rh_proposedKeyVersion :: int
  rh_newPublicKeyThumbprint :: string
  rh_nonce :: string
  rh_issuedAt :: int
  rh_expiresAt :: int

record rotation_verification_row =
  rw_id :: string
  rw_organisationId :: string
  rw_deviceId :: string
  rw_rotationRequestId :: string
  rw_rotationRequestFingerprint :: string
  rw_rotationChallengeId :: string
  rw_currentKeyId :: string
  rw_currentKeyVersion :: int
  rw_proposedKeyId :: string
  rw_proposedKeyVersion :: int
  rw_newPublicKeyThumbprint :: string
  rw_signatureProfile :: string
  rw_canonicalStatementFingerprint :: string
  rw_verified :: bool
  rw_verifiedAt :: int

record shield_db =
  sd_devices :: "device_row list"
  sd_keys :: "key_row list"
  sd_scopes :: "scope_row list"
  sd_observations :: "observation_row list"
  sd_transitions :: "transition_row list"
  sd_events :: "event_row list"
  sd_enrollments :: "ceremony_row list"
  sd_rotations :: "rotation_row list"
  sd_challenges :: "rotation_challenge_row list"
  sd_verifications :: "rotation_verification_row list"
  sd_replay :: replay_rows

definition empty_shield :: shield_db where
  "empty_shield = \<lparr>sd_devices = [], sd_keys = [], sd_scopes = [], sd_observations = [], sd_transitions = [],
     sd_events = [], sd_enrollments = [], sd_rotations = [], sd_challenges = [], sd_verifications = [],
     sd_replay = Map.empty\<rparr>"

subsection \<open>Reads (shield.repository.ts)\<close>

definition is_device :: "string \<Rightarrow> string \<Rightarrow> device_row \<Rightarrow> bool" where
  "is_device organisationId deviceId d \<longleftrightarrow> dv_id d = deviceId \<and> dv_organisationId d = organisationId"

definition is_key :: "string \<Rightarrow> string \<Rightarrow> key_row \<Rightarrow> bool" where
  "is_key organisationId keyId k \<longleftrightarrow> dk_organisationId k = organisationId \<and> dk_keyId k = keyId"

definition findDevice :: "string \<Rightarrow> string \<Rightarrow> shield_db \<Rightarrow> device_row option" where
  "findDevice organisationId deviceId db = find (is_device organisationId deviceId) (sd_devices db)"

definition findDeviceKeyByKeyId :: "string \<Rightarrow> string \<Rightarrow> shield_db \<Rightarrow> key_row option" where
  "findDeviceKeyByKeyId organisationId keyId db = find (is_key organisationId keyId) (sd_keys db)"

definition listDeviceSiteIds :: "string \<Rightarrow> string \<Rightarrow> shield_db \<Rightarrow> string list" where
  "listDeviceSiteIds organisationId deviceId db = map sc_siteId
     (filter (\<lambda>s. sc_organisationId s = organisationId \<and> sc_deviceId s = deviceId \<and> sc_releasedAt s = None)
       (sd_scopes db))"

definition observations_of :: "string \<Rightarrow> string \<Rightarrow> shield_db \<Rightarrow> observation_row list" where
  "observations_of organisationId deviceId db =
     filter (\<lambda>o'. ob_organisationId o' = organisationId \<and> ob_deviceId o' = Some deviceId) (sd_observations db)"

text \<open>The first row of \<open>orderBy [evaluatedAt desc, id desc]\<close>.\<close>

fun newest :: "observation_row list \<Rightarrow> observation_row option" where
  "newest [] = None"
| "newest (r # rs) = (case newest rs of None \<Rightarrow> Some r
     | Some s \<Rightarrow> if ob_evaluatedAt r > ob_evaluatedAt s \<or> ob_evaluatedAt r = ob_evaluatedAt s \<and> ob_id r > ob_id s
         then Some r else Some s)"

definition fact_of :: "observation_row \<Rightarrow> attestation_fact" where
  "fact_of r = \<lparr>af_outcome = ob_outcome r, af_evaluatedAt = ob_evaluatedAt r\<rparr>"

definition latestAttestationObservation :: "string \<Rightarrow> string \<Rightarrow> shield_db \<Rightarrow> attestation_fact option" where
  "latestAttestationObservation organisationId deviceId db =
     map_option fact_of (newest (observations_of organisationId deviceId db))"

definition latestDecisiveAttestation :: "string \<Rightarrow> string \<Rightarrow> shield_db \<Rightarrow> attestation_fact option" where
  "latestDecisiveAttestation organisationId deviceId db = map_option fact_of
     (newest (filter (\<lambda>o'. ob_outcome o' \<noteq> AT_UNAVAILABLE) (observations_of organisationId deviceId db)))"

text \<open>\<open>readAttestationEvidence\<close>, and with the same rows its two locking variants.\<close>

definition readAttestationEvidence :: "string \<Rightarrow> string \<Rightarrow> int \<Rightarrow> shield_db \<Rightarrow> attestation_reads" where
  "readAttestationEvidence organisationId deviceId now db =
     \<lparr>ev_latest = latestAttestationObservation organisationId deviceId db,
      ev_decisive = latestDecisiveAttestation organisationId deviceId db, ev_now = now\<rparr>"

definition findRotationRequest :: "string \<Rightarrow> string \<Rightarrow> shield_db \<Rightarrow> rotation_row option" where
  "findRotationRequest organisationId id' db =
     find (\<lambda>r. ro_id r = id' \<and> ro_organisationId r = organisationId) (sd_rotations db)"

definition findRotationChallenge :: "string \<Rightarrow> string \<Rightarrow> shield_db \<Rightarrow> rotation_challenge_row option" where
  "findRotationChallenge organisationId id' db =
     find (\<lambda>c. rh_id c = id' \<and> rh_organisationId c = organisationId) (sd_challenges db)"

definition lockRotationVerification :: "string \<Rightarrow> string \<Rightarrow> shield_db \<Rightarrow> rotation_verification_row option" where
  "lockRotationVerification organisationId challengeId db =
     find (\<lambda>v. rw_organisationId v = organisationId \<and> rw_rotationChallengeId v = challengeId) (sd_verifications db)"

definition findDeviceKeyRowById :: "platform \<Rightarrow> string \<Rightarrow> string \<Rightarrow> shield_db \<Rightarrow> key_row option" where
  "findDeviceKeyRowById pl organisationId id' db = (if \<not> uuid_format pl id' then None
     else find (\<lambda>k. dk_id k = id' \<and> dk_organisationId k = organisationId) (sd_keys db))"

definition hasHeldTrusted :: "string \<Rightarrow> string \<Rightarrow> shield_db \<Rightarrow> bool" where
  "hasHeldTrusted organisationId deviceId db \<longleftrightarrow> list_ex (\<lambda>t. tn_organisationId t = organisationId
     \<and> tn_deviceId t = deviceId \<and> tn_newTrust t = TRUST_TRUSTED) (sd_transitions db)"

subsection \<open>Writes (shield.repository.ts)\<close>

text \<open>\<open>updateMany\<close>: the number of rows the \<open>where\<close> selects, and the table with them changed.\<close>

definition updateMany :: "('r \<Rightarrow> bool) \<Rightarrow> ('r \<Rightarrow> 'r) \<Rightarrow> 'r list \<Rightarrow> nat \<times> 'r list" where
  "updateMany P f rows = (length (filter P rows), map (\<lambda>r. if P r then f r else r) rows)"

definition setDeviceTrust :: "string \<Rightarrow> string \<Rightarrow> device_trust \<Rightarrow> device_trust \<Rightarrow> shield_db \<Rightarrow> nat \<times> shield_db" where
  "setDeviceTrust organisationId deviceId from to db =
     (case updateMany (\<lambda>d. is_device organisationId deviceId d \<and> dv_trust d = from) (dv_trust_update (\<lambda>_. to))
         (sd_devices db) of (n, rows) \<Rightarrow> (n, db\<lparr>sd_devices := rows\<rparr>))"

definition setDeviceRevocation ::
    "string \<Rightarrow> string \<Rightarrow> disposition \<Rightarrow> int option \<Rightarrow> device_trust \<Rightarrow> shield_db \<Rightarrow> shield_db" where
  "setDeviceRevocation organisationId deviceId disp revokedAt trust db =
     db\<lparr>sd_devices := snd (updateMany (is_device organisationId deviceId)
       (\<lambda>d. d\<lparr>dv_revocationDisposition := Some disp, dv_revokedAt := revokedAt, dv_trust := trust\<rparr>)
       (sd_devices db))\<rparr>"

definition advanceDeviceCurrentKey ::
    "string \<Rightarrow> string \<Rightarrow> string \<times> int \<Rightarrow> string \<times> int \<Rightarrow> shield_db \<Rightarrow> nat \<times> shield_db" where
  "advanceDeviceCurrentKey organisationId deviceId from to db =
     (case updateMany (\<lambda>d. is_device organisationId deviceId d \<and> dv_currentKeyId d = Some (fst from)
          \<and> dv_currentKeyVersion d = Some (snd from))
        (\<lambda>d. d\<lparr>dv_currentKeyId := Some (fst to), dv_currentKeyVersion := Some (snd to)\<rparr>) (sd_devices db)
      of (n, rows) \<Rightarrow> (n, db\<lparr>sd_devices := rows\<rparr>))"

definition markDeviceKeyRotated :: "string \<Rightarrow> string \<Rightarrow> int \<Rightarrow> shield_db \<Rightarrow> nat \<times> shield_db" where
  "markDeviceKeyRotated organisationId keyId rotatedAt db =
     (case updateMany (\<lambda>k. is_key organisationId keyId k \<and> dk_status k = CURRENT)
        (\<lambda>k. k\<lparr>dk_status := ROTATED, dk_rotatedAt := Some rotatedAt\<rparr>) (sd_keys db)
      of (n, rows) \<Rightarrow> (n, db\<lparr>sd_keys := rows\<rparr>))"

definition withdrawDeviceKey ::
    "string \<Rightarrow> string \<Rightarrow> key_state \<Rightarrow> key_state \<Rightarrow> int \<Rightarrow> disposition \<Rightarrow> shield_db \<Rightarrow> nat \<times> shield_db" where
  "withdrawDeviceKey organisationId keyId from to revokedAt disp db =
     (case updateMany (\<lambda>k. is_key organisationId keyId k \<and> dk_status k = from)
        (\<lambda>k. k\<lparr>dk_status := to, dk_revokedAt := Some revokedAt, dk_revocationDisposition := Some disp\<rparr>) (sd_keys db)
      of (n, rows) \<Rightarrow> (n, db\<lparr>sd_keys := rows\<rparr>))"

definition advanceEnrollmentState ::
    "string \<Rightarrow> string \<Rightarrow> enrollment_state \<Rightarrow> enrollment_state \<Rightarrow> shield_db \<Rightarrow> nat \<times> shield_db" where
  "advanceEnrollmentState organisationId id' from to db =
     (case updateMany (\<lambda>r. ce_id r = id' \<and> ce_organisationId r = organisationId \<and> ce_state r = from)
        (ce_state_update (\<lambda>_. to)) (sd_enrollments db) of (n, rows) \<Rightarrow> (n, db\<lparr>sd_enrollments := rows\<rparr>))"

definition setRotationRequestState ::
    "string \<Rightarrow> string \<Rightarrow> rotation_state \<Rightarrow> rotation_state \<Rightarrow> shield_db \<Rightarrow> nat \<times> shield_db" where
  "setRotationRequestState organisationId id' from to db =
     (case updateMany (\<lambda>r. ro_id r = id' \<and> ro_organisationId r = organisationId \<and> ro_state r = from)
        (ro_state_update (\<lambda>_. to)) (sd_rotations db) of (n, rows) \<Rightarrow> (n, db\<lparr>sd_rotations := rows\<rparr>))"

text \<open>
  \<open>create\<close> throws where a unique index or key forbids the row: \<open>None\<close>. The composite foreign keys into
  tables outside the registry (organisations, sites, users) are not modelled; those into it are.
\<close>

definition createDevice :: "device_row \<Rightarrow> shield_db \<Rightarrow> shield_db option" where
  "createDevice d db = (if list_ex (\<lambda>e. dv_id e = dv_id d
        \<or> dv_organisationId e = dv_organisationId d \<and> dv_enrollmentRequestId e = dv_enrollmentRequestId d) (sd_devices db)
     then None else Some (db\<lparr>sd_devices := sd_devices db @ [d]\<rparr>))"

definition createDeviceKey :: "key_row \<Rightarrow> shield_db \<Rightarrow> shield_db option" where
  "createDeviceKey k db = (if list_ex (\<lambda>e. dk_id e = dk_id k
        \<or> dk_organisationId e = dk_organisationId k \<and> (dk_keyId e = dk_keyId k
           \<or> dk_deviceId e = dk_deviceId k \<and> (dk_keyVersion e = dk_keyVersion k
               \<or> dk_status e = CURRENT \<and> dk_status k = CURRENT))) (sd_keys db)
       \<or> findDevice (dk_organisationId k) (dk_deviceId k) db = None
     then None else Some (db\<lparr>sd_keys := sd_keys db @ [k]\<rparr>))"

definition createDeviceSiteScope :: "scope_row \<Rightarrow> shield_db \<Rightarrow> shield_db option" where
  "createDeviceSiteScope s db = (if list_ex (\<lambda>e. sc_organisationId e = sc_organisationId s
        \<and> sc_deviceId e = sc_deviceId s \<and> sc_siteId e = sc_siteId s) (sd_scopes db)
       \<or> findDevice (sc_organisationId s) (sc_deviceId s) db = None
     then None else Some (db\<lparr>sd_scopes := sd_scopes db @ [s]\<rparr>))"

definition createRotationRequest :: "rotation_row \<Rightarrow> shield_db \<Rightarrow> shield_db option" where
  "createRotationRequest r db = (if list_ex (\<lambda>e. ro_id e = ro_id r
        \<or> ro_organisationId e = ro_organisationId r \<and> ro_deviceId e = ro_deviceId r
           \<and> ro_proposedKeyVersion e = ro_proposedKeyVersion r) (sd_rotations db)
       \<or> findDevice (ro_organisationId r) (ro_deviceId r) db = None
     then None else Some (db\<lparr>sd_rotations := sd_rotations db @ [r]\<rparr>))"

definition createRotationChallenge :: "rotation_challenge_row \<Rightarrow> shield_db \<Rightarrow> shield_db option" where
  "createRotationChallenge c db = (if list_ex (\<lambda>e. rh_id e = rh_id c) (sd_challenges db)
       \<or> \<not> list_ex (\<lambda>r. ro_id r = rh_rotationRequestId c \<and> ro_organisationId r = rh_organisationId c
            \<and> ro_deviceId r = rh_deviceId c) (sd_rotations db)
     then None else Some (db\<lparr>sd_challenges := sd_challenges db @ [c]\<rparr>))"

definition createRotationVerification :: "rotation_verification_row \<Rightarrow> shield_db \<Rightarrow> shield_db option" where
  "createRotationVerification v db = (if list_ex (\<lambda>e. rw_id e = rw_id v
        \<or> rw_organisationId e = rw_organisationId v \<and> rw_rotationChallengeId e = rw_rotationChallengeId v) (sd_verifications db)
       \<or> \<not> list_ex (\<lambda>c. rh_id c = rw_rotationChallengeId v \<and> rh_organisationId c = rw_organisationId v
            \<and> rh_rotationRequestId c = rw_rotationRequestId v \<and> rh_deviceId c = rw_deviceId v) (sd_challenges db)
     then None else Some (db\<lparr>sd_verifications := sd_verifications db @ [v]\<rparr>))"

definition appendTrustTransition :: "transition_row \<Rightarrow> shield_db \<Rightarrow> shield_db" where
  "appendTrustTransition t db = db\<lparr>sd_transitions := sd_transitions db @ [t]\<rparr>"

definition appendAttestationObservation :: "observation_row \<Rightarrow> shield_db \<Rightarrow> shield_db option" where
  "appendAttestationObservation r db = (if list_ex (\<lambda>e. ob_id e = ob_id r) (sd_observations db)
     then None else Some (db\<lparr>sd_observations := sd_observations db @ [r]\<rparr>))"

definition recordEvent :: "event_row \<Rightarrow> shield_db \<Rightarrow> shield_db" where
  "recordEvent e db = db\<lparr>sd_events := sd_events db @ [e]\<rparr>"

end
