(* ===== verification/Shield_Trust.thy ===== *)
theory Shield_Trust
  imports Shield_Registry
begin

text \<open>
  The operations of device-trust.service.ts (observations, trust changes, the three dispositions) and
  the effect of an enrolment. An operation with a read before its transaction is a pair of definitions,
  \<open>..._read\<close> and \<open>..._tx\<close>, so that others can come in between. The outcome \<open>None\<close> is a thrown error that is not turned into a refusal.
\<close>

subsection \<open>The one place a trust value changes (device-trust.service.ts)\<close>

fun standing_name :: "attestation_standing \<Rightarrow> string" where
  "standing_name ST_CURRENT = ''CURRENT''"
| "standing_name ST_LAST_KNOWN_GOOD = ''LAST_KNOWN_GOOD''"
| "standing_name ST_EXPIRED = ''EXPIRED''"
| "standing_name ST_NEGATIVE = ''NEGATIVE''"
| "standing_name ST_INELIGIBLE = ''INELIGIBLE''"
| "standing_name ST_INCONSISTENT = ''INCONSISTENT''"

fun attestation_outcome_name :: "attestation_outcome \<Rightarrow> string" where
  "attestation_outcome_name AT_VERIFIED = ''VERIFIED''"
| "attestation_outcome_name AT_NEGATIVE = ''NEGATIVE''"
| "attestation_outcome_name AT_INVALID = ''INVALID''"
| "attestation_outcome_name AT_REVOKED = ''REVOKED''"
| "attestation_outcome_name AT_UNAVAILABLE = ''UNAVAILABLE''"

fun disposition_name :: "disposition \<Rightarrow> string" where
  "disposition_name LOST = ''LOST''"
| "disposition_name STOLEN = ''STOLEN''"
| "disposition_name COMPROMISED_KEY = ''COMPROMISED_KEY''"

definition credentialContinuityIntact :: "key_row option \<Rightarrow> bool" where
  "credentialContinuityIntact key = (case key of None \<Rightarrow> False
     | Some k \<Rightarrow> if dk_revokedAt k \<noteq> None then False else deviceKeyStatePermitsNewOperations (dk_status k))"

definition currentKey :: "device_row \<Rightarrow> shield_db \<Rightarrow> key_row option" where
  "currentKey d db = (case dv_currentKeyId d of None \<Rightarrow> None
     | Some keyId \<Rightarrow> findDeviceKeyByKeyId (dv_organisationId d) keyId db)"

record trust_move =
  tm_device :: device_row
  tm_key :: "key_row option"
  tm_to :: device_trust
  tm_reason :: string
  tm_evidenceRefs :: "string list"
  tm_authorisedByUserId :: "string option"
  tm_restorationDecision :: "restoration_decision option"
  tm_standing :: attestation_standing
  tm_now :: int
  tm_traceId :: string

definition transition_facts :: "trust_move \<Rightarrow> shield_db \<Rightarrow> transition_basis" where
  "transition_facts i db = \<lparr>tb_controlledRestoration = tm_restorationDecision i,
     tb_attestationStanding = tm_standing i,
     tb_keyStorage = (case tm_key i of None \<Rightarrow> SOFTWARE | Some k \<Rightarrow> dk_keyStorage k),
     tb_credentialContinuityIntact = credentialContinuityIntact (tm_key i),
     tb_revoked = (dv_revokedAt (tm_device i) \<noteq> None \<or> \<not> credentialContinuityIntact (tm_key i)),
     tb_previouslyEligible = hasHeldTrusted (dv_organisationId (tm_device i)) (dv_id (tm_device i)) db\<rparr>"

definition applyTrustTransition ::
    "trust_move \<Rightarrow> shield_db \<Rightarrow> (shield_refusal + device_trust \<times> device_trust) \<times> shield_db" where
  "applyTrustTransition i db = (let d = tm_device i; from = dv_trust d in
     case evaluateDeviceTrustTransition from (tm_to i) (transition_facts i db) of
       Some refusal \<Rightarrow> (Inl (Trust_Refusal refusal), db)
     | None \<Rightarrow> (case setDeviceTrust (dv_organisationId d) (dv_id d) from (tm_to i) db of (moved, db') \<Rightarrow>
         if moved \<noteq> 1 then (Inl DEVICE_CREDENTIAL_WITHDRAWN, db')
         else (Inr (from, tm_to i), appendTrustTransition
           \<lparr>tn_organisationId = dv_organisationId d, tn_deviceId = dv_id d, tn_previousTrust = Some from,
            tn_newTrust = tm_to i, tn_reason = tm_reason i,
            tn_evidenceRefs = tm_evidenceRefs i @ [''attestation:'' @ standing_name (tm_standing i)],
            tn_authorisedByUserId = tm_authorisedByUserId i, tn_occurredAt = tm_now i,
            tn_traceId = tm_traceId i\<rparr> db')))"

definition effectiveAttestationStanding ::
    "platform \<Rightarrow> (int \<Rightarrow> string) \<Rightarrow> string \<Rightarrow> string \<Rightarrow> int \<Rightarrow> shield_db \<Rightarrow> attestation_standing" where
  "effectiveAttestationStanding pl iso_string organisationId deviceId now db =
     resolveAttestationStanding pl iso_string (readAttestationEvidence organisationId deviceId now db)"

subsection \<open>Observations\<close>

text \<open>What the evaluator answered, and the id the database gives the row.\<close>

record attestation_evidence =
  ae_outcome :: attestation_outcome
  ae_evaluated_at :: string
  ae_attestation_reference :: "string option"
  ae_observation_id :: string

definition recordAttestationObservation_read ::
    "string \<Rightarrow> string \<Rightarrow> shield_db \<Rightarrow> shield_refusal + device_row \<times> key_row" where
  "recordAttestationObservation_read organisationId deviceId db =
     (case findDevice organisationId deviceId db of None \<Rightarrow> Inl DEVICE_NOT_FOUND
      | Some device \<Rightarrow> (case currentKey device db of None \<Rightarrow> Inl DEVICE_KEY_NOT_FOUND
          | Some key \<Rightarrow> Inr (device, key)))"

definition recordAttestationObservation_tx :: "platform \<Rightarrow> (int \<Rightarrow> string) \<Rightarrow> device_row \<Rightarrow> key_row \<Rightarrow>
    attestation_evidence \<Rightarrow> string \<Rightarrow> int \<Rightarrow> shield_db \<Rightarrow> string option \<times> shield_db" where
  "recordAttestationObservation_tx pl iso_string device key e traceId observedAt db =
     (let org = dv_organisationId device; refs = [''observation:'' @ ae_observation_id e];
          event = (\<lambda>p. recordEvent \<lparr>et_organisationId = org, et_deviceId = dv_id device, et_actorUserId = None,
             et_event = p, et_occurredAt = observedAt, et_traceId = traceId\<rparr>)
      in case date_parse pl (ae_evaluated_at e) of None \<Rightarrow> (None, db)
       | Some evaluatedAt \<Rightarrow>
        (case appendAttestationObservation \<lparr>ob_id = ae_observation_id e, ob_organisationId = org,
             ob_deviceId = Some (dv_id device), ob_enrollmentRequestId = None, ob_outcome = ae_outcome e,
             ob_attestationReference = ae_attestation_reference e, ob_evaluatedAt = evaluatedAt,
             ob_observedAt = observedAt, ob_traceId = traceId\<rparr> db of None \<Rightarrow> (None, db)
         | Some db1 \<Rightarrow>
            let standing = effectiveAttestationStanding pl iso_string org (dv_id device) observedAt db1;
                move = (\<lambda>to reason. applyTrustTransition \<lparr>tm_device = device, tm_key = Some key, tm_to = to,
                  tm_reason = reason, tm_evidenceRefs = refs, tm_authorisedByUserId = None,
                  tm_restorationDecision = None, tm_standing = standing, tm_now = observedAt, tm_traceId = traceId\<rparr> db1)
            in (Some (ae_observation_id e),
              if standing = ST_NEGATIVE \<and> dv_trust device \<noteq> TRUST_QUARANTINED then
                (case move TRUST_QUARANTINED (''ATTESTATION_'' @ attestation_outcome_name (ae_outcome e)) of
                   (Inl r, db2) \<Rightarrow> db2
                 | (Inr (prev, new), db2) \<Rightarrow>
                     event (DEVICE_QUARANTINED prev (''ATTESTATION_'' @ attestation_outcome_name (ae_outcome e))) db2)
              else if dv_trust device = TRUST_TRUSTED \<and> \<not> attestationStandingPermitsTrusted standing then
                (case move TRUST_DEGRADED (''ATTESTATION_STANDING_'' @ standing_name standing) of
                   (Inl r, db2) \<Rightarrow> db2
                 | (Inr (prev, new), db2) \<Rightarrow>
                     event (TRUST_CHANGED (Some prev) new (''ATTESTATION_STANDING_'' @ standing_name standing) None) db2)
              else db1)))"

subsection \<open>Trust changes\<close>

definition authoriseAgainstDeviceSites ::
    "principal \<Rightarrow> string \<Rightarrow> string \<Rightarrow> string list \<Rightarrow> shield_refusal option" where
  "authoriseAgainstDeviceSites p action organisationId sites =
     checkGlobalDeviceMutationAuthority p action organisationId sites"

definition changeDeviceTrust_read ::
    "principal \<Rightarrow> string \<Rightarrow> string \<Rightarrow> shield_db \<Rightarrow> shield_refusal + device_row" where
  "changeDeviceTrust_read p organisationId deviceId db =
     (case findDevice organisationId deviceId db of None \<Rightarrow> Inl DEVICE_NOT_FOUND
      | Some device \<Rightarrow>
         (case authoriseAgainstDeviceSites p ''device.trust.manage'' organisationId
             (listDeviceSiteIds organisationId (dv_id device) db) of Some r \<Rightarrow> Inl r
          | None \<Rightarrow>
              if dv_trust device \<in> set DEVICE_TRUST_RESTORATION_REQUIRED_FROM
                \<and> \<not> hasAction p DEVICE_TRUST_RESTORATION_CAPABILITY
              then Inl (Trust_Refusal RESTORATION_DECISION_REQUIRED) else Inr device))"

definition changeDeviceTrust_tx :: "platform \<Rightarrow> (int \<Rightarrow> string) \<Rightarrow> principal \<Rightarrow> string \<Rightarrow> device_row \<Rightarrow>
    device_trust \<Rightarrow> string \<Rightarrow> string \<Rightarrow> int \<Rightarrow> shield_db \<Rightarrow> (shield_refusal + device_trust \<times> device_trust) \<times> shield_db" where
  "changeDeviceTrust_tx pl iso_string p organisationId device to reason traceId now db =
     (case (if to \<in> set DEVICE_TRUST_UPWARD_TARGETS then findDevice organisationId (dv_id device) db else Some device) of
        None \<Rightarrow> (Inl DEVICE_NOT_FOUND, db)
      | Some subject \<Rightarrow>
         let restores = dv_trust subject \<in> set DEVICE_TRUST_RESTORATION_REQUIRED_FROM;
             mayRestore = hasAction p DEVICE_TRUST_RESTORATION_CAPABILITY
         in if restores \<and> \<not> mayRestore then (Inl (Trust_Refusal RESTORATION_DECISION_REQUIRED), db)
         else case applyTrustTransition \<lparr>tm_device = subject, tm_key = currentKey subject db, tm_to = to,
             tm_reason = reason, tm_evidenceRefs = [], tm_authorisedByUserId = Some (pr_user_id p),
             tm_restorationDecision = (if restores \<and> mayRestore then
                 Some \<lparr>rd_decided_by_user_id = pr_user_id p, rd_capability = DEVICE_TRUST_RESTORATION_CAPABILITY,
                   rd_decided_at = iso_string now\<rparr> else None),
             tm_standing = effectiveAttestationStanding pl iso_string (dv_organisationId subject) (dv_id subject) now db,
             tm_now = now, tm_traceId = traceId\<rparr> db of
           (Inl r, db') \<Rightarrow> (Inl r, db')
         | (Inr (prev, new), db') \<Rightarrow> (Inr (prev, new), recordEvent \<lparr>et_organisationId = organisationId,
             et_deviceId = dv_id subject, et_actorUserId = Some (pr_user_id p),
             et_event = TRUST_CHANGED (Some prev) new reason (Some (pr_user_id p)),
             et_occurredAt = now, et_traceId = traceId\<rparr> db'))"

subsection \<open>Lost, stolen, compromised\<close>

definition disposition_trust :: "disposition \<Rightarrow> device_trust" where
  "disposition_trust disp = (if disp = COMPROMISED_KEY then TRUST_COMPROMISED else TRUST_QUARANTINED)"

definition disposition_key_target :: "disposition \<Rightarrow> key_state option" where
  "disposition_key_target disp = (if disp = LOST then None else if disp = STOLEN then Some REVOKED else Some COMPROMISED)"

definition declareDisposition_read :: "principal \<Rightarrow> string \<Rightarrow> string \<Rightarrow> disposition \<Rightarrow> shield_db \<Rightarrow>
    shield_refusal + device_row \<times> key_row" where
  "declareDisposition_read p organisationId deviceId disp db =
     (case findDevice organisationId deviceId db of None \<Rightarrow> Inl DEVICE_NOT_FOUND
      | Some device \<Rightarrow>
         (case authoriseAgainstDeviceSites p ''device.revoke'' organisationId
             (listDeviceSiteIds organisationId (dv_id device) db) of Some r \<Rightarrow> Inl r
          | None \<Rightarrow>
              if dv_trust device = TRUST_COMPROMISED then Inl (Trust_Refusal SOURCE_STATE_TERMINAL)
              else (case currentKey device db of None \<Rightarrow> Inl DEVICE_KEY_NOT_FOUND
                | Some key \<Rightarrow> (case disposition_key_target disp of
                     None \<Rightarrow> Inr (device, key)
                   | Some target \<Rightarrow> if \<not> canTransitionDeviceKeyLifecycle (dk_status key) target
                       then Inl DEVICE_CREDENTIAL_WITHDRAWN else Inr (device, key)))))"

record declared =
  de_disposition :: disposition
  de_previousTrust :: device_trust
  de_newTrust :: device_trust
  de_keyStatus :: key_state
  de_restorationPathRemains :: bool

definition declaration_input :: "platform \<Rightarrow> (int \<Rightarrow> string) \<Rightarrow> principal \<Rightarrow> string \<Rightarrow> device_row \<Rightarrow> key_row \<Rightarrow>
    disposition \<Rightarrow> string \<Rightarrow> string \<Rightarrow> int \<Rightarrow> shield_db \<Rightarrow> trust_move" where
  "declaration_input pl iso_string p organisationId device key disp reason traceId now db =
     \<lparr>tm_device = device, tm_key = Some key, tm_to = disposition_trust disp, tm_reason = reason,
      tm_evidenceRefs = [''disposition:'' @ disposition_name disp], tm_authorisedByUserId = Some (pr_user_id p),
      tm_restorationDecision = None,
      tm_standing = effectiveAttestationStanding pl iso_string organisationId (dv_id device) now db,
      tm_now = now, tm_traceId = traceId\<rparr>"

text \<open>\<open>ShieldTransactionRollback\<close> aborts the transaction and becomes the refusal it carries.\<close>

definition declareDisposition_tx :: "platform \<Rightarrow> (int \<Rightarrow> string) \<Rightarrow> principal \<Rightarrow> string \<Rightarrow> device_row \<Rightarrow> key_row \<Rightarrow>
    disposition \<Rightarrow> string \<Rightarrow> string \<Rightarrow> int \<Rightarrow> shield_db \<Rightarrow> (shield_refusal + declared) \<times> shield_db" where
  "declareDisposition_tx pl iso_string p organisationId device key disp reason traceId now db =
     (let newTrust = disposition_trust disp; revokesDeviceCredential = disp \<noteq> LOST;
          event = (\<lambda>e. recordEvent \<lparr>et_organisationId = organisationId, et_deviceId = dv_id device,
             et_actorUserId = Some (pr_user_id p), et_event = e, et_occurredAt = now, et_traceId = traceId\<rparr>)
      in case applyTrustTransition
          (declaration_input pl iso_string p organisationId device key disp reason traceId now db) db of
         (Inl r, db1) \<Rightarrow> (Inl r, db1)
       | (Inr (prev, moved), db1) \<Rightarrow>
           let db2 = setDeviceRevocation organisationId (dv_id device) disp
                 (if revokesDeviceCredential then Some now else None) newTrust db1;
               withdrawal = (case disposition_key_target disp of None \<Rightarrow> (Inr (dk_status key), db2)
                 | Some target \<Rightarrow> (case withdrawDeviceKey organisationId (dk_keyId key) (dk_status key) target now disp db2 of
                     (withdrawn, db3) \<Rightarrow>
                       if withdrawn \<noteq> 1 then (Inl DEVICE_CREDENTIAL_WITHDRAWN, db) else (Inr target, db3)))
           in case withdrawal of (Inl r, db3) \<Rightarrow> (Inl r, db3)
            | (Inr keyStatus, db3) \<Rightarrow>
                let db4 = (case disp of
                      LOST \<Rightarrow> event (DEVICE_QUARANTINED prev reason) (event (DEVICE_LOST prev newTrust disp) db3)
                    | STOLEN \<Rightarrow> event (KEY_REVOKED (dk_keyId key) (dk_keyVersion key) disp)
                        (event (DEVICE_STOLEN prev newTrust disp (dk_keyId key) (dk_keyVersion key)) db3)
                    | COMPROMISED_KEY \<Rightarrow> event (KEY_COMPROMISED (dk_keyId key) (dk_keyVersion key) disp) db3)
                in (Inr \<lparr>de_disposition = disp, de_previousTrust = prev, de_newTrust = newTrust,
                      de_keyStatus = keyStatus, de_restorationPathRemains = (disp = LOST)\<rparr>,
                    if revokesDeviceCredential then event (DEVICE_REVOKED disp prev newTrust now) db4 else db4))"

subsection \<open>The effect of an enrolment (device-enrollment.service.ts)\<close>

text \<open>
  What \<open>performCommit\<close> is handed: the rows the ceremony locked and judged, and the ids the server
  generated. The gate in front of it is not part of this theory.
\<close>

record commit_context =
  cx_organisationId :: string
  cx_enrollmentRequestId :: string
  cx_deviceId :: string
  cx_keyId :: string
  cx_key_row_id :: string
  cx_observation_id :: string
  cx_traceId :: string
  cx_fingerprint :: string
  cx_grant_id :: string
  cx_grant_siteId :: string
  cx_grant_intendedUserId :: string
  cx_grant_issuedByUserId :: string
  cx_intended_user_id :: string
  cx_site_id :: string
  cx_custody :: custody
  cx_assigned_user_id :: "string option"
  cx_custody_regime_id :: "string option"
  cx_publicKey :: string
  cx_publicKeyThumbprint :: string
  cx_keyStorage :: key_storage
  cx_attestation_outcome :: attestation_outcome
  cx_attestation_reference :: "string option"
  cx_attestation_evaluated_at :: string
  cx_approved_by_user_id :: string

definition SERVER_SELECTED_SIGNATURE_PROFILE :: string where
  "SERVER_SELECTED_SIGNATURE_PROFILE = DEVICE_SIGNATURE_PROFILES ! 0"

definition DEVICE_SEQUENCE_NAMESPACE_DOMAIN :: string where
  "DEVICE_SEQUENCE_NAMESPACE_DOMAIN = ''sentinel.device.sequence-namespace.v1''"

definition deviceSequenceNamespaceId :: "platform \<Rightarrow> string \<Rightarrow> string \<Rightarrow> string option" where
  "deviceSequenceNamespaceId pl organisation_id device_id =
     map_option (\<lambda>d. ''device-seq:'' @ d) (device_canonical_digest (sha pl)
       (JObj [(''domain'', JStr DEVICE_SEQUENCE_NAMESPACE_DOMAIN), (''organisation_id'', JStr organisation_id),
         (''device_id'', JStr device_id)]))"

definition enrollment_standing :: "platform \<Rightarrow> (int \<Rightarrow> string) \<Rightarrow> commit_context \<Rightarrow> int \<Rightarrow> attestation_standing" where
  "enrollment_standing pl iso_string c now = fst (evaluateAttestationStanding pl
     \<lparr>sn_outcome = cx_attestation_outcome c, sn_lastVerifiedAt = None, sn_now = iso_string now,
      sn_hasPriorVerified = False\<rparr>)"

text \<open>The writes in the order of the code; \<open>None\<close> where one of them throws.\<close>

definition performCommit ::
    "platform \<Rightarrow> (int \<Rightarrow> string) \<Rightarrow> commit_context \<Rightarrow> int \<Rightarrow> shield_db \<Rightarrow> shield_db option" where
  "performCommit pl iso_string c now db =
     (let org = cx_organisationId c; dev = cx_deviceId c; standing = enrollment_standing pl iso_string c now;
          trust = initialDeviceTrustOnEnrollment (cx_keyStorage c) standing;
          event = (\<lambda>e. recordEvent \<lparr>et_organisationId = org, et_deviceId = dev,
            et_actorUserId = Some (cx_approved_by_user_id c), et_event = e, et_occurredAt = now,
            et_traceId = cx_traceId c\<rparr>)
      in Option.bind (deviceSequenceNamespaceId pl org dev) (\<lambda>namespace.
         Option.bind (date_parse pl (cx_attestation_evaluated_at c)) (\<lambda>evaluatedAt.
         Option.bind (createDevice \<lparr>dv_id = dev, dv_organisationId = org, dv_custody = cx_custody c,
           dv_enrolledByUserId = cx_grant_issuedByUserId c, dv_intendedUserId = cx_intended_user_id c,
           dv_sequenceNamespaceId = namespace, dv_trust = trust, dv_revocationDisposition = None,
           dv_revokedAt = None, dv_currentKeyId = Some (cx_keyId c), dv_currentKeyVersion = Some 1,
           dv_enrollmentRequestId = cx_enrollmentRequestId c, dv_enrolledAt = now\<rparr> db) (\<lambda>db1.
         Option.bind (createDeviceKey \<lparr>dk_id = cx_key_row_id c, dk_organisationId = org, dk_deviceId = dev,
           dk_keyId = cx_keyId c, dk_keyVersion = 1, dk_publicKey = cx_publicKey c,
           dk_publicKeyThumbprint = cx_publicKeyThumbprint c,
           dk_signatureProfile = SERVER_SELECTED_SIGNATURE_PROFILE, dk_keyStorage = cx_keyStorage c,
           dk_status = CURRENT, dk_registeredAt = now, dk_rotatedAt = None, dk_revokedAt = None,
           dk_revocationDisposition = None\<rparr> db1) (\<lambda>db2.
         Option.bind (createDeviceSiteScope \<lparr>sc_organisationId = org, sc_deviceId = dev,
           sc_siteId = cx_site_id c, sc_custody = cx_custody c, sc_assignedUserId = cx_assigned_user_id c,
           sc_custodyRegimeId = cx_custody_regime_id c, sc_associatedAt = now, sc_releasedAt = None\<rparr> db2) (\<lambda>db3.
         Option.bind (appendAttestationObservation \<lparr>ob_id = cx_observation_id c, ob_organisationId = org,
           ob_deviceId = Some dev, ob_enrollmentRequestId = Some (cx_enrollmentRequestId c),
           ob_outcome = cx_attestation_outcome c, ob_attestationReference = cx_attestation_reference c,
           ob_evaluatedAt = evaluatedAt, ob_observedAt = now, ob_traceId = cx_traceId c\<rparr>
           (appendTrustTransition \<lparr>tn_organisationId = org, tn_deviceId = dev, tn_previousTrust = None,
              tn_newTrust = trust, tn_reason = ''ENROLLMENT_INITIAL_TRUST'',
              tn_evidenceRefs = [cx_fingerprint c, ''attestation:'' @ standing_name standing],
              tn_authorisedByUserId = Some (cx_approved_by_user_id c), tn_occurredAt = now,
              tn_traceId = cx_traceId c\<rparr> db3)) (\<lambda>db4.
         case advanceEnrollmentState org (cx_enrollmentRequestId c) ENR_POSSESSION_PROVEN ENR_ENROLLED db4 of
           (enrolled, db5) \<Rightarrow> if enrolled \<noteq> 1 then None else Some
             (event (TRUST_CHANGED None trust ''ENROLLMENT_INITIAL_TRUST'' (Some (cx_approved_by_user_id c)))
             (event (DEVICE_ENROLLED dev (cx_enrollmentRequestId c) (cx_fingerprint c) (cx_site_id c) (cx_custody c)
                 namespace (cx_keyId c) 1 (cx_publicKeyThumbprint c) (cx_keyStorage c)
                 SERVER_SELECTED_SIGNATURE_PROFILE trust)
             (event (BOOTSTRAP_CONSUMED (cx_grant_id c) (cx_grant_siteId c) (cx_grant_intendedUserId c)
                 (cx_enrollmentRequestId c) (cx_fingerprint c)) db5))))))))))"

end
