(* ===== verification/Shield_Rotation.thy ===== *)
theory Shield_Rotation
  imports Shield_Trust
begin

text \<open>
  Key rotation in the registry (services/core-api/src/modules/shield/device-key.service.ts): a commander
  proposes a new key, the server issues a challenge, the new key answers it, and the commit judges the
  whole ceremony with the contract's gate and moves the credential in one transaction. What the service
  takes from the crypto provider is the record \<open>crypto\<close>; generated ids, nonces and clocks are arguments.
\<close>

record crypto =
  cr_imports :: "string \<Rightarrow> bool"
  cr_verify :: "string \<Rightarrow> string \<Rightarrow> bytes \<Rightarrow> bool"
  cr_sha_bytes :: "bytes \<Rightarrow> string"

definition isRuntimeValidPublicKey :: "crypto \<Rightarrow> string \<Rightarrow> bool" where
  "isRuntimeValidPublicKey cr k \<longleftrightarrow> \<not> isl (decodeCanonicalP256PublicKey k) \<and> cr_imports cr k"

text \<open>\<open>P256KeyImporter.verifySignature\<close>, which imports the registered key before it verifies.\<close>

definition verify_imported :: "crypto \<Rightarrow> string \<Rightarrow> string \<Rightarrow> string \<Rightarrow> string \<Rightarrow> string \<Rightarrow> bool" where
  "verify_imported cr registeredPublicKey = verifySignature
     (\<lambda>k m s. isRuntimeValidPublicKey cr k \<and> cr_verify cr k m s) registeredPublicKey"

definition rotation_authority :: "principal \<Rightarrow> string \<Rightarrow> string \<Rightarrow> shield_db \<Rightarrow> shield_refusal option" where
  "rotation_authority p organisationId deviceId db = checkGlobalDeviceMutationAuthority p ''device.key.rotate''
     organisationId (listDeviceSiteIds organisationId deviceId db)"

subsection \<open>The proposal\<close>

definition requestKeyRotation_read :: "crypto \<Rightarrow> principal \<Rightarrow> string \<Rightarrow> string \<Rightarrow> string \<Rightarrow> shield_db \<Rightarrow>
    shield_refusal + device_row \<times> key_row" where
  "requestKeyRotation_read cr p organisationId deviceId newPublicKey db =
     (case findDevice organisationId deviceId db of None \<Rightarrow> Inl DEVICE_NOT_FOUND
      | Some device \<Rightarrow> if rotation_authority p organisationId (dv_id device) db \<noteq> None then Inl DEVICE_NOT_FOUND
          else (case currentKey device db of None \<Rightarrow> Inl DEVICE_HAS_NO_CURRENT_KEY
            | Some key \<Rightarrow> if \<not> isRuntimeValidPublicKey cr newPublicKey then Inl PUBLIC_KEY_NOT_RUNTIME_VALID
                else Inr (device, key)))"

record proposal =
  pp_newPublicKey :: string
  pp_newKeyStorage :: key_storage
  pp_rotationRequestId :: string
  pp_proposedKeyId :: string
  pp_requestedAt :: int

definition rotation_draft :: "crypto \<Rightarrow> (int \<Rightarrow> string) \<Rightarrow> string \<Rightarrow> device_row \<Rightarrow> key_row \<Rightarrow> proposal \<Rightarrow> rotation_request" where
  "rotation_draft cr iso_string organisationId device key i = \<lparr>kq_schema_version = 1,
     kq_rotation_request_id = pp_rotationRequestId i, kq_organisation_id = organisationId,
     kq_device_id = dv_id device, kq_current_key_id = dk_keyId key, kq_current_key_version = dk_keyVersion key,
     kq_proposed_key_id = pp_proposedKeyId i, kq_proposed_key_version = dk_keyVersion key + 1,
     kq_new_public_key = pp_newPublicKey i,
     kq_new_public_key_thumbprint = (case deriveP256PublicKeyThumbprint (cr_sha_bytes cr) (pp_newPublicKey i) of
        Inl _ \<Rightarrow> [] | Inr t \<Rightarrow> t),
     kq_new_key_storage = pp_newKeyStorage i,
     kq_server_resolved_signature_profile = SERVER_SELECTED_SIGNATURE_PROFILE,
     kq_requested_at = iso_string (pp_requestedAt i)\<rparr>"

text \<open>The insert; \<open>None\<close> where the unique index on the proposed version refuses it.\<close>

definition requestKeyRotation_create :: "platform \<Rightarrow> crypto \<Rightarrow> (int \<Rightarrow> string) \<Rightarrow> string \<Rightarrow> device_row \<Rightarrow> key_row \<Rightarrow>
    proposal \<Rightarrow> shield_db \<Rightarrow> (shield_refusal + string) option \<times> shield_db" where
  "requestKeyRotation_create pl cr iso_string organisationId device key i db =
     (let q = rotation_draft cr iso_string organisationId device key i in
      if \<not> rotation_request_ok pl (cr_sha_bytes cr) q then (Some (Inl MALFORMED_CONTRACT_STRUCTURE), db)
      else (case createRotationRequest \<lparr>ro_id = pp_rotationRequestId i, ro_organisationId = organisationId,
          ro_deviceId = dv_id device, ro_currentKeyId = dk_keyId key, ro_currentKeyVersion = dk_keyVersion key,
          ro_proposedKeyId = pp_proposedKeyId i, ro_proposedKeyVersion = dk_keyVersion key + 1,
          ro_newPublicKey = pp_newPublicKey i, ro_newPublicKeyThumbprint = kq_new_public_key_thumbprint q,
          ro_newKeyStorage = pp_newKeyStorage i,
          ro_serverResolvedSignatureProfile = SERVER_SELECTED_SIGNATURE_PROFILE,
          ro_requestFingerprint = deviceKeyRotationRequestFingerprint pl q, ro_requestedAt = pp_requestedAt i,
          ro_state = ROTATION_STATE_REQUESTED\<rparr> db of
        None \<Rightarrow> (None, db)
      | Some db' \<Rightarrow> (Some (Inr (deviceKeyRotationRequestFingerprint pl q)), db')))"

subsection \<open>The challenge\<close>

definition issueRotationChallenge_read :: "principal \<Rightarrow> string \<Rightarrow> string \<Rightarrow> shield_db \<Rightarrow> shield_refusal + rotation_row" where
  "issueRotationChallenge_read p organisationId rotationRequestId db =
     (case findRotationRequest organisationId rotationRequestId db of None \<Rightarrow> Inl ROTATION_REQUEST_NOT_FOUND
      | Some r \<Rightarrow> if rotation_authority p organisationId (ro_deviceId r) db \<noteq> None then Inl ROTATION_REQUEST_NOT_FOUND
          else if ro_state r \<noteq> ROTATION_STATE_REQUESTED \<and> ro_state r \<noteq> ROTATION_STATE_CHALLENGED
            then Inl ROTATION_STATE_INVALID else Inr r)"

definition issueRotationChallenge_tx :: "string \<Rightarrow> rotation_row \<Rightarrow> string \<Rightarrow> string \<Rightarrow> int \<Rightarrow> shield_db \<Rightarrow>
    (shield_refusal + string) option \<times> shield_db" where
  "issueRotationChallenge_tx organisationId r challengeId nonce issuedAt db =
     (case createRotationChallenge \<lparr>rh_id = challengeId, rh_organisationId = organisationId,
         rh_deviceId = ro_deviceId r, rh_rotationRequestId = ro_id r,
         rh_rotationRequestFingerprint = ro_requestFingerprint r, rh_currentKeyId = ro_currentKeyId r,
         rh_currentKeyVersion = ro_currentKeyVersion r, rh_proposedKeyId = ro_proposedKeyId r,
         rh_proposedKeyVersion = ro_proposedKeyVersion r, rh_newPublicKeyThumbprint = ro_newPublicKeyThumbprint r,
         rh_nonce = nonce, rh_issuedAt = issuedAt, rh_expiresAt = issuedAt + DEVICE_KEY_ROTATION_CHALLENGE_MAX_AGE_MS\<rparr> db of
        None \<Rightarrow> (None, db)
      | Some db1 \<Rightarrow> (case setRotationRequestState organisationId (ro_id r) (ro_state r) ROTATION_STATE_CHALLENGED db1 of
          (advanced, db2) \<Rightarrow> if advanced \<noteq> 1 then (Some (Inl ROTATION_STATE_INVALID), db)
            else (Some (Inr challengeId), db2)))"

subsection \<open>The answer of the new key\<close>

definition possession_of_rows :: "rotation_row \<Rightarrow> rotation_challenge_row \<Rightarrow> possession_statement" where
  "possession_of_rows r c = \<lparr>ks_organisation_id = ro_organisationId r, ks_device_id = ro_deviceId r,
     ks_rotation_request_id = ro_id r, ks_rotation_request_fingerprint = ro_requestFingerprint r,
     ks_current_key_id = ro_currentKeyId r, ks_current_key_version = ro_currentKeyVersion r,
     ks_proposed_key_id = ro_proposedKeyId r, ks_proposed_key_version = ro_proposedKeyVersion r,
     ks_new_public_key_thumbprint = ro_newPublicKeyThumbprint r, ks_rotation_challenge_id = rh_id c,
     ks_nonce = rh_nonce c, ks_signature_profile = SERVER_SELECTED_SIGNATURE_PROFILE\<rparr>"

definition verifyRotationPossession_read :: "platform \<Rightarrow> crypto \<Rightarrow> string \<Rightarrow> string \<Rightarrow> string \<Rightarrow> possession_response \<Rightarrow>
    shield_db \<Rightarrow> shield_refusal + rotation_row \<times> rotation_challenge_row \<times> bool" where
  "verifyRotationPossession_read pl cr organisationId rotationRequestId challengeId response db =
     (if \<not> possession_response_ok pl response then Inl MALFORMED_CONTRACT_STRUCTURE
      else case findRotationRequest organisationId rotationRequestId db of None \<Rightarrow> Inl ROTATION_REQUEST_NOT_FOUND
       | Some r \<Rightarrow> (case findRotationChallenge organisationId challengeId db of None \<Rightarrow> Inl ROTATION_CHALLENGE_NOT_FOUND
          | Some c \<Rightarrow> if rh_rotationRequestId c \<noteq> ro_id r then Inl (Rotation_Refusal CHALLENGE_MISBOUND)
              else if kr_challenge_id response \<noteq> rh_id c \<or> kr_rotation_request_id response \<noteq> ro_id r
                then Inl (Rotation_Refusal CHALLENGE_MISBOUND)
              else Inr (r, c, verify_imported cr (ro_newPublicKey r)
                (canonicalDeviceKeyRotationPossessionStatement (possession_of_rows r c)) (kr_signature response)
                (ro_serverResolvedSignatureProfile r) (kr_claimed_signature_profile response))))"

definition verifyRotationPossession_tx :: "platform \<Rightarrow> string \<Rightarrow> rotation_row \<Rightarrow> rotation_challenge_row \<Rightarrow> bool \<Rightarrow>
    string \<Rightarrow> int \<Rightarrow> shield_db \<Rightarrow> bool option \<times> shield_db" where
  "verifyRotationPossession_tx pl organisationId r c verified verificationId verifiedAt db =
     (case createRotationVerification \<lparr>rw_id = verificationId, rw_organisationId = organisationId,
         rw_deviceId = ro_deviceId r, rw_rotationRequestId = ro_id r,
         rw_rotationRequestFingerprint = ro_requestFingerprint r, rw_rotationChallengeId = rh_id c,
         rw_currentKeyId = ro_currentKeyId r, rw_currentKeyVersion = ro_currentKeyVersion r,
         rw_proposedKeyId = ro_proposedKeyId r, rw_proposedKeyVersion = ro_proposedKeyVersion r,
         rw_newPublicKeyThumbprint = ro_newPublicKeyThumbprint r,
         rw_signatureProfile = SERVER_SELECTED_SIGNATURE_PROFILE,
         rw_canonicalStatementFingerprint =
           deviceKeyRotationPossessionStatementFingerprint pl (possession_of_rows r c),
         rw_verified = verified, rw_verifiedAt = verifiedAt\<rparr> db of
        None \<Rightarrow> (None, db) | Some db' \<Rightarrow> (Some verified, db'))"

subsection \<open>The commit\<close>

record locked_rotation =
  lr_device :: device_row
  lr_currentKey :: key_row
  lr_request :: rotation_request
  lr_challenge :: rotation_challenge
  lr_verification :: rotation_verification
  lr_row :: rotation_row

definition request_of_row :: "(int \<Rightarrow> string) \<Rightarrow> rotation_row \<Rightarrow> rotation_request" where
  "request_of_row iso_string r = \<lparr>kq_schema_version = 1, kq_rotation_request_id = ro_id r,
     kq_organisation_id = ro_organisationId r, kq_device_id = ro_deviceId r,
     kq_current_key_id = ro_currentKeyId r, kq_current_key_version = ro_currentKeyVersion r,
     kq_proposed_key_id = ro_proposedKeyId r, kq_proposed_key_version = ro_proposedKeyVersion r,
     kq_new_public_key = ro_newPublicKey r, kq_new_public_key_thumbprint = ro_newPublicKeyThumbprint r,
     kq_new_key_storage = ro_newKeyStorage r,
     kq_server_resolved_signature_profile = ro_serverResolvedSignatureProfile r,
     kq_requested_at = iso_string (ro_requestedAt r)\<rparr>"

definition challenge_of_row :: "(int \<Rightarrow> string) \<Rightarrow> rotation_challenge_row \<Rightarrow> rotation_challenge" where
  "challenge_of_row iso_string c = \<lparr>kc_schema_version = 1, kc_challenge_id = rh_id c,
     kc_organisation_id = rh_organisationId c, kc_device_id = rh_deviceId c,
     kc_rotation_request_id = rh_rotationRequestId c,
     kc_rotation_request_fingerprint = rh_rotationRequestFingerprint c,
     kc_current_key_id = rh_currentKeyId c, kc_current_key_version = rh_currentKeyVersion c,
     kc_proposed_key_id = rh_proposedKeyId c, kc_proposed_key_version = rh_proposedKeyVersion c,
     kc_new_public_key_thumbprint = rh_newPublicKeyThumbprint c, kc_nonce = rh_nonce c,
     kc_issued_at = iso_string (rh_issuedAt c), kc_expires_at = iso_string (rh_expiresAt c)\<rparr>"

definition verification_of_row :: "(int \<Rightarrow> string) \<Rightarrow> rotation_verification_row \<Rightarrow> rotation_verification" where
  "verification_of_row iso_string v = \<lparr>kv_verified = rw_verified v, kv_organisation_id = rw_organisationId v,
     kv_device_id = rw_deviceId v, kv_rotation_request_id = rw_rotationRequestId v,
     kv_rotation_request_fingerprint = rw_rotationRequestFingerprint v,
     kv_rotation_challenge_id = rw_rotationChallengeId v,
     kv_current_key_id = rw_currentKeyId v, kv_current_key_version = rw_currentKeyVersion v,
     kv_proposed_key_id = rw_proposedKeyId v, kv_proposed_key_version = rw_proposedKeyVersion v,
     kv_new_public_key_thumbprint = rw_newPublicKeyThumbprint v, kv_signature_profile = rw_signatureProfile v,
     kv_canonical_statement_fingerprint = rw_canonicalStatementFingerprint v,
     kv_verified_at = iso_string (rw_verifiedAt v)\<rparr>"

definition lockRotationState :: "platform \<Rightarrow> crypto \<Rightarrow> (int \<Rightarrow> string) \<Rightarrow> string \<Rightarrow> string \<Rightarrow> string \<Rightarrow> shield_db \<Rightarrow>
    shield_refusal + locked_rotation" where
  "lockRotationState pl cr iso_string organisationId rotationRequestId challengeId db =
     (case findRotationRequest organisationId rotationRequestId db of None \<Rightarrow> Inl ROTATION_REQUEST_NOT_FOUND
      | Some r \<Rightarrow>
     (case findRotationChallenge organisationId challengeId db of None \<Rightarrow> Inl ROTATION_CHALLENGE_NOT_FOUND
      | Some c \<Rightarrow> if rh_rotationRequestId c \<noteq> ro_id r then Inl (Rotation_Refusal CHALLENGE_MISBOUND) else
     (case findDevice organisationId (ro_deviceId r) db of None \<Rightarrow> Inl DEVICE_NOT_FOUND
      | Some device \<Rightarrow>
     (case dv_currentKeyId device of None \<Rightarrow> Inl DEVICE_HAS_NO_CURRENT_KEY
      | Some keyId \<Rightarrow>
     (case findDeviceKeyByKeyId organisationId keyId db of None \<Rightarrow> Inl DEVICE_HAS_NO_CURRENT_KEY
      | Some key \<Rightarrow>
     (case lockRotationVerification organisationId (rh_id c) db of
        None \<Rightarrow> Inl (Rotation_Refusal POSSESSION_VERIFICATION_MISSING)
      | Some v \<Rightarrow>
        if \<not> rotation_request_ok pl (cr_sha_bytes cr) (request_of_row iso_string r)
           \<or> \<not> rotation_challenge_ok pl (challenge_of_row iso_string c)
           \<or> \<not> rotation_verification_ok pl (verification_of_row iso_string v) then Inl MALFORMED_CONTRACT_STRUCTURE
        else Inr \<lparr>lr_device = device, lr_currentKey = key, lr_request = request_of_row iso_string r,
          lr_challenge = challenge_of_row iso_string c, lr_verification = verification_of_row iso_string v,
          lr_row = r\<rparr>))))))"

text \<open>The proof is \<open>None\<close> where it is not a JSON value the schema can read.\<close>

definition verifyContinuityProof :: "platform \<Rightarrow> crypto \<Rightarrow> request_proof option \<Rightarrow> locked_rotation \<Rightarrow> (bool \<times> string) option" where
  "verifyContinuityProof pl cr proof l = (case proof of None \<Rightarrow> None
     | Some p \<Rightarrow> if \<not> request_proof_ok pl p then None
         else if pf_purpose p \<noteq> DEVICE_KEY_ROTATION then None
         else if pf_organisation_id p \<noteq> dv_organisationId (lr_device l) \<or> pf_device_id p \<noteq> dv_id (lr_device l)
           \<or> pf_key_id p \<noteq> dk_keyId (lr_currentKey l) \<or> pf_key_version p \<noteq> dk_keyVersion (lr_currentKey l) then None
         else Some (verify_imported cr (dk_publicKey (lr_currentKey l))
             (canonicalDeviceRequestProofStatement p SERVER_SELECTED_SIGNATURE_PROFILE) (pf_signature p)
             (dk_signatureProfile (lr_currentKey l)) (pf_claimed_signature_profile p), pf_payload_digest p))"

definition resolveCommittedRotation :: "platform \<Rightarrow> locked_rotation \<Rightarrow> string \<Rightarrow> shield_db \<Rightarrow> key_row option" where
  "resolveCommittedRotation pl l storedOutcomeRef db =
     (case findDeviceKeyRowById pl (dv_organisationId (lr_device l)) storedOutcomeRef db of None \<Rightarrow> None
      | Some key \<Rightarrow> if dk_deviceId key \<noteq> dv_id (lr_device l) then None
          else if dk_keyId key \<noteq> kq_proposed_key_id (lr_request l) then None
          else if dk_keyVersion key \<noteq> kq_proposed_key_version (lr_request l) then None else Some key)"

definition registered_facts :: "locked_rotation \<Rightarrow> rotation_registry" where
  "registered_facts l = \<lparr>kg_organisation_id = dv_organisationId (lr_device l), kg_device_id = dv_id (lr_device l),
     kg_current_key_id = dk_keyId (lr_currentKey l), kg_current_key_version = dk_keyVersion (lr_currentKey l),
     kg_current_key_status = dk_status (lr_currentKey l),
     kg_current_key_revoked = (dk_revokedAt (lr_currentKey l) \<noteq> None),
     kg_device_revoked = (dv_revokedAt (lr_device l) \<noteq> None \<or> dv_trust (lr_device l) = TRUST_COMPROMISED),
     kg_server_resolved_signature_profile = SERVER_SELECTED_SIGNATURE_PROFILE\<rparr>"

text \<open>The four writes of the effect and its event; a count other than one throws the refusal.\<close>

definition rotate_effect :: "principal \<Rightarrow> string \<Rightarrow> string \<Rightarrow> string \<Rightarrow> string \<Rightarrow> int \<Rightarrow> locked_rotation \<Rightarrow> shield_db \<Rightarrow>
    (shield_refusal option + shield_db)" where
  "rotate_effect p organisationId traceId candidateKeyRowId fingerprint now l db =
     (let d = lr_device l; k = lr_currentKey l; q = lr_request l in
      case markDeviceKeyRotated organisationId (dk_keyId k) now db of (superseded, db1) \<Rightarrow>
      if superseded \<noteq> 1 then Inl (Some (Rotation_Refusal STALE_ROTATION)) else
      (case createDeviceKey \<lparr>dk_id = candidateKeyRowId, dk_organisationId = organisationId, dk_deviceId = dv_id d,
           dk_keyId = kq_proposed_key_id q, dk_keyVersion = kq_proposed_key_version q,
           dk_publicKey = ro_newPublicKey (lr_row l), dk_publicKeyThumbprint = kq_new_public_key_thumbprint q,
           dk_signatureProfile = SERVER_SELECTED_SIGNATURE_PROFILE, dk_keyStorage = ro_newKeyStorage (lr_row l),
           dk_status = CURRENT, dk_registeredAt = now, dk_rotatedAt = None, dk_revokedAt = None,
           dk_revocationDisposition = None\<rparr> db1 of
         None \<Rightarrow> Inl None
       | Some db2 \<Rightarrow>
      (case advanceDeviceCurrentKey organisationId (dv_id d) (dk_keyId k, dk_keyVersion k)
           (kq_proposed_key_id q, kq_proposed_key_version q) db2 of (advanced, db3) \<Rightarrow>
       if advanced \<noteq> 1 then Inl (Some (Rotation_Refusal STALE_ROTATION)) else
      (case setRotationRequestState organisationId (ro_id (lr_row l)) (ro_state (lr_row l)) ROTATION_STATE_ROTATED db3 of
         (stateAdvanced, db4) \<Rightarrow>
       if stateAdvanced \<noteq> 1 then Inl (Some ROTATION_STATE_INVALID) else
       Inr (recordEvent \<lparr>et_organisationId = organisationId, et_deviceId = dv_id d,
         et_actorUserId = Some (pr_user_id p), et_event = KEY_ROTATED (ro_id (lr_row l)) fingerprint (dk_keyId k)
           (dk_keyVersion k) (kq_proposed_key_id q) (kq_proposed_key_version q) (kq_new_public_key_thumbprint q)
           (ro_newKeyStorage (lr_row l)) SERVER_SELECTED_SIGNATURE_PROFILE,
         et_occurredAt = now, et_traceId = traceId\<rparr> db4)))))"

datatype rotation_outcome = Rotated string int | Converged string string int key_state

text \<open>
  \<open>commitKeyRotation\<close>. The replay row the transaction inserts is undone with it where the gate refuses;
  the conflict event is written after the abort. \<open>None\<close> is a thrown error that is no refusal.
\<close>

definition commitKeyRotation :: "platform \<Rightarrow> crypto \<Rightarrow> (int \<Rightarrow> string) \<Rightarrow> principal \<Rightarrow> string \<Rightarrow> string \<Rightarrow> string \<Rightarrow>
    request_proof option \<Rightarrow> string \<Rightarrow> string \<Rightarrow> int \<Rightarrow> shield_db \<Rightarrow> (shield_refusal + rotation_outcome) option \<times> shield_db" where
  "commitKeyRotation pl cr iso_string p organisationId rotationRequestId challengeId proof candidateKeyRowId traceId now db =
     (case lockRotationState pl cr iso_string organisationId rotationRequestId challengeId db of
        Inl r \<Rightarrow> (Some (Inl r), db)
      | Inr l \<Rightarrow>
        if rotation_authority p organisationId (dv_id (lr_device l)) db \<noteq> None
          then (Some (Inl ROTATION_REQUEST_NOT_FOUND), db)
        else
        let fingerprint = deviceKeyRotationRequestFingerprint pl (lr_request l);
            replayKey = deviceKeyRotationReplayKey (lr_request l) (lr_challenge l);
            gate = (case consume pl organisationId replayKey fingerprint candidateKeyRowId (sd_replay db) of
              (consumption, replay') \<Rightarrow>
              (case evaluateDeviceKeyRotation pl \<lparr>kd_request = lr_request l, kd_challenge = lr_challenge l,
                  kd_possessionVerification = Some (lr_verification l),
                  kd_continuity = verifyContinuityProof pl cr proof l,
                  kd_newKeyRuntimeValid = isRuntimeValidPublicKey cr (ro_newPublicKey (lr_row l)),
                  kd_registered = registered_facts l, kd_consumption = consumption_json consumption,
                  kd_now = iso_string now\<rparr> of
                Rotation_Refused r \<Rightarrow> (Some (Inl (Rotation_Refusal r)),
                  if r \<in> {ROTATION_REUSED_WITH_CHANGED_SEMANTICS, ROTATION_CONSUMPTION_INCONSISTENT, ROTATION_CONSUMPTION_MISBOUND}
                  then recordEvent \<lparr>et_organisationId = organisationId, et_deviceId = dv_id (lr_device l),
                    et_actorUserId = Some (pr_user_id p), et_event = REPLAY_CONFLICT (sha pl replayKey) fingerprint r,
                    et_occurredAt = now, et_traceId = traceId\<rparr> db else db)
              | Rotation_Converge f ref \<Rightarrow> (Some (Inl ROTATION_OUTCOME_UNRESOLVABLE), db)
              | Rotate f v w \<Rightarrow>
                (case rotate_effect p organisationId traceId candidateKeyRowId fingerprint now l (db\<lparr>sd_replay := replay'\<rparr>) of
                   Inl None \<Rightarrow> (None, db)
                 | Inl (Some r) \<Rightarrow> (Some (Inl r), db)
                 | Inr db' \<Rightarrow> (Some (Inr (Rotated (kq_proposed_key_id (lr_request l)) (kq_proposed_key_version (lr_request l)))), db'))))
        in case peek pl organisationId replayKey (sd_replay db) of
             Some (statementFingerprint, Some storedOutcomeRef) \<Rightarrow>
               if statementFingerprint = fingerprint then
                 (case resolveCommittedRotation pl l storedOutcomeRef db of
                    None \<Rightarrow> (Some (Inl ROTATION_OUTCOME_UNRESOLVABLE), db)
                  | Some key \<Rightarrow> (Some (Inr (Converged storedOutcomeRef (dk_keyId key) (dk_keyVersion key) (dk_status key))), db))
               else gate
           | _ \<Rightarrow> gate)"

end
