(* ===== verification/Shield_Reads.thy ===== *)
theory Shield_Reads
  imports Shield_Rotation
begin

text \<open>
  The read surface of the registry (services/core-api/src/modules/shield/device-registry.service.ts):
  what may be done with a credential, what a device may be used for now, and what a reader is told.
\<close>

definition deviceLevelWithdrawn :: "device_row \<Rightarrow> bool" where
  "deviceLevelWithdrawn d \<longleftrightarrow> dv_revokedAt d \<noteq> None \<or> dv_trust d = TRUST_COMPROMISED"

definition keyLevelWithdrawn :: "key_row option \<Rightarrow> bool" where
  "keyLevelWithdrawn key = (case key of None \<Rightarrow> True
     | Some k \<Rightarrow> if dk_revokedAt k \<noteq> None then True else \<not> deviceKeyStatePermitsNewOperations (dk_status k))"

definition credentialAdmitsNewOperations :: "string \<Rightarrow> string \<Rightarrow> shield_db \<Rightarrow> bool" where
  "credentialAdmitsNewOperations organisationId deviceId db =
     (case findDevice organisationId deviceId db of None \<Rightarrow> False
      | Some d \<Rightarrow> \<not> deviceLevelWithdrawn d \<and> \<not> keyLevelWithdrawn (currentKey d db))"

definition credentialWithdrawal :: "string \<Rightarrow> string \<Rightarrow> shield_db \<Rightarrow> (bool \<times> bool) option" where
  "credentialWithdrawal organisationId deviceId db =
     (case findDevice organisationId deviceId db of None \<Rightarrow> None
      | Some d \<Rightarrow> Some (deviceLevelWithdrawn d, keyLevelWithdrawn (currentKey d db)))"

definition effectiveDeviceStanding :: "platform \<Rightarrow> (int \<Rightarrow> string) \<Rightarrow> int \<Rightarrow> device_row \<Rightarrow> shield_db \<Rightarrow> device_trust" where
  "effectiveDeviceStanding pl iso_string now d db =
     (if dv_trust d \<noteq> TRUST_TRUSTED then dv_trust d
      else effectiveDeviceTrust (dv_trust d) (resolveAttestationStanding pl iso_string
        (readAttestationEvidence (dv_organisationId d) (dv_id d) now db)))"

definition deviceMayAct :: "platform \<Rightarrow> (int \<Rightarrow> string) \<Rightarrow> string \<Rightarrow> string \<Rightarrow> request_purpose \<Rightarrow> int \<Rightarrow> shield_db \<Rightarrow> bool" where
  "deviceMayAct pl iso_string organisationId deviceId purpose now db =
     (case findDevice organisationId deviceId db of None \<Rightarrow> False
      | Some d \<Rightarrow> if deviceLevelWithdrawn d \<or> keyLevelWithdrawn (currentKey d db) then False
          else deviceTrustPermitsPurpose (effectiveDeviceStanding pl iso_string now d db) purpose)"

record device_standing =
  st_deviceId :: string
  st_organisationId :: string
  st_custody :: custody
  st_trust :: device_trust
  st_persistedTrust :: device_trust
  st_revocationDisposition :: "disposition option"
  st_revokedAt :: "int option"
  st_sequenceNamespaceId :: string
  st_currentKeyId :: "string option"
  st_currentKeyVersion :: "int option"
  st_currentKeyStatus :: "key_state option"
  st_currentKeyStorage :: "key_storage option"
  st_currentKeyRevokedAt :: "int option"
  st_siteIds :: "string list"
  st_deviceLevelWithdrawn :: bool
  st_keyLevelWithdrawn :: bool
  st_credentialAdmitsNewOperations :: bool

definition buildStanding :: "platform \<Rightarrow> (int \<Rightarrow> string) \<Rightarrow> int \<Rightarrow> device_row \<Rightarrow> string list \<Rightarrow> shield_db \<Rightarrow> device_standing" where
  "buildStanding pl iso_string now d sites db = (let key = currentKey d db in
     \<lparr>st_deviceId = dv_id d, st_organisationId = dv_organisationId d, st_custody = dv_custody d,
      st_trust = effectiveDeviceStanding pl iso_string now d db, st_persistedTrust = dv_trust d,
      st_revocationDisposition = dv_revocationDisposition d, st_revokedAt = dv_revokedAt d,
      st_sequenceNamespaceId = dv_sequenceNamespaceId d, st_currentKeyId = dv_currentKeyId d,
      st_currentKeyVersion = dv_currentKeyVersion d, st_currentKeyStatus = map_option dk_status key,
      st_currentKeyStorage = map_option dk_keyStorage key,
      st_currentKeyRevokedAt = (case key of None \<Rightarrow> None | Some k \<Rightarrow> dk_revokedAt k), st_siteIds = sites,
      st_deviceLevelWithdrawn = deviceLevelWithdrawn d, st_keyLevelWithdrawn = keyLevelWithdrawn key,
      st_credentialAdmitsNewOperations = (\<not> deviceLevelWithdrawn d \<and> \<not> keyLevelWithdrawn key)\<rparr>)"

definition readDeviceStanding :: "platform \<Rightarrow> (int \<Rightarrow> string) \<Rightarrow> principal \<Rightarrow> string \<Rightarrow> string \<Rightarrow> int \<Rightarrow> shield_db \<Rightarrow>
    shield_refusal + device_standing" where
  "readDeviceStanding pl iso_string p organisationId deviceId now db =
     (if checkDeviceAuthority p ''device.registry.read'' organisationId None \<noteq> None then Inl DEVICE_NOT_FOUND
      else case findDevice organisationId deviceId db of None \<Rightarrow> Inl DEVICE_NOT_FOUND
       | Some d \<Rightarrow> (case projectReadableDeviceSites p ''device.registry.read'' organisationId
             (listDeviceSiteIds organisationId (dv_id d) db) of
           None \<Rightarrow> Inl DEVICE_NOT_FOUND
         | Some visible \<Rightarrow> Inr (buildStanding pl iso_string now d visible db)))"

text \<open>The registry key record another module verifies with, where the row satisfies its schema.\<close>

definition record_of_key :: "(int \<Rightarrow> string) \<Rightarrow> key_row \<Rightarrow> registry_key" where
  "record_of_key iso_string k = \<lparr>rk_schema_version = 1, rk_organisation_id = dk_organisationId k,
     rk_device_id = dk_deviceId k, rk_key_id = dk_keyId k, rk_key_version = dk_keyVersion k,
     rk_public_key = dk_publicKey k, rk_public_key_thumbprint = dk_publicKeyThumbprint k,
     rk_signature_profile = dk_signatureProfile k, rk_key_storage = dk_keyStorage k, rk_status = dk_status k,
     rk_registered_at = iso_string (dk_registeredAt k), rk_rotated_at = map_option iso_string (dk_rotatedAt k),
     rk_revoked_at = map_option iso_string (dk_revokedAt k),
     rk_revocation_disposition = dk_revocationDisposition k\<rparr>"

definition resolveRegistryKeyRecord :: "platform \<Rightarrow> crypto \<Rightarrow> (int \<Rightarrow> string) \<Rightarrow> string \<Rightarrow> string \<Rightarrow> shield_db \<Rightarrow> registry_key option" where
  "resolveRegistryKeyRecord pl cr iso_string organisationId keyId db =
     (case findDeviceKeyByKeyId organisationId keyId db of None \<Rightarrow> None
      | Some k \<Rightarrow> if registry_key_ok pl (cr_sha_bytes cr) (record_of_key iso_string k)
          then Some (record_of_key iso_string k) else None)"

end
