(* ===== verification/Shield_Runs.thy ===== *)
theory Shield_Runs
  imports Shield_Reads
begin

text \<open>
  The registry as a machine: any number of calls of its services, each cut between the reads it makes
  and the transaction that follows, enrolments and rotation commits, and a step that stands for the rest of
  the enrolment ceremony: it may set the states of its requests and the replay rows at will, and add
  observations that name no device. The invariant says
  what the tables look like in every reachable state; the order, what is never taken back.
\<close>

subsection \<open>Calls and steps\<close>

text \<open>What a call has read and waits to write.\<close>

datatype pending =
    Observing device_row key_row
  | Changing principal string device_row device_trust string
  | Declaring principal string device_row key_row disposition string
  | Proposing string device_row key_row string key_storage
  | Challenging string rotation_row
  | Answering string rotation_row rotation_challenge_row bool

datatype shield_call =
    Observe string string
  | Change principal string string device_trust string
  | Declare principal string string disposition string
  | Propose principal string string string key_storage
  | Challenge principal string string
  | Answer string string string possession_response

text \<open>What the second half takes from outside: clock, generated values, the evaluator's answer.\<close>

record supplies =
  su_now :: int
  su_traceId :: string
  su_row_id :: string
  su_key_id :: string
  su_nonce :: string
  su_evidence :: attestation_evidence

datatype shield_act =
    Begin shield_call
  | Finish nat supplies
  | Enroll commit_context int
  | Commit_Rotation principal string string string "request_proof option" string string int
  | Ceremony "ceremony_row list" "observation_row list" replay_rows

record shield_system =
  sh_db :: shield_db
  sh_pending :: "pending list"

fun begin_call :: "platform \<Rightarrow> crypto \<Rightarrow> shield_db \<Rightarrow> shield_call \<Rightarrow> pending option" where
  "begin_call pl cr db (Observe org dev) = (case recordAttestationObservation_read org dev db of
     Inl _ \<Rightarrow> None | Inr (d, k) \<Rightarrow> Some (Observing d k))"
| "begin_call pl cr db (Change p org dev to reason) = (case changeDeviceTrust_read p org dev db of
     Inl _ \<Rightarrow> None | Inr d \<Rightarrow> Some (Changing p org d to reason))"
| "begin_call pl cr db (Declare p org dev disp reason) = (case declareDisposition_read p org dev disp db of
     Inl _ \<Rightarrow> None | Inr (d, k) \<Rightarrow> Some (Declaring p org d k disp reason))"
| "begin_call pl cr db (Propose p org dev newPublicKey storage) =
     (case requestKeyRotation_read cr p org dev newPublicKey db of
        Inl _ \<Rightarrow> None | Inr (d, k) \<Rightarrow> Some (Proposing org d k newPublicKey storage))"
| "begin_call pl cr db (Challenge p org req) = (case issueRotationChallenge_read p org req db of
     Inl _ \<Rightarrow> None | Inr r \<Rightarrow> Some (Challenging org r))"
| "begin_call pl cr db (Answer org req ch response) =
     (case verifyRotationPossession_read pl cr org req ch response db of
        Inl _ \<Rightarrow> None | Inr (r, c, v) \<Rightarrow> Some (Answering org r c v))"

fun finish_call :: "platform \<Rightarrow> crypto \<Rightarrow> (int \<Rightarrow> string) \<Rightarrow> supplies \<Rightarrow> pending \<Rightarrow> shield_db \<Rightarrow> shield_db" where
  "finish_call pl cr iso_string u (Observing d k) db =
     snd (recordAttestationObservation_tx pl iso_string d k (su_evidence u) (su_traceId u) (su_now u) db)"
| "finish_call pl cr iso_string u (Changing p org d to reason) db =
     snd (changeDeviceTrust_tx pl iso_string p org d to reason (su_traceId u) (su_now u) db)"
| "finish_call pl cr iso_string u (Declaring p org d k disp reason) db =
     snd (declareDisposition_tx pl iso_string p org d k disp reason (su_traceId u) (su_now u) db)"
| "finish_call pl cr iso_string u (Proposing org d k newPublicKey storage) db =
     snd (requestKeyRotation_create pl cr iso_string org d k \<lparr>pp_newPublicKey = newPublicKey,
       pp_newKeyStorage = storage, pp_rotationRequestId = su_row_id u, pp_proposedKeyId = su_key_id u,
       pp_requestedAt = su_now u\<rparr> db)"
| "finish_call pl cr iso_string u (Challenging org r) db =
     snd (issueRotationChallenge_tx org r (su_row_id u) (su_nonce u) (su_now u) db)"
| "finish_call pl cr iso_string u (Answering org r c v) db =
     snd (verifyRotationPossession_tx pl org r c v (su_row_id u) (su_now u) db)"

fun shield_step :: "platform \<Rightarrow> crypto \<Rightarrow> (int \<Rightarrow> string) \<Rightarrow> shield_act \<Rightarrow> shield_system \<Rightarrow> shield_system" where
  "shield_step pl cr iso_string (Begin call) s = (case begin_call pl cr (sh_db s) call of
     None \<Rightarrow> s | Some w \<Rightarrow> s\<lparr>sh_pending := sh_pending s @ [w]\<rparr>)"
| "shield_step pl cr iso_string (Finish n u) s = (if n < length (sh_pending s)
     then s\<lparr>sh_db := finish_call pl cr iso_string u (sh_pending s ! n) (sh_db s),
            sh_pending := take n (sh_pending s) @ drop (Suc n) (sh_pending s)\<rparr> else s)"
| "shield_step pl cr iso_string (Enroll c now) s = (case performCommit pl iso_string c now (sh_db s) of
     None \<Rightarrow> s | Some db \<Rightarrow> s\<lparr>sh_db := db\<rparr>)"
| "shield_step pl cr iso_string (Commit_Rotation p org req ch proof row trace now) s =
     s\<lparr>sh_db := snd (commitKeyRotation pl cr iso_string p org req ch proof row trace now (sh_db s))\<rparr>"
| "shield_step pl cr iso_string (Ceremony rows os replay) s = s\<lparr>sh_db := (sh_db s)\<lparr>sd_enrollments := rows,
     sd_observations := sd_observations (sh_db s) @ filter (\<lambda>r. ob_deviceId r = None) os, sd_replay := replay\<rparr>\<rparr>"

definition shield_run :: "platform \<Rightarrow> crypto \<Rightarrow> (int \<Rightarrow> string) \<Rightarrow> shield_act list \<Rightarrow> shield_system" where
  "shield_run pl cr iso_string acts =
     fold (shield_step pl cr iso_string) acts \<lparr>sh_db = empty_shield, sh_pending = []\<rparr>"

subsection \<open>The invariant\<close>

definition history :: "device_row \<Rightarrow> shield_db \<Rightarrow> transition_row list" where
  "history d db = filter (\<lambda>t. tn_organisationId t = dv_organisationId d \<and> tn_deviceId t = dv_id d) (sd_transitions db)"

text \<open>Each transition starts where the one before it ended, along an edge of the matrix.\<close>

fun chained :: "device_trust option \<Rightarrow> transition_row list \<Rightarrow> bool" where
  "chained p [] \<longleftrightarrow> True"
| "chained p (t # ts) \<longleftrightarrow> tn_previousTrust t = p
     \<and> (case p of None \<Rightarrow> True | Some x \<Rightarrow> tn_newTrust t \<in> set (ALLOWED_DEVICE_TRUST_TRANSITIONS x))
     \<and> chained (Some (tn_newTrust t)) ts"

definition trail_ok :: "device_row \<Rightarrow> shield_db \<Rightarrow> bool" where
  "trail_ok d db \<longleftrightarrow> history d db \<noteq> [] \<and> chained None (history d db)
     \<and> tn_newTrust (last (history d db)) = dv_trust d"

definition keys_of :: "device_row \<Rightarrow> shield_db \<Rightarrow> key_row list" where
  "keys_of d db = filter (\<lambda>k. dk_organisationId k = dv_organisationId d \<and> dk_deviceId k = dv_id d) (sd_keys db)"

definition withdrawn :: "key_row \<Rightarrow> bool" where
  "withdrawn k \<longleftrightarrow> dk_status k = REVOKED \<or> dk_status k = COMPROMISED"

definition dated :: "key_row \<Rightarrow> bool" where
  "dated k \<longleftrightarrow> (dk_rotatedAt k \<noteq> None \<longleftrightarrow> dk_status k = ROTATED) \<and> (dk_revokedAt k \<noteq> None \<longleftrightarrow> withdrawn k)"

text \<open>The keys of a device in order of version: all rotated but the last, which is the current one.\<close>

definition keys_ok :: "device_row \<Rightarrow> shield_db \<Rightarrow> bool" where
  "keys_ok d db \<longleftrightarrow> (let ks = keys_of d db in ks \<noteq> [] \<and> list_all (\<lambda>k. dk_status k = ROTATED) (butlast ks)
     \<and> dk_status (last ks) \<noteq> ROTATED \<and> list_all dated ks
     \<and> dv_currentKeyId d = Some (dk_keyId (last ks)) \<and> dv_currentKeyVersion d = Some (dk_keyVersion (last ks))
     \<and> map dk_keyVersion ks = map int [1..<Suc (length ks)]
     \<and> (withdrawn (last ks) \<longrightarrow> dv_trust d \<notin> set DEVICE_TRUST_UPWARD_TARGETS))"

text \<open>Every key after the first came from the one proposal for its version.\<close>

definition proposed_key :: "rotation_row \<Rightarrow> key_row \<Rightarrow> bool" where
  "proposed_key r k \<longleftrightarrow> ro_organisationId r = dk_organisationId k \<and> ro_deviceId r = dk_deviceId k
     \<and> ro_proposedKeyVersion r = dk_keyVersion k \<and> ro_newPublicKey r = dk_publicKey k
     \<and> ro_newKeyStorage r = dk_keyStorage k"

definition provenance :: "key_row \<Rightarrow> shield_db \<Rightarrow> bool" where
  "provenance k db \<longleftrightarrow> dk_keyVersion k = 1 \<or> (\<exists>r\<in>set (sd_rotations db). proposed_key r k)"

definition shield_ok :: "shield_db \<Rightarrow> bool" where
  "shield_ok db \<longleftrightarrow> distinct (map dv_id (sd_devices db))
     \<and> distinct (map (\<lambda>k. (dk_organisationId k, dk_keyId k)) (sd_keys db))
     \<and> distinct (map (\<lambda>r. (ro_organisationId r, ro_deviceId r, ro_proposedKeyVersion r)) (sd_rotations db))
     \<and> (\<forall>k\<in>set (sd_keys db). dk_deviceId k \<in> dv_id ` set (sd_devices db))
     \<and> (\<forall>t\<in>set (sd_transitions db). tn_deviceId t \<in> dv_id ` set (sd_devices db))
     \<and> (\<forall>k\<in>set (sd_keys db). provenance k db)
     \<and> (\<forall>d\<in>set (sd_devices db). trail_ok d db \<and> keys_ok d db)"

text \<open>A snapshot names a device that exists and a key of that device which was its current one.\<close>

definition same_device :: "device_row \<Rightarrow> device_row \<Rightarrow> bool" where
  "same_device d e \<longleftrightarrow> dv_id d = dv_id e \<and> dv_organisationId d = dv_organisationId e"

definition same_key :: "key_row \<Rightarrow> key_row \<Rightarrow> bool" where
  "same_key k l \<longleftrightarrow> dk_organisationId k = dk_organisationId l \<and> dk_keyId k = dk_keyId l
     \<and> dk_deviceId k = dk_deviceId l \<and> dk_keyVersion k = dk_keyVersion l"

definition known_device :: "device_row \<Rightarrow> shield_db \<Rightarrow> bool" where
  "known_device d db \<longleftrightarrow> (\<exists>e\<in>set (sd_devices db). same_device d e)"

definition known_key :: "device_row \<Rightarrow> key_row \<Rightarrow> shield_db \<Rightarrow> bool" where
  "known_key d k db \<longleftrightarrow> dk_organisationId k = dv_organisationId d \<and> dk_deviceId k = dv_id d \<and> dk_status k \<noteq> ROTATED
     \<and> (\<exists>l\<in>set (sd_keys db). same_key k l)"

fun pending_ok :: "shield_db \<Rightarrow> pending \<Rightarrow> bool" where
  "pending_ok db (Observing d k) \<longleftrightarrow> known_device d db \<and> known_key d k db"
| "pending_ok db (Changing p org d to reason) \<longleftrightarrow> known_device d db \<and> dv_organisationId d = org"
| "pending_ok db (Declaring p org d k disp reason) \<longleftrightarrow> known_device d db \<and> dv_organisationId d = org \<and> known_key d k db
     \<and> (case disposition_key_target disp of None \<Rightarrow> True | Some t \<Rightarrow> canTransitionDeviceKeyLifecycle (dk_status k) t)"
| "pending_ok db (Proposing org d k pk st) \<longleftrightarrow> dv_organisationId d = org \<and> known_key d k db"
| "pending_ok db (Challenging org r) \<longleftrightarrow> ro_organisationId r = org"
| "pending_ok db (Answering org r c v) \<longleftrightarrow> True"

definition shield_system_ok :: "shield_system \<Rightarrow> bool" where
  "shield_system_ok s \<longleftrightarrow> shield_ok (sh_db s) \<and> (\<forall>w\<in>set (sh_pending s). pending_ok (sh_db s) w)"

subsection \<open>The order\<close>

definition key_before :: "key_row \<Rightarrow> key_row \<Rightarrow> bool" where
  "key_before k l \<longleftrightarrow> same_key k l \<and> dk_id k = dk_id l \<and> dk_publicKey k = dk_publicKey l
     \<and> dk_keyStorage k = dk_keyStorage l
     \<and> (dk_status k = dk_status l \<or> canTransitionDeviceKeyLifecycle (dk_status k) (dk_status l))"

definition proposal_before :: "rotation_row \<Rightarrow> rotation_row \<Rightarrow> bool" where
  "proposal_before r q \<longleftrightarrow> r\<lparr>ro_state := ro_state q\<rparr> = q"

definition shield_before :: "shield_db \<Rightarrow> shield_db \<Rightarrow> bool" where
  "shield_before a b \<longleftrightarrow> (\<exists>ts. sd_transitions b = sd_transitions a @ ts) \<and> (\<exists>os. sd_observations b = sd_observations a @ os)
     \<and> (\<exists>es. sd_events b = sd_events a @ es)
     \<and> (\<forall>d\<in>set (sd_devices a). known_device d b)
     \<and> (\<forall>k\<in>set (sd_keys a). \<exists>l\<in>set (sd_keys b). key_before k l)
     \<and> (\<forall>r\<in>set (sd_rotations a). \<exists>q\<in>set (sd_rotations b). proposal_before r q)"

subsection \<open>The order is a preorder that keeps what a call has read\<close>

lemma key_order_trans: "a = b \<or> canTransitionDeviceKeyLifecycle a b \<Longrightarrow> b = c \<or> canTransitionDeviceKeyLifecycle b c
    \<Longrightarrow> a = c \<or> canTransitionDeviceKeyLifecycle a c"
  by (cases a; cases b; cases c) (simp_all add: canTransitionDeviceKeyLifecycle_def ALLOWED_DEVICE_KEY_LIFECYCLE_TRANSITIONS_def)

lemma key_before_refl [simp]: "key_before k k"
  by (simp add: key_before_def same_key_def)

lemma key_before_trans: "key_before k l \<Longrightarrow> key_before l m \<Longrightarrow> key_before k m"
  using key_order_trans[of "dk_status k" "dk_status l" "dk_status m"] by (auto simp: key_before_def same_key_def)

lemma proposal_before_refl [simp]: "proposal_before r r"
  by (simp add: proposal_before_def)

lemma proposal_before_trans: "proposal_before r q \<Longrightarrow> proposal_before q p \<Longrightarrow> proposal_before r p"
  by (cases r; cases q; cases p) (simp add: proposal_before_def)

lemma kept [intro]:
  "k \<in> K \<Longrightarrow> \<exists>l\<in>K. key_before k l" "r \<in> R \<Longrightarrow> \<exists>q\<in>R. proposal_before r q" "d \<in> D \<Longrightarrow> \<exists>e\<in>D. same_device d e"
  by (auto simp: same_device_def intro: bexI[where x = k] bexI[where x = r] bexI[where x = d])

lemma known_device_here: "d \<in> set (sd_devices db) \<Longrightarrow> known_device d db"
  by (auto simp: known_device_def same_device_def)

lemma known_map: "sd_devices b = map g (sd_devices a) \<Longrightarrow> d \<in> set (sd_devices a) \<Longrightarrow> same_device d (g d) \<Longrightarrow> known_device d b"
  by (auto simp: known_device_def)

lemma shield_before_refl [simp]: "shield_before a a"
  unfolding shield_before_def known_device_def by auto

lemma known_device_before: "known_device d a \<Longrightarrow> shield_before a b \<Longrightarrow> known_device d b"
  by (fastforce simp: known_device_def shield_before_def same_device_def)

lemma shield_before_trans:
  assumes "shield_before a b" "shield_before b c"
  shows "shield_before a c"
  unfolding shield_before_def
proof (intro conjI ballI)
  show "\<exists>ts. sd_transitions c = sd_transitions a @ ts" "\<exists>os. sd_observations c = sd_observations a @ os"
      "\<exists>es. sd_events c = sd_events a @ es"
    using assms by (auto simp: shield_before_def)
  show "known_device d c" if "d \<in> set (sd_devices a)" for d
    using known_device_before[OF known_device_before[OF known_device_here[OF that] assms(1)] assms(2)] .
  show "\<exists>l\<in>set (sd_keys c). key_before k l" if "k \<in> set (sd_keys a)" for k
    using assms that unfolding shield_before_def by (meson key_before_trans)
  show "\<exists>q\<in>set (sd_rotations c). proposal_before r q" if "r \<in> set (sd_rotations a)" for r
    using assms that unfolding shield_before_def by (meson proposal_before_trans)
qed

lemma same_key_before: "same_key k l \<Longrightarrow> key_before l m \<Longrightarrow> same_key k m"
  by (simp add: same_key_def key_before_def)

lemma known_key_before: "known_key d k a \<Longrightarrow> shield_before a b \<Longrightarrow> known_key d k b"
  unfolding known_key_def shield_before_def by (meson same_key_before)

lemma pending_ok_before: "pending_ok a w \<Longrightarrow> shield_before a b \<Longrightarrow> pending_ok b w"
  by (cases w) (auto intro: known_device_before known_key_before)

lemma before_same:
  "sd_transitions b = sd_transitions a \<Longrightarrow> sd_observations b = sd_observations a @ os \<Longrightarrow> sd_events b = sd_events a @ es
     \<Longrightarrow> sd_devices b = sd_devices a \<Longrightarrow> sd_keys b = sd_keys a \<Longrightarrow> sd_rotations b = sd_rotations a \<Longrightarrow> shield_before a b"
  using shield_before_refl[of a] unfolding shield_before_def known_device_def by simp

lemma ok_same:
  "sd_transitions b = sd_transitions a \<Longrightarrow> sd_devices b = sd_devices a \<Longrightarrow> sd_keys b = sd_keys a
     \<Longrightarrow> sd_rotations b = sd_rotations a \<Longrightarrow> shield_ok a \<Longrightarrow> shield_ok b"
  by (simp add: shield_ok_def trail_ok_def keys_ok_def history_def keys_of_def provenance_def)

text \<open>What every write of the machine does: it keeps the invariant and moves forward.\<close>

definition advances :: "shield_db \<Rightarrow> shield_db \<Rightarrow> bool" where
  "advances a b \<longleftrightarrow> shield_ok b \<and> shield_before a b"

lemma advances_refl: "shield_ok a \<Longrightarrow> advances a a"
  by (simp add: advances_def)

lemma advances_trans: "advances a b \<Longrightarrow> advances b c \<Longrightarrow> advances a c"
  by (auto simp: advances_def intro: shield_before_trans)

lemma advances_same:
  "shield_ok a \<Longrightarrow> sd_transitions b = sd_transitions a \<Longrightarrow> sd_observations b = sd_observations a @ os
     \<Longrightarrow> sd_events b = sd_events a @ es \<Longrightarrow> sd_devices b = sd_devices a \<Longrightarrow> sd_keys b = sd_keys a
     \<Longrightarrow> sd_rotations b = sd_rotations a \<Longrightarrow> advances a b"
  by (simp add: advances_def ok_same[of b a] before_same[of b a])

lemma advances_event: "shield_ok a \<Longrightarrow> advances a (recordEvent e a)"
  by (rule advances_same[of _ _ "[]" "[e]"]) (simp_all add: recordEvent_def)

lemma advances_observation: "shield_ok a \<Longrightarrow> appendAttestationObservation r a = Some b \<Longrightarrow> advances a b"
  by (rule advances_same[of _ _ "[r]" "[]"]) (auto simp: appendAttestationObservation_def split: if_splits)

subsection \<open>Tables with distinct keys\<close>

lemma device_unique: "shield_ok db \<Longrightarrow> d \<in> set (sd_devices db) \<Longrightarrow> e \<in> set (sd_devices db) \<Longrightarrow> dv_id d = dv_id e \<Longrightarrow> d = e"
  by (auto simp: shield_ok_def distinct_map inj_on_def)

lemma key_unique: "shield_ok db \<Longrightarrow> k \<in> set (sd_keys db) \<Longrightarrow> l \<in> set (sd_keys db)
    \<Longrightarrow> dk_organisationId k = dk_organisationId l \<Longrightarrow> dk_keyId k = dk_keyId l \<Longrightarrow> k = l"
  by (auto simp: shield_ok_def distinct_map inj_on_def)

lemma findDevice_Some: "findDevice org dev db = Some d \<Longrightarrow> d \<in> set (sd_devices db) \<and> dv_id d = dev \<and> dv_organisationId d = org"
  unfolding findDevice_def using find_SomeD[of "is_device org dev" "sd_devices db" d] by (simp add: is_device_def)

lemma findKey_Some: "findDeviceKeyByKeyId org kid db = Some k \<Longrightarrow> k \<in> set (sd_keys db) \<and> dk_keyId k = kid \<and> dk_organisationId k = org"
  unfolding findDeviceKeyByKeyId_def using find_SomeD[of "is_key org kid" "sd_keys db" k] by (simp add: is_key_def)

lemma findDevice_here: "shield_ok db \<Longrightarrow> d \<in> set (sd_devices db) \<Longrightarrow> findDevice (dv_organisationId d) (dv_id d) db = Some d"
  unfolding findDevice_def by (rule find_unique) (auto simp: is_device_def dest: device_unique)

lemma findKey_here: "shield_ok db \<Longrightarrow> k \<in> set (sd_keys db) \<Longrightarrow> findDeviceKeyByKeyId (dk_organisationId k) (dk_keyId k) db = Some k"
  unfolding findDeviceKeyByKeyId_def by (rule find_unique) (auto simp: is_key_def dest: key_unique)

lemma in_keys_of: "k \<in> set (keys_of d db) \<longleftrightarrow> k \<in> set (sd_keys db) \<and> dk_organisationId k = dv_organisationId d \<and> dk_deviceId k = dv_id d"
  by (auto simp: keys_of_def)

text \<open>The current key of a device is the last of its keys, the only one that is not rotated.\<close>

lemma current_is_last:
  assumes "shield_ok db" "d \<in> set (sd_devices db)"
  shows "currentKey d db = Some (last (keys_of d db)) \<and> last (keys_of d db) \<in> set (keys_of d db)"
proof -
  have ks: "keys_of d db \<noteq> []" "dv_currentKeyId d = Some (dk_keyId (last (keys_of d db)))"
    using assms by (auto simp: shield_ok_def keys_ok_def Let_def)
  let ?k = "last (keys_of d db)"
  have k: "?k \<in> set (keys_of d db)" using ks(1) by simp
  then have "findDeviceKeyByKeyId (dv_organisationId d) (dk_keyId ?k) db = Some ?k"
    using findKey_here[OF assms(1), of ?k] by (simp add: in_keys_of)
  then show ?thesis using k ks(2) by (simp add: currentKey_def)
qed

lemma not_rotated_is_last:
  assumes "shield_ok db" "d \<in> set (sd_devices db)" "k \<in> set (keys_of d db)" "dk_status k \<noteq> ROTATED"
  shows "k = last (keys_of d db)"
proof -
  have "keys_of d db \<noteq> []" "\<forall>x\<in>set (butlast (keys_of d db)). dk_status x = ROTATED"
    using assms(1,2) by (auto simp: shield_ok_def keys_ok_def Let_def list_all_iff)
  then show ?thesis using assms(3,4) in_set_butlastD
    by (metis append_butlast_last_id in_set_conv_decomp_last rotate1.simps(2) set_ConsD set_rotate1)
qed

subsection \<open>Writes to one device\<close>

lemma keys_of_same: "same_device d e \<Longrightarrow> sd_keys a = sd_keys b \<Longrightarrow> keys_of d a = keys_of e b"
  by (simp add: keys_of_def same_device_def)

lemma history_append: "sd_transitions b = sd_transitions a @ ts \<Longrightarrow> same_device d e \<Longrightarrow>
    history e b = history d a @ filter (\<lambda>t. tn_organisationId t = dv_organisationId d \<and> tn_deviceId t = dv_id d) ts"
  by (simp add: history_def same_device_def)

lemma chained_append:
  "chained p (ts @ [t]) \<longleftrightarrow> chained p ts \<and> tn_previousTrust t = (if ts = [] then p else Some (tn_newTrust (last ts)))
     \<and> (case (if ts = [] then p else Some (tn_newTrust (last ts))) of None \<Rightarrow> True
        | Some x \<Rightarrow> tn_newTrust t \<in> set (ALLOWED_DEVICE_TRUST_TRANSITIONS x))"
  by (induction p ts rule: chained.induct) auto

lemma provenance_same: "sd_rotations b = sd_rotations a \<Longrightarrow> provenance k b = provenance k a"
  by (simp add: provenance_def)

lemma advances_device:
  assumes ok: "shield_ok a" and e: "e \<in> set (sd_devices a)" "same_device e e'"
    and b: "sd_devices b = map (\<lambda>d. if d = e then e' else d) (sd_devices a)" "sd_keys b = sd_keys a"
      "sd_rotations b = sd_rotations a" "sd_transitions b = sd_transitions a @ ts"
      "sd_observations b = sd_observations a" "sd_events b = sd_events a"
    and ts: "\<forall>t\<in>set ts. tn_deviceId t = dv_id e" and e': "trail_ok e' b" "keys_ok e' b"
  shows "advances a b"
proof -
  have ids: "map dv_id (sd_devices b) = map dv_id (sd_devices a)"
    using e(2) by (simp add: b(1) same_device_def)
  then have ids': "dv_id ` set (sd_devices b) = dv_id ` set (sd_devices a)" by (metis list.set_map)
  have other: "trail_ok d b \<and> keys_ok d b" if "d \<in> set (sd_devices a)" "d \<noteq> e" for d
  proof -
    have "dv_id d \<noteq> dv_id e" using device_unique[OF ok that(1) e(1)] that(2) by auto
    then have "filter (\<lambda>t. tn_organisationId t = dv_organisationId d \<and> tn_deviceId t = dv_id d) ts = []"
      using ts by (auto simp: filter_empty_conv)
    then have "history d b = history d a" using history_append[OF b(4), of d d] by (simp add: same_device_def)
    moreover have "keys_of d b = keys_of d a" using b(2) by (simp add: keys_of_def)
    ultimately show ?thesis using ok that(1) by (simp add: shield_ok_def trail_ok_def keys_ok_def)
  qed
  have "shield_ok b"
    unfolding shield_ok_def
  proof (intro conjI ballI)
    show "tn_deviceId t \<in> dv_id ` set (sd_devices b)" if "t \<in> set (sd_transitions b)" for t
      using that ts ok e(1) by (auto simp: ids' b(4) shield_ok_def)
    show "trail_ok d b" "keys_ok d b" if "d \<in> set (sd_devices b)" for d
      using that other e' by (auto simp: b(1) split: if_splits)
  qed (use ok in \<open>auto simp: shield_ok_def ids ids' b(2,3) provenance_same[OF b(3)]\<close>)
  moreover have "shield_before a b"
    unfolding shield_before_def
  proof (intro conjI ballI)
    show "known_device d b" if "d \<in> set (sd_devices a)" for d
      using known_map[OF b(1) that] e(2) by (simp add: same_device_def)
  qed (use b in auto)
  ultimately show ?thesis by (simp add: advances_def)
qed

text \<open>A fenced update of rows the key tells apart changes one row or none.\<close>

lemma updateMany_cases:
  assumes "updateMany P g rows = (n, rows')" "distinct rows"
    and uniq: "\<And>x y. x \<in> set rows \<Longrightarrow> y \<in> set rows \<Longrightarrow> P x \<Longrightarrow> P y \<Longrightarrow> x = y"
  obtains "n = 0" "rows' = rows" "\<And>x. x \<in> set rows \<Longrightarrow> \<not> P x"
  | e where "n = 1" "e \<in> set rows" "P e" "rows' = map (\<lambda>d. if d = e then g e else d) rows"
proof (cases "\<exists>e\<in>set rows. P e")
  case False
  then show ?thesis using assms(1) that(1) by (auto simp: updateMany_def filter_empty_conv map_idI)
next
  case True
  then obtain e where e: "e \<in> set rows" "P e" by blast
  then have hit: "P d \<longleftrightarrow> d = e" if "d \<in> set rows" for d using uniq[OF that e(1)] that by blast
  have "set (filter P rows) = {e}" using hit e(1) by auto
  then have "n = 1" using assms(1) distinct_card[OF distinct_filter[OF assms(2)], of P] by (simp add: updateMany_def)
  moreover have "rows' = map (\<lambda>d. if d = e then g e else d) rows" using assms(1) hit by (auto simp: updateMany_def)
  ultimately show ?thesis using that(2) e by blast
qed

lemma set_trust_cases:
  assumes "shield_ok a" "setDeviceTrust org dev from to a = (n, b)"
  obtains (none) "n = 0" "b = a"
  | (one) e where "n = 1" "e \<in> set (sd_devices a)" "dv_id e = dev" "dv_organisationId e = org" "dv_trust e = from"
    "b = a\<lparr>sd_devices := map (\<lambda>d. if d = e then e\<lparr>dv_trust := to\<rparr> else d) (sd_devices a)\<rparr>"
proof -
  obtain rows where u: "updateMany (\<lambda>d. is_device org dev d \<and> dv_trust d = from) (dv_trust_update (\<lambda>_. to)) (sd_devices a) = (n, rows)"
    and b: "b = a\<lparr>sd_devices := rows\<rparr>"
    using assms(2) by (auto simp: setDeviceTrust_def split: prod.splits)
  have dist: "distinct (sd_devices a)" using assms(1) by (auto simp: shield_ok_def distinct_map)
  show ?thesis
  proof (rule updateMany_cases[OF u dist])
    show "x = y" if "x \<in> set (sd_devices a)" "y \<in> set (sd_devices a)" "is_device org dev x \<and> dv_trust x = from"
        "is_device org dev y \<and> dv_trust y = from" for x y
      using device_unique[OF assms(1) that(1,2)] that(3,4) by (simp add: is_device_def)
    show thesis if "n = 0" "rows = sd_devices a" using none that b by simp
    show thesis if "n = 1" "e \<in> set (sd_devices a)" "is_device org dev e \<and> dv_trust e = from"
        "rows = map (\<lambda>d. if d = e then e\<lparr>dv_trust := to\<rparr> else d) (sd_devices a)" for e
      using that(1-3) b unfolding that(4) by (intro one[of e]) (simp_all add: is_device_def)
  qed
qed

lemma evaluate_allowed: "evaluateDeviceTrustTransition from to b = None \<Longrightarrow>
    to \<in> set (ALLOWED_DEVICE_TRUST_TRANSITIONS from)
    \<and> (to \<in> set DEVICE_TRUST_UPWARD_TARGETS \<longrightarrow> \<not> tb_revoked b)"
  by (auto simp: evaluateDeviceTrustTransition_def split: if_splits)

text \<open>
  A trust change moves forward if the key it was judged on is the current key of the device as it was
  then, for a device judged and found in the same trust.
\<close>

lemma advances_apply:
  assumes ok: "shield_ok a" and run: "applyTrustTransition i a = (out, b)"
    and up: "\<And>e k. \<lbrakk>tm_to i \<in> set DEVICE_TRUST_UPWARD_TARGETS; e \<in> set (sd_devices a); same_device (tm_device i) e;
      dv_trust e = dv_trust (tm_device i); credentialContinuityIntact (tm_key i)\<rbrakk> \<Longrightarrow> \<not> withdrawn (last (keys_of e a))"
  shows "advances a b"
proof (cases "evaluateDeviceTrustTransition (dv_trust (tm_device i)) (tm_to i) (transition_facts i a)")
  case (Some r)
  then show ?thesis using run ok by (simp add: applyTrustTransition_def Let_def advances_refl)
next
  case None
  let ?d = "tm_device i"
  obtain n db where moved: "setDeviceTrust (dv_organisationId ?d) (dv_id ?d) (dv_trust ?d) (tm_to i) a = (n, db)"
    by (cases "setDeviceTrust (dv_organisationId ?d) (dv_id ?d) (dv_trust ?d) (tm_to i) a") auto
  from ok moved show ?thesis
  proof (cases rule: set_trust_cases)
    case none
    then show ?thesis using run None moved ok by (simp add: applyTrustTransition_def Let_def advances_refl)
  next
    case (one e)
    note e = one(2-5) and db = one(6)
    let ?e' = "e\<lparr>dv_trust := tm_to i\<rparr>"
    obtain t where b: "b = appendTrustTransition t db" and t: "tn_organisationId t = dv_organisationId e"
        "tn_deviceId t = dv_id e" "tn_previousTrust t = Some (dv_trust e)" "tn_newTrust t = tm_to i"
      using run None moved one(1) e by (auto simp: applyTrustTransition_def Let_def)
    have same: "same_device e ?e'" by (simp add: same_device_def)
    have trail: "trail_ok e a" "keys_ok e a" using ok e(1) by (auto simp: shield_ok_def)
    have hist: "history ?e' b = history e a @ [t]"
      using history_append[OF _ same, of b a "[t]"] t by (simp add: b appendTrustTransition_def db)
    have "trail_ok ?e' b" using trail(1) t evaluate_allowed[OF None] e(4) by (simp add: trail_ok_def hist chained_append)
    moreover have "keys_ok ?e' b"
    proof -
      have ks: "keys_of ?e' b = keys_of e a" by (simp add: keys_of_def b appendTrustTransition_def db)
      have "tm_to i \<notin> set DEVICE_TRUST_UPWARD_TARGETS" if w: "withdrawn (last (keys_of e a))"
      proof
        assume upward: "tm_to i \<in> set DEVICE_TRUST_UPWARD_TARGETS"
        then have "\<not> tb_revoked (transition_facts i a)" using evaluate_allowed[OF None] by simp
        then have "credentialContinuityIntact (tm_key i)" by (simp add: transition_facts_def)
        then show False using up[OF upward e(1)] e w by (simp add: same_device_def)
      qed
      then show ?thesis using trail(2) by (simp add: keys_ok_def ks Let_def)
    qed
    ultimately show ?thesis
      using advances_device[OF ok e(1) same, of b "[t]"] t by (simp add: b appendTrustTransition_def db)
  qed
qed

lemma advances_revocation:
  assumes ok: "shield_ok a" and trust: "\<And>e. e \<in> set (sd_devices a) \<Longrightarrow> is_device org dev e \<Longrightarrow> dv_trust e = trust"
  shows "advances a (setDeviceRevocation org dev disp revokedAt trust a)" (is "advances a ?b")
proof -
  let ?g = "\<lambda>d. d\<lparr>dv_revocationDisposition := Some disp, dv_revokedAt := revokedAt, dv_trust := trust\<rparr>"
  have dist: "distinct (sd_devices a)" using ok by (auto simp: shield_ok_def distinct_map)
  obtain n rows where u: "updateMany (is_device org dev) ?g (sd_devices a) = (n, rows)"
    by (cases "updateMany (is_device org dev) ?g (sd_devices a)") auto
  have b: "?b = a\<lparr>sd_devices := rows\<rparr>" using u by (simp add: setDeviceRevocation_def)
  have uniq: "x = y" if "x \<in> set (sd_devices a)" "y \<in> set (sd_devices a)" "is_device org dev x" "is_device org dev y" for x y
    using device_unique[OF ok that(1,2)] that(3,4) by (simp add: is_device_def)
  show ?thesis
  proof (rule updateMany_cases[OF u dist uniq])
    show ?thesis if "rows = sd_devices a"
      using that ok by (simp add: b advances_refl)
    show ?thesis if e: "e \<in> set (sd_devices a)" "is_device org dev e"
      and rows: "rows = map (\<lambda>d. if d = e then ?g e else d) (sd_devices a)" for e
    proof (rule advances_device[OF ok e(1), of "?g e" _ "[]"])
      have *: "history (?g e) ?b = history e a" "keys_of (?g e) ?b = keys_of e a"
        by (simp_all add: history_def keys_of_def b)
      show "trail_ok (?g e) ?b" "keys_ok (?g e) ?b"
        using ok e(1) trust[OF e] unfolding trail_ok_def keys_ok_def * by (auto simp: shield_ok_def trail_ok_def keys_ok_def Let_def)
    qed (simp_all add: b rows same_device_def)
  qed
qed

subsection \<open>Writes to keys and proposals\<close>

lemma provenance_map:
  assumes "provenance k a" "sd_rotations b = map f (sd_rotations a)" "\<And>r. proposal_before r (f r)"
  shows "provenance k b"
proof -
  have "proposed_key (f r) k = proposed_key r k" for r
    using assms(3)[of r] unfolding proposal_before_def proposed_key_def by (cases r; cases "f r") simp
  then show ?thesis using assms(1,2) by (auto simp: provenance_def)
qed

lemma proposals_map:
  assumes "\<And>r. proposal_before r (f r)"
  shows "map (\<lambda>r. (ro_organisationId r, ro_deviceId r, ro_proposedKeyVersion r)) (map f rs)
    = map (\<lambda>r. (ro_organisationId r, ro_deviceId r, ro_proposedKeyVersion r)) rs"
proof -
  have "ro_organisationId (f r) = ro_organisationId r \<and> ro_deviceId (f r) = ro_deviceId r
      \<and> ro_proposedKeyVersion (f r) = ro_proposedKeyVersion r" for r
    using assms[of r] unfolding proposal_before_def by (cases r; cases "f r") simp
  then show ?thesis by simp
qed

lemma advances_proposals:
  assumes ok: "shield_ok a" and f: "\<And>r. proposal_before r (f r)"
    and b: "b = a\<lparr>sd_rotations := map f (sd_rotations a)\<rparr>"
  shows "advances a b"
proof -
  have "shield_ok b"
    using ok provenance_map[of _ a b f] f unfolding shield_ok_def
    by (simp add: b proposals_map[OF f] trail_ok_def keys_ok_def history_def keys_of_def del: map_map)
  moreover have "shield_before a b"
    using f by (auto simp: shield_before_def b known_device_def)
  ultimately show ?thesis by (simp add: advances_def)
qed

lemma advances_proposal:
  assumes ok: "shield_ok a" and r: "createRotationRequest r a = Some b"
  shows "advances a b"
proof -
  have b: "b = a\<lparr>sd_rotations := sd_rotations a @ [r]\<rparr>"
    and new: "(ro_organisationId r, ro_deviceId r, ro_proposedKeyVersion r)
      \<notin> (\<lambda>r. (ro_organisationId r, ro_deviceId r, ro_proposedKeyVersion r)) ` set (sd_rotations a)"
    using r by (auto simp: createRotationRequest_def list_ex_iff split: if_splits)
  have same: "trail_ok d b = trail_ok d a" "keys_ok d b = keys_ok d a" "provenance k a \<Longrightarrow> provenance k b" for d k
    by (auto simp: b trail_ok_def keys_ok_def history_def keys_of_def provenance_def)
  have "shield_ok b"
    using ok new same unfolding shield_ok_def by (simp add: b)
  moreover have "shield_before a b"
    by (auto simp: shield_before_def b known_device_def)
  ultimately show ?thesis by (simp add: advances_def)
qed

lemma advances_rotation_state: "shield_ok a \<Longrightarrow> setRotationRequestState org id' from to a = (n, b) \<Longrightarrow> advances a b"
  by (rule advances_proposals[of a "\<lambda>r. if ro_id r = id' \<and> ro_organisationId r = org \<and> ro_state r = from then ro_state_update (\<lambda>_. to) r else r"])
    (auto simp: setRotationRequestState_def updateMany_def proposal_before_def)

lemma keys_of_map:
  assumes "sd_keys b = map f (sd_keys a) @ new" "\<And>k. dk_organisationId (f k) = dk_organisationId k \<and> dk_deviceId (f k) = dk_deviceId k"
    "same_device d e"
  shows "keys_of e b = map f (keys_of d a)
    @ filter (\<lambda>k. dk_organisationId k = dv_organisationId d \<and> dk_deviceId k = dv_id d) new"
  using assms by (simp add: keys_of_def filter_map comp_def same_device_def)

lemma keys_snoc:
  assumes "shield_ok a" "k \<in> set (keys_of d a)" "k = last (keys_of d a)"
  obtains xs where "keys_of d a = xs @ [k]" "k \<notin> set xs"
proof -
  have "distinct (keys_of d a)" using assms(1) by (auto simp: shield_ok_def distinct_map keys_of_def)
  moreover have "keys_of d a = butlast (keys_of d a) @ [k]" using assms(2,3) by (metis append_butlast_last_id empty_iff list.set(1))
  ultimately show ?thesis using that[of "butlast (keys_of d a)"] by (metis distinct_append distinct.simps(2) not_distinct_conv_prefix)
qed

lemma map_if_notin: "k \<notin> set xs \<Longrightarrow> map (\<lambda>x. if x = k then y else x) xs = xs"
  by (induction xs) auto

lemma advances_key:
  assumes ok: "shield_ok a" and k: "k \<in> set (sd_keys a)" "key_before k k'"
    and b: "b = a\<lparr>sd_keys := map (\<lambda>x. if x = k then k' else x) (sd_keys a)\<rparr>"
    and ks: "\<And>d. d \<in> set (sd_devices a) \<Longrightarrow> k \<in> set (keys_of d a) \<Longrightarrow> keys_ok d b"
  shows "advances a b"
proof -
  have ident: "dk_organisationId k' = dk_organisationId k" "dk_keyId k' = dk_keyId k" "dk_deviceId k' = dk_deviceId k"
      "dk_keyVersion k' = dk_keyVersion k" "dk_publicKey k' = dk_publicKey k" "dk_keyStorage k' = dk_keyStorage k"
    using k(2) by (auto simp: key_before_def same_key_def)
  have other: "keys_ok d b" if "d \<in> set (sd_devices a)" "k \<notin> set (keys_of d a)" for d
  proof -
    have "keys_of d b = keys_of d a"
      using keys_of_map[of b "\<lambda>x. if x = k then k' else x" a "[]" d d] ident map_if_notin[OF that(2)]
      by (simp add: b same_device_def)
    then show ?thesis using ok that(1) by (simp add: shield_ok_def keys_ok_def)
  qed
  have "map (\<lambda>k. (dk_organisationId k, dk_keyId k)) (sd_keys b) = map (\<lambda>k. (dk_organisationId k, dk_keyId k)) (sd_keys a)"
    by (simp add: b ident)
  moreover have "provenance x b" if "x \<in> set (sd_keys b)" for x
    using that ok ident by (auto simp: shield_ok_def b provenance_def proposed_key_def split: if_splits)
  moreover have "dk_deviceId x \<in> dv_id ` set (sd_devices b)" if "x \<in> set (sd_keys b)" for x
    using that ok ident by (auto simp: shield_ok_def b split: if_splits)
  moreover have "keys_ok d b" if "d \<in> set (sd_devices a)" for d using ks other that by blast
  moreover have "trail_ok d b = trail_ok d a" for d by (simp add: b trail_ok_def history_def)
  moreover have "sd_devices b = sd_devices a" "sd_rotations b = sd_rotations a" "sd_transitions b = sd_transitions a"
    by (simp_all add: b)
  ultimately have "shield_ok b" using ok unfolding shield_ok_def by simp
  moreover have "shield_before a b"
    using k by (auto simp: shield_before_def b known_device_def)
  ultimately show ?thesis by (simp add: advances_def)
qed

lemma advances_withdraw:
  assumes ok: "shield_ok a" and w: "withdrawDeviceKey org kid from to now disp a = (n, b)"
    and legal: "from \<noteq> ROTATED" "canTransitionDeviceKeyLifecycle from to" "to = REVOKED \<or> to = COMPROMISED"
    and low: "\<And>d k. \<lbrakk>d \<in> set (sd_devices a); k \<in> set (keys_of d a); is_key org kid k\<rbrakk>
      \<Longrightarrow> dv_trust d \<notin> set DEVICE_TRUST_UPWARD_TARGETS"
  shows "advances a b"
proof -
  let ?g = "\<lambda>k. k\<lparr>dk_status := to, dk_revokedAt := Some now, dk_revocationDisposition := Some disp\<rparr>"
  let ?P = "\<lambda>k. is_key org kid k \<and> dk_status k = from"
  obtain rows where u: "updateMany ?P ?g (sd_keys a) = (n, rows)" and b: "b = a\<lparr>sd_keys := rows\<rparr>"
    using w by (auto simp: withdrawDeviceKey_def split: prod.splits)
  have dist: "distinct (sd_keys a)" using ok by (auto simp: shield_ok_def distinct_map)
  have uniq: "x = y" if "x \<in> set (sd_keys a)" "y \<in> set (sd_keys a)" "?P x" "?P y" for x y
    using key_unique[OF ok that(1,2)] that(3,4) by (simp add: is_key_def)
  show ?thesis
  proof (rule updateMany_cases[OF u dist uniq])
    show ?thesis if "rows = sd_keys a" using that ok by (simp add: b advances_refl)
    show ?thesis if k: "k \<in> set (sd_keys a)" "?P k" and rows: "rows = map (\<lambda>x. if x = k then ?g k else x) (sd_keys a)" for k
    proof (rule advances_key[OF ok k(1), of "?g k"])
      show "key_before k (?g k)" using k(2) legal(2) by (simp add: key_before_def same_key_def)
      show b': "b = a\<lparr>sd_keys := map (\<lambda>x. if x = k then ?g k else x) (sd_keys a)\<rparr>" by (simp add: b rows)
      fix d assume d: "d \<in> set (sd_devices a)" "k \<in> set (keys_of d a)"
      have last: "k = last (keys_of d a)" using not_rotated_is_last[OF ok d] k(2) legal(1) by simp
      obtain xs where xs: "keys_of d a = xs @ [k]" "k \<notin> set xs" by (rule keys_snoc[OF ok d(2) last])
      have "keys_of d b = xs @ [?g k]"
        using keys_of_map[of b "\<lambda>x. if x = k then ?g k else x" a "[]" d d] map_if_notin[OF xs(2)]
        by (simp add: b' same_device_def xs(1))
      moreover have "keys_ok d a" using ok d(1) by (simp add: shield_ok_def)
      moreover have "dk_rotatedAt k = None" using \<open>keys_ok d a\<close> k(2) legal(1) by (auto simp: keys_ok_def xs(1) Let_def dated_def)
      ultimately show "keys_ok d b"
        using low[OF d] k(2) legal(3) by (auto simp: keys_ok_def xs(1) Let_def dated_def withdrawn_def)
    qed
  qed
qed

subsection \<open>Enrolment and rotation\<close>

lemma advances_enrol:
  assumes ok: "shield_ok a" and new: "dv_id d \<notin> dv_id ` set (sd_devices a)"
    "(dk_organisationId k, dk_keyId k) \<notin> (\<lambda>k. (dk_organisationId k, dk_keyId k)) ` set (sd_keys a)"
    and b: "sd_devices b = sd_devices a @ [d]" "sd_keys b = sd_keys a @ [k]" "sd_rotations b = sd_rotations a"
      "sd_transitions b = sd_transitions a @ [t]" "sd_observations b = sd_observations a @ os" "sd_events b = sd_events a @ es"
    and k: "dk_organisationId k = dv_organisationId d" "dk_deviceId k = dv_id d" "dk_status k = CURRENT" "dk_keyVersion k = 1"
      "dk_rotatedAt k = None" "dk_revokedAt k = None"
      "dv_currentKeyId d = Some (dk_keyId k)" "dv_currentKeyVersion d = Some (dk_keyVersion k)"
    and t: "tn_organisationId t = dv_organisationId d" "tn_deviceId t = dv_id d" "tn_previousTrust t = None" "tn_newTrust t = dv_trust d"
  shows "advances a b"
proof -
  have "\<forall>k\<in>set (sd_keys a). dk_deviceId k \<noteq> dv_id d" "\<forall>t\<in>set (sd_transitions a). tn_deviceId t \<noteq> dv_id d"
    using ok new(1) unfolding shield_ok_def by metis+
  then have fresh: "keys_of d a = []" "history d a = []"
    by (simp_all add: keys_of_def history_def filter_empty_conv)
  have d: "trail_ok d b" "keys_ok d b"
    using fresh k t by (simp_all add: trail_ok_def keys_ok_def keys_of_def history_def b Let_def dated_def withdrawn_def)
  have other: "trail_ok e b \<and> keys_ok e b" if "e \<in> set (sd_devices a)" for e
  proof -
    have "dv_id e \<noteq> dv_id d" using that new(1) by (metis image_eqI)
    then have "keys_of e b = keys_of e a" "history e b = history e a"
      using k(2) t(2) by (simp_all add: keys_of_def history_def b)
    then show ?thesis using ok that by (simp add: shield_ok_def trail_ok_def keys_ok_def)
  qed
  have "shield_ok b"
    unfolding shield_ok_def
  proof (intro conjI ballI)
    show "trail_ok e b" "keys_ok e b" if "e \<in> set (sd_devices b)" for e using that other d by (auto simp: b)
    show "provenance x b" if "x \<in> set (sd_keys b)" for x
      using that ok k(4) by (auto simp: b provenance_same[OF b(3)] shield_ok_def provenance_def)
  qed (use ok new k(2) t(2) in \<open>auto simp: shield_ok_def b\<close>)
  moreover have "shield_before a b" by (auto simp: shield_before_def b known_device_def)
  ultimately show ?thesis by (simp add: advances_def)
qed

lemma advances_rotate:
  assumes ok: "shield_ok a" and e: "e \<in> set (sd_devices a)" and k: "k \<in> set (keys_of e a)" "dk_status k = CURRENT"
    and new: "(dk_organisationId n, dk_keyId n) \<notin> (\<lambda>k. (dk_organisationId k, dk_keyId k)) ` set (sd_keys a)"
    and n: "dk_organisationId n = dv_organisationId e" "dk_deviceId n = dv_id e" "dk_status n = CURRENT"
      "dk_keyVersion n = dk_keyVersion k + 1" "dk_rotatedAt n = None" "dk_revokedAt n = None"
      "r \<in> set (sd_rotations a)" "proposed_key r n"
    and b: "sd_devices b = map (\<lambda>d. if d = e then e\<lparr>dv_currentKeyId := Some (dk_keyId n), dv_currentKeyVersion := Some (dk_keyVersion n)\<rparr> else d) (sd_devices a)"
      "sd_keys b = map (\<lambda>x. if x = k then k\<lparr>dk_status := ROTATED, dk_rotatedAt := Some now\<rparr> else x) (sd_keys a) @ [n]"
      "sd_rotations b = map f (sd_rotations a)" "sd_transitions b = sd_transitions a"
      "sd_observations b = sd_observations a" "sd_events b = sd_events a @ es"
    and f: "\<And>r. proposal_before r (f r)"
  shows "advances a b"
proof -
  let ?k = "k\<lparr>dk_status := ROTATED, dk_rotatedAt := Some now\<rparr>" and ?g = "\<lambda>x. if x = k then k\<lparr>dk_status := ROTATED, dk_rotatedAt := Some now\<rparr> else x"
  let ?e = "e\<lparr>dv_currentKeyId := Some (dk_keyId n), dv_currentKeyVersion := Some (dk_keyVersion n)\<rparr>"
  have last: "k = last (keys_of e a)" using not_rotated_is_last[OF ok e k(1)] k(2) by simp
  obtain xs where xs: "keys_of e a = xs @ [k]" "k \<notin> set xs" by (rule keys_snoc[OF ok k(1) last])
  have kin: "k \<in> set (sd_keys a)" using k(1) by (simp add: in_keys_of)
  have old: "keys_ok e a" "trail_ok e a" using ok e by (auto simp: shield_ok_def)
  have ke: "keys_of ?e b = xs @ [?k, n]"
    using keys_of_map[OF b(2), of e ?e] n(1,2) map_if_notin[OF xs(2)] by (simp add: same_device_def xs(1))
  have "keys_ok ?e b"
    using old(1) n k(2) unfolding keys_ok_def ke xs(1)
    by (simp add: Let_def dated_def withdrawn_def butlast_append)
  moreover have "trail_ok ?e b" using old(2) by (simp add: trail_ok_def history_def b(4))
  moreover have "trail_ok d b \<and> keys_ok d b" if d: "d \<in> set (sd_devices a)" "d \<noteq> e" for d
  proof -
    have "dv_id d \<noteq> dv_id e" using device_unique[OF ok d(1) e] d(2) by auto
    then have "k \<notin> set (keys_of d a)" "\<not> dk_deviceId n = dv_id d" using k(1) n(2) by (auto simp: in_keys_of)
    then have "keys_of d b = keys_of d a"
      using keys_of_map[OF b(2), of d d] map_if_notin[of k "keys_of d a"] by (simp add: same_device_def)
    then show ?thesis using ok d(1) by (simp add: shield_ok_def trail_ok_def keys_ok_def history_def b(4))
  qed
  ultimately have devs: "trail_ok d b \<and> keys_ok d b" if "d \<in> set (sd_devices b)" for d
    using that by (auto simp: b(1) split: if_splits)
  have ids: "map dv_id (sd_devices b) = map dv_id (sd_devices a)" by (simp add: b(1))
  then have ids': "dv_id ` set (sd_devices b) = dv_id ` set (sd_devices a)" by (metis list.set_map)
  have kids: "map (\<lambda>k. (dk_organisationId k, dk_keyId k)) (sd_keys b) = map (\<lambda>k. (dk_organisationId k, dk_keyId k)) (sd_keys a) @ [(dk_organisationId n, dk_keyId n)]"
    by (simp add: b(2))
  have prov: "provenance x b" if "x \<in> set (sd_keys b)" for x
  proof -
    have "provenance n a" using n(7,8) by (auto simp: provenance_def)
    moreover have "provenance k a" using ok kin by (simp add: shield_ok_def)
    then have "provenance ?k a" by (simp add: provenance_def proposed_key_def)
    ultimately have "provenance x a" using that ok by (auto simp: b(2) shield_ok_def split: if_splits)
    then show ?thesis by (rule provenance_map[OF _ b(3) f])
  qed
  have "shield_ok b"
    unfolding shield_ok_def
  proof (intro conjI ballI)
    show "distinct (map (\<lambda>r. (ro_organisationId r, ro_deviceId r, ro_proposedKeyVersion r)) (sd_rotations b))"
      using ok unfolding b(3) proposals_map[OF f] by (simp add: shield_ok_def)
    show "dk_deviceId x \<in> dv_id ` set (sd_devices b)" if "x \<in> set (sd_keys b)" for x
      using that ok n(2) e kin unfolding ids' by (auto simp: b(2) shield_ok_def split: if_splits)
  qed (use ok new devs prov in \<open>auto simp: shield_ok_def ids ids' kids b(4)\<close>)
  moreover have "shield_before a b"
    unfolding shield_before_def
  proof (intro conjI ballI)
    show "known_device d b" if "d \<in> set (sd_devices a)" for d
      using known_map[OF b(1) that] by (simp add: same_device_def)
    show "\<exists>l\<in>set (sd_keys b). key_before x l" if "x \<in> set (sd_keys a)" for x
    proof (cases "x = k")
      case True
      have "key_before k ?k" using k(2)
        by (simp add: key_before_def same_key_def canTransitionDeviceKeyLifecycle_def ALLOWED_DEVICE_KEY_LIFECYCLE_TRANSITIONS_def)
      moreover have "?k \<in> set (sd_keys b)" using kin by (force simp: b(2))
      ultimately show ?thesis unfolding True by blast
    next
      case False
      then have "x \<in> set (sd_keys b)" using that by (force simp: b(2))
      then show ?thesis by blast
    qed
    show "\<exists>q\<in>set (sd_rotations b). proposal_before r q" if "r \<in> set (sd_rotations a)" for r
      using that f by (auto simp: b(3))
  qed (use b in auto)
  ultimately show ?thesis by (simp add: advances_def)
qed

subsection \<open>Every operation moves forward\<close>

lemma advances_thenI: "advances a b \<Longrightarrow> (shield_ok b \<Longrightarrow> advances b c) \<Longrightarrow> advances a c"
  by (auto simp: advances_def intro: shield_before_trans)

lemma advances_recorded: "advances a b \<Longrightarrow> advances a (recordEvent e b)"
  by (rule advances_thenI[OF _ advances_event])

lemma apply_downward:
  assumes "shield_ok a" "applyTrustTransition i a = (out, b)"
    "tm_to i \<notin> set DEVICE_TRUST_UPWARD_TARGETS \<or> dv_trust (tm_device i) \<in> set DEVICE_TRUST_UPWARD_TARGETS"
  shows "advances a b"
proof (rule advances_apply[OF assms(1,2)])
  fix e k assume *: "tm_to i \<in> set DEVICE_TRUST_UPWARD_TARGETS" "e \<in> set (sd_devices a)" "dv_trust e = dv_trust (tm_device i)"
  then have "keys_ok e a" "dv_trust e \<in> set DEVICE_TRUST_UPWARD_TARGETS" using assms(1,3) by (auto simp: shield_ok_def)
  then show "\<not> withdrawn (last (keys_of e a))" by (auto simp: keys_ok_def Let_def)
qed

lemma observation_advances:
  assumes ok: "shield_ok a"
  shows "advances a (snd (recordAttestationObservation_tx pl iso_string d k e trace now a))"
proof (cases "date_parse pl (ae_evaluated_at e)")
  case None
  then show ?thesis using ok by (simp add: recordAttestationObservation_tx_def Let_def advances_refl)
next
  case (Some at_ms)
  let ?row = "\<lparr>ob_id = ae_observation_id e, ob_organisationId = dv_organisationId d, ob_deviceId = Some (dv_id d),
    ob_enrollmentRequestId = None, ob_outcome = ae_outcome e, ob_attestationReference = ae_attestation_reference e,
    ob_evaluatedAt = at_ms, ob_observedAt = now, ob_traceId = trace\<rparr>"
  show ?thesis
  proof (cases "appendAttestationObservation ?row a")
    case None
    then show ?thesis using ok Some by (simp add: recordAttestationObservation_tx_def Let_def advances_refl)
  next
    case (Some b)
    note observed = advances_observation[OF ok Some]
    have move: "advances b (case applyTrustTransition i b of (Inl r, c) \<Rightarrow> c | (Inr (prev, new), c) \<Rightarrow> recordEvent (ev prev new) c)"
      if "shield_ok b" "tm_to i \<notin> set DEVICE_TRUST_UPWARD_TARGETS \<or> dv_trust (tm_device i) \<in> set DEVICE_TRUST_UPWARD_TARGETS" for i ev
    proof -
      obtain out c where run: "applyTrustTransition i b = (out, c)" by (cases "applyTrustTransition i b") auto
      have "advances b c" by (rule apply_downward[OF that(1) run that(2)])
      then show ?thesis using run advances_thenI[OF \<open>advances b c\<close> advances_event] by (auto split: sum.splits)
    qed
    show ?thesis
    proof (rule advances_thenI[OF observed])
      assume b: "shield_ok b"
      then show "advances b (snd (recordAttestationObservation_tx pl iso_string d k e trace now a))"
        using Some \<open>date_parse pl (ae_evaluated_at e) = Some at_ms\<close>
        by (simp add: recordAttestationObservation_tx_def Let_def advances_refl)
          (auto intro!: move simp: DEVICE_TRUST_UPWARD_TARGETS_def)
    qed
  qed
qed

lemma change_advances:
  assumes ok: "shield_ok a"
  shows "advances a (snd (changeDeviceTrust_tx pl iso_string p org d to reason trace now a))"
proof (cases "if to \<in> set DEVICE_TRUST_UPWARD_TARGETS then findDevice org (dv_id d) a else Some d")
  case None
  then show ?thesis using ok by (simp add: changeDeviceTrust_tx_def Let_def advances_refl)
next
  case (Some subject)
  have move: "advances a (snd (case applyTrustTransition i a of (Inl r, b) \<Rightarrow> (Inl r, b)
      | (Inr (prev, new), b) \<Rightarrow> (Inr (prev, new), recordEvent (ev prev new) b)))"
    if i: "tm_device i = subject" "tm_key i = currentKey subject a" "tm_to i = to" for i and ev :: "device_trust \<Rightarrow> device_trust \<Rightarrow> event_row"
  proof -
    obtain out b where run: "applyTrustTransition i a = (out, b)" by (cases "applyTrustTransition i a") auto
    have "advances a b"
    proof (rule advances_apply[OF ok run])
      fix e k assume up: "tm_to i \<in> set DEVICE_TRUST_UPWARD_TARGETS" "e \<in> set (sd_devices a)" "same_device (tm_device i) e"
        "credentialContinuityIntact (tm_key i)"
      have "subject \<in> set (sd_devices a)" using Some up(1) i(3) findDevice_Some[of org "dv_id d" a subject] by simp
      then have "e = subject" using device_unique[OF ok up(2)] up(3) i(1) by (simp add: same_device_def)
      then have "currentKey subject a = Some (last (keys_of e a))" using current_is_last[OF ok up(2)] by simp
      then show "\<not> withdrawn (last (keys_of e a))" using up(4) i(2)
        by (auto simp: credentialContinuityIntact_def withdrawn_def deviceKeyStatePermitsNewOperations_def split: if_splits)
    qed
    then show ?thesis using run advances_thenI[OF \<open>advances a b\<close> advances_event] by (auto split: sum.splits)
  qed
  show ?thesis using ok Some by (simp add: changeDeviceTrust_tx_def Let_def advances_refl move)
qed

lemma apply_moved:
  assumes ok: "shield_ok a" and run: "applyTrustTransition i a = (Inr (prev, new), b)"
  shows "new = tm_to i" "prev = dv_trust (tm_device i)"
    "\<And>e. e \<in> set (sd_devices b) \<Longrightarrow> same_device (tm_device i) e \<Longrightarrow> dv_trust e = tm_to i"
proof -
  let ?d = "tm_device i"
  obtain n db where moved: "setDeviceTrust (dv_organisationId ?d) (dv_id ?d) (dv_trust ?d) (tm_to i) a = (n, db)"
    by (cases "setDeviceTrust (dv_organisationId ?d) (dv_id ?d) (dv_trust ?d) (tm_to i) a") auto
  have out: "new = tm_to i" "prev = dv_trust ?d" "n = 1" "sd_devices b = sd_devices db"
    using run moved by (auto simp: applyTrustTransition_def Let_def appendTrustTransition_def split: option.splits if_splits)
  from out show "new = tm_to i" "prev = dv_trust ?d" by simp_all
  fix e assume e: "e \<in> set (sd_devices b)" "same_device ?d e"
  from ok moved show "dv_trust e = tm_to i"
  proof (cases rule: set_trust_cases)
    case none
    then show ?thesis using out(3) by simp
  next
    case (one f)
    have "e = f\<lparr>dv_trust := tm_to i\<rparr> \<or> e \<in> set (sd_devices a) \<and> e \<noteq> f"
      using e(1) out(4) one(6) by auto
    moreover have "False" if "e \<in> set (sd_devices a)" "e \<noteq> f"
      using device_unique[OF ok that(1) one(2)] one(3) e(2) that(2) by (simp add: same_device_def)
    ultimately show ?thesis by auto
  qed
qed

lemma revocation_trust:
  "e \<in> set (sd_devices (setDeviceRevocation org dev disp at_ms tr a)) \<Longrightarrow> is_device org dev e \<Longrightarrow> dv_trust e = tr"
proof -
  assume e: "e \<in> set (sd_devices (setDeviceRevocation org dev disp at_ms tr a))" "is_device org dev e"
  let ?g = "\<lambda>x. if is_device org dev x then x\<lparr>dv_revocationDisposition := Some disp, dv_revokedAt := at_ms, dv_trust := tr\<rparr> else x"
  have "e \<in> set (map ?g (sd_devices a))" using e(1) by (simp add: setDeviceRevocation_def updateMany_def)
  then obtain x where x: "e = ?g x" unfolding set_map by (rule imageE)
  show ?thesis using e(2) unfolding x by (simp split: if_splits)
qed

lemma declare_advances:
  assumes ok: "shield_ok a" and w: "pending_ok a (Declaring p org d k disp reason)"
  shows "advances a (snd (declareDisposition_tx pl iso_string p org d k disp reason trace now a))"
proof -
  define i where "i = declaration_input pl iso_string p org d k disp reason trace now a"
  have i: "tm_device i = d" "tm_to i = disposition_trust disp" by (simp_all add: i_def declaration_input_def)
  obtain out b where run: "applyTrustTransition i a = (out, b)" by (cases "applyTrustTransition i a") auto
  have low: "disposition_trust disp \<notin> set DEVICE_TRUST_UPWARD_TARGETS"
    by (simp add: disposition_trust_def DEVICE_TRUST_UPWARD_TARGETS_def)
  have ab: "advances a b" by (rule apply_downward[OF ok run]) (simp add: i low)
  show ?thesis
  proof (cases out)
    case (Inl r)
    then show ?thesis using run ab by (simp add: declareDisposition_tx_def Let_def i_def)
  next
    case (Inr r)
    obtain prev new where r: "r = (prev, new)" by (cases r) auto
    note moved = apply_moved[OF ok run[unfolded Inr r]]
    define c where "c = setDeviceRevocation org (dv_id d) disp (if disp = LOST then None else Some now) (disposition_trust disp) b"
    have d: "dv_organisationId d = org" "known_key d k a" using w by simp_all
    have bc: "advances b c"
      unfolding c_def
    proof (rule advances_revocation)
      show "shield_ok b" using ab by (simp add: advances_def)
      show "dv_trust e = disposition_trust disp" if "e \<in> set (sd_devices b)" "is_device org (dv_id d) e" for e
        using moved(3)[OF that(1)] that(2) d(1) by (simp add: i same_device_def is_device_def)
    qed
    have ac: "advances a c" by (rule advances_trans[OF ab bc])
    have trust_c: "dv_trust e = disposition_trust disp" if "e \<in> set (sd_devices c)" "same_device d e" for e
      using revocation_trust[OF that(1)[unfolded c_def]] that(2) d(1) by (simp add: same_device_def is_device_def)
    have wd: "advances c b'" if wd: "withdrawDeviceKey org (dk_keyId k) (dk_status k) t now disp c = (n, b')"
        and t: "disposition_key_target disp = Some t" for t n b'
    proof (rule advances_withdraw[OF _ wd])
      show "shield_ok c" using ac by (simp add: advances_def)
      show "dk_status k \<noteq> ROTATED" using d(2) by (simp add: known_key_def)
      show "canTransitionDeviceKeyLifecycle (dk_status k) t" using w t by simp
      show "t = REVOKED \<or> t = COMPROMISED" using t by (auto simp: disposition_key_target_def split: if_splits)
      fix e l assume e: "e \<in> set (sd_devices c)" "l \<in> set (keys_of e c)" "is_key org (dk_keyId k) l"
      have "known_key d k c" using known_key_before[OF d(2)] ac by (simp add: advances_def)
      then obtain m where m: "m \<in> set (sd_keys c)" "same_key k m" "dk_organisationId k = dv_organisationId d" "dk_deviceId k = dv_id d"
        by (auto simp: known_key_def)
      have "l = m" using key_unique[of c l m] ac e(2,3) m d(1) by (simp add: advances_def in_keys_of is_key_def same_key_def)
      then have "same_device d e" using e(2) m by (simp add: in_keys_of same_device_def same_key_def)
      then show "dv_trust e \<notin> set DEVICE_TRUST_UPWARD_TARGETS" using trust_c[OF e(1)] low by simp
    qed
    show ?thesis
    proof (cases "disposition_key_target disp")
      case None
      have "disp = LOST" using None by (auto simp: disposition_key_target_def split: if_splits)
      show ?thesis
        by (simp add: declareDisposition_tx_def Let_def i_def[symmetric] run Inr r None c_def[symmetric])
          (use ac in \<open>simp add: c_def \<open>disp = LOST\<close> advances_recorded\<close>)
    next
      case (Some t)
      obtain n b' where wk: "withdrawDeviceKey org (dk_keyId k) (dk_status k) t now disp c = (n, b')"
        by (cases "withdrawDeviceKey org (dk_keyId k) (dk_status k) t now disp c") auto
      have "advances a b'" by (rule advances_trans[OF ac wd[OF wk Some]])
      moreover have lost: "disp \<noteq> LOST" using Some by (auto simp: disposition_key_target_def)
      moreover have "c = setDeviceRevocation org (dv_id d) disp (Some now) (disposition_trust disp) b"
        using lost by (simp add: c_def)
      ultimately show ?thesis using wk advances_refl[OF ok]
        by (simp add: declareDisposition_tx_def Let_def i_def[symmetric] run Inr r Some advances_recorded
            split: disposition.split)
    qed
  qed
qed

lemma update_hit:
  assumes "x \<in> set rows" "P x" "\<And>y. y \<in> set rows \<Longrightarrow> P y \<Longrightarrow> y = x"
  shows "snd (updateMany P g rows) = map (\<lambda>d. if d = x then g x else d) rows"
proof -
  have "P y \<longleftrightarrow> y = x" if "y \<in> set rows" for y using assms that by blast
  then show ?thesis by (simp add: updateMany_def)
qed

lemma rotate_advances:
  assumes ok: "shield_ok a" and d: "d \<in> set (sd_devices a)" "dv_organisationId d = org"
    and k: "k = last (keys_of d a)" "dk_status k = CURRENT"
    and r: "r \<in> set (sd_rotations a)" "ro_organisationId r = org" "ro_deviceId r = dv_id d" "ro_proposedKeyVersion r = dk_keyVersion k + 1"
    and l: "lr_device l = d" "lr_currentKey l = k" "lr_row l = r" "lr_request l = request_of_row iso_string r"
    and run: "rotate_effect p org trace rowId fp now l (a\<lparr>sd_replay := rp\<rparr>) = Inr b"
  shows "advances a b"
proof -
  have kin: "k \<in> set (keys_of d a)" using current_is_last[OF ok d(1)] k(1) by simp
  then have k': "k \<in> set (sd_keys a)" "dk_organisationId k = org" "dk_deviceId k = dv_id d" using d(2) by (simp_all add: in_keys_of)
  have keys: "keys_ok d a" using ok d(1) by (simp add: shield_ok_def)
  define n where "n = \<lparr>dk_id = rowId, dk_organisationId = org, dk_deviceId = dv_id d, dk_keyId = ro_proposedKeyId r,
    dk_keyVersion = ro_proposedKeyVersion r, dk_publicKey = ro_newPublicKey r,
    dk_publicKeyThumbprint = ro_newPublicKeyThumbprint r, dk_signatureProfile = SERVER_SELECTED_SIGNATURE_PROFILE,
    dk_keyStorage = ro_newKeyStorage r, dk_status = CURRENT, dk_registeredAt = now, dk_rotatedAt = None,
    dk_revokedAt = None, dk_revocationDisposition = None\<rparr>"
  let ?kr = "k\<lparr>dk_status := ROTATED, dk_rotatedAt := Some now\<rparr>"
  have mark: "snd (markDeviceKeyRotated org (dk_keyId k) now (a\<lparr>sd_replay := rp\<rparr>))
      = a\<lparr>sd_replay := rp, sd_keys := map (\<lambda>x. if x = k then ?kr else x) (sd_keys a)\<rparr>"
    using update_hit[of k "sd_keys a" "\<lambda>x. is_key org (dk_keyId k) x \<and> dk_status x = CURRENT" "\<lambda>k. k\<lparr>dk_status := ROTATED, dk_rotatedAt := Some now\<rparr>"]
      key_unique[OF ok _ k'(1)] k' k(2) by (auto simp: markDeviceKeyRotated_def is_key_def split: prod.splits)
  obtain db1 m1 where mk: "markDeviceKeyRotated org (dk_keyId k) now (a\<lparr>sd_replay := rp\<rparr>) = (m1, db1)"
    by (cases "markDeviceKeyRotated org (dk_keyId k) now (a\<lparr>sd_replay := rp\<rparr>)") auto
  have db1: "db1 = a\<lparr>sd_replay := rp, sd_keys := map (\<lambda>x. if x = k then ?kr else x) (sd_keys a)\<rparr>" using mark mk by simp
  obtain db2 where cr: "createDeviceKey n db1 = Some db2"
    using run mk l by (auto simp: rotate_effect_def Let_def n_def request_of_row_def split: if_splits option.splits)
  have db2: "db2 = db1\<lparr>sd_keys := sd_keys db1 @ [n]\<rparr>" using cr by (auto simp: createDeviceKey_def split: if_splits)
  have new: "(dk_organisationId n, dk_keyId n) \<notin> (\<lambda>k. (dk_organisationId k, dk_keyId k)) ` set (sd_keys a)"
  proof
    assume "(dk_organisationId n, dk_keyId n) \<in> (\<lambda>k. (dk_organisationId k, dk_keyId k)) ` set (sd_keys a)"
    then obtain x where x: "x \<in> set (sd_keys a)" "dk_organisationId x = dk_organisationId n" "dk_keyId x = dk_keyId n" by auto
    let ?y = "if x = k then ?kr else x"
    have "?y \<in> set (sd_keys db1)" using x(1) by (auto simp: db1)
    then show False using cr x by (auto simp: createDeviceKey_def list_ex_iff split: if_splits)
  qed
  obtain db3 m3 where ad: "advanceDeviceCurrentKey org (dv_id d) (dk_keyId k, dk_keyVersion k) (dk_keyId n, dk_keyVersion n) db2 = (m3, db3)"
    by (cases "advanceDeviceCurrentKey org (dv_id d) (dk_keyId k, dk_keyVersion k) (dk_keyId n, dk_keyVersion n) db2") auto
  have "snd (advanceDeviceCurrentKey org (dv_id d) (dk_keyId k, dk_keyVersion k) (dk_keyId n, dk_keyVersion n) db2)
      = db2\<lparr>sd_devices := map (\<lambda>e. if e = d then d\<lparr>dv_currentKeyId := Some (dk_keyId n), dv_currentKeyVersion := Some (dk_keyVersion n)\<rparr> else e) (sd_devices a)\<rparr>"
    using update_hit[of d "sd_devices a" "\<lambda>e. is_device org (dv_id d) e \<and> dv_currentKeyId e = Some (dk_keyId k) \<and> dv_currentKeyVersion e = Some (dk_keyVersion k)"
        "\<lambda>e. e\<lparr>dv_currentKeyId := Some (dk_keyId n), dv_currentKeyVersion := Some (dk_keyVersion n)\<rparr>"]
      device_unique[OF ok _ d(1)] d keys k(1)
    by (auto simp: advanceDeviceCurrentKey_def is_device_def keys_ok_def Let_def db2 db1 split: prod.splits)
  then have db3: "db3 = db2\<lparr>sd_devices := map (\<lambda>e. if e = d then d\<lparr>dv_currentKeyId := Some (dk_keyId n), dv_currentKeyVersion := Some (dk_keyVersion n)\<rparr> else e) (sd_devices a)\<rparr>"
    using ad by simp
  define f where "f = (\<lambda>x :: rotation_row. if ro_id x = ro_id r \<and> ro_organisationId x = org \<and> ro_state x = ro_state r then ro_state_update (\<lambda>_. ROTATION_STATE_ROTATED) x else x)"
  obtain ev where b: "b = recordEvent ev (db3\<lparr>sd_rotations := map f (sd_rotations a)\<rparr>)"
    using run mk cr ad l
    by (auto simp: rotate_effect_def Let_def n_def request_of_row_def setRotationRequestState_def updateMany_def f_def db3 db2 db1
        split: if_splits)
  have "proposal_before x (f x)" for x by (auto simp: f_def proposal_before_def)
  moreover have "proposed_key r n" using r by (simp add: proposed_key_def n_def)
  ultimately show ?thesis
    using advances_rotate[OF ok d(1) kin k(2) new, of r b now f "[ev]"] d(2) r
    by (simp add: b recordEvent_def db3 db2 db1 n_def)
qed

lemma lock_cases:
  assumes ok: "shield_ok a" and run: "lockRotationState pl cr iso_string org req ch a = Inr l"
  obtains r where "findRotationRequest org req a = Some r" "r \<in> set (sd_rotations a)" "ro_organisationId r = org"
    "lr_row l = r" "lr_request l = request_of_row iso_string r" "lr_device l \<in> set (sd_devices a)"
    "dv_organisationId (lr_device l) = org" "dv_id (lr_device l) = ro_deviceId r"
    "lr_currentKey l = last (keys_of (lr_device l) a)" "rotation_request_ok pl (cr_sha_bytes cr) (lr_request l)"
proof -
  obtain r d k where *: "findRotationRequest org req a = Some r" "findDevice org (ro_deviceId r) a = Some d"
      "lr_device l = d" "lr_currentKey l = k" "lr_row l = r" "lr_request l = request_of_row iso_string r"
      "currentKey d a = Some k" "rotation_request_ok pl (cr_sha_bytes cr) (lr_request l)"
    using run findDevice_Some[of org _ a] by (fastforce simp: lockRotationState_def currentKey_def split: option.splits if_splits)
  have "r \<in> set (sd_rotations a)" "ro_organisationId r = org"
    using *(1) find_SomeD[of _ "sd_rotations a" r] by (auto simp: findRotationRequest_def)
  moreover have d: "d \<in> set (sd_devices a)" "dv_id d = ro_deviceId r" "dv_organisationId d = org" using findDevice_Some[OF *(2)] by auto
  moreover have "k = last (keys_of d a)" using current_is_last[OF ok d(1)] *(7) by simp
  ultimately show ?thesis using that * by simp
qed

lemma commit_advances:
  assumes ok: "shield_ok a"
  shows "advances a (snd (commitKeyRotation pl cr iso_string p org req ch proof rowId trace now a))"
proof (cases "lockRotationState pl cr iso_string org req ch a")
  case (Inl e)
  then show ?thesis using ok by (simp add: commitKeyRotation_def advances_refl)
next
  case (Inr l)
  obtain r where r: "r \<in> set (sd_rotations a)" "ro_organisationId r = org"
    "lr_row l = r" "lr_request l = request_of_row iso_string r" "lr_device l \<in> set (sd_devices a)"
    "dv_organisationId (lr_device l) = org" "dv_id (lr_device l) = ro_deviceId r"
    "lr_currentKey l = last (keys_of (lr_device l) a)" "rotation_request_ok pl (cr_sha_bytes cr) (lr_request l)"
    by (rule lock_cases[OF ok Inr])
  have effect: "advances a b"
    if gate: "evaluateDeviceKeyRotation pl i = Rotate f v w" "kd_request i = lr_request l" "kd_registered i = registered_facts l"
      and eff: "rotate_effect p org trace rowId fp now l (a\<lparr>sd_replay := rp\<rparr>) = Inr b" for i f v w fp rp b
  proof (rule rotate_advances[OF ok r(5,6,8) _ r(1,2) r(7)[symmetric] _ refl refl r(3,4) eff])
    show "dk_status (lr_currentKey l) = CURRENT"
      using rotate_cases[OF gate(1)] gate(2,3) by (simp add: rotation_current_def registered_facts_def)
    show "ro_proposedKeyVersion r = dk_keyVersion (lr_currentKey l) + 1"
      using rotate_cases[OF gate(1)] gate(2,3) r(9)
      by (simp add: rotation_current_def registered_facts_def r(4) request_of_row_def rotation_request_ok_def)
  qed
  show ?thesis
    using Inr ok effect[rotated 3]
    by (auto simp: commitKeyRotation_def Let_def advances_refl advances_event
        split: option.splits prod.splits rotation_decision.splits sum.splits if_splits)
qed

lemma enrol_advances:
  assumes ok: "shield_ok a" and run: "performCommit pl iso_string c now a = Some b"
  shows "advances a b"
proof -
  let ?org = "cx_organisationId c" and ?dev = "cx_deviceId c"
  let ?standing = "enrollment_standing pl iso_string c now"
  let ?trust = "initialDeviceTrustOnEnrollment (cx_keyStorage c) ?standing"
  obtain d k where d: "dv_id d = ?dev" "dv_organisationId d = ?org" "dv_trust d = ?trust" "dv_currentKeyId d = Some (cx_keyId c)"
      "dv_currentKeyVersion d = Some 1"
    and k: "dk_organisationId k = ?org" "dk_deviceId k = ?dev" "dk_keyId k = cx_keyId c" "dk_keyVersion k = 1"
      "dk_status k = CURRENT" "dk_rotatedAt k = None" "dk_revokedAt k = None"
    and mk: "\<exists>db1. createDevice d a = Some db1 \<and> (\<exists>db2. createDeviceKey k db1 = Some db2 \<and> (\<exists>s db3. createDeviceSiteScope s db2 = Some db3
        \<and> (\<exists>t o' db4. appendAttestationObservation o' (appendTrustTransition t db3) = Some db4 \<and> tn_organisationId t = ?org
          \<and> tn_deviceId t = ?dev \<and> tn_previousTrust t = None \<and> tn_newTrust t = ?trust
          \<and> (\<exists>n db5 e1 e2 e3. advanceEnrollmentState ?org (cx_enrollmentRequestId c) ENR_POSSESSION_PROVEN ENR_ENROLLED db4 = (n, db5)
            \<and> b = recordEvent e1 (recordEvent e2 (recordEvent e3 db5))))))"
    using run unfolding performCommit_def Let_def bind_eq_Some_conv
    by (force split: prod.splits if_splits)
  then obtain t o' es rows where *: "createDevice d a = Some (a\<lparr>sd_devices := sd_devices a @ [d]\<rparr>)"
      "createDeviceKey k (a\<lparr>sd_devices := sd_devices a @ [d]\<rparr>) \<noteq> None"
      "sd_devices b = sd_devices a @ [d]" "sd_keys b = sd_keys a @ [k]" "sd_rotations b = sd_rotations a"
      "sd_transitions b = sd_transitions a @ [t]" "sd_observations b = sd_observations a @ [o']"
      "sd_events b = sd_events a @ es" "tn_organisationId t = ?org" "tn_deviceId t = ?dev" "tn_previousTrust t = None" "tn_newTrust t = ?trust"
    by (fastforce simp: createDevice_def createDeviceKey_def createDeviceSiteScope_def appendAttestationObservation_def
        appendTrustTransition_def advanceEnrollmentState_def recordEvent_def split: prod.splits if_splits)
  have "dv_id d \<notin> dv_id ` set (sd_devices a)"
    using *(1) by (auto simp: createDevice_def list_ex_iff split: if_splits)
  moreover have "(dk_organisationId k, dk_keyId k) \<notin> (\<lambda>k. (dk_organisationId k, dk_keyId k)) ` set (sd_keys a)"
    using *(2) by (auto simp: createDeviceKey_def list_ex_iff split: if_splits)
  ultimately show ?thesis
    by (rule advances_enrol[OF ok]) (use * d k in simp_all)
qed

lemma request_advances:
  "shield_ok a \<Longrightarrow> advances a (snd (requestKeyRotation_create pl cr iso_string org d k i a))"
  by (auto simp: requestKeyRotation_create_def Let_def advances_refl split: option.splits intro: advances_proposal)

lemma challenge_advances:
  assumes "shield_ok a"
  shows "advances a (snd (issueRotationChallenge_tx org r ch nonce now a))"
proof -
  have "advances a b" if "createRotationChallenge c a = Some b" for c b
    by (rule advances_same[OF assms, of _ "[]" "[]"]) (use that in \<open>auto simp: createRotationChallenge_def split: if_splits\<close>)
  moreover have "advances a c" if "setRotationRequestState org i x y b = (n, c)" "advances a b" for i x y n b c
    by (rule advances_thenI[OF that(2) advances_rotation_state[OF _ that(1)]])
  ultimately show ?thesis using assms
    by (auto simp: issueRotationChallenge_tx_def advances_refl split: option.splits prod.splits)
qed

lemma answer_advances:
  assumes "shield_ok a"
  shows "advances a (snd (verifyRotationPossession_tx pl org r c v vid now a))"
proof -
  have "advances a b" if "createRotationVerification w a = Some b" for w b
    by (rule advances_same[OF assms, of _ "[]" "[]"]) (use that in \<open>auto simp: createRotationVerification_def split: if_splits\<close>)
  then show ?thesis using assms by (auto simp: verifyRotationPossession_tx_def advances_refl split: option.splits)
qed

lemma finish_advances:
  assumes "shield_ok a" "pending_ok a w"
  shows "advances a (finish_call pl cr iso_string u w a)"
  using assms by (cases w)
    (simp_all add: observation_advances change_advances declare_advances request_advances challenge_advances answer_advances
      del: pending_ok.simps(3))

subsection \<open>What a call reads is true when it reads it\<close>

lemma known_current:
  assumes ok: "shield_ok db" and d: "d \<in> set (sd_devices db)" and k: "currentKey d db = Some k"
  shows "known_device d db" "known_key d k db"
proof -
  show "known_device d db" by (rule known_device_here[OF d])
  have "k = last (keys_of d db)" "last (keys_of d db) \<in> set (keys_of d db)" "keys_ok d db"
    using current_is_last[OF ok d] k ok d by (auto simp: shield_ok_def)
  then have k: "k \<in> set (sd_keys db)" "dk_organisationId k = dv_organisationId d" "dk_deviceId k = dv_id d" "dk_status k \<noteq> ROTATED"
    by (auto simp: in_keys_of keys_ok_def Let_def)
  then show "known_key d k db" unfolding known_key_def by (auto simp: same_key_def intro: bexI[of _ k])
qed

lemma begin_pending:
  assumes ok: "shield_ok db" and w: "begin_call pl cr db call = Some w"
  shows "pending_ok db w"
proof (cases call)
  case (Observe org dev)
  then show ?thesis using w known_current[OF ok] findDevice_Some[of org dev db]
    by (auto simp: recordAttestationObservation_read_def split: option.splits sum.splits)
next
  case (Change p org dev to reason)
  then show ?thesis using w findDevice_Some[of org dev db]
    by (auto simp: changeDeviceTrust_read_def known_device_here split: option.splits sum.splits if_splits)
next
  case (Declare p org dev disp reason)
  then show ?thesis using w known_current[OF ok] findDevice_Some[of org dev db]
    by (auto simp: declareDisposition_read_def split: option.splits sum.splits if_splits)
next
  case (Propose p org dev pk st)
  then show ?thesis using w known_current[OF ok] findDevice_Some[of org dev db]
    by (auto simp: requestKeyRotation_read_def split: option.splits sum.splits if_splits)
next
  case (Challenge p org req)
  have "ro_organisationId r = org" if "findRotationRequest org req db = Some r" for r
    using that find_SomeD[of _ "sd_rotations db" r] by (auto simp: findRotationRequest_def)
  then show ?thesis using w Challenge
    by (auto simp: issueRotationChallenge_read_def split: option.splits sum.splits if_splits)
next
  case (Answer org req ch resp)
  then show ?thesis using w by (auto split: sum.splits)
qed

lemma shield_step_ok:
  assumes "shield_system_ok s"
  shows "shield_system_ok (shield_step pl cr iso_string act s) \<and> shield_before (sh_db s) (sh_db (shield_step pl cr iso_string act s))"
proof -
  have ok: "shield_ok (sh_db s)" and pend: "\<And>w. w \<in> set (sh_pending s) \<Longrightarrow> pending_ok (sh_db s) w"
    using assms by (auto simp: shield_system_ok_def)
  have db: "shield_system_ok (s\<lparr>sh_db := b\<rparr>) \<and> shield_before (sh_db s) b" if "advances (sh_db s) b" for b
    using that pend pending_ok_before by (fastforce simp: advances_def shield_system_ok_def)
  show ?thesis
  proof (cases act)
    case (Begin call)
    then show ?thesis using assms ok pend begin_pending[OF ok]
      by (auto simp: shield_system_ok_def split: option.splits)
  next
    case (Finish n u)
    show ?thesis
    proof (cases "n < length (sh_pending s)")
      case True
      let ?b = "finish_call pl cr iso_string u (sh_pending s ! n) (sh_db s)"
      have "advances (sh_db s) ?b" by (rule finish_advances[OF ok pend[OF nth_mem[OF True]]])
      then show ?thesis using True Finish pend pending_ok_before[of "sh_db s" _ ?b]
        by (auto simp: advances_def shield_system_ok_def dest: in_set_takeD in_set_dropD)
    qed (use assms Finish in simp)
  next
    case (Enroll c now)
    then show ?thesis using assms db enrol_advances[OF ok] by (auto split: option.splits)
  next
    case (Commit_Rotation p org req ch pf row trace now)
    then show ?thesis using db commit_advances[OF ok] by simp
  next
    case (Ceremony rows os replay)
    have "advances (sh_db s) ((sh_db s)\<lparr>sd_enrollments := rows,
        sd_observations := sd_observations (sh_db s) @ filter (\<lambda>r. ob_deviceId r = None) os, sd_replay := replay\<rparr>)"
      by (rule advances_same[OF ok, of _ "filter (\<lambda>r. ob_deviceId r = None) os" "[]"]) simp_all
    then show ?thesis using db Ceremony by simp
  qed
qed

interpretation registry: forward_machine shield_system_ok "shield_step pl cr iso_string"
    "\<lambda>s t. shield_before (sh_db s) (sh_db t)" for pl cr iso_string
  by unfold_locales (use shield_step_ok shield_before_trans in auto)

lemma shield_empty_ok: "shield_system_ok \<lparr>sh_db = empty_shield, sh_pending = []\<rparr>"
  by (simp add: shield_system_ok_def shield_ok_def empty_shield_def)

lemma shield_run_ok: "shield_system_ok (shield_run pl cr iso_string acts)"
  unfolding shield_run_def by (rule registry.run_inv[OF shield_empty_ok])

end
