(* ===== verification/Shield_Writes.thy ===== *)
theory Shield_Writes
  imports Shield_Runs
begin

text \<open>
  What the calls of the registry may do to the device rows, once for every relation that the writes of a
  trust, of a revocation and of the current key respect.
\<close>

lemma create_keeps_devices:
  "createDeviceKey k a = Some b \<Longrightarrow> sd_devices b = sd_devices a"
  "createRotationRequest r a = Some b \<Longrightarrow> sd_devices b = sd_devices a"
  "createRotationChallenge c a = Some b \<Longrightarrow> sd_devices b = sd_devices a"
  "createRotationVerification v a = Some b \<Longrightarrow> sd_devices b = sd_devices a"
  "setRotationRequestState org i x y a = (n, b) \<Longrightarrow> sd_devices b = sd_devices a"
  "markDeviceKeyRotated org kid t a = (n, b) \<Longrightarrow> sd_devices b = sd_devices a"
  by (auto simp: createDeviceKey_def createRotationRequest_def createRotationChallenge_def
      createRotationVerification_def setRotationRequestState_def markDeviceKeyRotated_def split: if_splits prod.splits)

lemma create_keeps_states:
  "createDeviceKey k a = Some b \<Longrightarrow> sd_enrollments b = sd_enrollments a"
  "createRotationRequest r a = Some b \<Longrightarrow> sd_enrollments b = sd_enrollments a"
  "createRotationChallenge c a = Some b \<Longrightarrow> sd_enrollments b = sd_enrollments a"
  "createRotationVerification v a = Some b \<Longrightarrow> sd_enrollments b = sd_enrollments a"
  "setRotationRequestState org i x y a = (n, b) \<Longrightarrow> sd_enrollments b = sd_enrollments a"
  "markDeviceKeyRotated org kid t a = (n, b) \<Longrightarrow> sd_enrollments b = sd_enrollments a"
  by (auto simp: createDeviceKey_def createRotationRequest_def createRotationChallenge_def
      createRotationVerification_def setRotationRequestState_def markDeviceKeyRotated_def split: if_splits prod.splits)

lemma rotation_keeps_devices:
  "sd_devices (snd (requestKeyRotation_create pl cr iso_string org d k i a)) = sd_devices a"
  "sd_devices (snd (issueRotationChallenge_tx org r ch nonce now a)) = sd_devices a"
  "sd_devices (snd (verifyRotationPossession_tx pl org r c v vid now a)) = sd_devices a"
  by (auto simp: requestKeyRotation_create_def issueRotationChallenge_tx_def verifyRotationPossession_tx_def Let_def
      create_keeps_devices split: option.split prod.split)

lemma rotation_keeps_states:
  "sd_enrollments (snd (requestKeyRotation_create pl cr iso_string org d k i a)) = sd_enrollments a"
  "sd_enrollments (snd (issueRotationChallenge_tx org r ch nonce now a)) = sd_enrollments a"
  "sd_enrollments (snd (verifyRotationPossession_tx pl org r c v vid now a)) = sd_enrollments a"
  by (auto simp: requestKeyRotation_create_def issueRotationChallenge_tx_def verifyRotationPossession_tx_def Let_def
      create_keeps_states split: option.split prod.split)

text \<open>\<open>admits\<close> is the trust a write may set; the relation need only bear those.\<close>

locale device_relation =
  fixes rel :: "shield_db \<Rightarrow> shield_db \<Rightarrow> bool"
    and admits :: "device_trust \<Rightarrow> bool"
  assumes same: "sd_devices b = sd_devices a \<Longrightarrow> sd_enrollments b = sd_enrollments a \<Longrightarrow> rel a b"
    and rel_trans: "rel a b \<Longrightarrow> rel b c \<Longrightarrow> rel a c"
    and trust_written: "admits to \<Longrightarrow> setDeviceTrust org dev from to a = (n, b) \<Longrightarrow> rel a b"
    and revocation_written: "admits to \<Longrightarrow> rel a (setDeviceRevocation org dev disp at_ms to a)"
    and pointer_written: "advanceDeviceCurrentKey org dev x y a = (n, b) \<Longrightarrow> rel a b"
    and admits_lower: "to \<noteq> TRUST_TRUSTED \<Longrightarrow> admits to"
begin

lemma rel_refl [simp]: "rel a a"
  by (rule same) simp_all

lemma event: "rel a b \<Longrightarrow> rel a (recordEvent e b)"
  by (rule rel_trans[OF _ same]) (simp_all add: recordEvent_def)

lemma applied: "admits (tm_to i) \<Longrightarrow> applyTrustTransition i a = (out, b) \<Longrightarrow> rel a b"
  by (auto simp: applyTrustTransition_def Let_def same appendTrustTransition_def
      intro: rel_trans[OF trust_written same] split: option.splits prod.splits if_splits)

lemma moved: "admits (tm_to i) \<Longrightarrow> rel b
    (case applyTrustTransition i b of (Inl r, c) \<Rightarrow> c | (Inr (prev, new), c) \<Rightarrow> recordEvent (ev prev new) c)"
  by (cases "applyTrustTransition i b") (auto dest: applied intro: event split: sum.splits)

lemma observed: "rel a (snd (recordAttestationObservation_tx pl iso_string d k e trace now a))"
proof (cases "date_parse pl (ae_evaluated_at e)")
  case None
  then show ?thesis by (simp add: recordAttestationObservation_tx_def Let_def)
next
  case (Some at_ms)
  let ?row = "\<lparr>ob_id = ae_observation_id e, ob_organisationId = dv_organisationId d, ob_deviceId = Some (dv_id d),
    ob_enrollmentRequestId = None, ob_outcome = ae_outcome e, ob_attestationReference = ae_attestation_reference e,
    ob_evaluatedAt = at_ms, ob_observedAt = now, ob_traceId = trace\<rparr>"
  show ?thesis
  proof (cases "appendAttestationObservation ?row a")
    case None
    then show ?thesis using Some by (simp add: recordAttestationObservation_tx_def Let_def)
  next
    case (Some b)
    have ab: "rel a b" using Some by (auto simp: appendAttestationObservation_def intro!: same split: if_splits)
    have "rel b (snd (recordAttestationObservation_tx pl iso_string d k e trace now a))"
      using Some \<open>date_parse pl (ae_evaluated_at e) = Some at_ms\<close>
      by (simp add: recordAttestationObservation_tx_def Let_def) (auto intro!: moved admits_lower)
    then show ?thesis by (rule rel_trans[OF ab])
  qed
qed

lemma changed: "admits to \<Longrightarrow> rel a (snd (changeDeviceTrust_tx pl iso_string p org d to reason trace now a))"
proof -
  assume to: "admits to"
  have "rel a (snd (case applyTrustTransition i a of (Inl r, b) \<Rightarrow> (Inl r, b)
      | (Inr (prev, new), b) \<Rightarrow> (Inr (prev, new), recordEvent (ev prev new) b)))" if "tm_to i = to" for i and ev :: "device_trust \<Rightarrow> device_trust \<Rightarrow> event_row"
    using that to by (cases "applyTrustTransition i a") (auto dest: applied intro: event split: sum.splits)
  then show ?thesis by (simp add: changeDeviceTrust_tx_def Let_def split: option.split)
qed

lemma declared: "rel a (snd (declareDisposition_tx pl iso_string p org d k disp reason trace now a))"
proof -
  define i where "i = declaration_input pl iso_string p org d k disp reason trace now a"
  have lower: "admits (disposition_trust disp)" by (rule admits_lower) (simp add: disposition_trust_def)
  then have to: "admits (tm_to i)" by (simp add: i_def declaration_input_def)
  obtain out b where run: "applyTrustTransition i a = (out, b)" by (cases "applyTrustTransition i a") auto
  have ab: "rel a b" by (rule applied[OF to run])
  have revoked: "rel a (setDeviceRevocation org (dv_id d) disp r (disposition_trust disp) b)" for r
    by (rule rel_trans[OF ab revocation_written[OF lower]])
  have keyed: "rel a c'" if "withdrawDeviceKey org kid x y t disp c = (n, c')" "rel a c" for kid x y t c n c'
    by (rule rel_trans[OF that(2) same]) (use that(1) in \<open>auto simp: withdrawDeviceKey_def updateMany_def\<close>)
  note facts = run[unfolded i_def] ab keyed[OF _ revoked[of "Some now"]]
  show ?thesis
  proof (cases disp)
    case LOST
    then show ?thesis using run[unfolded i_def] ab revoked[of None]
      by (simp add: declareDisposition_tx_def Let_def disposition_key_target_def event split: sum.split)
  next
    case STOLEN
    then show ?thesis using facts
      by (simp add: declareDisposition_tx_def Let_def disposition_key_target_def event split: sum.split prod.split)
  next
    case COMPROMISED_KEY
    then show ?thesis using facts
      by (simp add: declareDisposition_tx_def Let_def disposition_key_target_def event split: sum.split prod.split)
  qed
qed

lemma rotated:
  assumes "rotate_effect p org trace rowId fp now l a = Inr b"
  shows "rel a b"
proof -
  obtain n m i1 i2 x y i3 i4 st a1 a2 a3 a4 e where *: "markDeviceKeyRotated org i1 now a = (n, a1)" "createDeviceKey i2 a1 = Some a2"
      "advanceDeviceCurrentKey org i3 x y a2 = (m, a3)" "setRotationRequestState org i4 st ROTATION_STATE_ROTATED a3 = (1, a4)"
      "b = recordEvent e a4"
    using assms by (auto simp: rotate_effect_def Let_def split: prod.splits if_splits option.splits)
  have "rel a a2" "rel a3 a4" using * by (simp_all add: same create_keeps_devices create_keeps_states)
  then have "rel a a4" using pointer_written[OF *(3)] by (blast intro: rel_trans)
  then show ?thesis unfolding *(5) by (rule event)
qed

lemma committed: "rel a (snd (commitKeyRotation pl cr iso_string p org req ch proof_opt rowId trace now a))"
proof -
  have "rel a b" if "rotate_effect p org trace rowId fp now l (a\<lparr>sd_replay := rp\<rparr>) = Inr b" for fp l rp b
    using rel_trans[OF same rotated[OF that]] by simp
  then show ?thesis
    by (auto simp: commitKeyRotation_def Let_def event split: option.split prod.split rotation_decision.split sum.split)
qed

text \<open>Every call the registry finishes, as long as it sets no trust the relation cannot bear.\<close>

lemma finished:
  assumes "\<And>p org d to reason. w = Changing p org d to reason \<Longrightarrow> admits to"
  shows "rel a (finish_call pl cr iso_string u w a)"
  using assms by (cases w)
    (auto intro: observed changed declared same simp: rotation_keeps_devices rotation_keeps_states)

end

end
