(* ===== verification/Shield_Properties.thy ===== *)
theory Shield_Properties
  imports Shield_Writes
begin

text \<open>
  What the registry guarantees of every run of its services, however their calls interleave: the trust
  and the keys of each device, what can never be taken back once a credential is withdrawn, and how a
  device comes to be trusted. Then the places where a run ends up where the code's comments say it
  cannot. The runs the witnesses evaluate start from one enrolled device.
\<close>

subsection \<open>A device to start from\<close>

definition demo_crypto :: crypto where
  "demo_crypto = \<lparr>cr_imports = (\<lambda>_. True), cr_verify = (\<lambda>_ _ _. True), cr_sha_bytes = (\<lambda>_. replicate 64 CHR ''a'')\<rparr>"

definition demo_boss :: principal where
  "demo_boss = \<lparr>pr_user_id = ''boss'', pr_clearance = 3, pr_organisation_id = ''org'',
     pr_roles = [\<lparr>ra_role = ''site.commander'', ra_site_id = None\<rparr>]\<rparr>"

definition demo_enrolment :: "string \<Rightarrow> commit_context" where
  "demo_enrolment dev = \<lparr>cx_organisationId = ''org'', cx_enrollmentRequestId = ''enr'', cx_deviceId = dev,
     cx_keyId = ''k1'', cx_key_row_id = ''row1'', cx_observation_id = ''ob1'', cx_traceId = ''t'', cx_fingerprint = ''f'',
     cx_grant_id = ''g'', cx_grant_siteId = ''site'', cx_grant_intendedUserId = ''u'', cx_grant_issuedByUserId = ''boss'',
     cx_intended_user_id = ''u'', cx_site_id = ''site'', cx_custody = PERSONAL, cx_assigned_user_id = Some ''u'',
     cx_custody_regime_id = None, cx_publicKey = ''pk1'', cx_publicKeyThumbprint = ''th1'',
     cx_keyStorage = HARDWARE_BACKED, cx_attestation_outcome = AT_VERIFIED, cx_attestation_reference = None,
     cx_attestation_evaluated_at = ''10'', cx_approved_by_user_id = ''boss''\<rparr>"

text \<open>What the second half of a call is handed, at a given time.\<close>

definition demo_supplies :: "int \<Rightarrow> supplies" where
  "demo_supplies now = \<lparr>su_now = now, su_traceId = ''t'', su_row_id = ''r1'', su_key_id = ''k2'', su_nonce = ''n'',
     su_evidence = \<lparr>ae_outcome = AT_VERIFIED, ae_evaluated_at = ''20'', ae_attestation_reference = None, ae_observation_id = ''ob2''\<rparr>\<rparr>"

definition demo_enrolled :: "shield_act list" where
  "demo_enrolled = [Ceremony [\<lparr>ce_id = ''enr'', ce_organisationId = ''org'', ce_state = ENR_POSSESSION_PROVEN\<rparr>] [] Map.empty,
     Enroll (demo_enrolment ''dev'') 10]"

definition demo_declare :: "disposition \<Rightarrow> shield_act list" where
  "demo_declare disp = [Begin (Declare demo_boss ''org'' ''dev'' disp ''gone''), Finish 0 (demo_supplies 30)]"


abbreviation "demo_shield acts \<equiv> shield_run (example_platform []) demo_crypto show_int (demo_enrolled @ acts)"

text \<open>The state after the enrolment, so that the runs below need not compute it again.\<close>

definition demo_start :: shield_system where
  "demo_start = (let ns = ''device-seq:'' @ replicate 64 CHR ''a''; note = (\<lambda>e. \<lparr>et_organisationId = ''org'', et_deviceId = ''dev'',
       et_actorUserId = Some ''boss'', et_event = e, et_occurredAt = 10, et_traceId = ''t''\<rparr>)
   in \<lparr>sh_db = empty_shield\<lparr>
     sd_devices := [\<lparr>dv_id = ''dev'', dv_organisationId = ''org'', dv_custody = PERSONAL, dv_enrolledByUserId = ''boss'',
       dv_intendedUserId = ''u'', dv_sequenceNamespaceId = ns, dv_trust = TRUST_TRUSTED, dv_revocationDisposition = None,
       dv_revokedAt = None, dv_currentKeyId = Some ''k1'', dv_currentKeyVersion = Some 1, dv_enrollmentRequestId = ''enr'',
       dv_enrolledAt = 10\<rparr>],
     sd_keys := [\<lparr>dk_id = ''row1'', dk_organisationId = ''org'', dk_deviceId = ''dev'', dk_keyId = ''k1'', dk_keyVersion = 1,
       dk_publicKey = ''pk1'', dk_publicKeyThumbprint = ''th1'', dk_signatureProfile = ''P256_ECDSA_SHA256'',
       dk_keyStorage = HARDWARE_BACKED, dk_status = CURRENT, dk_registeredAt = 10, dk_rotatedAt = None, dk_revokedAt = None,
       dk_revocationDisposition = None\<rparr>],
     sd_scopes := [\<lparr>sc_organisationId = ''org'', sc_deviceId = ''dev'', sc_siteId = ''site'', sc_custody = PERSONAL,
       sc_assignedUserId = Some ''u'', sc_custodyRegimeId = None, sc_associatedAt = 10, sc_releasedAt = None\<rparr>],
     sd_observations := [\<lparr>ob_id = ''ob1'', ob_organisationId = ''org'', ob_deviceId = Some ''dev'', ob_enrollmentRequestId = Some ''enr'',
       ob_outcome = AT_VERIFIED, ob_attestationReference = None, ob_evaluatedAt = 10, ob_observedAt = 10, ob_traceId = ''t''\<rparr>],
     sd_transitions := [\<lparr>tn_organisationId = ''org'', tn_deviceId = ''dev'', tn_previousTrust = None, tn_newTrust = TRUST_TRUSTED,
       tn_reason = ''ENROLLMENT_INITIAL_TRUST'', tn_evidenceRefs = [''f'', ''attestation:CURRENT''],
       tn_authorisedByUserId = Some ''boss'', tn_occurredAt = 10, tn_traceId = ''t''\<rparr>],
     sd_events := [note (BOOTSTRAP_CONSUMED ''g'' ''site'' ''u'' ''enr'' ''f''),
       note (DEVICE_ENROLLED ''dev'' ''enr'' ''f'' ''site'' PERSONAL ns ''k1'' 1 ''th1'' HARDWARE_BACKED ''P256_ECDSA_SHA256'' TRUST_TRUSTED),
       note (TRUST_CHANGED None TRUST_TRUSTED ''ENROLLMENT_INITIAL_TRUST'' (Some ''boss''))],
     sd_enrollments := [\<lparr>ce_id = ''enr'', ce_organisationId = ''org'', ce_state = ENR_ENROLLED\<rparr>]\<rparr>,
    sh_pending = []\<rparr>)"

lemma demo_namespace: "deviceSequenceNamespaceId (example_platform []) org dev = Some (''device-seq:'' @ replicate 64 CHR ''a'')"
  by (simp add: deviceSequenceNamespaceId_def device_canonical_digest_def canonical_device_json_def example_platform_def)

lemma demo_evaluated: "date_parse (example_platform []) ''10'' = Some 10"
  by (simp add: example_platform_def digits_value_def)

lemma printed_date: "date_parse (example_platform docs) (show_int (int n)) = Some (int n)"
  using digits_value_show[of n] by (cases "show_nat n = []") (auto simp: show_int_def example_platform_def)

lemma boss_authority:
  assumes "action \<in> {''device.trust.manage'', ''device.key.rotate'', ''device.revoke'', ''device.trust.restore''}"
  shows "hasAction demo_boss action" "checkGlobalDeviceMutationAuthority demo_boss action ''org'' sites = None"
proof -
  have "roleHasAction ''site.commander'' action" using assms by (auto simp: roleHasAction_def ROLE_ACTIONS_def lookup_def)
  then show "hasAction demo_boss action" "checkGlobalDeviceMutationAuthority demo_boss action ''org'' sites = None"
    by (simp_all add: global_authority_exact) (simp_all add: demo_boss_def hasAction_def intersectSiteScope_def granting_def)
qed

lemma demo_commits: "performCommit (example_platform []) show_int (demo_enrolment ''dev'') 10
    (empty_shield\<lparr>sd_enrollments := [\<lparr>ce_id = ''enr'', ce_organisationId = ''org'', ce_state = ENR_POSSESSION_PROVEN\<rparr>]\<rparr>)
  = Some (sh_db demo_start)"
  by (simp add: performCommit_def Let_def demo_namespace demo_evaluated demo_enrolment_def enrollment_standing_def evaluateAttestationStanding_def
      DEVICE_NEGATIVE_ATTESTATION_OUTCOMES_def initialDeviceTrustOnEnrollment_def deviceKeyStoragePermitsTrusted_def createDevice_def
      createDeviceKey_def createDeviceSiteScope_def findDevice_def is_device_def appendAttestationObservation_def appendTrustTransition_def
      advanceEnrollmentState_def updateMany_def recordEvent_def empty_shield_def demo_start_def SERVER_SELECTED_SIGNATURE_PROFILE_def
      DEVICE_SIGNATURE_PROFILES_def)

lemma demo_run: "shield_run (example_platform []) demo_crypto show_int (demo_enrolled @ acts)
    = fold (shield_step (example_platform []) demo_crypto show_int) acts demo_start"
proof -
  have "empty_shield\<lparr>sd_enrollments := r, sd_observations := sd_observations empty_shield, sd_replay := Map.empty\<rparr>
      = empty_shield\<lparr>sd_enrollments := r\<rparr>" for r by (simp add: empty_shield_def)
  then show ?thesis using demo_commits by (simp add: shield_run_def demo_enrolled_def) (simp add: demo_start_def Let_def)
qed

subsection \<open>Every reachable state\<close>

lemma reachable_shield: "shield_ok (sh_db (shield_run pl cr iso_string acts))"
  using shield_run_ok by (simp add: shield_system_ok_def)

lemma run_later: "shield_before (sh_db (shield_run pl cr iso_string acts)) (sh_db (shield_run pl cr iso_string (acts @ later)))"
  using registry.run_before[OF shield_run_ok] by (simp add: shield_run_def)

lemma chained_end: "chained p ts \<Longrightarrow> list_all (\<lambda>t. tn_newTrust t \<noteq> TRUST_COMPROMISED) (butlast ts)"
proof (induction p ts rule: chained.induct)
  case (2 p t ts)
  then show ?case by (cases ts) auto
qed simp

text \<open>
  C33: The recorded history of a device explains its trust. In every reachable state of the
  registry, each device has a history of trust transitions that starts from none, in which each
  transition starts where the one before ended and follows an edge of the matrix, and which ends
  in the trust the device has; COMPROMISED occurs at most as the last trust of a history.
\<close>

theorem trust_history_explains:
  "let db = sh_db (shield_run pl cr iso_string acts) in
     list_all (\<lambda>d. history d db \<noteq> [] \<and> chained None (history d db)
       \<and> tn_newTrust (last (history d db)) = dv_trust d
       \<and> list_all (\<lambda>t. tn_newTrust t \<noteq> TRUST_COMPROMISED) (butlast (history d db)))
     (sd_devices db)"
  using reachable_shield[of pl cr iso_string acts] chained_end
  by (auto simp: Let_def list_all_iff shield_ok_def trail_ok_def)

text \<open>
  C34: The keys of a device. In every reachable state, the keys of each device, in the order they
  were registered, have the versions 1, 2, 3 and so on; all but the last are ROTATED and the last
  is not; a key has a rotation instant exactly when it is ROTATED and a revocation instant exactly
  when it is withdrawn; the device's pointer resolves to the last key and its version. Every key
  belongs to a device that exists, and every key after the first has the bytes and storage of the
  one proposal for its version.
\<close>

theorem one_current_key_per_device:
  "let db = sh_db (shield_run pl cr iso_string acts) in
     list_all (\<lambda>d. keys_of d db \<noteq> [] \<and> map dk_keyVersion (keys_of d db) = map int [1..<Suc (length (keys_of d db))]
       \<and> list_all (\<lambda>k. dk_status k = ROTATED) (butlast (keys_of d db))
       \<and> list_all dated (keys_of d db)
       \<and> dk_status (last (keys_of d db)) \<noteq> ROTATED
       \<and> currentKey d db = Some (last (keys_of d db))
       \<and> dv_currentKeyVersion d = Some (dk_keyVersion (last (keys_of d db))))
     (sd_devices db)
   \<and> list_all (\<lambda>k. provenance k db \<and> list_ex (\<lambda>d. dv_id d = dk_deviceId k) (sd_devices db)) (sd_keys db)"
proof -
  define db where "db = sh_db (shield_run pl cr iso_string acts)"
  have ok: "shield_ok db" by (simp add: db_def reachable_shield)
  have "keys_ok d db \<and> currentKey d db = Some (last (keys_of d db))" if "d \<in> set (sd_devices db)" for d
    using ok that current_is_last[OF ok that] by (simp add: shield_ok_def)
  moreover have "provenance k db \<and> (\<exists>d\<in>set (sd_devices db). dv_id d = dk_deviceId k)" if "k \<in> set (sd_keys db)" for k
    using ok that by (force simp: shield_ok_def)
  ultimately show ?thesis
    unfolding db_def[symmetric] Let_def list_all_iff list_ex_iff by (simp add: keys_ok_def Let_def list_all_iff)
qed

subsection \<open>A withdrawn credential\<close>

lemma withdrawn_stays:
  assumes "key_before k l" "withdrawn k"
  shows "withdrawn l"
  using assms by (cases "dk_status k"; cases "dk_status l")
    (auto simp: key_before_def withdrawn_def canTransitionDeviceKeyLifecycle_def ALLOWED_DEVICE_KEY_LIFECYCLE_TRANSITIONS_def)

text \<open>
  C8: A withdrawn credential never comes back. Once a device's current key is revoked or
  compromised, then after any sequence of calls of the registry's services, however interleaved,
  and of enrolments and rotation commits, the device is still there, its current key is still that
  key with the same bytes and still withdrawn, its trust is neither TRUSTED nor DEGRADED, no new
  operation is admitted, and it may act for no purpose at any time.
\<close>

theorem withdrawn_credential_never_returns:
  assumes s: "a = sh_db (shield_run pl cr iso_string acts)"
    and d: "findDevice org dev a = Some d" "currentKey d a = Some k" "withdrawn k"
    and t: "b = sh_db (shield_run pl cr iso_string (acts @ later))"
  shows "\<exists>e l. findDevice org dev b = Some e \<and> currentKey e b = Some l \<and> key_before k l \<and> withdrawn l
    \<and> dv_trust e \<notin> set DEVICE_TRUST_UPWARD_TARGETS
    \<and> \<not> credentialAdmitsNewOperations org dev b \<and> \<not> deviceMayAct pl iso_string org dev purpose now b"
proof -
  have ok: "shield_ok a" "shield_ok b" and fwd: "shield_before a b" by (simp_all add: s t reachable_shield run_later)
  have din: "d \<in> set (sd_devices a)" "dv_id d = dev" "dv_organisationId d = org" using findDevice_Some[OF d(1)] by auto
  have kin: "k = last (keys_of d a)" "k \<in> set (keys_of d a)" using current_is_last[OF ok(1) din(1)] d(2) by auto
  obtain e where e: "e \<in> set (sd_devices b)" "same_device d e"
    using fwd din(1) by (auto simp: shield_before_def known_device_def)
  obtain l where l: "l \<in> set (sd_keys b)" "key_before k l" using fwd kin(2) by (auto simp: shield_before_def in_keys_of)
  have lw: "withdrawn l" by (rule withdrawn_stays[OF l(2) d(3)])
  have le: "l \<in> set (keys_of e b)" using l e(2) kin(2) by (auto simp: in_keys_of key_before_def same_key_def same_device_def)
  have "l = last (keys_of e b)" by (rule not_rotated_is_last[OF ok(2) e(1) le]) (use lw in \<open>auto simp: withdrawn_def\<close>)
  then have cur: "currentKey e b = Some l" and low: "dv_trust e \<notin> set DEVICE_TRUST_UPWARD_TARGETS"
    using current_is_last[OF ok(2) e(1)] ok(2) e(1) lw by (auto simp: shield_ok_def keys_ok_def Let_def)
  moreover have found: "findDevice org dev b = Some e"
    using findDevice_here[OF ok(2) e(1)] e(2) din by (simp add: same_device_def)
  moreover have "keyLevelWithdrawn (Some l)"
    using lw by (auto simp: keyLevelWithdrawn_def withdrawn_def deviceKeyStatePermitsNewOperations_def)
  ultimately show ?thesis
    using l(2) lw by (auto simp: credentialAdmitsNewOperations_def deviceMayAct_def)
qed

text \<open>After the key is reported compromised a commander tries to trust the device again.\<close>

definition demo_trust :: "device_trust \<Rightarrow> int \<Rightarrow> shield_act list" where
  "demo_trust to now = [Begin (Change demo_boss ''org'' ''dev'' to ''back''), Finish 0 (demo_supplies now)]"

theorem withdrawn_credential_never_returns_witness:
  "let b = sh_db (demo_shield (demo_declare STOLEN @ demo_trust TRUST_TRUSTED 40)) in
    \<exists>e l. findDevice ''org'' ''dev'' b = Some e \<and> currentKey e b = Some l \<and> withdrawn l
    \<and> dv_trust e \<notin> set DEVICE_TRUST_UPWARD_TARGETS
    \<and> \<not> credentialAdmitsNewOperations ''org'' ''dev'' b
    \<and> \<not> deviceMayAct (example_platform []) show_int ''org'' ''dev'' FIELD_OPERATION 50 b"
proof -
  let ?a = "sh_db (demo_shield (demo_declare STOLEN))"
  have "case findDevice ''org'' ''dev'' ?a of None \<Rightarrow> False | Some d \<Rightarrow> (case currentKey d ?a of None \<Rightarrow> False | Some k \<Rightarrow> withdrawn k)"
    unfolding demo_run by code_simp
  then obtain d k where "findDevice ''org'' ''dev'' ?a = Some d" "currentKey d ?a = Some k" "withdrawn k"
    by (auto split: option.splits)
  from withdrawn_credential_never_returns[OF refl this refl, of "demo_trust TRUST_TRUSTED 40" FIELD_OPERATION 50]
  show ?thesis by (auto simp: Let_def)
qed

subsection \<open>How a device comes to be trusted\<close>

text \<open>Every device that is trusted in \<open>b\<close> was trusted in \<open>a\<close>.\<close>

definition no_rise :: "shield_db \<Rightarrow> shield_db \<Rightarrow> bool" where
  "no_rise a b \<longleftrightarrow> list_all (\<lambda>d. dv_trust d \<noteq> TRUST_TRUSTED
     \<or> list_ex (\<lambda>e. same_device e d \<and> dv_trust e = TRUST_TRUSTED) (sd_devices a)) (sd_devices b)"

lemma no_rise_same: "sd_devices b = sd_devices a \<Longrightarrow> no_rise a b"
  by (auto simp: no_rise_def list_all_iff list_ex_iff same_device_def)

lemma no_rise_map: "sd_devices b = map f (sd_devices a)
    \<Longrightarrow> (\<And>d. d \<in> set (sd_devices a) \<Longrightarrow> same_device d (f d) \<and> (dv_trust (f d) = TRUST_TRUSTED \<longrightarrow> dv_trust d = TRUST_TRUSTED))
    \<Longrightarrow> no_rise a b"
  unfolding no_rise_def list_all_iff list_ex_iff by force

lemma no_rise_trans: "no_rise a b \<Longrightarrow> no_rise b c \<Longrightarrow> no_rise a c"
  unfolding no_rise_def list_all_iff list_ex_iff same_device_def by (metis (no_types, lifting))

lemma no_rise_revocation: "tr \<noteq> TRUST_TRUSTED \<Longrightarrow> no_rise a (setDeviceRevocation org dev disp at_ms tr a)"
  by (rule no_rise_map[where f = "\<lambda>d. if is_device org dev d then d\<lparr>dv_revocationDisposition := Some disp, dv_revokedAt := at_ms, dv_trust := tr\<rparr> else d"])
    (auto simp: setDeviceRevocation_def updateMany_def same_device_def)

lemma no_rise_set: "to \<noteq> TRUST_TRUSTED \<Longrightarrow> setDeviceTrust org dev from to a = (n, b) \<Longrightarrow> no_rise a b"
  by (rule no_rise_map[where f = "\<lambda>d. if is_device org dev d \<and> dv_trust d = from then dv_trust_update (\<lambda>_. to) d else d"])
    (auto simp: setDeviceTrust_def updateMany_def same_device_def)

lemma no_rise_pointer: "advanceDeviceCurrentKey org dev x y a = (n, b) \<Longrightarrow> no_rise a b"
  by (rule no_rise_map[where f = "\<lambda>d. if is_device org dev d \<and> dv_currentKeyId d = Some (fst x)
      \<and> dv_currentKeyVersion d = Some (snd x) then d\<lparr>dv_currentKeyId := Some (fst y), dv_currentKeyVersion := Some (snd y)\<rparr> else d"])
    (auto simp: advanceDeviceCurrentKey_def updateMany_def same_device_def)

interpretation rise: device_relation no_rise "\<lambda>t. t \<noteq> TRUST_TRUSTED"
  by unfold_locales (erule no_rise_same | erule (1) no_rise_trans | erule (1) no_rise_set
      | erule no_rise_revocation | erule no_rise_pointer | assumption)+

text \<open>
  What a step that makes a device trusted has established: an enrolment with a verified hardware key, or
  a trust change of a commander on a device whose current key is hardware backed and not withdrawn, at a
  time where the attestation qualifies, with the restoration capability where the device comes from
  suspicion or quarantine and an earlier trust where it comes from offline.
\<close>

definition trust_basis :: "platform \<Rightarrow> (int \<Rightarrow> string) \<Rightarrow> principal \<Rightarrow> string \<Rightarrow> string \<Rightarrow> int \<Rightarrow> shield_db \<Rightarrow> bool" where
  "trust_basis pl iso_string p org dev now db = (case findDevice org dev db of None \<Rightarrow> False
     | Some e \<Rightarrow> dv_revokedAt e = None
        \<and> (case currentKey e db of None \<Rightarrow> False
           | Some k \<Rightarrow> dk_status k = CURRENT \<and> dk_revokedAt k = None \<and> dk_keyStorage k = HARDWARE_BACKED)
        \<and> attestationStandingPermitsTrusted (effectiveAttestationStanding pl iso_string org dev now db)
        \<and> (dv_trust e \<in> set DEVICE_TRUST_RESTORATION_REQUIRED_FROM \<longrightarrow> hasAction p DEVICE_TRUST_RESTORATION_CAPABILITY)
        \<and> (dv_trust e = TRUST_OFFLINE \<longrightarrow> hasHeldTrusted org dev db))"

definition earned :: "platform \<Rightarrow> (int \<Rightarrow> string) \<Rightarrow> shield_act \<Rightarrow> shield_system \<Rightarrow> device_row \<Rightarrow> bool" where
  "earned pl iso_string act s d = (case act of
     Enroll c now \<Rightarrow> is_device (cx_organisationId c) (cx_deviceId c) d \<and> cx_keyStorage c = HARDWARE_BACKED
       \<and> cx_attestation_outcome c = AT_VERIFIED
   | Finish n u \<Rightarrow> (case sh_pending s ! n of
       Changing p org r to reason \<Rightarrow> to = TRUST_TRUSTED \<and> is_device org (dv_id r) d
         \<and> trust_basis pl iso_string p org (dv_id r) (su_now u) (sh_db s)
     | _ \<Rightarrow> False)
   | _ \<Rightarrow> False)"

lemma enrol_trusted:
  "initialDeviceTrustOnEnrollment (cx_keyStorage c) (enrollment_standing pl iso_string c now) = TRUST_TRUSTED
     \<longleftrightarrow> cx_keyStorage c = HARDWARE_BACKED \<and> cx_attestation_outcome c = AT_VERIFIED"
  by (cases "cx_attestation_outcome c"; cases "cx_keyStorage c") (simp_all add: initialDeviceTrustOnEnrollment_def enrollment_standing_def
      evaluateAttestationStanding_def DEVICE_NEGATIVE_ATTESTATION_OUTCOMES_def deviceKeyStoragePermitsTrusted_def)

lemma enrol_device:
  assumes "performCommit pl iso_string c now a = Some b"
  obtains d where "sd_devices b = sd_devices a @ [d]" "is_device (cx_organisationId c) (cx_deviceId c) d"
    "dv_trust d = initialDeviceTrustOnEnrollment (cx_keyStorage c) (enrollment_standing pl iso_string c now)"
proof -
  obtain d k t o' s i x y n b1 b2 b3 b4 b5 e1 e2 e3 where *: "createDevice d a = Some b1" "createDeviceKey k b1 = Some b2"
      "createDeviceSiteScope s b2 = Some b3" "appendAttestationObservation o' (appendTrustTransition t b3) = Some b4"
      "advanceEnrollmentState (cx_organisationId c) i x y b4 = (n, b5)" "b = recordEvent e1 (recordEvent e2 (recordEvent e3 b5))"
      "dv_id d = cx_deviceId c" "dv_organisationId d = cx_organisationId c"
      "dv_trust d = initialDeviceTrustOnEnrollment (cx_keyStorage c) (enrollment_standing pl iso_string c now)"
    using assms unfolding performCommit_def Let_def bind_eq_Some_conv
    by (force split: prod.splits if_splits)
  then show ?thesis
    by (intro that[of d]) (auto simp: createDevice_def createDeviceKey_def createDeviceSiteScope_def appendAttestationObservation_def
        appendTrustTransition_def advanceEnrollmentState_def recordEvent_def is_device_def split: if_splits prod.splits)
qed

lemma to_trusted:
  assumes "evaluateDeviceTrustTransition x TRUST_TRUSTED b = None"
  shows "\<not> tb_revoked b" "deviceKeyStoragePermitsTrusted (tb_keyStorage b)" "attestationStandingPermitsTrusted (tb_attestationStanding b)"
    "tb_credentialContinuityIntact b" "x = TRUST_OFFLINE \<Longrightarrow> tb_previouslyEligible b"
    "x \<in> set DEVICE_TRUST_RESTORATION_REQUIRED_FROM \<Longrightarrow> tb_controlledRestoration b \<noteq> None"
  using assms by (auto simp: evaluateDeviceTrustTransition_def Let_def DEVICE_TRUST_UPWARD_TARGETS_def split: if_splits option.splits)

lemma change_to_trusted:
  assumes ok: "shield_ok a" and run: "snd (changeDeviceTrust_tx pl iso_string p org r TRUST_TRUSTED reason trace now a) = b"
    and d: "d \<in> set (sd_devices b)" "dv_trust d = TRUST_TRUSTED"
    and fresh: "\<not> list_ex (\<lambda>e. same_device e d \<and> dv_trust e = TRUST_TRUSTED) (sd_devices a)"
  shows "is_device org (dv_id r) d \<and> trust_basis pl iso_string p org (dv_id r) now a"
proof -
  have moved: "sd_devices b \<noteq> sd_devices a"
    using d fresh by (auto simp: list_ex_iff same_device_def)
  then obtain e where e: "findDevice org (dv_id r) a = Some e"
    using run by (auto simp: changeDeviceTrust_tx_def DEVICE_TRUST_UPWARD_TARGETS_def Let_def split: option.splits)
  have ein: "e \<in> set (sd_devices a)" "dv_id e = dv_id r" "dv_organisationId e = org" using findDevice_Some[OF e] by auto
  let ?restores = "dv_trust e \<in> set DEVICE_TRUST_RESTORATION_REQUIRED_FROM"
  let ?may = "hasAction p DEVICE_TRUST_RESTORATION_CAPABILITY"
  let ?standing = "effectiveAttestationStanding pl iso_string org (dv_id r) now a"
  have up: "TRUST_TRUSTED \<in> set DEVICE_TRUST_UPWARD_TARGETS" by (simp add: DEVICE_TRUST_UPWARD_TARGETS_def)
  have may: ?may if "?restores"
  proof (rule ccontr)
    assume "\<not> ?may"
    then have "b = a" using run e that up by (simp add: changeDeviceTrust_tx_def Let_def)
    then show False using moved by simp
  qed
  define i where "i = \<lparr>tm_device = e, tm_key = currentKey e a, tm_to = TRUST_TRUSTED,
    tm_reason = reason, tm_evidenceRefs = [], tm_authorisedByUserId = Some (pr_user_id p),
    tm_restorationDecision = (if ?restores \<and> ?may then
       Some \<lparr>rd_decided_by_user_id = pr_user_id p, rd_capability = DEVICE_TRUST_RESTORATION_CAPABILITY, rd_decided_at = iso_string now\<rparr> else None),
    tm_standing = effectiveAttestationStanding pl iso_string (dv_organisationId e) (dv_id e) now a, tm_now = now, tm_traceId = trace\<rparr>"
  have i: "tm_device i = e" "tm_key i = currentKey e a" "tm_to i = TRUST_TRUSTED" "tm_standing i = ?standing"
    by (simp_all add: i_def ein)
  have nofail: "\<not> (?restores \<and> \<not> ?may)" using may by blast
  have devs: "sd_devices b = sd_devices (snd (applyTrustTransition i a))"
    using run e up nofail unfolding changeDeviceTrust_tx_def Let_def
    by (cases "applyTrustTransition i a") (auto simp: i_def[symmetric] recordEvent_def split: sum.splits)
  have ev: "evaluateDeviceTrustTransition (dv_trust e) TRUST_TRUSTED (transition_facts i a) = None"
    using moved devs i by (auto simp: applyTrustTransition_def Let_def split: option.splits)
  obtain n c where set: "setDeviceTrust org (dv_id r) (dv_trust e) TRUST_TRUSTED a = (n, c)"
    by (cases "setDeviceTrust org (dv_id r) (dv_trust e) TRUST_TRUSTED a") auto
  have c: "sd_devices b = sd_devices c"
    using devs ev set i ein by (auto simp: applyTrustTransition_def Let_def appendTrustTransition_def)
  have "is_device org (dv_id r) d"
    using ok set
  proof (cases rule: set_trust_cases)
    case none
    then show ?thesis using moved c by simp
  next
    case (one x)
    have "d \<notin> set (sd_devices a)" using d(2) fresh by (auto simp: list_ex_iff same_device_def)
    then have "d = x\<lparr>dv_trust := TRUST_TRUSTED\<rparr>" using d(1) c one by (auto split: if_splits)
    then show ?thesis using one by (simp add: is_device_def)
  qed
  moreover obtain k where "currentKey e a = Some k" "dk_status k = CURRENT" "dk_revokedAt k = None" "dk_keyStorage k = HARDWARE_BACKED" "dv_revokedAt e = None"
    using to_trusted(1,2,4)[OF ev] i
    by (auto simp: transition_facts_def credentialContinuityIntact_def deviceKeyStatePermitsNewOperations_def
        deviceKeyStoragePermitsTrusted_def split: option.splits if_splits)
  moreover have "attestationStandingPermitsTrusted ?standing" "dv_trust e = TRUST_OFFLINE \<Longrightarrow> hasHeldTrusted org (dv_id r) a"
    using to_trusted(3,5)[OF ev] i ein by (simp_all add: transition_facts_def)
  ultimately show ?thesis using e may by (simp add: trust_basis_def)
qed

text \<open>
  C9: No device becomes trusted without its basis. In a reachable state, a step after which a
  device is TRUSTED that was not before is either the enrolment of this device with a hardware-
  backed key and a verified attestation, or the transaction of a trust change to TRUSTED; and
  then, in the database the transaction runs in, the device is not revoked, its current key is
  CURRENT, unrevoked and hardware backed, the attestation standing at that time qualifies, the
  caller holds the restoration capability if the device was suspicious or quarantined, and an
  offline device has been trusted before.
\<close>

theorem trusted_is_earned:
  assumes s: "s = shield_run pl cr iso_string acts" and t: "t = shield_step pl cr iso_string act s"
    and d: "findDevice org dev (sh_db t) = Some d" "dv_trust d = TRUST_TRUSTED"
    and fresh: "map_option dv_trust (findDevice org dev (sh_db s)) \<noteq> Some TRUST_TRUSTED"
  shows "earned pl iso_string act s d"
proof -
  have ok: "shield_ok (sh_db s)" by (simp add: s reachable_shield)
  have din: "d \<in> set (sd_devices (sh_db t))" "dv_id d = dev" "dv_organisationId d = org" using findDevice_Some[OF d(1)] by auto
  have new: "\<not> list_ex (\<lambda>e. same_device e d \<and> dv_trust e = TRUST_TRUSTED) (sd_devices (sh_db s))"
    using fresh findDevice_here[OF ok] din by (fastforce simp: list_ex_iff same_device_def)
  then have rise: "\<not> no_rise (sh_db s) (sh_db t)"
    using din(1) d(2) by (auto simp: no_rise_def list_all_iff)
  show ?thesis
  proof (cases act)
    case (Enroll c now)
    then obtain b where b: "performCommit pl iso_string c now (sh_db s) = Some b" "sh_db t = b"
      using rise t by (auto simp: no_rise_same split: option.splits)
    obtain e where e: "sd_devices b = sd_devices (sh_db s) @ [e]" "is_device (cx_organisationId c) (cx_deviceId c) e"
        "dv_trust e = initialDeviceTrustOnEnrollment (cx_keyStorage c) (enrollment_standing pl iso_string c now)"
      by (rule enrol_device[OF b(1)])
    have "d \<notin> set (sd_devices (sh_db s))" using new d(2) by (auto simp: list_ex_iff same_device_def)
    then have "d = e" using din(1) b(2) e(1) by auto
    then show ?thesis using e d(2) enrol_trusted[of c pl iso_string now] by (simp add: earned_def Enroll)
  next
    case (Finish n u)
    then have n: "sh_db t = finish_call pl cr iso_string u (sh_pending s ! n) (sh_db s)"
      using rise t by (auto simp: no_rise_same split: if_splits)
    show ?thesis
    proof (cases "sh_pending s ! n")
      case (Changing p org' r to reason)
      have "to = TRUST_TRUSTED"
        using rise n Changing rise.changed by fastforce
      moreover have "is_device org' (dv_id r) d \<and> trust_basis pl iso_string p org' (dv_id r) (su_now u) (sh_db s)"
        by (rule change_to_trusted[OF ok _ din(1) d(2) new]) (use n Changing calculation in simp)
      ultimately show ?thesis using Changing Finish by (simp add: earned_def)
    qed (use n rise rise.finished[of "sh_pending s ! n"] in simp_all)
  qed (use rise t rise.committed in \<open>auto simp: no_rise_same split: option.splits\<close>)
qed

theorem trusted_is_earned_witness:
  "let s = demo_shield (demo_trust TRUST_SUSPICIOUS 30 @ [Begin (Change demo_boss ''org'' ''dev'' TRUST_TRUSTED ''back'')]);
       act = Finish 0 (demo_supplies 40); t = shield_step (example_platform []) demo_crypto show_int act s
   in map_option dv_trust (findDevice ''org'' ''dev'' (sh_db s)) = Some TRUST_SUSPICIOUS
     \<and> (case findDevice ''org'' ''dev'' (sh_db t) of None \<Rightarrow> False
        | Some d \<Rightarrow> dv_trust d = TRUST_TRUSTED \<and> earned (example_platform []) show_int act s d)"
proof -
  let ?s = "demo_shield (demo_trust TRUST_SUSPICIOUS 30 @ [Begin (Change demo_boss ''org'' ''dev'' TRUST_TRUSTED ''back'')])"
  let ?act = "Finish 0 (demo_supplies 40)"
  let ?t = "shield_step (example_platform []) demo_crypto show_int ?act ?s"
  have before: "map_option dv_trust (findDevice ''org'' ''dev'' (sh_db ?s)) = Some TRUST_SUSPICIOUS" unfolding demo_run by code_simp
  have "map_option dv_trust (findDevice ''org'' ''dev'' (sh_db ?t)) = Some TRUST_TRUSTED" unfolding demo_run by code_simp
  then obtain d where d: "findDevice ''org'' ''dev'' (sh_db ?t) = Some d" "dv_trust d = TRUST_TRUSTED" by auto
  have "earned (example_platform []) show_int ?act ?s d"
    by (rule trusted_is_earned[OF refl refl d]) (simp add: before)
  then show ?thesis using before d by (simp add: Let_def)
qed

end
