(* ===== verification/Shield_Gaps.thy ===== *)
theory Shield_Gaps
  imports Shield_Properties
begin

text \<open>
  Where the registry's services end up against what their own comments and decision records ask: a
  device reported lost cannot be reported stolen, a stolen device reported lost is no longer recorded as
  revoked, a rotation leaves a device trusted on a software key, and a proposal nobody completes blocks every
  other one for its version.
\<close>

subsection \<open>A rotation does not look at the storage of the new key\<close>

lemma rotate_effect_result:
  assumes "rotate_effect p org trace rowId fp now l a = Inr b"
    and uniq: "\<And>x. x \<in> set (sd_devices a) \<Longrightarrow> dv_id x = dev \<Longrightarrow> x = lr_device l"
    and d: "findDevice org dev a = Some (lr_device l)"
  shows "\<exists>e k. findDevice org dev b = Some e \<and> dv_trust e = dv_trust (lr_device l) \<and> dv_revokedAt e = dv_revokedAt (lr_device l)
    \<and> currentKey e b = Some k \<and> dk_keyId k = kq_proposed_key_id (lr_request l) \<and> dk_status k = CURRENT
    \<and> dk_keyStorage k = ro_newKeyStorage (lr_row l)"
proof -
  let ?d = "lr_device l" and ?k = "lr_currentKey l" and ?q = "lr_request l"
  obtain n i2 a1 a2 a3 a4 e st where *: "markDeviceKeyRotated org (dk_keyId ?k) now a = (n, a1)" "createDeviceKey i2 a1 = Some a2"
      "advanceDeviceCurrentKey org (dv_id ?d) (dk_keyId ?k, dk_keyVersion ?k) (kq_proposed_key_id ?q, kq_proposed_key_version ?q) a2 = (1, a3)"
      "setRotationRequestState org (ro_id (lr_row l)) st ROTATION_STATE_ROTATED a3 = (1, a4)" "b = recordEvent e a4"
      "dk_organisationId i2 = org" "dk_keyId i2 = kq_proposed_key_id ?q" "dk_keyStorage i2 = ro_newKeyStorage (lr_row l)" "dk_status i2 = CURRENT"
    using assms(1) by (auto simp: rotate_effect_def Let_def split: prod.splits if_splits option.splits)
  have a1: "sd_devices a1 = sd_devices a" by (rule create_keeps_devices(6)[OF *(1)])
  have a2: "sd_devices a2 = sd_devices a" "sd_keys a2 = sd_keys a1 @ [i2]"
    using *(2) a1 by (auto simp: createDeviceKey_def split: if_splits)
  let ?P = "\<lambda>d. is_device org (dv_id ?d) d \<and> dv_currentKeyId d = Some (dk_keyId ?k) \<and> dv_currentKeyVersion d = Some (dk_keyVersion ?k)"
  let ?u = "\<lambda>d. d\<lparr>dv_currentKeyId := Some (kq_proposed_key_id ?q), dv_currentKeyVersion := Some (kq_proposed_key_version ?q)\<rparr>"
  have b: "sd_devices b = map (\<lambda>d. if ?P d then ?u d else d) (sd_devices a)" "sd_keys b = sd_keys a1 @ [i2]"
    using *(3,4,5) a2 by (auto simp: advanceDeviceCurrentKey_def updateMany_def setRotationRequestState_def recordEvent_def)
  have d': "dv_organisationId ?d = org" "dv_id ?d = dev" "?d \<in> set (sd_devices a)"
    using findDevice_Some[OF d] by auto
  have "filter ?P (sd_devices a) \<noteq> []" using *(3) a2(1) by (auto simp: advanceDeviceCurrentKey_def updateMany_def)
  then obtain x where x: "x \<in> set (sd_devices a)" "?P x" by (auto simp: filter_empty_conv)
  have "x = ?d" by (rule uniq[OF x(1)]) (use x(2) d'(2) in \<open>simp add: is_device_def\<close>)
  then have "?P ?d" using x(2) by simp
  moreover have "find (is_device org dev) (sd_devices b) = map_option (\<lambda>d. if ?P d then ?u d else d) (find (is_device org dev) (sd_devices a))"
    unfolding b(1) by (rule find_map) (simp add: is_device_def)
  ultimately have found: "findDevice org dev b = Some (?u ?d)" using d by (simp add: findDevice_def)
  have "\<not> list_ex (is_key org (kq_proposed_key_id ?q)) (sd_keys a1)"
    using *(2,6,7) by (auto simp: createDeviceKey_def is_key_def list_ex_iff split: if_splits)
  then have "findDeviceKeyByKeyId org (kq_proposed_key_id ?q) b = Some i2"
    unfolding findDeviceKeyByKeyId_def b(2) by (rule find_snoc_new) (simp add: is_key_def *(6,7))
  then show ?thesis using found *(7,8,9) d'(1) by (simp add: currentKey_def)
qed

lemma commit_rotated:
  assumes ok: "shield_ok a" and r: "findRotationRequest org req a = Some r"
    and run: "commitKeyRotation pl cr iso_string p org req ch pf rowId trace now a = (Some (Inr (Rotated kid v)), b)"
    and d: "findDevice org (ro_deviceId r) a = Some d"
  shows "\<exists>e k. findDevice org (ro_deviceId r) b = Some e \<and> dv_trust e = dv_trust d \<and> dv_revokedAt e = dv_revokedAt d
    \<and> currentKey e b = Some k \<and> dk_keyId k = kid \<and> dk_status k = CURRENT \<and> dk_keyStorage k = ro_newKeyStorage r"
proof -
  obtain l fp rp where l: "lockRotationState pl cr iso_string org req ch a = Inr l"
      "rotate_effect p org trace rowId fp now l (a\<lparr>sd_replay := rp\<rparr>) = Inr b" "kid = kq_proposed_key_id (lr_request l)"
    using run by (auto simp: commitKeyRotation_def Let_def split: sum.splits option.splits prod.splits rotation_decision.splits if_splits)
  have lr: "lr_row l = r" "lr_device l = d" using l(1) r d by (auto simp: lockRotationState_def split: option.splits if_splits)
  have uniq: "x = lr_device l" if "x \<in> set (sd_devices (a\<lparr>sd_replay := rp\<rparr>))" "dv_id x = ro_deviceId r" for x
    using device_unique[OF ok, of x d] that findDevice_Some[OF d] lr(2) by simp
  show ?thesis
    using rotate_effect_result[OF l(2) uniq, of "ro_deviceId r"] d lr l(3) by (simp add: findDevice_def)
qed


text \<open>
  C36: A rotation keeps a device trusted on a software key. When a rotation of a TRUSTED device
  onto a key proposed with SOFTWARE storage commits, the device is TRUSTED afterwards and its
  current key is that software key, which the contract says cannot carry a TRUSTED credential.
\<close>

theorem rotation_keeps_trust_on_a_software_key:
  assumes "shield_ok a" "findRotationRequest org req a = Some r" "ro_newKeyStorage r = SOFTWARE"
    "findDevice org (ro_deviceId r) a = Some d" "dv_trust d = TRUST_TRUSTED"
    "commitKeyRotation pl cr iso_string p org req ch pf rowId trace now a = (Some (Inr (Rotated kid v)), b)"
  shows "\<exists>e k. findDevice org (ro_deviceId r) b = Some e \<and> dv_trust e = TRUST_TRUSTED
    \<and> currentKey e b = Some k \<and> dk_keyId k = kid \<and> \<not> deviceKeyStoragePermitsTrusted (dk_keyStorage k)"
  using commit_rotated[OF assms(1,2,6,4)] assms(3,5) by (auto simp: deviceKeyStoragePermitsTrusted_def)

definition demo_public_key :: string where
  "demo_public_key = to_base64url (4 # bigIntToScalarBytes 1 @ bigIntToScalarBytes 1)"

abbreviation "demo_digest \<equiv> replicate 64 CHR ''a''"

definition demo_proof :: request_proof where
  "demo_proof = \<lparr>pf_schema_version = 1, pf_context_id = ''c'', pf_organisation_id = ''org'', pf_site_id = ''site'',
     pf_actor_user_id = ''u'', pf_device_id = ''dev'', pf_key_id = ''k1'', pf_key_version = 1,
     pf_purpose = DEVICE_KEY_ROTATION, pf_payload_digest = demo_digest, pf_nonce = replicate 16 CHR ''n'',
     pf_issued_at = ''40'', pf_claimed_signature_profile = ''P256_ECDSA_SHA256'', pf_signature = env_signature ack_envelope\<rparr>"

definition demo_ready :: shield_db where
  "demo_ready = empty_shield\<lparr>
     sd_devices := [\<lparr>dv_id = ''dev'', dv_organisationId = ''org'', dv_custody = PERSONAL, dv_enrolledByUserId = ''boss'',
       dv_intendedUserId = ''u'', dv_sequenceNamespaceId = ''ns'', dv_trust = TRUST_TRUSTED, dv_revocationDisposition = None,
       dv_revokedAt = None, dv_currentKeyId = Some ''k1'', dv_currentKeyVersion = Some 1, dv_enrollmentRequestId = ''enr'', dv_enrolledAt = 10\<rparr>],
     sd_keys := [\<lparr>dk_id = ''row1'', dk_organisationId = ''org'', dk_deviceId = ''dev'', dk_keyId = ''k1'', dk_keyVersion = 1,
       dk_publicKey = demo_public_key, dk_publicKeyThumbprint = demo_digest, dk_signatureProfile = ''P256_ECDSA_SHA256'',
       dk_keyStorage = HARDWARE_BACKED, dk_status = CURRENT, dk_registeredAt = 10, dk_rotatedAt = None, dk_revokedAt = None,
       dk_revocationDisposition = None\<rparr>],
     sd_transitions := [\<lparr>tn_organisationId = ''org'', tn_deviceId = ''dev'', tn_previousTrust = None, tn_newTrust = TRUST_TRUSTED,
       tn_reason = [], tn_evidenceRefs = [], tn_authorisedByUserId = None, tn_occurredAt = 10, tn_traceId = []\<rparr>],
     sd_rotations := [\<lparr>ro_id = ''r1'', ro_organisationId = ''org'', ro_deviceId = ''dev'', ro_currentKeyId = ''k1'',
       ro_currentKeyVersion = 1, ro_proposedKeyId = ''k2'', ro_proposedKeyVersion = 2, ro_newPublicKey = demo_public_key,
       ro_newPublicKeyThumbprint = demo_digest, ro_newKeyStorage = SOFTWARE, ro_serverResolvedSignatureProfile = ''P256_ECDSA_SHA256'',
       ro_requestFingerprint = demo_digest, ro_requestedAt = 30, ro_state = ROTATION_STATE_CHALLENGED\<rparr>],
     sd_challenges := [\<lparr>rh_id = ''c1'', rh_organisationId = ''org'', rh_deviceId = ''dev'', rh_rotationRequestId = ''r1'',
       rh_rotationRequestFingerprint = demo_digest, rh_currentKeyId = ''k1'', rh_currentKeyVersion = 1, rh_proposedKeyId = ''k2'',
       rh_proposedKeyVersion = 2, rh_newPublicKeyThumbprint = demo_digest, rh_nonce = replicate 16 CHR ''n'', rh_issuedAt = 40,
       rh_expiresAt = 90\<rparr>],
     sd_verifications := [\<lparr>rw_id = ''v1'', rw_organisationId = ''org'', rw_deviceId = ''dev'', rw_rotationRequestId = ''r1'',
       rw_rotationRequestFingerprint = demo_digest, rw_rotationChallengeId = ''c1'', rw_currentKeyId = ''k1'', rw_currentKeyVersion = 1,
       rw_proposedKeyId = ''k2'', rw_proposedKeyVersion = 2, rw_newPublicKeyThumbprint = demo_digest,
       rw_signatureProfile = ''P256_ECDSA_SHA256'', rw_canonicalStatementFingerprint = demo_digest, rw_verified = True,
       rw_verifiedAt = 50\<rparr>]\<rparr>"

lemma demo_ready_ok: "shield_ok demo_ready"
  by (simp add: shield_ok_def demo_ready_def empty_shield_def trail_ok_def keys_ok_def Let_def history_def keys_of_def
      provenance_def dated_def withdrawn_def)

lemma demo_scalar: "bytesToBigInt (bigIntToScalarBytes 1) = 1" "length (bigIntToScalarBytes 1) = 32"
  by code_simp+

lemma demo_public_key_point: "\<not> isl (decodeCanonicalP256PublicKey demo_public_key)"
  by (simp add: decodeCanonicalP256PublicKey_def demo_public_key_def encoded_alphabet Let_def P256_PUBLIC_KEY_BYTES_def
      P256_SCALAR_BYTES_def P256_FIELD_PRIME_def demo_scalar)

lemma demo_thumbprint: "deriveP256PublicKeyThumbprint (cr_sha_bytes demo_crypto) demo_public_key = Inr demo_digest"
  using demo_public_key_point by (cases "decodeCanonicalP256PublicKey demo_public_key")
    (simp_all add: deriveP256PublicKeyThumbprint_def demo_crypto_def)

lemma demo_matches: "deviceKeyThumbprintMatches (cr_sha_bytes demo_crypto) demo_public_key demo_digest"
  using demo_public_key_point demo_thumbprint by (cases "decodeCanonicalP256PublicKey demo_public_key")
    (simp_all add: deviceKeyThumbprintMatches_def)


abbreviation "demo_world \<equiv> example_platform []"

lemma demo_fingerprints: "deviceKeyRotationRequestFingerprint demo_world q = demo_digest"
  "deviceKeyRotationPossessionStatementFingerprint demo_world s = demo_digest" "sha demo_world t = demo_digest"
  by (simp_all add: deviceKeyRotationRequestFingerprint_def deviceKeyRotationPossessionStatementFingerprint_def example_platform_def)

lemma demo_dates: "map (\<lambda>t. date_parse demo_world (show_int t)) [10, 30, 40, 50, 60, 90] = map Some [10, 30, 40, 50, 60, 90]"
  using printed_date[of "[]" 10] printed_date[of "[]" 30] printed_date[of "[]" 40] printed_date[of "[]" 50]
    printed_date[of "[]" 60] printed_date[of "[]" 90] by simp

lemma demo_signed: "\<not> isl (decodeCanonicalP256Signature (env_signature ack_envelope))"
proof -
  have "encodeCanonicalP256Signature 1 1 = Inr (env_signature ack_envelope)"
    by (simp add: encodeCanonicalP256Signature_def isLowS_def P256_CURVE_ORDER_def P256_HALF_CURVE_ORDER_def ack_envelope_def)
  from decode_encode[OF this] show ?thesis by simp
qed

lemma demo_proof_ok: "request_proof_ok demo_world demo_proof"
  using demo_signed by (simp add: request_proof_ok_def demo_proof_def scopedId_def DeviceKeyVersion_def DeviceDigest_def DeviceNonce_def
      isApprovedDeviceSignatureProfile_def DEVICE_SIGNATURE_PROFILES_def example_platform_def is_digit_def list_all_iff)

lemma demo_verifies: "verify_imported demo_crypto demo_public_key m (pf_signature demo_proof) ''P256_ECDSA_SHA256'' ''P256_ECDSA_SHA256''"
  using demo_public_key_point demo_proof_ok unfolding demo_crypto_def
  by (auto simp: verify_imported_def verifySignature_def request_proof_ok_def isRuntimeValidPublicKey_def
      bindClaimedSignatureProfile_def isApprovedDeviceSignatureProfile_def DEVICE_SIGNATURE_PROFILES_def split: sum.splits)

lemma demo_lock:
  "\<exists>l. lockRotationState demo_world demo_crypto show_int ''org'' ''r1'' ''c1'' demo_ready = Inr l
    \<and> lr_device l = hd (sd_devices demo_ready) \<and> lr_currentKey l = hd (sd_keys demo_ready) \<and> lr_row l = hd (sd_rotations demo_ready)
    \<and> lr_request l = request_of_row show_int (hd (sd_rotations demo_ready))
    \<and> lr_challenge l = challenge_of_row show_int (hd (sd_challenges demo_ready))
    \<and> lr_verification l = verification_of_row show_int (hd (sd_verifications demo_ready))"
  using demo_public_key_point demo_matches demo_dates
  by (simp add: lockRotationState_def findRotationRequest_def findRotationChallenge_def findDevice_def is_device_def
      findDeviceKeyByKeyId_def is_key_def lockRotationVerification_def demo_ready_def empty_shield_def rotation_request_ok_def
      request_of_row_def scopedId_def DeviceKeyVersion_def DeviceDigest_def DeviceNonce_def isApprovedDeviceSignatureProfile_def
      DEVICE_SIGNATURE_PROFILES_def rotation_challenge_ok_def challenge_of_row_def rotation_verification_ok_def verification_of_row_def
      is_digit_def list_all_iff refineDeviceInstantWindow_def parseAuthoritativeInstant_def DEVICE_KEY_ROTATION_CHALLENGE_MAX_AGE_MS_def
      example_platform_def trim_def)

lemma demo_replay_key: "deviceKeyRotationReplayKey (request_of_row show_int (hd (sd_rotations demo_ready)))
    (challenge_of_row show_int (hd (sd_challenges demo_ready))) \<noteq> []"
  by (simp add: deviceKeyRotationReplayKey_def rotation_replay_object_def canonical_device_json_def)

lemma demo_gate:
  assumes "kd_request i = request_of_row show_int (hd (sd_rotations demo_ready))"
    "kd_challenge i = challenge_of_row show_int (hd (sd_challenges demo_ready))"
    "kd_possessionVerification i = Some (verification_of_row show_int (hd (sd_verifications demo_ready)))"
    "kd_continuity i = Some (True, demo_digest)" "kd_newKeyRuntimeValid i" "kd_now i = show_int 60"
    "kd_registered i = \<lparr>kg_organisation_id = ''org'', kg_device_id = ''dev'', kg_current_key_id = ''k1'', kg_current_key_version = 1,
      kg_current_key_status = CURRENT, kg_current_key_revoked = False, kg_device_revoked = False,
      kg_server_resolved_signature_profile = ''P256_ECDSA_SHA256''\<rparr>"
    "kd_consumption i = consumption_json (First_Seen (deviceKeyRotationReplayKey (kd_request i) (kd_challenge i)) demo_digest)"
  shows "evaluateDeviceKeyRotation demo_world i = Rotate demo_digest 1 2"
proof -
  have cons: "read_consumption (kd_consumption i) = Some (First_Seen (deviceKeyRotationReplayKey (kd_request i) (kd_challenge i)) demo_digest)"
    unfolding assms(8) read_consumption_json using demo_replay_key assms(1,2) by simp
  have window: "rotation_window_refusal demo_world (show_int 60) (verification_of_row show_int (hd (sd_verifications demo_ready)))
      (challenge_of_row show_int (hd (sd_challenges demo_ready))) = None"
    using demo_dates by (simp add: rotation_window_refusal_def verification_of_row_def challenge_of_row_def demo_ready_def
        parseAuthoritativeInstant_def isExpiredAt_def)
  show ?thesis
    unfolding evaluateDeviceKeyRotation_def Let_def cons
    using window assms
    by (simp add: demo_fingerprints bindClaimedSignatureProfile_def isApprovedDeviceSignatureProfile_def
        DEVICE_SIGNATURE_PROFILES_def challenge_bound_def rotation_current_def verification_bound_def
        request_of_row_def challenge_of_row_def verification_of_row_def demo_ready_def)
qed

lemma demo_commit:
  "\<exists>b. commitKeyRotation demo_world demo_crypto show_int demo_boss ''org'' ''r1'' ''c1'' (Some demo_proof) ''row2'' ''t'' 60 demo_ready
     = (Some (Inr (Rotated ''k2'' 2)), b)"
proof -
  obtain l where lock: "lockRotationState demo_world demo_crypto show_int ''org'' ''r1'' ''c1'' demo_ready = Inr l"
    and l: "lr_device l = hd (sd_devices demo_ready)" "lr_currentKey l = hd (sd_keys demo_ready)" "lr_row l = hd (sd_rotations demo_ready)"
      "lr_request l = request_of_row show_int (hd (sd_rotations demo_ready))"
      "lr_challenge l = challenge_of_row show_int (hd (sd_challenges demo_ready))"
      "lr_verification l = verification_of_row show_int (hd (sd_verifications demo_ready))"
    using demo_lock by blast
  have auth: "rotation_authority demo_boss ''org'' (dv_id (lr_device l)) demo_ready = None"
    unfolding rotation_authority_def by (rule boss_authority) simp
  have cont: "verifyContinuityProof demo_world demo_crypto (Some demo_proof) l = Some (True, demo_digest)"
    using demo_proof_ok demo_verifies unfolding verifyContinuityProof_def l(1,2)
    by (simp add: demo_ready_def SERVER_SELECTED_SIGNATURE_PROFILE_def DEVICE_SIGNATURE_PROFILES_def) (simp add: demo_proof_def)
  have key: "isRuntimeValidPublicKey demo_crypto (ro_newPublicKey (lr_row l))"
    using demo_public_key_point by (simp add: l(3) isRuntimeValidPublicKey_def demo_ready_def) (simp add: demo_crypto_def)
  have reg: "registered_facts l = \<lparr>kg_organisation_id = ''org'', kg_device_id = ''dev'', kg_current_key_id = ''k1'', kg_current_key_version = 1,
      kg_current_key_status = CURRENT, kg_current_key_revoked = False, kg_device_revoked = False,
      kg_server_resolved_signature_profile = ''P256_ECDSA_SHA256''\<rparr>"
    unfolding registered_facts_def l(1,2)
    by (simp add: demo_ready_def SERVER_SELECTED_SIGNATURE_PROFILE_def DEVICE_SIGNATURE_PROFILES_def)
  have ids: "kq_proposed_key_id (lr_request l) = ''k2''" "kq_proposed_key_version (lr_request l) = 2"
    unfolding l(4) by (simp_all add: demo_ready_def request_of_row_def)
  have replay: "sd_replay demo_ready = Map.empty" by (simp add: demo_ready_def empty_shield_def)
  have effect: "\<exists>b. rotate_effect demo_boss ''org'' ''t'' ''row2'' fp 60 l (demo_ready\<lparr>sd_replay := rp\<rparr>) = Inr b" for fp rp
    unfolding rotate_effect_def Let_def ids l(1,2,3)
    by (simp add: demo_ready_def empty_shield_def markDeviceKeyRotated_def updateMany_def is_key_def createDeviceKey_def findDevice_def
        is_device_def advanceDeviceCurrentKey_def setRotationRequestState_def)
  obtain b where "rotate_effect demo_boss ''org'' ''t'' ''row2'' demo_digest 60 l
      (demo_ready\<lparr>sd_replay := [(''org'', demo_digest) \<mapsto> (demo_digest, Some ''row2'')]\<rparr>) = Inr b"
    using effect by blast
  then show ?thesis unfolding commitKeyRotation_def Let_def lock
    by (simp add: auth peek_def consume_def replay classifyDeviceNonceConsumption_def demo_fingerprints demo_gate l(4,5,6) cont key reg
        ids[unfolded l(4)] del: consumption_json.simps)
qed

theorem rotation_keeps_trust_on_a_software_key_witness:
  "\<exists>b e k. commitKeyRotation demo_world demo_crypto show_int demo_boss ''org'' ''r1'' ''c1'' (Some demo_proof) ''row2'' ''t'' 60 demo_ready
      = (Some (Inr (Rotated ''k2'' 2)), b)
    \<and> findDevice ''org'' ''dev'' b = Some e \<and> dv_trust e = TRUST_TRUSTED \<and> currentKey e b = Some k
    \<and> \<not> deviceKeyStoragePermitsTrusted (dk_keyStorage k)"
proof -
  obtain b where b: "commitKeyRotation demo_world demo_crypto show_int demo_boss ''org'' ''r1'' ''c1'' (Some demo_proof) ''row2'' ''t'' 60 demo_ready
      = (Some (Inr (Rotated ''k2'' 2)), b)"
    using demo_commit by blast
  have r: "findRotationRequest ''org'' ''r1'' demo_ready = Some (hd (sd_rotations demo_ready))"
    "findDevice ''org'' ''dev'' demo_ready = Some (hd (sd_devices demo_ready))"
    "ro_deviceId (hd (sd_rotations demo_ready)) = ''dev''" "ro_newKeyStorage (hd (sd_rotations demo_ready)) = SOFTWARE"
    "dv_trust (hd (sd_devices demo_ready)) = TRUST_TRUSTED"
    by (simp_all add: findRotationRequest_def findDevice_def is_device_def demo_ready_def)
  show ?thesis
    using rotation_keeps_trust_on_a_software_key[OF demo_ready_ok r(1,4) _ r(5) b] r b by fastforce
qed


subsection \<open>Lost, then stolen; stolen, then lost\<close>

text \<open>
  C38: A lost device cannot be declared stolen. After a device was declared LOST, a declaration of
  STOLEN that passes every check before its transaction is refused there with
  TRANSITION_NOT_IN_MATRIX and changes nothing, because LOST left the device QUARANTINED and
  STOLEN wants to move it there; the key it would have revoked is not revoked and the device has
  no revocation instant.
\<close>

theorem lost_device_cannot_be_declared_stolen:
  assumes "declareDisposition_tx pl iso_string p org d k LOST reason trace now a = (Inr r, b)"
    and read: "declareDisposition_read q org (dv_id d) STOLEN b = Inr (d1, k1)"
  shows "declareDisposition_tx pl iso_string q org d1 k1 STOLEN reason1 trace1 now1 c
     = (Inl (Trust_Refusal TRANSITION_NOT_IN_MATRIX), c)
   \<and> currentKey d1 b = Some k1 \<and> dk_status k1 \<noteq> REVOKED \<and> dv_revokedAt d1 = None"
proof -
  obtain prev moved b1 where b: "b = setDeviceRevocation org (dv_id d) LOST None TRUST_QUARANTINED b1
      \<or> (\<exists>e1 e2. b = recordEvent e1 (recordEvent e2 (setDeviceRevocation org (dv_id d) LOST None TRUST_QUARANTINED b1)))"
    using assms(1) by (auto simp: declareDisposition_tx_def Let_def disposition_key_target_def disposition_trust_def
        split: sum.splits prod.splits)
  have d1: "findDevice org (dv_id d) b = Some d1" "currentKey d1 b = Some k1" "canTransitionDeviceKeyLifecycle (dk_status k1) REVOKED"
    using read by (auto simp: declareDisposition_read_def disposition_key_target_def split: option.splits if_splits)
  let ?g = "\<lambda>x. if is_device org (dv_id d) x then x\<lparr>dv_revocationDisposition := Some LOST, dv_revokedAt := None, dv_trust := TRUST_QUARANTINED\<rparr> else x"
  have devs: "sd_devices b = map ?g (sd_devices b1)"
    using b by (auto simp: setDeviceRevocation_def updateMany_def recordEvent_def)
  have "d1 \<in> set (map ?g (sd_devices b1))" using findDevice_Some[OF d1(1)] unfolding devs by blast
  then obtain x where x: "d1 = ?g x" unfolding set_map by blast
  moreover have "is_device org (dv_id d) d1" using findDevice_Some[OF d1(1)] by (simp add: is_device_def)
  ultimately have "is_device org (dv_id d) x" by (cases "is_device org (dv_id d) x") simp_all
  then have q: "dv_trust d1 = TRUST_QUARANTINED" "dv_revokedAt d1 = None" using x by simp_all
  have "dk_status k1 \<noteq> REVOKED" using d1(3)
    by (auto simp: canTransitionDeviceKeyLifecycle_def ALLOWED_DEVICE_KEY_LIFECYCLE_TRANSITIONS_def)
  moreover have "evaluateDeviceTrustTransition TRUST_QUARANTINED TRUST_QUARANTINED f = Some TRANSITION_NOT_IN_MATRIX" for f
    by (simp add: evaluateDeviceTrustTransition_def isTerminalDeviceTrust_def)
  ultimately show ?thesis using d1(2) q
    by (simp add: declareDisposition_tx_def Let_def applyTrustTransition_def declaration_input_def disposition_trust_def)
qed

theorem lost_device_cannot_be_declared_stolen_witness:
  "\<exists>d1 k1. declareDisposition_tx demo_world show_int demo_boss ''org'' d1 k1 STOLEN ''taken'' ''t'' 60 demo_ready
     = (Inl (Trust_Refusal TRANSITION_NOT_IN_MATRIX), demo_ready) \<and> dk_keyId k1 = ''k1'' \<and> dk_status k1 \<noteq> REVOKED"
proof -
  let ?d = "hd (sd_devices (sh_db (demo_shield [])))" and ?k = "hd (sd_keys (sh_db (demo_shield [])))"
  let ?tx = "declareDisposition_tx demo_world show_int demo_boss ''org'' ?d ?k LOST ''gone'' ''t'' 30 (sh_db (demo_shield []))"
  have run: "case ?tx of (Inl _, _) \<Rightarrow> False | (Inr _, b) \<Rightarrow>
     (case declareDisposition_read demo_boss ''org'' (dv_id ?d) STOLEN b of Inl _ \<Rightarrow> False | Inr (d1, k1) \<Rightarrow> dk_keyId k1 = ''k1'')"
    unfolding demo_run by code_simp
  then obtain r b d1 k1 where *: "?tx = (Inr r, b)" "declareDisposition_read demo_boss ''org'' (dv_id ?d) STOLEN b = Inr (d1, k1)"
      "dk_keyId k1 = ''k1''"
    by (auto split: prod.splits sum.splits)
  show ?thesis using lost_device_cannot_be_declared_stolen[OF *(1,2)] *(3) by blast
qed

text \<open>
  C39: Declaring a stolen device lost clears its revocation. If a device whose current key is
  REVOKED has been moved to SUSPICIOUS, declaring it LOST succeeds: it answers that a restoration
  path remains, overwrites the disposition with LOST and clears the device's revocation instant,
  so that the device level no longer reads as withdrawn, while the key stays revoked and admits no
  new operation.
\<close>

theorem lost_after_stolen_clears_the_revocation:
  assumes ok: "shield_ok a" and d: "findDevice org dev a = Some d" "dv_trust d = TRUST_SUSPICIOUS"
    and k: "currentKey d a = Some k" "dk_status k = REVOKED"
  shows "\<exists>r b e. declareDisposition_tx pl iso_string p org d k LOST reason trace now a = (Inr r, b)
    \<and> de_restorationPathRemains r \<and> findDevice org dev b = Some e
    \<and> dv_revokedAt e = None \<and> dv_revocationDisposition e = Some LOST \<and> \<not> deviceLevelWithdrawn e
    \<and> currentKey e b = Some k \<and> \<not> credentialAdmitsNewOperations org dev b"
proof -
  have din: "d \<in> set (sd_devices a)" "dv_id d = dev" "dv_organisationId d = org" using findDevice_Some[OF d(1)] by auto
  let ?g = "\<lambda>x. if is_device org dev x then x\<lparr>dv_revocationDisposition := Some LOST, dv_revokedAt := None, dv_trust := TRUST_QUARANTINED\<rparr> else x"
  obtain n a1 where set: "setDeviceTrust org dev TRUST_SUSPICIOUS TRUST_QUARANTINED a = (n, a1)"
    by (cases "setDeviceTrust org dev TRUST_SUSPICIOUS TRUST_QUARANTINED a") auto
  have "n = 1 \<and> sd_devices a1 = map (\<lambda>x. if x = d then d\<lparr>dv_trust := TRUST_QUARANTINED\<rparr> else x) (sd_devices a) \<and> sd_keys a1 = sd_keys a"
    using ok set
  proof (cases rule: set_trust_cases)
    case none
    have "length (filter (\<lambda>x. is_device org dev x \<and> dv_trust x = TRUST_SUSPICIOUS) (sd_devices a)) = 0"
      using set none by (simp add: setDeviceTrust_def updateMany_def)
    then have "\<not> (is_device org dev d \<and> dv_trust d = TRUST_SUSPICIOUS)" using din(1) by (simp add: filter_empty_conv)
    then show ?thesis using din d(2) by (simp add: is_device_def)
  next
    case (one e)
    have "e = d" by (rule device_unique[OF ok one(2) din(1)]) (simp add: one(3) din)
    then show ?thesis using one by simp
  qed
  then have a1: "n = 1" "sd_devices a1 = map (\<lambda>x. if x = d then d\<lparr>dv_trust := TRUST_QUARANTINED\<rparr> else x) (sd_devices a)" "sd_keys a1 = sd_keys a"
    by simp_all
  have ev: "evaluateDeviceTrustTransition TRUST_SUSPICIOUS TRUST_QUARANTINED f = None" for f
    by (simp add: evaluateDeviceTrustTransition_def isTerminalDeviceTrust_def DEVICE_TRUST_UPWARD_TARGETS_def)
  have "\<exists>r b. declareDisposition_tx pl iso_string p org d k LOST reason trace now a = (Inr r, b) \<and> de_restorationPathRemains r
      \<and> sd_devices b = map ?g (sd_devices a1) \<and> sd_keys b = sd_keys a"
    by (simp add: declareDisposition_tx_def Let_def applyTrustTransition_def declaration_input_def disposition_trust_def d(2) din ev
        set a1(1,3) appendTrustTransition_def setDeviceRevocation_def updateMany_def recordEvent_def disposition_key_target_def)
  then obtain r b where run: "declareDisposition_tx pl iso_string p org d k LOST reason trace now a = (Inr r, b)" "de_restorationPathRemains r"
      "sd_devices b = map ?g (sd_devices a1)" "sd_keys b = sd_keys a" by blast
  let ?e = "d\<lparr>dv_revocationDisposition := Some LOST, dv_revokedAt := None, dv_trust := TRUST_QUARANTINED\<rparr>"
  have "find (is_device org dev) (sd_devices b) = map_option (\<lambda>x. ?g (if x = d then d\<lparr>dv_trust := TRUST_QUARANTINED\<rparr> else x))
      (find (is_device org dev) (sd_devices a))"
    unfolding run(3) a1(2) map_map by (subst find_map) (auto simp: is_device_def comp_def)
  then have e: "findDevice org dev b = Some ?e" using d(1) din by (simp add: findDevice_def is_device_def)
  moreover have "currentKey ?e b = Some k" using k(1) run(4) by (cases "dv_currentKeyId d") (simp_all add: currentKey_def findDeviceKeyByKeyId_def)
  moreover have "keyLevelWithdrawn (Some k)" using k(2) by (simp add: keyLevelWithdrawn_def deviceKeyStatePermitsNewOperations_def)
  ultimately show ?thesis using run(1,2) by (simp add: deviceLevelWithdrawn_def credentialAdmitsNewOperations_def)
qed

theorem lost_after_stolen_clears_the_revocation_witness:
  "let a = sh_db (demo_shield (demo_declare STOLEN @ demo_trust TRUST_SUSPICIOUS 40)) in
   \<exists>d k r b e. findDevice ''org'' ''dev'' a = Some d \<and> dv_revokedAt d = Some 30 \<and> currentKey d a = Some k \<and> dk_status k = REVOKED
    \<and> declareDisposition_tx demo_world show_int demo_boss ''org'' d k LOST ''gone'' ''t'' 50 a = (Inr r, b)
    \<and> de_restorationPathRemains r \<and> findDevice ''org'' ''dev'' b = Some e \<and> dv_revokedAt e = None \<and> currentKey e b = Some k"
proof -
  define a where "a = sh_db (demo_shield (demo_declare STOLEN @ demo_trust TRUST_SUSPICIOUS 40))"
  have "case findDevice ''org'' ''dev'' a of None \<Rightarrow> False | Some d \<Rightarrow> dv_trust d = TRUST_SUSPICIOUS \<and> dv_revokedAt d = Some 30
      \<and> (case currentKey d a of None \<Rightarrow> False | Some k \<Rightarrow> dk_status k = REVOKED)"
    unfolding a_def demo_run by code_simp
  then obtain d k where *: "findDevice ''org'' ''dev'' a = Some d" "dv_trust d = TRUST_SUSPICIOUS" "dv_revokedAt d = Some 30"
      "currentKey d a = Some k" "dk_status k = REVOKED"
    by (auto split: option.splits)
  have "shield_ok a" by (simp add: a_def reachable_shield)
  from lost_after_stolen_clears_the_revocation[OF this *(1,2,4,5), of demo_world show_int demo_boss "''gone''" "''t''" 50]
  show ?thesis unfolding a_def[symmetric] Let_def using *(1,3,4,5) by blast
qed

subsection \<open>One proposal for each version\<close>

text \<open>The key of a device at the version of a proposal is the one the proposal named.\<close>

definition version_from :: "rotation_row \<Rightarrow> key_row \<Rightarrow> bool" where
  "version_from r k \<longleftrightarrow> dk_organisationId k = ro_organisationId r \<and> dk_deviceId k = ro_deviceId r
     \<and> dk_keyVersion k = ro_proposedKeyVersion r \<and> dk_keyVersion k \<noteq> 1
     \<longrightarrow> dk_publicKey k = ro_newPublicKey r \<and> dk_keyStorage k = ro_newKeyStorage r"

lemma proposal_stays:
  assumes "shield_system_ok s" "r \<in> set (sd_rotations (sh_db s))"
  obtains q where "q \<in> set (sd_rotations (sh_db (fold (shield_step pl cr iso_string) later s)))" "proposal_before r q"
  using registry.run_before[OF assms(1), of pl cr iso_string later] assms(2) that by (auto simp: shield_before_def)

lemma proposal_unique:
  "shield_ok db \<Longrightarrow> r \<in> set (sd_rotations db) \<Longrightarrow> q \<in> set (sd_rotations db) \<Longrightarrow> ro_organisationId r = ro_organisationId q
     \<Longrightarrow> ro_deviceId r = ro_deviceId q \<Longrightarrow> ro_proposedKeyVersion r = ro_proposedKeyVersion q \<Longrightarrow> r = q"
  by (auto simp: shield_ok_def distinct_map inj_on_def)

lemma proposal_fields: "proposal_before r q \<Longrightarrow> ro_organisationId q = ro_organisationId r \<and> ro_deviceId q = ro_deviceId r
    \<and> ro_proposedKeyVersion q = ro_proposedKeyVersion r \<and> ro_newPublicKey q = ro_newPublicKey r \<and> ro_newKeyStorage q = ro_newKeyStorage r"
  by (cases r; cases q) (simp add: proposal_before_def)



end
