(* ===== verification/Attestation_History.thy ===== *)
theory Attestation_History
  imports Shield_Properties
begin

text \<open>
  What the two reads of shield.repository.ts (the newest observation, and the newest one that decides)
  and the standing rules of attestation.standing.ts and device-identity.ts amount to: a machine that goes
  through a device's observations in order. A negative outcome stays until the next verified one; an
  unavailable evaluator turns a verified standing into an ageing one.
\<close>

datatype standing_verdict = Never | Good int | Ageing int | Bad

fun judge_observation :: "standing_verdict \<Rightarrow> observation_row \<Rightarrow> standing_verdict" where
  "judge_observation v r = (case ob_outcome r of
     AT_VERIFIED \<Rightarrow> Good (ob_evaluatedAt r)
   | AT_UNAVAILABLE \<Rightarrow> (case v of Good t \<Rightarrow> Ageing t | _ \<Rightarrow> v)
   | _ \<Rightarrow> Bad)"

definition judged :: "observation_row list \<Rightarrow> standing_verdict" where
  "judged rows = foldl judge_observation Never rows"

fun standing_of :: "int \<Rightarrow> standing_verdict \<Rightarrow> attestation_standing" where
  "standing_of now Never = ST_INELIGIBLE"
| "standing_of now (Good t) = ST_CURRENT"
| "standing_of now (Ageing t) = (if now - t > DEVICE_ATTESTATION_UNAVAILABLE_GRACE_MS then ST_EXPIRED else ST_LAST_KNOWN_GOOD)"
| "standing_of now Bad = ST_NEGATIVE"

text \<open>The order the reads sort by.\<close>

definition older :: "observation_row \<Rightarrow> observation_row \<Rightarrow> bool" where
  "older r s \<longleftrightarrow> ob_evaluatedAt r < ob_evaluatedAt s \<or> ob_evaluatedAt r = ob_evaluatedAt s \<and> ob_id r < ob_id s"

lemma newest_greatest: "rows \<noteq> [] \<Longrightarrow> \<exists>m. newest rows = Some m \<and> m \<in> set rows \<and> (\<forall>x\<in>set rows. \<not> older m x)"
proof (induction rows)
  case (Cons r rs)
  show ?case
  proof (cases "rs = []")
    case False
    then obtain m where m: "newest rs = Some m" "m \<in> set rs" "\<forall>x\<in>set rs. \<not> older m x" using Cons.IH by blast
    then show ?thesis by (auto simp: older_def)
  qed (simp add: older_def)
qed simp

lemma newest_sorted:
  assumes "sorted_wrt older os" "set rows = set os" "os \<noteq> []"
  shows "newest rows = Some (last os)"
proof -
  obtain m where m: "newest rows = Some m" "m \<in> set os" "\<forall>x\<in>set os. \<not> older m x"
    using newest_greatest[of rows] assms(2,3) by (metis set_empty)
  have os: "os = butlast os @ [last os]" using assms(3) by simp
  have "\<forall>x\<in>set (butlast os). older x (last os)" using assms(1) by (subst (asm) os) (simp add: sorted_wrt_append)
  moreover have "m \<in> set (butlast os) \<or> m = last os" using m(2) by (subst (asm) os) auto
  ultimately show ?thesis using m(1,3) assms(3) by auto
qed

text \<open>The verdict in terms of the last decisive row and the last row.\<close>

lemma judged_last:
  "judged os = (case filter (\<lambda>r. ob_outcome r \<noteq> AT_UNAVAILABLE) os of [] \<Rightarrow> Never
     | d # ds \<Rightarrow> let r = last (d # ds) in if ob_outcome r \<noteq> AT_VERIFIED then Bad
         else if ob_outcome (last os) = AT_UNAVAILABLE then Ageing (ob_evaluatedAt r) else Good (ob_evaluatedAt r))"
proof (induction os rule: rev_induct)
  case (snoc r os)
  show ?case
  proof (cases "ob_outcome r = AT_UNAVAILABLE")
    case True
    then show ?thesis using snoc by (auto simp: judged_def Let_def split: list.splits)
  next
    case False
    then show ?thesis
      by (cases "filter (\<lambda>r. ob_outcome r \<noteq> AT_UNAVAILABLE) os"; cases "ob_outcome r") (simp_all add: judged_def Let_def)
  qed
qed (simp add: judged_def)

text \<open>
  C35: The standing is a verdict on the history. Where the clock's instants are read back as
  written, the standing computed from the two reads of the observation table is what a machine
  says that goes through the device's observations in order: a verified one makes it good, an
  unavailable one turns good into ageing, any other makes it bad, and bad stays until the next
  verified one. Good is CURRENT however old it is; ageing is LAST_KNOWN_GOOD for six hours from
  the verified observation and then EXPIRED; an observation from the future is INCONSISTENT.
\<close>

theorem standing_is_the_verdict_of_history:
  assumes os: "sorted_wrt older os" "set os = set (observations_of org dev db)"
    and clock: "list_all (\<lambda>r. parseAuthoritativeInstants pl [iso_string now, iso_string (ob_evaluatedAt r)]
      = Some [now, ob_evaluatedAt r]) os"
  shows "effectiveAttestationStanding pl iso_string org dev now db
    = (if os \<noteq> [] \<and> ob_evaluatedAt (last os) > now then ST_INCONSISTENT else standing_of now (judged os))"
proof (cases "os = []")
  case True
  then have "observations_of org dev db = []" using os(2) by simp
  then show ?thesis using True
    by (simp add: effectiveAttestationStanding_def resolveAttestationStanding_def readAttestationEvidence_def judged_def
        latestAttestationObservation_def latestDecisiveAttestation_def selectAttestationEvidence_def evaluateAttestationStanding_def
        DEVICE_NEGATIVE_ATTESTATION_OUTCOMES_def)
next
  case False
  let ?dec = "\<lambda>r. ob_outcome r \<noteq> AT_UNAVAILABLE"
  have latest: "latestAttestationObservation org dev db = Some (fact_of (last os))"
    using newest_sorted[OF os(1) os(2)[symmetric] False] by (simp add: latestAttestationObservation_def)
  have sorted: "sorted_wrt older (filter ?dec os)" by (rule sorted_wrt_filter[OF os(1)])
  have same: "set (filter ?dec (observations_of org dev db)) = set (filter ?dec os)" using os(2) by auto
  show ?thesis
  proof (cases "filter ?dec os = []")
    case none: True
    then have "filter ?dec (observations_of org dev db) = []" using same by simp
    then have dec: "latestDecisiveAttestation org dev db = None" by (simp add: latestDecisiveAttestation_def)
    show ?thesis using False none judged_last[of os]
      by (simp add: effectiveAttestationStanding_def resolveAttestationStanding_def readAttestationEvidence_def latest dec fact_of_def
          selectAttestationEvidence_def evaluateAttestationStanding_def DEVICE_NEGATIVE_ATTESTATION_OUTCOMES_def)
  next
    case some: False
    define d where "d = last (filter ?dec os)"
    have dec: "latestDecisiveAttestation org dev db = Some (fact_of d)"
      using newest_sorted[OF sorted same some] by (simp add: latestDecisiveAttestation_def d_def)
    have "d \<in> set (filter ?dec os)" using some last_in_set unfolding d_def by blast
    then have d: "d \<in> set os" "ob_outcome d \<noteq> AT_UNAVAILABLE" by auto
    have "d = last os \<or> older d (last os)"
      using os(1) d(1) False by (metis append_butlast_last_id in_set_conv_decomp_last list.set_intros(1) set_rotate1
          rotate1.simps(2) set_ConsD sorted_wrt_append)
    then have le: "ob_evaluatedAt d \<le> ob_evaluatedAt (last os)" by (auto simp: older_def)
    have parse: "parseAuthoritativeInstants pl [iso_string now, iso_string (ob_evaluatedAt d)] = Some [now, ob_evaluatedAt d]"
      using clock d(1) by (simp add: list_all_iff)
    have verdict: "judged os = (if ob_outcome d \<noteq> AT_VERIFIED then Bad
        else if ob_outcome (last os) = AT_UNAVAILABLE then Ageing (ob_evaluatedAt d) else Good (ob_evaluatedAt d))"
      using judged_last[of os] some by (cases "filter ?dec os") (simp_all add: d_def Let_def)
    show ?thesis
      using le d(2) False parse
      by (cases "ob_outcome d") (simp_all add: verdict effectiveAttestationStanding_def resolveAttestationStanding_def
          readAttestationEvidence_def latest dec fact_of_def selectAttestationEvidence_def evaluateAttestationStanding_def
          DEVICE_NEGATIVE_ATTESTATION_OUTCOMES_def)
  qed
qed

text \<open>The evaluator answers once at enrolment and is unavailable from then on.\<close>

definition demo_unavailable :: "shield_act list" where
  "demo_unavailable = [Begin (Observe ''org'' ''dev''), Finish 0 ((demo_supplies 30)\<lparr>su_evidence :=
     \<lparr>ae_outcome = AT_UNAVAILABLE, ae_evaluated_at = ''20'', ae_attestation_reference = None, ae_observation_id = ''ob2''\<rparr>\<rparr>)]"

theorem standing_is_the_verdict_of_history_witness:
  "let db = sh_db (demo_shield demo_unavailable); os = observations_of ''org'' ''dev'' db; now = 21600011 in
     length os = 2 \<and> judged os = Ageing 10
     \<and> effectiveAttestationStanding (example_platform []) show_int ''org'' ''dev'' now db = standing_of now (judged os)
     \<and> standing_of now (judged os) = ST_EXPIRED"
proof -
  define os where "os = observations_of ''org'' ''dev'' (sh_db (demo_shield demo_unavailable))"
  have "map (\<lambda>r. (ob_outcome r, ob_evaluatedAt r)) os = [(AT_VERIFIED, 10), (AT_UNAVAILABLE, 20)]"
    unfolding os_def demo_run by code_simp
  then obtain r s where os: "os = [r, s]" "ob_outcome r = AT_VERIFIED" "ob_evaluatedAt r = 10" "ob_outcome s = AT_UNAVAILABLE" "ob_evaluatedAt s = 20"
    by auto
  have dates: "parseAuthoritativeInstants (example_platform []) [show_int 21600011, show_int 10] = Some [21600011, 10]"
    "parseAuthoritativeInstants (example_platform []) [show_int 21600011, show_int 20] = Some [21600011, 20]"
    using printed_date[of "[]" 21600011] printed_date[of "[]" 10] printed_date[of "[]" 20] by (simp_all add: parseAuthoritativeInstant_def)
  have verdict: "judged os = Ageing 10" by (simp add: judged_def os)
  have "effectiveAttestationStanding (example_platform []) show_int ''org'' ''dev'' 21600011 (sh_db (demo_shield demo_unavailable))
      = (if os \<noteq> [] \<and> ob_evaluatedAt (last os) > 21600011 then ST_INCONSISTENT else standing_of 21600011 (judged os))"
    by (rule standing_is_the_verdict_of_history) (simp add: os older_def, simp add: os_def, simp add: os dates del: parseAuthoritativeInstants.simps)
  then show ?thesis
    unfolding Let_def os_def[symmetric] by (simp add: verdict[unfolded os(1)] os(1,5) DEVICE_ATTESTATION_UNAVAILABLE_GRACE_MS_def)
qed

end
