(* ===== verification/Enrollment_Contract.thy ===== *)
theory Enrollment_Contract
  imports Shield_Trust
begin

text \<open>
  The contract of an enrolment (packages/contracts/src/device-identity.ts): the states of a ceremony,
  the bootstrap grant, the request with its fingerprint, the approval, the possession challenge and the
  server's verdict on it, the two one-shot identities, and the gate that judges all of them together.
  With them the custody association and the digest of what an approval approves (shield.semantics.ts).
\<close>

subsection \<open>The states of a ceremony\<close>

definition ALLOWED_DEVICE_ENROLLMENT_TRANSITIONS :: "enrollment_state \<Rightarrow> enrollment_state list" where
  "ALLOWED_DEVICE_ENROLLMENT_TRANSITIONS s = (case s of
       ENR_REQUESTED \<Rightarrow> [ENR_APPROVED, ENR_REJECTED, ENR_EXPIRED]
     | ENR_APPROVED \<Rightarrow> [ENR_POSSESSION_PROVEN, ENR_REJECTED, ENR_EXPIRED]
     | ENR_POSSESSION_PROVEN \<Rightarrow> [ENR_ENROLLED, ENR_REJECTED, ENR_EXPIRED]
     | ENR_ENROLLED \<Rightarrow> [ENR_REVOKED]
     | ENR_REJECTED \<Rightarrow> [] | ENR_EXPIRED \<Rightarrow> [] | ENR_REVOKED \<Rightarrow> [])"

definition TERMINAL_DEVICE_ENROLLMENT_STATES :: "enrollment_state list" where
  "TERMINAL_DEVICE_ENROLLMENT_STATES = [ENR_REJECTED, ENR_EXPIRED, ENR_REVOKED]"

definition isTerminalDeviceEnrollmentState :: "enrollment_state \<Rightarrow> bool" where
  "isTerminalDeviceEnrollmentState s \<longleftrightarrow> s \<in> set TERMINAL_DEVICE_ENROLLMENT_STATES"

definition canTransitionDeviceEnrollment :: "enrollment_state \<Rightarrow> enrollment_state \<Rightarrow> bool" where
  "canTransitionDeviceEnrollment from to \<longleftrightarrow> to \<in> set (ALLOWED_DEVICE_ENROLLMENT_TRANSITIONS from)"

subsection \<open>The bootstrap grant\<close>

definition DEVICE_ENROLLMENT_BOOTSTRAP_MAX_AGE_MS :: int where
  "DEVICE_ENROLLMENT_BOOTSTRAP_MAX_AGE_MS = 600000"

text \<open>\<open>single_use\<close> is the literal \<open>true\<close> and has no field.\<close>

record bootstrap_grant =
  bg_schema_version :: int
  bg_grant_id :: string
  bg_organisation_id :: string
  bg_site_id :: string
  bg_intended_user_id :: string
  bg_issued_by_user_id :: string
  bg_issued_at :: string
  bg_expires_at :: string
  bg_consumed_at :: "string option"
  bg_revoked_at :: "string option"

definition bootstrap_grant_ok :: "platform \<Rightarrow> bootstrap_grant \<Rightarrow> bool" where
  "bootstrap_grant_ok pl g \<longleftrightarrow> bg_schema_version g = 1 \<and> scopedId (bg_grant_id g) \<and> scopedId (bg_organisation_id g)
     \<and> scopedId (bg_site_id g) \<and> scopedId (bg_intended_user_id g) \<and> scopedId (bg_issued_by_user_id g)
     \<and> datetime_format pl (bg_issued_at g) \<and> datetime_format pl (bg_expires_at g)
     \<and> pred_option (datetime_format pl) (bg_consumed_at g) \<and> pred_option (datetime_format pl) (bg_revoked_at g)
     \<and> refineDeviceInstantWindow pl (bg_issued_at g) (bg_expires_at g) DEVICE_ENROLLMENT_BOOTSTRAP_MAX_AGE_MS"

datatype grant_standing = GRANT_USABLE | GRANT_NOT_YET_VALID | GRANT_EXPIRED | GRANT_CONSUMED | GRANT_REVOKED
  | GRANT_TIME_NOT_AUTHORITATIVE

definition classifyDeviceBootstrapGrant :: "platform \<Rightarrow> bootstrap_grant \<Rightarrow> string \<Rightarrow> grant_standing" where
  "classifyDeviceBootstrapGrant pl g now =
     (if bg_revoked_at g \<noteq> None then GRANT_REVOKED
      else if bg_consumed_at g \<noteq> None then GRANT_CONSUMED
      else case parseAuthoritativeInstants pl [now, bg_issued_at g, bg_expires_at g] of
          Some [now', issued, expires] \<Rightarrow>
            if now' < issued then GRANT_NOT_YET_VALID
            else if isExpiredAt now' expires then GRANT_EXPIRED else GRANT_USABLE
        | _ \<Rightarrow> GRANT_TIME_NOT_AUTHORITATIVE)"

subsection \<open>The request\<close>

definition DEVICE_ENROLLMENT_REQUEST_MAX_AGE_MS :: int where
  "DEVICE_ENROLLMENT_REQUEST_MAX_AGE_MS = 900000"

text \<open>The \<open>attestation\<close> object of the request is its three fields.\<close>

record enrollment_request =
  er_schema_version :: int
  er_enrollment_request_id :: string
  er_organisation_id :: string
  er_site_id :: string
  er_intended_user_id :: string
  er_bootstrap_grant_id :: string
  er_custody :: custody
  er_claimed_signature_profile :: string
  er_key_storage :: key_storage
  er_public_key :: string
  er_public_key_thumbprint :: string
  er_attestation_outcome :: attestation_outcome
  er_attestation_evaluated_at :: string
  er_attestation_reference :: "string option"
  er_requested_at :: string

definition enrollment_request_ok :: "platform \<Rightarrow> (bytes \<Rightarrow> string) \<Rightarrow> enrollment_request \<Rightarrow> bool" where
  "enrollment_request_ok pl sha_bytes q \<longleftrightarrow> er_schema_version q = 1 \<and> scopedId (er_enrollment_request_id q)
     \<and> scopedId (er_organisation_id q) \<and> scopedId (er_site_id q) \<and> scopedId (er_intended_user_id q)
     \<and> scopedId (er_bootstrap_grant_id q) \<and> isApprovedDeviceSignatureProfile (er_claimed_signature_profile q)
     \<and> \<not> isl (decodeCanonicalP256PublicKey (er_public_key q)) \<and> DeviceDigest (er_public_key_thumbprint q)
     \<and> datetime_format pl (er_attestation_evaluated_at q) \<and> pred_option scopedId (er_attestation_reference q)
     \<and> datetime_format pl (er_requested_at q)
     \<and> deviceKeyThumbprintMatches sha_bytes (er_public_key q) (er_public_key_thumbprint q)"

fun custody_name :: "custody \<Rightarrow> string" where
  "custody_name PERSONAL = ''PERSONAL''"
| "custody_name CONTROLLED_SHARED = ''CONTROLLED_SHARED''"

definition enrollment_request_object :: "enrollment_request \<Rightarrow> json" where
  "enrollment_request_object q = JObj
    [(''domain'', JStr ''sentinel.device.enrollment-request.v1''),
     (''schema_version'', JInt (er_schema_version q)),
     (''enrollment_request_id'', JStr (er_enrollment_request_id q)),
     (''organisation_id'', JStr (er_organisation_id q)),
     (''site_id'', JStr (er_site_id q)),
     (''intended_user_id'', JStr (er_intended_user_id q)),
     (''bootstrap_grant_id'', JStr (er_bootstrap_grant_id q)),
     (''custody'', JStr (custody_name (er_custody q))),
     (''claimed_signature_profile'', JStr (er_claimed_signature_profile q)),
     (''key_storage'', JStr (storage_name (er_key_storage q))),
     (''public_key'', JStr (er_public_key q)),
     (''public_key_thumbprint'', JStr (er_public_key_thumbprint q)),
     (''attestation'', JObj
       [(''outcome'', JStr (attestation_outcome_name (er_attestation_outcome q))),
        (''evaluated_at'', JStr (er_attestation_evaluated_at q)),
        (''attestation_reference'', opt_json JStr (er_attestation_reference q))]),
     (''requested_at'', JStr (er_requested_at q))]"

text \<open>The objects of this theory are JSON safe, so that \<open>the\<close> is applied to a value.\<close>

definition deviceEnrollmentRequestFingerprint :: "platform \<Rightarrow> enrollment_request \<Rightarrow> string" where
  "deviceEnrollmentRequestFingerprint pl q = the (device_canonical_digest (sha pl) (enrollment_request_object q))"

definition bootstrapGrantMatchesScope :: "bootstrap_grant \<Rightarrow> enrollment_request \<Rightarrow> bool" where
  "bootstrapGrantMatchesScope g q \<longleftrightarrow> bg_organisation_id g = er_organisation_id q
     \<and> bg_site_id g = er_site_id q \<and> bg_intended_user_id g = er_intended_user_id q"

subsection \<open>The approval\<close>

record enrollment_approval =
  ap_schema_version :: int
  ap_approval_id :: string
  ap_enrollment_request_id :: string
  ap_enrollment_request_fingerprint :: string
  ap_organisation_id :: string
  ap_site_id :: string
  ap_custody :: custody
  ap_approved_by_user_id :: string
  ap_approved_at :: string

definition enrollment_approval_ok :: "platform \<Rightarrow> enrollment_approval \<Rightarrow> bool" where
  "enrollment_approval_ok pl a \<longleftrightarrow> ap_schema_version a = 1 \<and> scopedId (ap_approval_id a)
     \<and> scopedId (ap_enrollment_request_id a) \<and> DeviceDigest (ap_enrollment_request_fingerprint a)
     \<and> scopedId (ap_organisation_id a) \<and> scopedId (ap_site_id a) \<and> scopedId (ap_approved_by_user_id a)
     \<and> datetime_format pl (ap_approved_at a)"

definition approvalMatchesEnrollmentRequest :: "platform \<Rightarrow> enrollment_approval \<Rightarrow> enrollment_request \<Rightarrow> bool" where
  "approvalMatchesEnrollmentRequest pl a q \<longleftrightarrow> ap_enrollment_request_id a = er_enrollment_request_id q
     \<and> ap_enrollment_request_fingerprint a = deviceEnrollmentRequestFingerprint pl q
     \<and> ap_organisation_id a = er_organisation_id q \<and> ap_site_id a = er_site_id q \<and> ap_custody a = er_custody q"

text \<open>shield.semantics.ts: the request with the custody regime it is approved under.\<close>

definition approvedEnrollmentSemanticsObject :: "string \<Rightarrow> custody \<Rightarrow> string option \<Rightarrow> json" where
  "approvedEnrollmentSemanticsObject fingerprint custody custodyRegimeId = JObj
    [(''domain'', JStr ''sentinel.shield.approved-enrollment-semantics.v1''),
     (''enrollment_request_fingerprint'', JStr fingerprint),
     (''custody'', JStr (custody_name custody)),
     (''custody_regime_id'', opt_json JStr custodyRegimeId)]"

definition approvedEnrollmentSemanticsDigest :: "platform \<Rightarrow> string \<Rightarrow> custody \<Rightarrow> string option \<Rightarrow> string" where
  "approvedEnrollmentSemanticsDigest pl fingerprint custody custodyRegimeId =
     the (device_canonical_digest (sha pl) (approvedEnrollmentSemanticsObject fingerprint custody custodyRegimeId))"

subsection \<open>Possession\<close>

definition DEVICE_POSSESSION_CHALLENGE_MAX_AGE_MS :: int where
  "DEVICE_POSSESSION_CHALLENGE_MAX_AGE_MS = 120000"

record possession_challenge =
  pc_schema_version :: int
  pc_challenge_id :: string
  pc_enrollment_request_id :: string
  pc_nonce :: string
  pc_issued_at :: string
  pc_expires_at :: string

definition possession_challenge_ok :: "platform \<Rightarrow> possession_challenge \<Rightarrow> bool" where
  "possession_challenge_ok pl c \<longleftrightarrow> pc_schema_version c = 1 \<and> scopedId (pc_challenge_id c)
     \<and> scopedId (pc_enrollment_request_id c) \<and> DeviceNonce (pc_nonce c) \<and> datetime_format pl (pc_issued_at c)
     \<and> datetime_format pl (pc_expires_at c)
     \<and> refineDeviceInstantWindow pl (pc_issued_at c) (pc_expires_at c) DEVICE_POSSESSION_CHALLENGE_MAX_AGE_MS"

record enrollment_response =
  es_schema_version :: int
  es_challenge_id :: string
  es_enrollment_request_id :: string
  es_claimed_signature_profile :: string
  es_signature :: string
  es_answered_at :: string

definition enrollment_response_ok :: "platform \<Rightarrow> enrollment_response \<Rightarrow> bool" where
  "enrollment_response_ok pl r \<longleftrightarrow> es_schema_version r = 1 \<and> scopedId (es_challenge_id r)
     \<and> scopedId (es_enrollment_request_id r) \<and> isApprovedDeviceSignatureProfile (es_claimed_signature_profile r)
     \<and> \<not> isl (decodeCanonicalP256Signature (es_signature r)) \<and> datetime_format pl (es_answered_at r)"

record enrollment_statement =
  em_challenge_id :: string
  em_enrollment_request_id :: string
  em_enrollment_request_fingerprint :: string
  em_nonce :: string
  em_public_key_thumbprint :: string
  em_signature_profile :: string

definition enrollment_statement_object :: "enrollment_statement \<Rightarrow> json" where
  "enrollment_statement_object s = JObj
    [(''domain'', JStr ''sentinel.device.possession-challenge.v1''),
     (''challenge_id'', JStr (em_challenge_id s)),
     (''enrollment_request_id'', JStr (em_enrollment_request_id s)),
     (''enrollment_request_fingerprint'', JStr (em_enrollment_request_fingerprint s)),
     (''nonce'', JStr (em_nonce s)),
     (''public_key_thumbprint'', JStr (em_public_key_thumbprint s)),
     (''signature_profile'', JStr (em_signature_profile s))]"

definition canonicalDevicePossessionStatement :: "enrollment_statement \<Rightarrow> string" where
  "canonicalDevicePossessionStatement s = the (canonical_device_json (enrollment_statement_object s))"

definition devicePossessionStatementFingerprint :: "platform \<Rightarrow> enrollment_statement \<Rightarrow> string" where
  "devicePossessionStatementFingerprint pl s = sha pl (canonicalDevicePossessionStatement s)"

text \<open>\<open>source\<close> is the literal \<open>SENTINEL_SERVER_VERIFICATION\<close> and has no field.\<close>

record possession_verdict =
  pv_schema_version :: int
  pv_verified :: bool
  pv_challenge_id :: string
  pv_enrollment_request_id :: string
  pv_enrollment_request_fingerprint :: string
  pv_public_key_thumbprint :: string
  pv_possession_statement_fingerprint :: string
  pv_signature_profile :: string
  pv_verified_at :: string

definition possession_verdict_ok :: "platform \<Rightarrow> possession_verdict \<Rightarrow> bool" where
  "possession_verdict_ok pl v \<longleftrightarrow> pv_schema_version v = 1 \<and> scopedId (pv_challenge_id v)
     \<and> scopedId (pv_enrollment_request_id v) \<and> DeviceDigest (pv_enrollment_request_fingerprint v)
     \<and> DeviceDigest (pv_public_key_thumbprint v) \<and> DeviceDigest (pv_possession_statement_fingerprint v)
     \<and> isApprovedDeviceSignatureProfile (pv_signature_profile v) \<and> datetime_format pl (pv_verified_at v)"

subsection \<open>The one-shot identities\<close>

definition bootstrap_replay_object :: "bootstrap_grant \<Rightarrow> json" where
  "bootstrap_replay_object g = JObj
    [(''domain'', JStr ''sentinel.device.bootstrap-grant.replay-identity.v1''),
     (''organisation_id'', JStr (bg_organisation_id g)),
     (''site_id'', JStr (bg_site_id g)),
     (''intended_user_id'', JStr (bg_intended_user_id g)),
     (''grant_id'', JStr (bg_grant_id g))]"

definition deviceBootstrapGrantReplayKey :: "bootstrap_grant \<Rightarrow> string" where
  "deviceBootstrapGrantReplayKey g = the (canonical_device_json (bootstrap_replay_object g))"

definition possession_replay_object :: "enrollment_request \<Rightarrow> possession_challenge \<Rightarrow> json" where
  "possession_replay_object q c = JObj
    [(''domain'', JStr ''sentinel.device.possession-challenge.replay-identity.v1''),
     (''organisation_id'', JStr (er_organisation_id q)),
     (''site_id'', JStr (er_site_id q)),
     (''intended_user_id'', JStr (er_intended_user_id q)),
     (''enrollment_request_id'', JStr (er_enrollment_request_id q)),
     (''challenge_id'', JStr (pc_challenge_id c)),
     (''nonce'', JStr (pc_nonce c))]"

definition devicePossessionChallengeReplayKey :: "enrollment_request \<Rightarrow> possession_challenge \<Rightarrow> string" where
  "devicePossessionChallengeReplayKey q c = the (canonical_device_json (possession_replay_object q c))"

subsection \<open>The custody association\<close>

record custody_association =
  ca_schema_version :: int
  ca_organisation_id :: string
  ca_device_id :: string
  ca_custody :: custody
  ca_assigned_user_id :: "string option"
  ca_custody_regime_id :: "string option"
  ca_associated_site_ids :: "string list"
  ca_associated_at :: string
  ca_released_at :: "string option"

definition custody_association_ok :: "platform \<Rightarrow> custody_association \<Rightarrow> bool" where
  "custody_association_ok pl a \<longleftrightarrow> ca_schema_version a = 1 \<and> scopedId (ca_organisation_id a)
     \<and> scopedId (ca_device_id a) \<and> pred_option scopedId (ca_assigned_user_id a)
     \<and> pred_option scopedId (ca_custody_regime_id a) \<and> list_all scopedId (ca_associated_site_ids a)
     \<and> 1 \<le> length (ca_associated_site_ids a) \<and> length (ca_associated_site_ids a) \<le> 256
     \<and> datetime_format pl (ca_associated_at a) \<and> pred_option (datetime_format pl) (ca_released_at a)
     \<and> (if ca_custody a = PERSONAL then ca_assigned_user_id a \<noteq> None \<and> ca_custody_regime_id a = None
        else ca_assigned_user_id a = None \<and> ca_custody_regime_id a \<noteq> None)
     \<and> distinct (ca_associated_site_ids a)"

definition deviceCustodyAssociationBindsSite :: "custody_association \<Rightarrow> string \<Rightarrow> bool" where
  "deviceCustodyAssociationBindsSite a site_id \<longleftrightarrow> ca_released_at a = None \<and> site_id \<in> set (ca_associated_site_ids a)"

subsection \<open>The gate\<close>

datatype enrollment_refusal = ER_BOOTSTRAP_GRANT_MISSING | ER_BOOTSTRAP_GRANT_UNUSABLE
  | ER_BOOTSTRAP_SCOPE_MISMATCH | ER_BOOTSTRAP_GRANT_REUSED | ER_BOOTSTRAP_CONSUMPTION_MISBOUND
  | ER_BOOTSTRAP_CONSUMPTION_INCONSISTENT | ER_REQUEST_EXPIRED | ER_REQUEST_PRECEDES_GRANT
  | ER_REQUEST_NOT_YET_MADE | ER_APPROVAL_MISSING | ER_APPROVAL_FINGERPRINT_MISMATCH
  | ER_APPROVAL_NOT_YET_MADE | ER_APPROVAL_PRECEDES_REQUEST | ER_USER_NOT_AUTHENTICATED
  | ER_USER_NOT_INTENDED | ER_CHALLENGE_MISSING | ER_CHALLENGE_MISBOUND | ER_CHALLENGE_EXPIRED
  | ER_CHALLENGE_NOT_YET_ISSUED | ER_CHALLENGE_PRECEDES_APPROVAL | ER_POSSESSION_VERIFIED_IN_FUTURE
  | ER_CHALLENGE_REUSED | ER_CHALLENGE_CONSUMPTION_MISBOUND | ER_CHALLENGE_CONSUMPTION_INCONSISTENT
  | ER_POSSESSION_NOT_PROVEN | ER_POSSESSION_VERIFICATION_MISSING | ER_POSSESSION_VERIFICATION_MISBOUND
  | ER_POSSESSION_STATEMENT_MISMATCH | ER_POSSESSION_PROFILE_MISMATCH | ER_SIGNATURE_PROFILE_CLAIM_MISMATCH
  | ER_TIME_NOT_AUTHORITATIVE

record enrollment_input =
  ei_request :: enrollment_request
  ei_grant :: "bootstrap_grant option"
  ei_approval :: "enrollment_approval option"
  ei_challenge :: "possession_challenge option"
  ei_possessionVerification :: "possession_verdict option"
  ei_serverSelectedSignatureProfile :: string
  ei_grantConsumption :: json
  ei_challengeConsumption :: json
  ei_authenticatedUserId :: "string option"
  ei_now :: string

datatype enrollment_decision = Enroll_Commit string | Enroll_Converge string string | Enroll_Refused enrollment_refusal

text \<open>
  The steps of \<open>evaluateDeviceEnrollmentCommit\<close> in its order, each with what the later ones need of it.
  A consumption fact is read first, then compared with the identity it should be about.
\<close>

definition one_shot_fact :: "enrollment_refusal \<Rightarrow> enrollment_refusal \<Rightarrow> enrollment_refusal \<Rightarrow> json \<Rightarrow> string \<Rightarrow> string \<Rightarrow>
    enrollment_refusal + consumption" where
  "one_shot_fact inconsistent misbound reused report replayKey fingerprint = (case read_consumption report of
       None \<Rightarrow> Inl inconsistent
     | Some f \<Rightarrow> if fact_replay_key f \<noteq> replayKey \<or> fact_statement_fingerprint f \<noteq> fingerprint then Inl misbound
         else if changed_semantics f then Inl reused else Inr f)"

definition gate_grant :: "platform \<Rightarrow> enrollment_input \<Rightarrow> enrollment_refusal + bootstrap_grant \<times> consumption" where
  "gate_grant pl i = (let q = ei_request i in case ei_grant i of None \<Rightarrow> Inl ER_BOOTSTRAP_GRANT_MISSING
     | Some g \<Rightarrow> if bg_grant_id g \<noteq> er_bootstrap_grant_id q then Inl ER_BOOTSTRAP_SCOPE_MISMATCH
         else let standing = classifyDeviceBootstrapGrant pl g (ei_now i) in
           if standing = GRANT_TIME_NOT_AUTHORITATIVE then Inl ER_TIME_NOT_AUTHORITATIVE
           else if standing \<noteq> GRANT_USABLE then Inl ER_BOOTSTRAP_GRANT_UNUSABLE
           else if \<not> bootstrapGrantMatchesScope g q then Inl ER_BOOTSTRAP_SCOPE_MISMATCH
           else and_then (one_shot_fact ER_BOOTSTRAP_CONSUMPTION_INCONSISTENT ER_BOOTSTRAP_CONSUMPTION_MISBOUND
               ER_BOOTSTRAP_GRANT_REUSED (ei_grantConsumption i) (deviceBootstrapGrantReplayKey g)
               (deviceEnrollmentRequestFingerprint pl q)) (\<lambda>f. Inr (g, f)))"

text \<open>The clock of the decision and the instant of the request.\<close>

definition gate_request :: "platform \<Rightarrow> enrollment_input \<Rightarrow> bootstrap_grant \<Rightarrow> enrollment_refusal + int \<times> int" where
  "gate_request pl i g =
     (case parseAuthoritativeInstants pl [ei_now i, er_requested_at (ei_request i), bg_issued_at g] of
        Some [now, requested, grantIssued] \<Rightarrow>
          if now - requested < 0 then Inl ER_REQUEST_NOT_YET_MADE
          else if now - requested > DEVICE_ENROLLMENT_REQUEST_MAX_AGE_MS then Inl ER_REQUEST_EXPIRED
          else if requested < grantIssued then Inl ER_REQUEST_PRECEDES_GRANT else Inr (now, requested)
      | _ \<Rightarrow> Inl ER_TIME_NOT_AUTHORITATIVE)"

definition gate_approval :: "platform \<Rightarrow> enrollment_input \<Rightarrow> int \<Rightarrow> int \<Rightarrow> enrollment_refusal + int" where
  "gate_approval pl i now requested = (case ei_approval i of None \<Rightarrow> Inl ER_APPROVAL_MISSING
     | Some a \<Rightarrow> if \<not> approvalMatchesEnrollmentRequest pl a (ei_request i) then Inl ER_APPROVAL_FINGERPRINT_MISMATCH
         else (case parseAuthoritativeInstants pl [ap_approved_at a] of
             Some [approved] \<Rightarrow> if approved > now then Inl ER_APPROVAL_NOT_YET_MADE
               else if approved < requested then Inl ER_APPROVAL_PRECEDES_REQUEST else Inr approved
           | _ \<Rightarrow> Inl ER_TIME_NOT_AUTHORITATIVE))"

definition gate_user :: "enrollment_input \<Rightarrow> enrollment_refusal + unit" where
  "gate_user i = (case ei_authenticatedUserId i of None \<Rightarrow> Inl ER_USER_NOT_AUTHENTICATED
     | Some u \<Rightarrow> if u \<noteq> er_intended_user_id (ei_request i) then Inl ER_USER_NOT_INTENDED else Inr ())"

definition gate_challenge :: "platform \<Rightarrow> enrollment_input \<Rightarrow> enrollment_refusal + possession_challenge \<times> consumption" where
  "gate_challenge pl i = (let q = ei_request i in case ei_challenge i of None \<Rightarrow> Inl ER_CHALLENGE_MISSING
     | Some c \<Rightarrow> if pc_enrollment_request_id c \<noteq> er_enrollment_request_id q then Inl ER_CHALLENGE_MISBOUND
         else and_then (one_shot_fact ER_CHALLENGE_CONSUMPTION_INCONSISTENT ER_CHALLENGE_CONSUMPTION_MISBOUND
             ER_CHALLENGE_REUSED (ei_challengeConsumption i) (devicePossessionChallengeReplayKey q c)
             (deviceEnrollmentRequestFingerprint pl q)) (\<lambda>f. Inr (c, f)))"

definition expected_statement :: "platform \<Rightarrow> enrollment_request \<Rightarrow> possession_challenge \<Rightarrow> string \<Rightarrow> enrollment_statement" where
  "expected_statement pl q c profile = \<lparr>em_challenge_id = pc_challenge_id c,
     em_enrollment_request_id = er_enrollment_request_id q,
     em_enrollment_request_fingerprint = deviceEnrollmentRequestFingerprint pl q, em_nonce = pc_nonce c,
     em_public_key_thumbprint = er_public_key_thumbprint q, em_signature_profile = profile\<rparr>"

definition verdict_bound :: "platform \<Rightarrow> enrollment_request \<Rightarrow> possession_challenge \<Rightarrow> possession_verdict \<Rightarrow> bool" where
  "verdict_bound pl q c v \<longleftrightarrow> pv_challenge_id v = pc_challenge_id c
     \<and> pv_enrollment_request_id v = er_enrollment_request_id q
     \<and> pv_enrollment_request_fingerprint v = deviceEnrollmentRequestFingerprint pl q
     \<and> pv_public_key_thumbprint v = er_public_key_thumbprint q"

definition gate_verdict :: "platform \<Rightarrow> enrollment_input \<Rightarrow> string \<Rightarrow> possession_challenge \<Rightarrow> int \<Rightarrow> int \<Rightarrow> enrollment_refusal + unit" where
  "gate_verdict pl i profile c now approved = (let q = ei_request i in
     case ei_possessionVerification i of None \<Rightarrow> Inl ER_POSSESSION_VERIFICATION_MISSING
     | Some v \<Rightarrow> if \<not> verdict_bound pl q c v then Inl ER_POSSESSION_VERIFICATION_MISBOUND
         else if pv_possession_statement_fingerprint v \<noteq>
             devicePossessionStatementFingerprint pl (expected_statement pl q c profile)
           then Inl ER_POSSESSION_STATEMENT_MISMATCH
         else if pv_signature_profile v \<noteq> profile then Inl ER_POSSESSION_PROFILE_MISMATCH
         else (case parseAuthoritativeInstants pl [pv_verified_at v, pc_issued_at c, pc_expires_at c] of
             Some [verified, issued, expires] \<Rightarrow>
               if issued > now then Inl ER_CHALLENGE_NOT_YET_ISSUED
               else if issued < approved then Inl ER_CHALLENGE_PRECEDES_APPROVAL
               else if verified < issued then Inl ER_CHALLENGE_NOT_YET_ISSUED
               else if verified > now then Inl ER_POSSESSION_VERIFIED_IN_FUTURE
               else if isExpiredAt verified expires then Inl ER_CHALLENGE_EXPIRED
               else if \<not> pv_verified v then Inl ER_POSSESSION_NOT_PROVEN else Inr ()
           | _ \<Rightarrow> Inl ER_TIME_NOT_AUTHORITATIVE))"

definition gate_facts :: "platform \<Rightarrow> enrollment_input \<Rightarrow> enrollment_refusal + consumption \<times> consumption" where
  "gate_facts pl i =
     (case bindClaimedSignatureProfile (er_claimed_signature_profile (ei_request i)) (ei_serverSelectedSignatureProfile i) of
        Bound profile \<Rightarrow> and_then (gate_grant pl i) (\<lambda>(g, grantFact).
          and_then (gate_request pl i g) (\<lambda>(now, requested).
          and_then (gate_approval pl i now requested) (\<lambda>approved.
          and_then (gate_user i) (\<lambda>_.
          and_then (gate_challenge pl i) (\<lambda>(c, challengeFact).
          and_then (gate_verdict pl i profile c now approved) (\<lambda>_. Inr (grantFact, challengeFact)))))))
      | _ \<Rightarrow> Inl ER_SIGNATURE_PROFILE_CLAIM_MISMATCH)"

definition evaluateDeviceEnrollmentCommit :: "platform \<Rightarrow> enrollment_input \<Rightarrow> enrollment_decision" where
  "evaluateDeviceEnrollmentCommit pl i = (let fingerprint = deviceEnrollmentRequestFingerprint pl (ei_request i) in
     case gate_facts pl i of Inl r \<Rightarrow> Enroll_Refused r
     | Inr (grantFact, challengeFact) \<Rightarrow> (case (stored_ref grantFact, stored_ref challengeFact) of
           (Some r, Some s) \<Rightarrow> if r \<noteq> s then Enroll_Refused ER_BOOTSTRAP_CONSUMPTION_INCONSISTENT
             else Enroll_Converge fingerprint s
         | (None, Some s) \<Rightarrow> Enroll_Converge fingerprint s
         | (Some r, None) \<Rightarrow> Enroll_Converge fingerprint r
         | (None, None) \<Rightarrow> Enroll_Commit fingerprint))"

end
