(* ===== verification/Shield_Enrollment.thy ===== *)
theory Shield_Enrollment
  imports Enrollment_Contract Shield_Rotation
begin

text \<open>
  The enrolment ceremony (services/core-api/src/modules/shield/device-enrollment.service.ts) over its
  tables: custody regimes, bootstrap grants, requests, approvals, possession challenges and verdicts, and
  the registry the commit writes to. Every step is cut between what it reads and the transaction that
  writes; the commit is one transaction. Rows of these tables are never deleted. Generated ids, tokens,
  nonces and clocks are arguments, as are the existence of a site and a user and the evaluator's answer.
\<close>

subsection \<open>Tables\<close>

record regime_row =
  rg_id :: string
  rg_organisationId :: string
  rg_siteId :: string
  rg_name :: string
  rg_definedByUserId :: string
  rg_retiredAt :: "int option"

record grant_row =
  gr_id :: string
  gr_organisationId :: string
  gr_siteId :: string
  gr_intendedUserId :: string
  gr_issuedByUserId :: string
  gr_tokenDigest :: string
  gr_issuedAt :: int
  gr_expiresAt :: int
  gr_consumedAt :: "int option"
  gr_revokedAt :: "int option"

text \<open>The row of a request without its state, which is the row of \<open>sd_enrollments\<close> with the same id.\<close>

record request_row =
  rq_id :: string
  rq_organisationId :: string
  rq_siteId :: string
  rq_intendedUserId :: string
  rq_bootstrapGrantId :: string
  rq_custody :: custody
  rq_custodyRegimeId :: "string option"
  rq_publicKey :: string
  rq_publicKeyThumbprint :: string
  rq_keyStorage :: key_storage
  rq_claimedSignatureProfile :: string
  rq_serverSelectedSignatureProfile :: string
  rq_requestFingerprint :: string
  rq_approvedSemanticsDigest :: string
  rq_attestationOutcome :: attestation_outcome
  rq_attestationEvaluatedAt :: int
  rq_attestationReference :: "string option"
  rq_requestedAt :: int

record approval_row =
  av_id :: string
  av_organisationId :: string
  av_enrollmentRequestId :: string
  av_approvedByUserId :: string
  av_approvedRequestFingerprint :: string
  av_approvedSiteId :: string
  av_approvedIntendedUserId :: string
  av_approvedCustody :: custody
  av_approvedCustodyRegimeId :: "string option"
  av_approvedSemanticsDigest :: string
  av_approvedAt :: int

record challenge_row =
  ch_id :: string
  ch_organisationId :: string
  ch_enrollmentRequestId :: string
  ch_nonce :: string
  ch_issuedAt :: int
  ch_expiresAt :: int

record verdict_row =
  vv_id :: string
  vv_organisationId :: string
  vv_challengeId :: string
  vv_enrollmentRequestId :: string
  vv_enrollmentRequestFingerprint :: string
  vv_publicKeyThumbprint :: string
  vv_possessionStatementFingerprint :: string
  vv_signatureProfile :: string
  vv_verified :: bool
  vv_verifiedAt :: int

text \<open>What a ceremony may be refused with: its own refusals, those it shares with the registry, and the gate's.\<close>

datatype ceremony_refusal = Shield_Refusal shield_refusal | Gate_Refusal enrollment_refusal
  | SITE_NOT_FOUND | USER_NOT_FOUND | BOOTSTRAP_GRANT_NOT_FOUND | BOOTSTRAP_CONTEXT_MISMATCH
  | ENROLLMENT_REQUEST_NOT_FOUND | ENROLLMENT_STATE_INVALID | ISSUER_MAY_NOT_APPROVE
  | INTENDED_USER_MAY_NOT_APPROVE | ALREADY_APPROVED | POSSESSION_CHALLENGE_NOT_FOUND
  | POSSESSION_CHALLENGE_MISBOUND | POSSESSION_VERIFICATION_NOT_FOUND | CUSTODY_REGIME_REQUIRED
  | CUSTODY_REGIME_NOT_PERMITTED | CUSTODY_REGIME_NOT_FOUND | CUSTODY_REGIME_RETIRED
  | APPROVED_SEMANTICS_MISMATCH | APPROVED_CUSTODY_REGIME_MISMATCH | APPROVAL_RECORD_INCONSISTENT
  | REPLAY_OUTCOME_UNRESOLVABLE | REPLAY_OUTCOME_DIVERGED | ENROLLMENT_REQUEST_CONFLICT

text \<open>The security events of the ceremony that name no device.\<close>

datatype ceremony_event =
    BOOTSTRAP_ISSUED string string string string string
  | BOOTSTRAP_REVOKED string string string
  | BOOTSTRAP_REPLAY_REFUSED string string string string
  | ENROLLMENT_REQUESTED string string string string custody key_storage string string attestation_outcome
  | ENROLLMENT_APPROVED string string string string custody
  | POSSESSION_VERIFIED string string string string string bool
  | ENROLLMENT_REFUSED string "string option" ceremony_refusal
  | ENROLLMENT_REPLAY_CONFLICT string string ceremony_refusal

record ceremony_event_row =
  cv_organisationId :: string
  cv_actorUserId :: "string option"
  cv_event :: ceremony_event
  cv_occurredAt :: int
  cv_traceId :: string

record ceremony_db =
  cd_regimes :: "regime_row list"
  cd_grants :: "grant_row list"
  cd_requests :: "request_row list"
  cd_approvals :: "approval_row list"
  cd_challenges :: "challenge_row list"
  cd_verdicts :: "verdict_row list"
  cd_events :: "ceremony_event_row list"
  cd_registry :: shield_db

definition empty_ceremonies :: ceremony_db where
  "empty_ceremonies = \<lparr>cd_regimes = [], cd_grants = [], cd_requests = [], cd_approvals = [], cd_challenges = [],
     cd_verdicts = [], cd_events = [], cd_registry = empty_shield\<rparr>"

subsection \<open>Reads (shield.repository.ts)\<close>

definition findCustodyRegime :: "platform \<Rightarrow> string \<Rightarrow> string \<Rightarrow> ceremony_db \<Rightarrow> regime_row option" where
  "findCustodyRegime pl organisationId id' c = (if \<not> uuid_format pl id' then None
     else find (\<lambda>r. rg_id r = id' \<and> rg_organisationId r = organisationId) (cd_regimes c))"

definition findBootstrapGrantByTokenDigest :: "string \<Rightarrow> ceremony_db \<Rightarrow> grant_row option" where
  "findBootstrapGrantByTokenDigest tokenDigest c = find (\<lambda>g. gr_tokenDigest g = tokenDigest) (cd_grants c)"

definition findBootstrapGrant :: "string \<Rightarrow> string \<Rightarrow> ceremony_db \<Rightarrow> grant_row option" where
  "findBootstrapGrant organisationId grantId c =
     find (\<lambda>g. gr_id g = grantId \<and> gr_organisationId g = organisationId) (cd_grants c)"

definition findEnrollmentRequest :: "string \<Rightarrow> string \<Rightarrow> ceremony_db \<Rightarrow> request_row option" where
  "findEnrollmentRequest organisationId id' c =
     find (\<lambda>r. rq_id r = id' \<and> rq_organisationId r = organisationId) (cd_requests c)"

definition findEnrollmentRequestByGrant :: "string \<Rightarrow> string \<Rightarrow> ceremony_db \<Rightarrow> request_row option" where
  "findEnrollmentRequestByGrant organisationId grantId c =
     find (\<lambda>r. rq_organisationId r = organisationId \<and> rq_bootstrapGrantId r = grantId) (cd_requests c)"

definition request_state :: "request_row \<Rightarrow> ceremony_db \<Rightarrow> enrollment_state option" where
  "request_state r c = map_option ce_state
     (find (\<lambda>s. ce_id s = rq_id r \<and> ce_organisationId s = rq_organisationId r) (sd_enrollments (cd_registry c)))"

definition findEnrollmentApproval :: "string \<Rightarrow> string \<Rightarrow> ceremony_db \<Rightarrow> approval_row option" where
  "findEnrollmentApproval organisationId requestId c =
     find (\<lambda>a. av_organisationId a = organisationId \<and> av_enrollmentRequestId a = requestId) (cd_approvals c)"

definition findPossessionChallenge :: "string \<Rightarrow> string \<Rightarrow> ceremony_db \<Rightarrow> challenge_row option" where
  "findPossessionChallenge organisationId id' c =
     find (\<lambda>h. ch_id h = id' \<and> ch_organisationId h = organisationId) (cd_challenges c)"

definition lockPossessionVerification :: "string \<Rightarrow> string \<Rightarrow> ceremony_db \<Rightarrow> verdict_row option" where
  "lockPossessionVerification organisationId challengeId c =
     find (\<lambda>v. vv_organisationId v = organisationId \<and> vv_challengeId v = challengeId) (cd_verdicts c)"

text \<open>Oldest first.\<close>

definition listPendingEnrollmentRequests :: "string \<Rightarrow> string list option \<Rightarrow> ceremony_db \<Rightarrow> request_row list" where
  "listPendingEnrollmentRequests organisationId sites c = sort_key rq_requestedAt
     (filter (\<lambda>r. rq_organisationId r = organisationId \<and> request_state r c = Some ENR_REQUESTED
        \<and> (case sites of None \<Rightarrow> True | Some ss \<Rightarrow> rq_siteId r \<in> set ss)) (cd_requests c))"

definition resolveDeviceOutcomeRef :: "platform \<Rightarrow> string \<Rightarrow> string \<Rightarrow> string \<Rightarrow> ceremony_db \<Rightarrow> device_row option" where
  "resolveDeviceOutcomeRef pl organisationId deviceId requestId c = (if \<not> uuid_format pl deviceId then None
     else find (\<lambda>d. is_device organisationId deviceId d \<and> dv_enrollmentRequestId d = requestId)
       (sd_devices (cd_registry c)))"

subsection \<open>Writes (shield.repository.ts)\<close>

text \<open>As in the registry, \<open>None\<close> is a row that a unique index or a foreign key between these tables refuses.\<close>

definition createCustodyRegime :: "regime_row \<Rightarrow> ceremony_db \<Rightarrow> ceremony_db option" where
  "createCustodyRegime r c = (if list_ex (\<lambda>e. rg_id e = rg_id r \<or> rg_organisationId e = rg_organisationId r
        \<and> rg_siteId e = rg_siteId r \<and> rg_name e = rg_name r) (cd_regimes c)
     then None else Some (c\<lparr>cd_regimes := cd_regimes c @ [r]\<rparr>))"

definition createBootstrapGrant :: "grant_row \<Rightarrow> ceremony_db \<Rightarrow> ceremony_db option" where
  "createBootstrapGrant g c = (if list_ex (\<lambda>e. gr_id e = gr_id g \<or> gr_organisationId e = gr_organisationId g
        \<and> gr_tokenDigest e = gr_tokenDigest g) (cd_grants c)
     then None else Some (c\<lparr>cd_grants := cd_grants c @ [g]\<rparr>))"

definition burnBootstrapGrant :: "string \<Rightarrow> string \<Rightarrow> int \<Rightarrow> ceremony_db \<Rightarrow> ceremony_db" where
  "burnBootstrapGrant organisationId grantId now c = c\<lparr>cd_grants := snd (updateMany
     (\<lambda>g. gr_id g = grantId \<and> gr_organisationId g = organisationId \<and> gr_consumedAt g = None)
     (gr_consumedAt_update (\<lambda>_. Some now)) (cd_grants c))\<rparr>"

definition revokeBootstrapGrantRow :: "string \<Rightarrow> string \<Rightarrow> int \<Rightarrow> ceremony_db \<Rightarrow> ceremony_db" where
  "revokeBootstrapGrantRow organisationId grantId now c = c\<lparr>cd_grants := snd (updateMany
     (\<lambda>g. gr_id g = grantId \<and> gr_organisationId g = organisationId \<and> gr_revokedAt g = None)
     (gr_revokedAt_update (\<lambda>_. Some now)) (cd_grants c))\<rparr>"

text \<open>A request is refused as a duplicate, or for a parent it lacks; the service tells the two apart.\<close>

definition request_duplicate :: "request_row \<Rightarrow> ceremony_db \<Rightarrow> bool" where
  "request_duplicate r c \<longleftrightarrow> list_ex (\<lambda>e. rq_id e = rq_id r \<or> rq_organisationId e = rq_organisationId r
     \<and> rq_bootstrapGrantId e = rq_bootstrapGrantId r) (cd_requests c)"

definition request_parents :: "request_row \<Rightarrow> ceremony_db \<Rightarrow> bool" where
  "request_parents r c \<longleftrightarrow> findBootstrapGrant (rq_organisationId r) (rq_bootstrapGrantId r) c \<noteq> None
     \<and> (case rq_custodyRegimeId r of None \<Rightarrow> True | Some x \<Rightarrow>
          list_ex (\<lambda>g. rg_id g = x \<and> rg_organisationId g = rq_organisationId r) (cd_regimes c))"

definition insertEnrollmentRequest :: "request_row \<Rightarrow> ceremony_db \<Rightarrow> ceremony_db" where
  "insertEnrollmentRequest r c = c\<lparr>cd_requests := cd_requests c @ [r], cd_registry := (cd_registry c)\<lparr>sd_enrollments :=
     sd_enrollments (cd_registry c) @ [\<lparr>ce_id = rq_id r, ce_organisationId = rq_organisationId r, ce_state = ENR_REQUESTED\<rparr>]\<rparr>\<rparr>"

definition createEnrollmentApproval :: "approval_row \<Rightarrow> ceremony_db \<Rightarrow> ceremony_db option" where
  "createEnrollmentApproval a c = (if list_ex (\<lambda>e. av_id e = av_id a \<or> av_organisationId e = av_organisationId a
        \<and> av_enrollmentRequestId e = av_enrollmentRequestId a) (cd_approvals c)
       \<or> findEnrollmentRequest (av_organisationId a) (av_enrollmentRequestId a) c = None
     then None else Some (c\<lparr>cd_approvals := cd_approvals c @ [a]\<rparr>))"

definition createPossessionChallenge :: "challenge_row \<Rightarrow> ceremony_db \<Rightarrow> ceremony_db option" where
  "createPossessionChallenge h c = (if list_ex (\<lambda>e. ch_id e = ch_id h) (cd_challenges c)
       \<or> findEnrollmentRequest (ch_organisationId h) (ch_enrollmentRequestId h) c = None
     then None else Some (c\<lparr>cd_challenges := cd_challenges c @ [h]\<rparr>))"

definition createPossessionVerification :: "verdict_row \<Rightarrow> ceremony_db \<Rightarrow> ceremony_db option" where
  "createPossessionVerification v c = (if list_ex (\<lambda>e. vv_id e = vv_id v \<or> vv_organisationId e = vv_organisationId v
        \<and> vv_challengeId e = vv_challengeId v) (cd_verdicts c)
       \<or> \<not> list_ex (\<lambda>h. ch_id h = vv_challengeId v \<and> ch_organisationId h = vv_organisationId v
            \<and> ch_enrollmentRequestId h = vv_enrollmentRequestId v) (cd_challenges c)
     then None else Some (c\<lparr>cd_verdicts := cd_verdicts c @ [v]\<rparr>))"

definition advanceRequest :: "string \<Rightarrow> string \<Rightarrow> enrollment_state \<Rightarrow> enrollment_state \<Rightarrow> ceremony_db \<Rightarrow> nat \<times> ceremony_db" where
  "advanceRequest organisationId id' from to c =
     (case advanceEnrollmentState organisationId id' from to (cd_registry c) of
        (n, db) \<Rightarrow> (n, c\<lparr>cd_registry := db\<rparr>))"

definition recordCeremony :: "string \<Rightarrow> string option \<Rightarrow> int \<Rightarrow> string \<Rightarrow> ceremony_event \<Rightarrow> ceremony_db \<Rightarrow> ceremony_db" where
  "recordCeremony organisationId actorUserId now traceId e c = c\<lparr>cd_events := cd_events c @
     [\<lparr>cv_organisationId = organisationId, cv_actorUserId = actorUserId, cv_event = e, cv_occurredAt = now,
       cv_traceId = traceId\<rparr>]\<rparr>"

subsection \<open>Regimes and grants\<close>

text \<open>Which sites and users an organisation has: the tables of the identity modules.\<close>

record tenants =
  site_in :: "string \<Rightarrow> string \<Rightarrow> bool"
  user_in :: "string \<Rightarrow> string \<Rightarrow> bool"

definition defineCustodyRegime :: "tenants \<Rightarrow> principal \<Rightarrow> string \<Rightarrow> string \<Rightarrow> string \<Rightarrow> string \<Rightarrow> ceremony_db \<Rightarrow>
    (ceremony_refusal + string) option \<times> ceremony_db" where
  "defineCustodyRegime ts p organisationId siteId name' regimeId c =
     (case checkDeviceAuthority p ''device.enrollment.issue'' organisationId (Some siteId) of
        Some r \<Rightarrow> (Some (Inl (Shield_Refusal r)), c)
      | None \<Rightarrow> if \<not> site_in ts organisationId siteId then (Some (Inl SITE_NOT_FOUND), c)
          else (case createCustodyRegime \<lparr>rg_id = regimeId, rg_organisationId = organisationId, rg_siteId = siteId,
              rg_name = name', rg_definedByUserId = pr_user_id p, rg_retiredAt = None\<rparr> c of
            None \<Rightarrow> (None, c) | Some c' \<Rightarrow> (Some (Inr regimeId), c')))"

definition digestBootstrapToken :: "platform \<Rightarrow> string \<Rightarrow> string" where
  "digestBootstrapToken pl token = sha pl token"

definition issueBootstrapGrant :: "platform \<Rightarrow> (int \<Rightarrow> string) \<Rightarrow> tenants \<Rightarrow> principal \<Rightarrow> string \<Rightarrow> string \<Rightarrow> string \<Rightarrow>
    string \<Rightarrow> string \<Rightarrow> string \<Rightarrow> int \<Rightarrow> ceremony_db \<Rightarrow> (ceremony_refusal + string) option \<times> ceremony_db" where
  "issueBootstrapGrant pl iso_string ts p organisationId siteId intendedUserId token grantId traceId issuedAt c =
     (case checkDeviceAuthority p ''device.enrollment.issue'' organisationId (Some siteId) of
        Some r \<Rightarrow> (Some (Inl (Shield_Refusal r)), c)
      | None \<Rightarrow> if \<not> site_in ts organisationId siteId then (Some (Inl SITE_NOT_FOUND), c)
          else if \<not> user_in ts organisationId intendedUserId then (Some (Inl USER_NOT_FOUND), c)
          else let expiresAt = issuedAt + DEVICE_ENROLLMENT_BOOTSTRAP_MAX_AGE_MS in
          (case createBootstrapGrant \<lparr>gr_id = grantId, gr_organisationId = organisationId, gr_siteId = siteId,
              gr_intendedUserId = intendedUserId, gr_issuedByUserId = pr_user_id p,
              gr_tokenDigest = digestBootstrapToken pl token, gr_issuedAt = issuedAt, gr_expiresAt = expiresAt,
              gr_consumedAt = None, gr_revokedAt = None\<rparr> c of
            None \<Rightarrow> (None, c)
          | Some c' \<Rightarrow> (Some (Inr grantId), recordCeremony organisationId (Some (pr_user_id p)) issuedAt traceId
              (BOOTSTRAP_ISSUED grantId siteId intendedUserId (pr_user_id p) (iso_string expiresAt)) c')))"

definition revokeBootstrapGrant_read :: "principal \<Rightarrow> string \<Rightarrow> string \<Rightarrow> ceremony_db \<Rightarrow> ceremony_refusal + grant_row" where
  "revokeBootstrapGrant_read p organisationId grantId c = (case findBootstrapGrant organisationId grantId c of
       None \<Rightarrow> Inl BOOTSTRAP_GRANT_NOT_FOUND
     | Some g \<Rightarrow> if checkDeviceAuthority p ''device.enrollment.issue'' organisationId (Some (gr_siteId g)) \<noteq> None
         then Inl BOOTSTRAP_GRANT_NOT_FOUND else Inr g)"

definition revokeBootstrapGrant_tx :: "principal \<Rightarrow> string \<Rightarrow> grant_row \<Rightarrow> string \<Rightarrow> int \<Rightarrow> ceremony_db \<Rightarrow> ceremony_db" where
  "revokeBootstrapGrant_tx p organisationId g traceId now c =
     recordCeremony organisationId (Some (pr_user_id p)) now traceId (BOOTSTRAP_REVOKED (gr_id g) (gr_siteId g) (pr_user_id p))
       (revokeBootstrapGrantRow organisationId (gr_id g) now c)"

subsection \<open>Presenting a grant\<close>

record enrol_submission =
  sm_organisationId :: string
  sm_siteId :: string
  sm_intendedUserId :: string
  sm_bootstrapToken :: string
  sm_custody :: custody
  sm_custodyRegimeId :: "string option"
  sm_publicKey :: string
  sm_keyStorage :: key_storage
  sm_claimedSignatureProfile :: string
  sm_traceId :: string

definition grant_of_row :: "(int \<Rightarrow> string) \<Rightarrow> grant_row \<Rightarrow> bootstrap_grant" where
  "grant_of_row iso_string g = \<lparr>bg_schema_version = 1, bg_grant_id = gr_id g, bg_organisation_id = gr_organisationId g,
     bg_site_id = gr_siteId g, bg_intended_user_id = gr_intendedUserId g, bg_issued_by_user_id = gr_issuedByUserId g,
     bg_issued_at = iso_string (gr_issuedAt g), bg_expires_at = iso_string (gr_expiresAt g),
     bg_consumed_at = map_option iso_string (gr_consumedAt g), bg_revoked_at = map_option iso_string (gr_revokedAt g)\<rparr>"

datatype presentation = Not_Presented ceremony_refusal | Probe grant_row | Presented grant_row

text \<open>A grant presented where it was not issued for is a probe, which the second step burns.\<close>

definition presentBootstrapGrant :: "platform \<Rightarrow> (int \<Rightarrow> string) \<Rightarrow> string \<Rightarrow> string \<Rightarrow> string \<Rightarrow> string \<Rightarrow> int \<Rightarrow>
    ceremony_db \<Rightarrow> presentation" where
  "presentBootstrapGrant pl iso_string organisationId siteId intendedUserId token now c =
     (case findBootstrapGrantByTokenDigest (digestBootstrapToken pl token) c of
        None \<Rightarrow> Not_Presented BOOTSTRAP_GRANT_NOT_FOUND
      | Some g \<Rightarrow> if \<not> (gr_organisationId g = organisationId \<and> gr_siteId g = siteId \<and> gr_intendedUserId g = intendedUserId)
            then Probe g
          else if \<not> bootstrap_grant_ok pl (grant_of_row iso_string g)
            then Not_Presented (Shield_Refusal MALFORMED_CONTRACT_STRUCTURE)
          else if classifyDeviceBootstrapGrant pl (grant_of_row iso_string g) (iso_string now) \<noteq> GRANT_USABLE
            then Not_Presented (Gate_Refusal ER_BOOTSTRAP_GRANT_UNUSABLE) else Presented g)"

definition burn_probed :: "string \<Rightarrow> string \<Rightarrow> string \<Rightarrow> grant_row \<Rightarrow> string \<Rightarrow> int \<Rightarrow> ceremony_db \<Rightarrow> ceremony_db" where
  "burn_probed organisationId siteId intendedUserId g traceId now c =
     recordCeremony (gr_organisationId g) None now traceId
       (BOOTSTRAP_REPLAY_REFUSED (gr_id g) organisationId siteId intendedUserId)
       (burnBootstrapGrant (gr_organisationId g) (gr_id g) now c)"

subsection \<open>The request\<close>

definition resolveSubmittedCustodyRegime :: "platform \<Rightarrow> enrol_submission \<Rightarrow> ceremony_db \<Rightarrow> ceremony_refusal option" where
  "resolveSubmittedCustodyRegime pl s c =
     (if sm_custody s = CONTROLLED_SHARED \<and> sm_custodyRegimeId s = None then Some CUSTODY_REGIME_REQUIRED
      else if sm_custody s \<noteq> CONTROLLED_SHARED \<and> sm_custodyRegimeId s \<noteq> None then Some CUSTODY_REGIME_NOT_PERMITTED
      else case sm_custodyRegimeId s of None \<Rightarrow> None
        | Some id' \<Rightarrow> (case findCustodyRegime pl (sm_organisationId s) id' c of None \<Rightarrow> Some CUSTODY_REGIME_NOT_FOUND
            | Some r \<Rightarrow> if rg_siteId r \<noteq> sm_siteId s then Some CUSTODY_REGIME_NOT_FOUND
                else if rg_retiredAt r \<noteq> None then Some CUSTODY_REGIME_RETIRED else None))"

definition submissionMatchesRequest :: "enrol_submission \<Rightarrow> request_row \<Rightarrow> bool" where
  "submissionMatchesRequest s r \<longleftrightarrow> rq_organisationId r = sm_organisationId s \<and> rq_siteId r = sm_siteId s
     \<and> rq_intendedUserId r = sm_intendedUserId s \<and> rq_custody r = sm_custody s
     \<and> rq_custodyRegimeId r = sm_custodyRegimeId s \<and> rq_publicKey r = sm_publicKey s
     \<and> rq_keyStorage r = sm_keyStorage s \<and> rq_claimedSignatureProfile r = sm_claimedSignatureProfile s"

datatype opened = Opening_Refused ceremony_refusal | Opening_Probe grant_row | Opening_Converged request_row
  | Opening grant_row

definition createEnrollmentRequest_read :: "platform \<Rightarrow> crypto \<Rightarrow> (int \<Rightarrow> string) \<Rightarrow> enrol_submission \<Rightarrow> int \<Rightarrow>
    ceremony_db \<Rightarrow> opened" where
  "createEnrollmentRequest_read pl cr iso_string s now c =
     (case presentBootstrapGrant pl iso_string (sm_organisationId s) (sm_siteId s) (sm_intendedUserId s)
        (sm_bootstrapToken s) now c of
        Not_Presented r \<Rightarrow> Opening_Refused r
      | Probe g \<Rightarrow> Opening_Probe g
      | Presented g \<Rightarrow> if \<not> isRuntimeValidPublicKey cr (sm_publicKey s)
            then Opening_Refused (Shield_Refusal PUBLIC_KEY_NOT_RUNTIME_VALID)
          else (case resolveSubmittedCustodyRegime pl s c of Some r \<Rightarrow> Opening_Refused r
            | None \<Rightarrow> (case findEnrollmentRequestByGrant (gr_organisationId g) (gr_id g) c of
                Some r \<Rightarrow> if \<not> submissionMatchesRequest s r then Opening_Refused ENROLLMENT_REQUEST_CONFLICT
                  else Opening_Converged r
              | None \<Rightarrow> Opening g)))"

definition enrollment_draft :: "crypto \<Rightarrow> (int \<Rightarrow> string) \<Rightarrow> enrol_submission \<Rightarrow> grant_row \<Rightarrow> attestation_evidence \<Rightarrow>
    string \<Rightarrow> int \<Rightarrow> enrollment_request" where
  "enrollment_draft cr iso_string s g e requestId requestedAt = \<lparr>er_schema_version = 1,
     er_enrollment_request_id = requestId, er_organisation_id = sm_organisationId s, er_site_id = sm_siteId s,
     er_intended_user_id = sm_intendedUserId s, er_bootstrap_grant_id = gr_id g, er_custody = sm_custody s,
     er_claimed_signature_profile = sm_claimedSignatureProfile s, er_key_storage = sm_keyStorage s,
     er_public_key = sm_publicKey s,
     er_public_key_thumbprint = (case deriveP256PublicKeyThumbprint (cr_sha_bytes cr) (sm_publicKey s) of
        Inl _ \<Rightarrow> [] | Inr t \<Rightarrow> t),
     er_attestation_outcome = ae_outcome e, er_attestation_evaluated_at = ae_evaluated_at e,
     er_attestation_reference = ae_attestation_reference e, er_requested_at = iso_string requestedAt\<rparr>"

datatype request_outcome = Requested string string | Request_Converged string string

definition request_row_of :: "platform \<Rightarrow> enrol_submission \<Rightarrow> enrollment_request \<Rightarrow> int \<Rightarrow> int \<Rightarrow> request_row" where
  "request_row_of pl s q evaluatedAt requestedAt = (let fingerprint = deviceEnrollmentRequestFingerprint pl q in
     \<lparr>rq_id = er_enrollment_request_id q, rq_organisationId = sm_organisationId s, rq_siteId = sm_siteId s,
      rq_intendedUserId = sm_intendedUserId s, rq_bootstrapGrantId = er_bootstrap_grant_id q, rq_custody = sm_custody s,
      rq_custodyRegimeId = sm_custodyRegimeId s, rq_publicKey = sm_publicKey s,
      rq_publicKeyThumbprint = er_public_key_thumbprint q, rq_keyStorage = sm_keyStorage s,
      rq_claimedSignatureProfile = sm_claimedSignatureProfile s,
      rq_serverSelectedSignatureProfile = SERVER_SELECTED_SIGNATURE_PROFILE, rq_requestFingerprint = fingerprint,
      rq_approvedSemanticsDigest = approvedEnrollmentSemanticsDigest pl fingerprint (sm_custody s) (sm_custodyRegimeId s),
      rq_attestationOutcome = er_attestation_outcome q, rq_attestationEvaluatedAt = evaluatedAt,
      rq_attestationReference = er_attestation_reference q, rq_requestedAt = requestedAt\<rparr>)"

text \<open>
  The transaction. A duplicate is resolved on the row that exists for the grant; \<open>None\<close> is a fault that is
  thrown on: an evaluation instant that is no date, a duplicate id, a parent or an observation refused.
\<close>

definition createEnrollmentRequest_tx :: "platform \<Rightarrow> crypto \<Rightarrow> (int \<Rightarrow> string) \<Rightarrow> enrol_submission \<Rightarrow> grant_row \<Rightarrow>
    attestation_evidence \<Rightarrow> string \<Rightarrow> int \<Rightarrow> ceremony_db \<Rightarrow> (ceremony_refusal + request_outcome) option \<times> ceremony_db" where
  "createEnrollmentRequest_tx pl cr iso_string s g e requestId requestedAt c =
     (let q = enrollment_draft cr iso_string s g e requestId requestedAt in
      if \<not> enrollment_request_ok pl (cr_sha_bytes cr) q then (Some (Inl (Shield_Refusal MALFORMED_CONTRACT_STRUCTURE)), c)
      else (case date_parse pl (ae_evaluated_at e) of None \<Rightarrow> (None, c)
       | Some evaluatedAt \<Rightarrow>
         let r = request_row_of pl s q evaluatedAt requestedAt; fingerprint = rq_requestFingerprint r in
         if request_duplicate r c then
           (if \<not> uuid_format pl (gr_id g) then (None, c)
            else case findEnrollmentRequestByGrant (gr_organisationId g) (gr_id g) c of None \<Rightarrow> (None, c)
              | Some w \<Rightarrow> if \<not> submissionMatchesRequest s w then (Some (Inl ENROLLMENT_REQUEST_CONFLICT), c)
                  else (Some (Inr (Request_Converged (rq_id w) (rq_requestFingerprint w))), c))
         else if \<not> request_parents r c then (None, c)
         else (case appendAttestationObservation \<lparr>ob_id = ae_observation_id e, ob_organisationId = sm_organisationId s,
             ob_deviceId = None, ob_enrollmentRequestId = Some requestId, ob_outcome = ae_outcome e,
             ob_attestationReference = ae_attestation_reference e, ob_evaluatedAt = evaluatedAt,
             ob_observedAt = requestedAt, ob_traceId = sm_traceId s\<rparr> (cd_registry (insertEnrollmentRequest r c)) of
           None \<Rightarrow> (None, c)
         | Some db \<Rightarrow> (Some (Inr (Requested requestId fingerprint)),
             recordCeremony (sm_organisationId s) None requestedAt (sm_traceId s)
               (ENROLLMENT_REQUESTED requestId fingerprint (sm_siteId s) (sm_intendedUserId s) (sm_custody s)
                 (sm_keyStorage s) (rq_publicKeyThumbprint r) SERVER_SELECTED_SIGNATURE_PROFILE (ae_outcome e))
               ((insertEnrollmentRequest r c)\<lparr>cd_registry := db\<rparr>)))))"

subsection \<open>The approval\<close>

text \<open>\<open>toContractRequest\<close>: the request as its row has it now.\<close>

definition enrollment_of_row :: "(int \<Rightarrow> string) \<Rightarrow> request_row \<Rightarrow> enrollment_request" where
  "enrollment_of_row iso_string r = \<lparr>er_schema_version = 1, er_enrollment_request_id = rq_id r,
     er_organisation_id = rq_organisationId r, er_site_id = rq_siteId r, er_intended_user_id = rq_intendedUserId r,
     er_bootstrap_grant_id = rq_bootstrapGrantId r, er_custody = rq_custody r,
     er_claimed_signature_profile = rq_claimedSignatureProfile r, er_key_storage = rq_keyStorage r,
     er_public_key = rq_publicKey r, er_public_key_thumbprint = rq_publicKeyThumbprint r,
     er_attestation_outcome = rq_attestationOutcome r,
     er_attestation_evaluated_at = iso_string (rq_attestationEvaluatedAt r),
     er_attestation_reference = rq_attestationReference r, er_requested_at = iso_string (rq_requestedAt r)\<rparr>"

definition toContractRequest :: "platform \<Rightarrow> crypto \<Rightarrow> (int \<Rightarrow> string) \<Rightarrow> request_row \<Rightarrow> enrollment_request option" where
  "toContractRequest pl cr iso_string r = (let q = enrollment_of_row iso_string r in
     if enrollment_request_ok pl (cr_sha_bytes cr) q then Some q else None)"

text \<open>What is carried to the transaction: the request with its fingerprint and the digest of its semantics.\<close>

definition approveEnrollmentRequest_read :: "platform \<Rightarrow> crypto \<Rightarrow> (int \<Rightarrow> string) \<Rightarrow> principal \<Rightarrow> string \<Rightarrow> string \<Rightarrow>
    string \<Rightarrow> ceremony_db \<Rightarrow> ceremony_refusal + request_row \<times> string \<times> string" where
  "approveEnrollmentRequest_read pl cr iso_string p organisationId requestId expectedFingerprint c =
     (case findEnrollmentRequest organisationId requestId c of None \<Rightarrow> Inl ENROLLMENT_REQUEST_NOT_FOUND
      | Some r \<Rightarrow> if checkDeviceAuthority p ''device.enrollment.approve'' organisationId (Some (rq_siteId r)) \<noteq> None
            then Inl ENROLLMENT_REQUEST_NOT_FOUND
          else if request_state r c \<noteq> Some ENR_REQUESTED
            then Inl (if request_state r c = Some ENR_APPROVED then ALREADY_APPROVED else ENROLLMENT_STATE_INVALID)
          else (case findBootstrapGrant organisationId (rq_bootstrapGrantId r) c of None \<Rightarrow> Inl BOOTSTRAP_GRANT_NOT_FOUND
            | Some g \<Rightarrow> if gr_issuedByUserId g = pr_user_id p then Inl ISSUER_MAY_NOT_APPROVE
                else if rq_intendedUserId r = pr_user_id p then Inl INTENDED_USER_MAY_NOT_APPROVE
                else (case toContractRequest pl cr iso_string r of None \<Rightarrow> Inl (Shield_Refusal MALFORMED_CONTRACT_STRUCTURE)
                  | Some q \<Rightarrow> let fingerprint = deviceEnrollmentRequestFingerprint pl q;
                        digest = approvedEnrollmentSemanticsDigest pl fingerprint (rq_custody r) (rq_custodyRegimeId r) in
                      if fingerprint \<noteq> expectedFingerprint \<or> fingerprint \<noteq> rq_requestFingerprint r
                        then Inl (Gate_Refusal ER_APPROVAL_FINGERPRINT_MISMATCH)
                      else if digest \<noteq> rq_approvedSemanticsDigest r then Inl APPROVED_SEMANTICS_MISMATCH
                      else Inr (r, fingerprint, digest))))"

definition approveEnrollmentRequest_tx :: "principal \<Rightarrow> string \<Rightarrow> request_row \<Rightarrow> string \<Rightarrow> string \<Rightarrow> string \<Rightarrow> string \<Rightarrow>
    int \<Rightarrow> ceremony_db \<Rightarrow> (ceremony_refusal + string) option \<times> ceremony_db" where
  "approveEnrollmentRequest_tx p organisationId r fingerprint digest approvalId traceId now c =
     (if \<not> canTransitionDeviceEnrollment ENR_REQUESTED ENR_APPROVED then (Some (Inl ENROLLMENT_STATE_INVALID), c)
      else case advanceRequest organisationId (rq_id r) ENR_REQUESTED ENR_APPROVED c of (advanced, c1) \<Rightarrow>
        if advanced \<noteq> 1 then (Some (Inl ALREADY_APPROVED), c)
        else (case createEnrollmentApproval \<lparr>av_id = approvalId, av_organisationId = organisationId,
            av_enrollmentRequestId = rq_id r, av_approvedByUserId = pr_user_id p,
            av_approvedRequestFingerprint = fingerprint, av_approvedSiteId = rq_siteId r,
            av_approvedIntendedUserId = rq_intendedUserId r, av_approvedCustody = rq_custody r,
            av_approvedCustodyRegimeId = rq_custodyRegimeId r, av_approvedSemanticsDigest = digest,
            av_approvedAt = now\<rparr> c1 of
          None \<Rightarrow> (None, c)
        | Some c2 \<Rightarrow> (Some (Inr approvalId), recordCeremony organisationId (Some (pr_user_id p)) now traceId
            (ENROLLMENT_APPROVED (rq_id r) fingerprint (pr_user_id p) (rq_siteId r) (rq_custody r)) c2)))"

text \<open>What the intended user may read of a ceremony, and what a commander may.\<close>

definition readIntendedUserEnrollment :: "principal \<Rightarrow> string \<Rightarrow> string \<Rightarrow> ceremony_db \<Rightarrow> ceremony_refusal + request_row" where
  "readIntendedUserEnrollment p organisationId requestId c =
     (if pr_organisation_id p \<noteq> organisationId then Inl ENROLLMENT_REQUEST_NOT_FOUND
      else case findEnrollmentRequest organisationId requestId c of None \<Rightarrow> Inl ENROLLMENT_REQUEST_NOT_FOUND
        | Some r \<Rightarrow> if rq_intendedUserId r \<noteq> pr_user_id p then Inl ENROLLMENT_REQUEST_NOT_FOUND else Inr r)"

definition listPendingEnrollments :: "principal \<Rightarrow> string \<Rightarrow> ceremony_db \<Rightarrow> ceremony_refusal + request_row list" where
  "listPendingEnrollments p organisationId c =
     (case checkDeviceAuthority p ''device.registry.read'' organisationId None of Some r \<Rightarrow> Inl (Shield_Refusal r)
      | None \<Rightarrow> let sites = readableSiteIds p ''device.registry.read'' in
          if sites = Some [] then Inr [] else Inr (listPendingEnrollmentRequests organisationId sites c))"

subsection \<open>Possession\<close>

definition issuePossessionChallenge_read :: "principal \<Rightarrow> string \<Rightarrow> string \<Rightarrow> ceremony_db \<Rightarrow> ceremony_refusal + request_row" where
  "issuePossessionChallenge_read p organisationId requestId c =
     (case readIntendedUserEnrollment p organisationId requestId c of Inl r \<Rightarrow> Inl r
      | Inr r \<Rightarrow> if request_state r c \<noteq> Some ENR_APPROVED \<and> request_state r c \<noteq> Some ENR_POSSESSION_PROVEN
          then Inl ENROLLMENT_STATE_INVALID else Inr r)"

definition issuePossessionChallenge_create :: "string \<Rightarrow> request_row \<Rightarrow> string \<Rightarrow> string \<Rightarrow> int \<Rightarrow> ceremony_db \<Rightarrow>
    string option \<times> ceremony_db" where
  "issuePossessionChallenge_create organisationId r challengeId nonce issuedAt c =
     (case createPossessionChallenge \<lparr>ch_id = challengeId, ch_organisationId = organisationId,
         ch_enrollmentRequestId = rq_id r, ch_nonce = nonce, ch_issuedAt = issuedAt,
         ch_expiresAt = issuedAt + DEVICE_POSSESSION_CHALLENGE_MAX_AGE_MS\<rparr> c of
        None \<Rightarrow> (None, c) | Some c' \<Rightarrow> (Some challengeId, c'))"

definition statement_of_rows :: "request_row \<Rightarrow> challenge_row \<Rightarrow> string \<Rightarrow> enrollment_statement" where
  "statement_of_rows r h fingerprint = \<lparr>em_challenge_id = ch_id h, em_enrollment_request_id = rq_id r,
     em_enrollment_request_fingerprint = fingerprint, em_nonce = ch_nonce h,
     em_public_key_thumbprint = rq_publicKeyThumbprint r,
     em_signature_profile = SERVER_SELECTED_SIGNATURE_PROFILE\<rparr>"

definition verifyPossession_read :: "platform \<Rightarrow> crypto \<Rightarrow> (int \<Rightarrow> string) \<Rightarrow> string \<Rightarrow> string \<Rightarrow> string \<Rightarrow>
    enrollment_response \<Rightarrow> ceremony_db \<Rightarrow> ceremony_refusal + request_row \<times> challenge_row \<times> string \<times> bool" where
  "verifyPossession_read pl cr iso_string organisationId requestId challengeId response c =
     (if \<not> enrollment_response_ok pl response then Inl (Shield_Refusal MALFORMED_CONTRACT_STRUCTURE)
      else case findEnrollmentRequest organisationId requestId c of None \<Rightarrow> Inl ENROLLMENT_REQUEST_NOT_FOUND
       | Some r \<Rightarrow> (case findPossessionChallenge organisationId challengeId c of None \<Rightarrow> Inl POSSESSION_CHALLENGE_NOT_FOUND
          | Some h \<Rightarrow> if ch_enrollmentRequestId h \<noteq> rq_id r then Inl POSSESSION_CHALLENGE_MISBOUND
              else if es_challenge_id response \<noteq> ch_id h \<or> es_enrollment_request_id response \<noteq> rq_id r
                then Inl POSSESSION_CHALLENGE_MISBOUND
              else (case toContractRequest pl cr iso_string r of None \<Rightarrow> Inl (Shield_Refusal MALFORMED_CONTRACT_STRUCTURE)
                | Some q \<Rightarrow> let fingerprint = deviceEnrollmentRequestFingerprint pl q in
                    Inr (r, h, fingerprint, verify_imported cr (rq_publicKey r)
                      (canonicalDevicePossessionStatement (statement_of_rows r h fingerprint)) (es_signature response)
                      (rq_serverSelectedSignatureProfile r) (es_claimed_signature_profile response)))))"

text \<open>The verdict row; a verified one must also move the request out of \<open>APPROVED\<close>, or all of it is undone.\<close>

definition verifyPossession_tx :: "platform \<Rightarrow> string \<Rightarrow> request_row \<Rightarrow> challenge_row \<Rightarrow> string \<Rightarrow> bool \<Rightarrow> string \<Rightarrow>
    string \<Rightarrow> int \<Rightarrow> ceremony_db \<Rightarrow> (ceremony_refusal + bool) option \<times> ceremony_db" where
  "verifyPossession_tx pl organisationId r h fingerprint verified verdictId traceId verifiedAt c =
     (let statement = devicePossessionStatementFingerprint pl (statement_of_rows r h fingerprint);
          event = recordCeremony organisationId None verifiedAt traceId (POSSESSION_VERIFIED (rq_id r) (ch_id h)
            (rq_publicKeyThumbprint r) statement SERVER_SELECTED_SIGNATURE_PROFILE verified)
      in case createPossessionVerification \<lparr>vv_id = verdictId, vv_organisationId = organisationId,
          vv_challengeId = ch_id h, vv_enrollmentRequestId = rq_id r, vv_enrollmentRequestFingerprint = fingerprint,
          vv_publicKeyThumbprint = rq_publicKeyThumbprint r, vv_possessionStatementFingerprint = statement,
          vv_signatureProfile = SERVER_SELECTED_SIGNATURE_PROFILE, vv_verified = verified,
          vv_verifiedAt = verifiedAt\<rparr> c of
        None \<Rightarrow> (None, c)
      | Some c1 \<Rightarrow> if \<not> verified then (Some (Inr False), event c1)
          else (case advanceRequest organisationId (rq_id r) ENR_APPROVED ENR_POSSESSION_PROVEN c1 of (advanced, c2) \<Rightarrow>
            if advanced \<noteq> 1 then (Some (Inl ENROLLMENT_STATE_INVALID), c) else (Some (Inr True), event c2)))"

subsection \<open>The commit\<close>

record locked_commit =
  lc_request :: request_row
  lc_approval :: approval_row
  lc_grant :: grant_row
  lc_contractRequest :: enrollment_request
  lc_contractGrant :: bootstrap_grant
  lc_contractApproval :: enrollment_approval
  lc_contractChallenge :: possession_challenge
  lc_contractVerification :: possession_verdict
  lc_fingerprint :: string

definition approval_of_row :: "(int \<Rightarrow> string) \<Rightarrow> approval_row \<Rightarrow> enrollment_approval" where
  "approval_of_row iso_string a = \<lparr>ap_schema_version = 1, ap_approval_id = av_id a,
     ap_enrollment_request_id = av_enrollmentRequestId a,
     ap_enrollment_request_fingerprint = av_approvedRequestFingerprint a, ap_organisation_id = av_organisationId a,
     ap_site_id = av_approvedSiteId a, ap_custody = av_approvedCustody a,
     ap_approved_by_user_id = av_approvedByUserId a, ap_approved_at = iso_string (av_approvedAt a)\<rparr>"

definition possession_of_row :: "(int \<Rightarrow> string) \<Rightarrow> challenge_row \<Rightarrow> possession_challenge" where
  "possession_of_row iso_string h = \<lparr>pc_schema_version = 1, pc_challenge_id = ch_id h,
     pc_enrollment_request_id = ch_enrollmentRequestId h, pc_nonce = ch_nonce h,
     pc_issued_at = iso_string (ch_issuedAt h), pc_expires_at = iso_string (ch_expiresAt h)\<rparr>"

definition verdict_of_row :: "(int \<Rightarrow> string) \<Rightarrow> verdict_row \<Rightarrow> possession_verdict" where
  "verdict_of_row iso_string v = \<lparr>pv_schema_version = 1, pv_verified = vv_verified v, pv_challenge_id = vv_challengeId v,
     pv_enrollment_request_id = vv_enrollmentRequestId v,
     pv_enrollment_request_fingerprint = vv_enrollmentRequestFingerprint v,
     pv_public_key_thumbprint = vv_publicKeyThumbprint v,
     pv_possession_statement_fingerprint = vv_possessionStatementFingerprint v,
     pv_signature_profile = vv_signatureProfile v, pv_verified_at = iso_string (vv_verifiedAt v)\<rparr>"

definition lockCommitState :: "platform \<Rightarrow> crypto \<Rightarrow> (int \<Rightarrow> string) \<Rightarrow> string \<Rightarrow> string \<Rightarrow> string \<Rightarrow> ceremony_db \<Rightarrow>
    ceremony_refusal + locked_commit" where
  "lockCommitState pl cr iso_string organisationId requestId challengeId c =
     (case findEnrollmentRequest organisationId requestId c of None \<Rightarrow> Inl ENROLLMENT_REQUEST_NOT_FOUND
      | Some r \<Rightarrow> (case findBootstrapGrant organisationId (rq_bootstrapGrantId r) c of None \<Rightarrow> Inl BOOTSTRAP_GRANT_NOT_FOUND
      | Some g \<Rightarrow> (case findEnrollmentApproval organisationId (rq_id r) c of None \<Rightarrow> Inl (Gate_Refusal ER_APPROVAL_MISSING)
      | Some a \<Rightarrow> (case findPossessionChallenge organisationId challengeId c of None \<Rightarrow> Inl POSSESSION_CHALLENGE_NOT_FOUND
      | Some h \<Rightarrow> if ch_enrollmentRequestId h \<noteq> rq_id r then Inl POSSESSION_CHALLENGE_MISBOUND
        else (case lockPossessionVerification organisationId (ch_id h) c of None \<Rightarrow> Inl POSSESSION_VERIFICATION_NOT_FOUND
      | Some v \<Rightarrow> (case toContractRequest pl cr iso_string r of None \<Rightarrow> Inl (Shield_Refusal MALFORMED_CONTRACT_STRUCTURE)
      | Some q \<Rightarrow> if \<not> (bootstrap_grant_ok pl (grant_of_row iso_string g)
            \<and> enrollment_approval_ok pl (approval_of_row iso_string a)
            \<and> possession_challenge_ok pl (possession_of_row iso_string h)
            \<and> possession_verdict_ok pl (verdict_of_row iso_string v)) then Inl (Shield_Refusal MALFORMED_CONTRACT_STRUCTURE)
          else Inr \<lparr>lc_request = r, lc_approval = a, lc_grant = g, lc_contractRequest = q,
            lc_contractGrant = grant_of_row iso_string g, lc_contractApproval = approval_of_row iso_string a,
            lc_contractChallenge = possession_of_row iso_string h,
            lc_contractVerification = verdict_of_row iso_string v,
            lc_fingerprint = deviceEnrollmentRequestFingerprint pl q\<rparr>))))))"

text \<open>What is checked on the locked rows before anything is written.\<close>

definition prevalidate :: "platform \<Rightarrow> crypto \<Rightarrow> string \<Rightarrow> locked_commit \<Rightarrow> ceremony_db \<Rightarrow> ceremony_refusal option" where
  "prevalidate pl cr organisationId l c = (let r = lc_request l; a = lc_approval l in
     if gr_issuedByUserId (lc_grant l) = av_approvedByUserId a then Some ISSUER_MAY_NOT_APPROVE
     else if rq_intendedUserId r = av_approvedByUserId a then Some INTENDED_USER_MAY_NOT_APPROVE
     else if \<not> isRuntimeValidPublicKey cr (rq_publicKey r) then Some (Shield_Refusal PUBLIC_KEY_NOT_RUNTIME_VALID)
     else if approvedEnrollmentSemanticsDigest pl (lc_fingerprint l) (er_custody (lc_contractRequest l)) (rq_custodyRegimeId r)
         \<noteq> av_approvedSemanticsDigest a then Some APPROVED_SEMANTICS_MISMATCH
     else if av_approvedCustodyRegimeId a \<noteq> rq_custodyRegimeId r then Some APPROVED_CUSTODY_REGIME_MISMATCH
     else if approvedEnrollmentSemanticsDigest pl (av_approvedRequestFingerprint a) (av_approvedCustody a)
           (av_approvedCustodyRegimeId a) \<noteq> av_approvedSemanticsDigest a then Some APPROVAL_RECORD_INCONSISTENT
     else case rq_custodyRegimeId r of None \<Rightarrow> None
       | Some id' \<Rightarrow> (case findCustodyRegime pl organisationId id' c of None \<Rightarrow> Some CUSTODY_REGIME_NOT_FOUND
           | Some g \<Rightarrow> if rg_siteId g \<noteq> er_site_id (lc_contractRequest l) then Some CUSTODY_REGIME_NOT_FOUND
               else if rg_retiredAt g \<noteq> None then Some CUSTODY_REGIME_RETIRED else None))"

text \<open>The references two one-shot identities hold for the same statement.\<close>

definition usable_ref :: "string \<Rightarrow> (string \<times> string option) option \<Rightarrow> string list" where
  "usable_ref fingerprint stored = (case stored of None \<Rightarrow> []
     | Some (fp, ref) \<Rightarrow> if fp \<noteq> fingerprint then [] else (case ref of None \<Rightarrow> [] | Some x \<Rightarrow> if x = [] then [] else [x]))"

definition resolveCanonicalEnrollmentOutcome :: "platform \<Rightarrow> string \<Rightarrow> string \<Rightarrow> string \<Rightarrow> string \<Rightarrow> string \<Rightarrow> string \<Rightarrow>
    ceremony_db \<Rightarrow> ceremony_refusal + string" where
  "resolveCanonicalEnrollmentOutcome pl organisationId requestId fingerprint grantKey challengeKey candidate c =
     (let rows = sd_replay (cd_registry c);
          references = remdups (usable_ref fingerprint (peek pl organisationId grantKey rows)
            @ usable_ref fingerprint (peek pl organisationId challengeKey rows))
      in if length references > 1 then Inl REPLAY_OUTCOME_DIVERGED
         else case references of [] \<Rightarrow> Inr candidate
           | reference # _ \<Rightarrow> (case resolveDeviceOutcomeRef pl organisationId reference requestId c of
               None \<Rightarrow> Inl REPLAY_OUTCOME_UNRESOLVABLE | Some d \<Rightarrow> Inr (dv_id d)))"

definition commit_association :: "(int \<Rightarrow> string) \<Rightarrow> string \<Rightarrow> locked_commit \<Rightarrow> string \<Rightarrow> int \<Rightarrow> custody_association" where
  "commit_association iso_string organisationId l outcomeRef now = (let q = lc_contractRequest l in
     \<lparr>ca_schema_version = 1, ca_organisation_id = organisationId, ca_device_id = outcomeRef, ca_custody = er_custody q,
      ca_assigned_user_id = (if er_custody q = PERSONAL then Some (er_intended_user_id q) else None),
      ca_custody_regime_id = av_approvedCustodyRegimeId (lc_approval l), ca_associated_site_ids = [er_site_id q],
      ca_associated_at = iso_string now, ca_released_at = None\<rparr>)"

text \<open>The ids and clocks of one commit; \<open>cs_refused_at\<close> is the clock of the record of an aborted one.\<close>

record commit_supplies =
  cs_candidateDeviceId :: string
  cs_keyId :: string
  cs_key_row_id :: string
  cs_observation_id :: string
  cs_traceId :: string
  cs_now :: int
  cs_refused_at :: int

definition effect_context :: "string \<Rightarrow> locked_commit \<Rightarrow> string \<Rightarrow> custody_association \<Rightarrow> commit_supplies \<Rightarrow> commit_context" where
  "effect_context organisationId l deviceId a u = (let q = lc_contractRequest l; r = lc_request l; g = lc_grant l in
     \<lparr>cx_organisationId = organisationId, cx_enrollmentRequestId = rq_id r, cx_deviceId = deviceId, cx_keyId = cs_keyId u,
      cx_key_row_id = cs_key_row_id u, cx_observation_id = cs_observation_id u, cx_traceId = cs_traceId u,
      cx_fingerprint = lc_fingerprint l, cx_grant_id = gr_id g, cx_grant_siteId = gr_siteId g,
      cx_grant_intendedUserId = gr_intendedUserId g, cx_grant_issuedByUserId = gr_issuedByUserId g,
      cx_intended_user_id = er_intended_user_id q, cx_site_id = er_site_id q, cx_custody = er_custody q,
      cx_assigned_user_id = ca_assigned_user_id a, cx_custody_regime_id = ca_custody_regime_id a,
      cx_publicKey = rq_publicKey r, cx_publicKeyThumbprint = rq_publicKeyThumbprint r, cx_keyStorage = rq_keyStorage r,
      cx_attestation_outcome = er_attestation_outcome q, cx_attestation_reference = er_attestation_reference q,
      cx_attestation_evaluated_at = er_attestation_evaluated_at q,
      cx_approved_by_user_id = ap_approved_by_user_id (lc_contractApproval l)\<rparr>)"

definition commit_input :: "(int \<Rightarrow> string) \<Rightarrow> principal \<Rightarrow> locked_commit \<Rightarrow> consumption \<Rightarrow> consumption \<Rightarrow> int \<Rightarrow> enrollment_input" where
  "commit_input iso_string p l grantFact challengeFact now = \<lparr>ei_request = lc_contractRequest l,
     ei_grant = Some (lc_contractGrant l), ei_approval = Some (lc_contractApproval l),
     ei_challenge = Some (lc_contractChallenge l), ei_possessionVerification = Some (lc_contractVerification l),
     ei_serverSelectedSignatureProfile = SERVER_SELECTED_SIGNATURE_PROFILE,
     ei_grantConsumption = consumption_json grantFact, ei_challengeConsumption = consumption_json challengeFact,
     ei_authenticatedUserId = Some (pr_user_id p), ei_now = iso_string now\<rparr>"

text \<open>The record of a refusal whose transaction was aborted, in a transaction of its own.\<close>

definition recordRolledBackEnrollmentRefusal :: "principal \<Rightarrow> string \<Rightarrow> string \<Rightarrow> string \<Rightarrow> string \<Rightarrow> commit_supplies \<Rightarrow>
    ceremony_refusal \<Rightarrow> ceremony_db \<Rightarrow> ceremony_db" where
  "recordRolledBackEnrollmentRefusal p organisationId requestId fingerprint digest u refusal c =
     (let note = recordCeremony organisationId (Some (pr_user_id p)) (cs_refused_at u) (cs_traceId u);
          conflict = refusal \<in> {Gate_Refusal ER_BOOTSTRAP_GRANT_REUSED, Gate_Refusal ER_CHALLENGE_REUSED,
            Gate_Refusal ER_BOOTSTRAP_CONSUMPTION_INCONSISTENT, Gate_Refusal ER_CHALLENGE_CONSUMPTION_INCONSISTENT}
      in note (ENROLLMENT_REFUSED requestId (Some fingerprint) refusal)
        (if conflict then note (ENROLLMENT_REPLAY_CONFLICT digest fingerprint refusal) c else c))"

text \<open>Whether the fenced update at the end is all that stops the effect: every write before it succeeds.\<close>

definition only_state_refuses :: "platform \<Rightarrow> (int \<Rightarrow> string) \<Rightarrow> commit_context \<Rightarrow> int \<Rightarrow> shield_db \<Rightarrow> bool" where
  "only_state_refuses pl iso_string x now db \<longleftrightarrow> performCommit pl iso_string x now (db\<lparr>sd_enrollments :=
     [\<lparr>ce_id = cx_enrollmentRequestId x, ce_organisationId = cx_organisationId x, ce_state = ENR_POSSESSION_PROVEN\<rparr>]\<rparr>) \<noteq> None"

datatype commit_outcome = Committed string | Commit_Converged string

definition commitEnrollment :: "platform \<Rightarrow> crypto \<Rightarrow> (int \<Rightarrow> string) \<Rightarrow> principal \<Rightarrow> string \<Rightarrow> string \<Rightarrow> string \<Rightarrow>
    commit_supplies \<Rightarrow> ceremony_db \<Rightarrow> (ceremony_refusal + commit_outcome) option \<times> ceremony_db" where
  "commitEnrollment pl cr iso_string p organisationId requestId challengeId u c =
     (case lockCommitState pl cr iso_string organisationId requestId challengeId c of
        Inl r \<Rightarrow> (Some (Inl r), c)
      | Inr l \<Rightarrow>
        let now = cs_now u; fingerprint = lc_fingerprint l;
            refuse = (\<lambda>r. (Some (Inl r), recordCeremony organisationId (Some (pr_user_id p)) now (cs_traceId u)
              (ENROLLMENT_REFUSED requestId (Some fingerprint) r) c));
            grantKey = deviceBootstrapGrantReplayKey (lc_contractGrant l);
            challengeKey = devicePossessionChallengeReplayKey (lc_contractRequest l) (lc_contractChallenge l);
            roll_back = (\<lambda>r. (Some (Inl r), recordRolledBackEnrollmentRefusal p organisationId requestId fingerprint
              (sha pl grantKey) u r c))
        in case prevalidate pl cr organisationId l c of Some r \<Rightarrow> refuse r
        | None \<Rightarrow>
        (case resolveCanonicalEnrollmentOutcome pl organisationId (rq_id (lc_request l)) fingerprint grantKey challengeKey
            (cs_candidateDeviceId u) c of Inl r \<Rightarrow> refuse r
        | Inr outcomeRef \<Rightarrow>
          let association = commit_association iso_string organisationId l outcomeRef now in
          if \<not> custody_association_ok pl association then refuse (Shield_Refusal MALFORMED_CONTRACT_STRUCTURE)
          else (case consume pl organisationId grantKey fingerprint outcomeRef (sd_replay (cd_registry c)) of
            (grantFact, replay1) \<Rightarrow> (case consume pl organisationId challengeKey fingerprint outcomeRef replay1 of
            (challengeFact, replay2) \<Rightarrow>
              let db = (cd_registry c)\<lparr>sd_replay := replay2\<rparr> in
              (case evaluateDeviceEnrollmentCommit pl (commit_input iso_string p l grantFact challengeFact now) of
                 Enroll_Refused r \<Rightarrow> roll_back (Gate_Refusal r)
               | Enroll_Converge f ref \<Rightarrow> (Some (Inr (Commit_Converged ref)), c\<lparr>cd_registry := db\<rparr>)
               | Enroll_Commit f \<Rightarrow>
                   let x = effect_context organisationId l outcomeRef association u in
                   (case performCommit pl iso_string x now db of
                      Some db' \<Rightarrow> (Some (Inr (Committed outcomeRef)), c\<lparr>cd_registry := db'\<rparr>)
                    | None \<Rightarrow> if only_state_refuses pl iso_string x now db then roll_back ENROLLMENT_STATE_INVALID
                        else (None, c)))))))"

end
