(* ===== verification/Enrollment_Gate.thy ===== *)
theory Enrollment_Gate
  imports Enrollment_Contract
begin

text \<open>
  The gate of an enrolment against one predicate: what a ceremony must be for the gate to let it through.
\<close>

text \<open>
  The instants of a ceremony in the order they must have happened: grant, request, approval, challenge,
  verdict, now; then the ends of the grant and of the challenge.
\<close>

definition instants_in_order :: "platform \<Rightarrow> enrollment_input \<Rightarrow> bootstrap_grant \<Rightarrow> enrollment_approval \<Rightarrow>
    possession_challenge \<Rightarrow> possession_verdict \<Rightarrow> bool" where
  "instants_in_order pl i g a c v = (case parseAuthoritativeInstants pl [bg_issued_at g, er_requested_at (ei_request i),
       ap_approved_at a, pc_issued_at c, pv_verified_at v, ei_now i, bg_expires_at g, pc_expires_at c] of
      Some [granted, requested, approved, challenged, verified, now, grant_end, challenge_end] \<Rightarrow>
        sorted [granted, requested, approved, challenged, verified, now] \<and> now < grant_end
        \<and> verified < challenge_end \<and> now - requested \<le> DEVICE_ENROLLMENT_REQUEST_MAX_AGE_MS
    | _ \<Rightarrow> False)"

definition ceremony_holds :: "platform \<Rightarrow> enrollment_input \<Rightarrow> bootstrap_grant \<Rightarrow> enrollment_approval \<Rightarrow>
    possession_challenge \<Rightarrow> possession_verdict \<Rightarrow> bool" where
  "ceremony_holds pl i g a c v = (let q = ei_request i; profile = ei_serverSelectedSignatureProfile i in
     er_claimed_signature_profile q = profile \<and> isApprovedDeviceSignatureProfile profile
     \<and> bg_grant_id g = er_bootstrap_grant_id q \<and> bootstrapGrantMatchesScope g q
     \<and> bg_revoked_at g = None \<and> bg_consumed_at g = None
     \<and> approvalMatchesEnrollmentRequest pl a q \<and> ei_authenticatedUserId i = Some (er_intended_user_id q)
     \<and> pc_enrollment_request_id c = er_enrollment_request_id q \<and> verdict_bound pl q c v
     \<and> pv_possession_statement_fingerprint v = devicePossessionStatementFingerprint pl (expected_statement pl q c profile)
     \<and> pv_signature_profile v = profile \<and> pv_verified v \<and> instants_in_order pl i g a c v)"

definition about :: "consumption \<Rightarrow> string \<Rightarrow> string \<Rightarrow> bool" where
  "about f replayKey fingerprint \<longleftrightarrow> fact_replay_key f = replayKey \<and> fact_statement_fingerprint f = fingerprint
     \<and> \<not> changed_semantics f"

lemma one_shot_iff: "one_shot_fact e1 e2 e3 report k fp = Inr f \<longleftrightarrow> read_consumption report = Some f \<and> about f k fp"
  by (auto simp: one_shot_fact_def about_def split: option.splits)

lemma bind_iff: "bindClaimedSignatureProfile x y = Bound p \<longleftrightarrow> p = y \<and> x = y \<and> isApprovedDeviceSignatureProfile y"
  by (auto simp: bindClaimedSignatureProfile_def)

lemma instants_Cons: "parseAuthoritativeInstants pl (s # ss) = (case date_parse pl s of None \<Rightarrow> None
    | Some t \<Rightarrow> map_option ((#) t) (parseAuthoritativeInstants pl ss))"
  by (simp add: parseAuthoritativeInstant_def split: option.splits)

lemma grant_iff:
  "gate_grant pl i = Inr (g, f) \<longleftrightarrow> ei_grant i = Some g \<and> bg_grant_id g = er_bootstrap_grant_id (ei_request i)
     \<and> classifyDeviceBootstrapGrant pl g (ei_now i) = GRANT_USABLE \<and> bootstrapGrantMatchesScope g (ei_request i)
     \<and> read_consumption (ei_grantConsumption i) = Some f
     \<and> about f (deviceBootstrapGrantReplayKey g) (deviceEnrollmentRequestFingerprint pl (ei_request i))"
  by (cases "classifyDeviceBootstrapGrant pl g (ei_now i)")
    (auto simp: gate_grant_def Let_def one_shot_iff split: option.splits)

lemma usable_iff:
  "classifyDeviceBootstrapGrant pl g now = GRANT_USABLE \<longleftrightarrow> bg_revoked_at g = None \<and> bg_consumed_at g = None
     \<and> (\<exists>n s e. date_parse pl now = Some n \<and> date_parse pl (bg_issued_at g) = Some s
          \<and> date_parse pl (bg_expires_at g) = Some e \<and> s \<le> n \<and> n < e)"
  by (auto simp: classifyDeviceBootstrapGrant_def instants_Cons parseAuthoritativeInstant_def isExpiredAt_def split: option.splits)

lemma request_iff:
  "gate_request pl i g = Inr (n, r) \<longleftrightarrow> (\<exists>s. date_parse pl (ei_now i) = Some n \<and> date_parse pl (er_requested_at (ei_request i)) = Some r
     \<and> date_parse pl (bg_issued_at g) = Some s \<and> s \<le> r \<and> r \<le> n \<and> n - r \<le> DEVICE_ENROLLMENT_REQUEST_MAX_AGE_MS)"
  by (auto simp: gate_request_def instants_Cons parseAuthoritativeInstant_def split: option.splits)

lemma approval_iff:
  "gate_approval pl i n r = Inr t \<longleftrightarrow> (\<exists>a. ei_approval i = Some a \<and> approvalMatchesEnrollmentRequest pl a (ei_request i)
     \<and> date_parse pl (ap_approved_at a) = Some t \<and> r \<le> t \<and> t \<le> n)"
  by (auto simp: gate_approval_def instants_Cons parseAuthoritativeInstant_def split: option.splits)

lemma user_iff: "gate_user i = Inr () \<longleftrightarrow> ei_authenticatedUserId i = Some (er_intended_user_id (ei_request i))"
  by (auto simp: gate_user_def split: option.splits)

lemma challenge_iff:
  "gate_challenge pl i = Inr (c, f) \<longleftrightarrow> ei_challenge i = Some c \<and> pc_enrollment_request_id c = er_enrollment_request_id (ei_request i)
     \<and> read_consumption (ei_challengeConsumption i) = Some f
     \<and> about f (devicePossessionChallengeReplayKey (ei_request i) c) (deviceEnrollmentRequestFingerprint pl (ei_request i))"
  by (auto simp: gate_challenge_def Let_def one_shot_iff split: option.splits)

lemma verdict_iff:
  "gate_verdict pl i profile c n t = Inr () \<longleftrightarrow> (\<exists>v x y z. ei_possessionVerification i = Some v \<and> verdict_bound pl (ei_request i) c v
     \<and> pv_possession_statement_fingerprint v = devicePossessionStatementFingerprint pl (expected_statement pl (ei_request i) c profile)
     \<and> pv_signature_profile v = profile \<and> pv_verified v \<and> date_parse pl (pv_verified_at v) = Some x
     \<and> date_parse pl (pc_issued_at c) = Some y \<and> date_parse pl (pc_expires_at c) = Some z
     \<and> t \<le> y \<and> y \<le> x \<and> x \<le> n \<and> x < z)"
  by (auto simp: gate_verdict_def Let_def instants_Cons parseAuthoritativeInstant_def isExpiredAt_def split: option.splits)

lemma order_iff:
  "instants_in_order pl i g a c v \<longleftrightarrow> (\<exists>s r t y x n e z. date_parse pl (bg_issued_at g) = Some s
     \<and> date_parse pl (er_requested_at (ei_request i)) = Some r \<and> date_parse pl (ap_approved_at a) = Some t
     \<and> date_parse pl (pc_issued_at c) = Some y \<and> date_parse pl (pv_verified_at v) = Some x
     \<and> date_parse pl (ei_now i) = Some n \<and> date_parse pl (bg_expires_at g) = Some e \<and> date_parse pl (pc_expires_at c) = Some z
     \<and> s \<le> r \<and> r \<le> t \<and> t \<le> y \<and> y \<le> x \<and> x \<le> n \<and> n < e \<and> x < z \<and> n - r \<le> DEVICE_ENROLLMENT_REQUEST_MAX_AGE_MS)"
  by (auto simp: instants_in_order_def instants_Cons parseAuthoritativeInstant_def split: option.splits)

lemma gate_facts_iff:
  "gate_facts pl i = Inr (gf, cf) \<longleftrightarrow> (\<exists>g a c v. ei_grant i = Some g \<and> ei_approval i = Some a \<and> ei_challenge i = Some c
     \<and> ei_possessionVerification i = Some v \<and> ceremony_holds pl i g a c v
     \<and> read_consumption (ei_grantConsumption i) = Some gf
     \<and> about gf (deviceBootstrapGrantReplayKey g) (deviceEnrollmentRequestFingerprint pl (ei_request i))
     \<and> read_consumption (ei_challengeConsumption i) = Some cf
     \<and> about cf (devicePossessionChallengeReplayKey (ei_request i) c) (deviceEnrollmentRequestFingerprint pl (ei_request i)))"
    (is "?L \<longleftrightarrow> ?R")
proof -
  have "?L \<longleftrightarrow> (\<exists>p. bindClaimedSignatureProfile (er_claimed_signature_profile (ei_request i)) (ei_serverSelectedSignatureProfile i) = Bound p
      \<and> (\<exists>g n r t c. gate_grant pl i = Inr (g, gf) \<and> gate_request pl i g = Inr (n, r) \<and> gate_approval pl i n r = Inr t
        \<and> gate_user i = Inr () \<and> gate_challenge pl i = Inr (c, cf) \<and> gate_verdict pl i p c n t = Inr ()))"
    by (auto simp: gate_facts_def split: profile_binding.splits)
  also have "\<dots> \<longleftrightarrow> ?R"
  proof
    assume "\<exists>p. bindClaimedSignatureProfile (er_claimed_signature_profile (ei_request i)) (ei_serverSelectedSignatureProfile i) = Bound p
        \<and> (\<exists>g n r t c. gate_grant pl i = Inr (g, gf) \<and> gate_request pl i g = Inr (n, r) \<and> gate_approval pl i n r = Inr t
          \<and> gate_user i = Inr () \<and> gate_challenge pl i = Inr (c, cf) \<and> gate_verdict pl i p c n t = Inr ())"
    then obtain p g n r t c where *: "bindClaimedSignatureProfile (er_claimed_signature_profile (ei_request i)) (ei_serverSelectedSignatureProfile i) = Bound p"
        "gate_grant pl i = Inr (g, gf)" "gate_request pl i g = Inr (n, r)" "gate_approval pl i n r = Inr t"
        "gate_user i = Inr ()" "gate_challenge pl i = Inr (c, cf)" "gate_verdict pl i p c n t = Inr ()" by blast
    from *(4) obtain a where a: "ei_approval i = Some a" "approvalMatchesEnrollmentRequest pl a (ei_request i)"
        "date_parse pl (ap_approved_at a) = Some t" "r \<le> t" unfolding approval_iff by blast
    from *(7) obtain v x y z where v: "ei_possessionVerification i = Some v" "verdict_bound pl (ei_request i) c v"
        "pv_possession_statement_fingerprint v = devicePossessionStatementFingerprint pl (expected_statement pl (ei_request i) c p)"
        "pv_signature_profile v = p" "pv_verified v" "date_parse pl (pv_verified_at v) = Some x"
        "date_parse pl (pc_issued_at c) = Some y" "date_parse pl (pc_expires_at c) = Some z" "t \<le> y" "y \<le> x" "x \<le> n" "x < z"
      unfolding verdict_iff by blast
    have "instants_in_order pl i g a c v"
      using *(2,3) a(3,4) v(6-12) unfolding grant_iff usable_iff request_iff order_iff by auto
    then have "ceremony_holds pl i g a c v"
      using *(1,2,5,6) a(2) v(2-5) unfolding bind_iff grant_iff usable_iff user_iff challenge_iff ceremony_holds_def Let_def by auto
    then show ?R using *(2,6) a(1) v(1) unfolding grant_iff challenge_iff by blast
  next
    assume ?R
    then obtain g a c v where *: "ei_grant i = Some g" "ei_approval i = Some a" "ei_challenge i = Some c"
        "ei_possessionVerification i = Some v" "ceremony_holds pl i g a c v" "read_consumption (ei_grantConsumption i) = Some gf"
        "about gf (deviceBootstrapGrantReplayKey g) (deviceEnrollmentRequestFingerprint pl (ei_request i))"
        "read_consumption (ei_challengeConsumption i) = Some cf"
        "about cf (devicePossessionChallengeReplayKey (ei_request i) c) (deviceEnrollmentRequestFingerprint pl (ei_request i))" by blast
    from *(5) obtain s r t y x n e z where d: "date_parse pl (bg_issued_at g) = Some s"
        "date_parse pl (er_requested_at (ei_request i)) = Some r" "date_parse pl (ap_approved_at a) = Some t"
        "date_parse pl (pc_issued_at c) = Some y" "date_parse pl (pv_verified_at v) = Some x"
        "date_parse pl (ei_now i) = Some n" "date_parse pl (bg_expires_at g) = Some e" "date_parse pl (pc_expires_at c) = Some z"
        "s \<le> r" "r \<le> t" "t \<le> y" "y \<le> x" "x \<le> n" "n < e" "x < z" "n - r \<le> DEVICE_ENROLLMENT_REQUEST_MAX_AGE_MS"
      unfolding ceremony_holds_def Let_def order_iff by blast
    let ?p = "ei_serverSelectedSignatureProfile i"
    have "gate_grant pl i = Inr (g, gf)" using * d unfolding grant_iff usable_iff ceremony_holds_def Let_def by auto
    moreover have "gate_request pl i g = Inr (n, r)" using d unfolding request_iff by auto
    moreover have "gate_approval pl i n r = Inr t" using * d unfolding approval_iff ceremony_holds_def Let_def by auto
    moreover have "gate_user i = Inr ()" using * unfolding user_iff ceremony_holds_def Let_def by auto
    moreover have "gate_challenge pl i = Inr (c, cf)" using * unfolding challenge_iff ceremony_holds_def Let_def by auto
    moreover have "gate_verdict pl i ?p c n t = Inr ()" using * d unfolding verdict_iff ceremony_holds_def Let_def by auto
    moreover have "bindClaimedSignatureProfile (er_claimed_signature_profile (ei_request i)) ?p = Bound ?p"
      using * unfolding bind_iff ceremony_holds_def Let_def by auto
    ultimately show "\<exists>p. bindClaimedSignatureProfile (er_claimed_signature_profile (ei_request i)) ?p = Bound p
        \<and> (\<exists>g n r t c. gate_grant pl i = Inr (g, gf) \<and> gate_request pl i g = Inr (n, r) \<and> gate_approval pl i n r = Inr t
          \<and> gate_user i = Inr () \<and> gate_challenge pl i = Inr (c, cf) \<and> gate_verdict pl i p c n t = Inr ())" by blast
  qed
  finally show ?thesis .
qed

lemma first_seen_iff: "stored_ref f = None \<and> about f k fp \<longleftrightarrow> f = First_Seen k fp"
  by (cases f) (auto simp: about_def)

text \<open>
  C40: The gate of an enrolment commits exactly a complete ceremony. It answers COMMIT exactly
  when everything it rests on holds at once: the profile is the server's, the grant is the
  request's and neither spent nor revoked, the approval names the exact request, the intended user
  is signed in, a verified verdict is bound to this challenge, key and statement, the instants are
  in the order grant, request, approval, challenge, verdict, now, within the windows of grant,
  request and challenge, and both one-shot identities are reported as seen for the first time.
\<close>

theorem commit_gate_exact:
  "evaluateDeviceEnrollmentCommit pl i = Enroll_Commit f \<longleftrightarrow> f = deviceEnrollmentRequestFingerprint pl (ei_request i)
     \<and> (\<exists>g a c v. ei_grant i = Some g \<and> ei_approval i = Some a \<and> ei_challenge i = Some c
          \<and> ei_possessionVerification i = Some v \<and> ceremony_holds pl i g a c v
          \<and> read_consumption (ei_grantConsumption i) = Some (First_Seen (deviceBootstrapGrantReplayKey g) f)
          \<and> read_consumption (ei_challengeConsumption i)
              = Some (First_Seen (devicePossessionChallengeReplayKey (ei_request i) c) f))"
proof -
  have "evaluateDeviceEnrollmentCommit pl i = Enroll_Commit f \<longleftrightarrow> f = deviceEnrollmentRequestFingerprint pl (ei_request i)
      \<and> (\<exists>gf cf. gate_facts pl i = Inr (gf, cf) \<and> stored_ref gf = None \<and> stored_ref cf = None)"
    by (auto simp: evaluateDeviceEnrollmentCommit_def Let_def split: sum.splits option.splits if_splits)
  then show ?thesis unfolding gate_facts_iff by (metis first_seen_iff)
qed

end
