(* ===== verification/Enrollment_Runs.thy ===== *)
theory Enrollment_Runs
  imports Shield_Properties Shield_Enrollment Enrollment_Gate
begin

text \<open>
  The whole of the Shield module as one machine: the enrolment ceremonies of device-enrollment.service.ts,
  any number at a time, each call cut between its reads and its transaction, beside the calls of the
  registry. Every step of it is a run of the registry's own machine, so what holds of the registry holds
  here; the invariant adds what the tables of the ceremonies say of each other.
\<close>

subsection \<open>Calls and steps\<close>

datatype enrol_pending =
    Revoking principal string grant_row
  | Burning string string string grant_row
  | Requesting enrol_submission grant_row
  | Approving principal string request_row string string
  | Issuing string request_row
  | Verifying string request_row challenge_row string bool

text \<open>A call, with the clock of its reads where they take one.\<close>

datatype enrol_call =
    Call_Revoke principal string string
  | Call_Present string string string string int
  | Call_Request enrol_submission int
  | Call_Approve principal string string string
  | Call_Challenge principal string string
  | Call_Verify string string string enrollment_response

record enrol_supplies =
  ep_now :: int
  ep_traceId :: string
  ep_id :: string
  ep_nonce :: string
  ep_evidence :: attestation_evidence

text \<open>\<open>Retire\<close> is an operator's: no operation of the module retires a regime.\<close>

datatype enrol_act =
    Registry shield_act
  | Define tenants principal string string string string
  | Issue tenants principal string string string string string string int
  | Retire string string int
  | Enrol_Begin enrol_call
  | Enrol_Finish nat enrol_supplies
  | Enrol_Commit principal string string string commit_supplies

record enrol_system =
  en_db :: ceremony_db
  en_calls :: "pending list"
  en_pending :: "enrol_pending list"

definition view :: "enrol_system \<Rightarrow> shield_system" where
  "view s = \<lparr>sh_db = cd_registry (en_db s), sh_pending = en_calls s\<rparr>"

text \<open>The registry's own steps: its enrolments and ceremonies are this machine's.\<close>

fun own_step :: "shield_act \<Rightarrow> bool" where
  "own_step (Enroll c now) = False"
| "own_step (Ceremony rows os replay) = False"
| "own_step _ = True"

fun enrol_begin :: "platform \<Rightarrow> crypto \<Rightarrow> (int \<Rightarrow> string) \<Rightarrow> ceremony_db \<Rightarrow> enrol_call \<Rightarrow> enrol_pending option" where
  "enrol_begin pl cr iso_string c (Call_Revoke p org grantId) = (case revokeBootstrapGrant_read p org grantId c of
     Inl _ \<Rightarrow> None | Inr g \<Rightarrow> Some (Revoking p org g))"
| "enrol_begin pl cr iso_string c (Call_Present org site user token now) =
     (case presentBootstrapGrant pl iso_string org site user token now c of
        Probe g \<Rightarrow> Some (Burning org site user g) | _ \<Rightarrow> None)"
| "enrol_begin pl cr iso_string c (Call_Request s now) = (case createEnrollmentRequest_read pl cr iso_string s now c of
        Opening_Probe g \<Rightarrow> Some (Burning (sm_organisationId s) (sm_siteId s) (sm_intendedUserId s) g)
      | Opening g \<Rightarrow> Some (Requesting s g)
      | _ \<Rightarrow> None)"
| "enrol_begin pl cr iso_string c (Call_Approve p org req fingerprint) =
     (case approveEnrollmentRequest_read pl cr iso_string p org req fingerprint c of
        Inl _ \<Rightarrow> None | Inr (r, fp, digest) \<Rightarrow> Some (Approving p org r fp digest))"
| "enrol_begin pl cr iso_string c (Call_Challenge p org req) = (case issuePossessionChallenge_read p org req c of
        Inl _ \<Rightarrow> None | Inr r \<Rightarrow> Some (Issuing org r))"
| "enrol_begin pl cr iso_string c (Call_Verify org req ch response) =
     (case verifyPossession_read pl cr iso_string org req ch response c of
        Inl _ \<Rightarrow> None | Inr (r, h, fp, v) \<Rightarrow> Some (Verifying org r h fp v))"

fun enrol_finish :: "platform \<Rightarrow> crypto \<Rightarrow> (int \<Rightarrow> string) \<Rightarrow> enrol_supplies \<Rightarrow> enrol_pending \<Rightarrow> ceremony_db \<Rightarrow> ceremony_db" where
  "enrol_finish pl cr iso_string u (Revoking p org g) c = revokeBootstrapGrant_tx p org g (ep_traceId u) (ep_now u) c"
| "enrol_finish pl cr iso_string u (Burning org site user g) c = burn_probed org site user g (ep_traceId u) (ep_now u) c"
| "enrol_finish pl cr iso_string u (Requesting s g) c =
     snd (createEnrollmentRequest_tx pl cr iso_string s g (ep_evidence u) (ep_id u) (ep_now u) c)"
| "enrol_finish pl cr iso_string u (Approving p org r fp digest) c =
     snd (approveEnrollmentRequest_tx p org r fp digest (ep_id u) (ep_traceId u) (ep_now u) c)"
| "enrol_finish pl cr iso_string u (Issuing org r) c =
     snd (issuePossessionChallenge_create org r (ep_id u) (ep_nonce u) (ep_now u) c)"
| "enrol_finish pl cr iso_string u (Verifying org r h fp v) c =
     snd (verifyPossession_tx pl org r h fp v (ep_id u) (ep_traceId u) (ep_now u) c)"

fun enrol_step :: "platform \<Rightarrow> crypto \<Rightarrow> (int \<Rightarrow> string) \<Rightarrow> enrol_act \<Rightarrow> enrol_system \<Rightarrow> enrol_system" where
  "enrol_step pl cr iso_string (Registry a) s = (if \<not> own_step a then s
     else let v = shield_step pl cr iso_string a (view s) in
       s\<lparr>en_db := (en_db s)\<lparr>cd_registry := sh_db v\<rparr>, en_calls := sh_pending v\<rparr>)"
| "enrol_step pl cr iso_string (Define ts p org site name' regimeId) s =
     s\<lparr>en_db := snd (defineCustodyRegime ts p org site name' regimeId (en_db s))\<rparr>"
| "enrol_step pl cr iso_string (Issue ts p org site user token grantId trace now) s =
     s\<lparr>en_db := snd (issueBootstrapGrant pl iso_string ts p org site user token grantId trace now (en_db s))\<rparr>"
| "enrol_step pl cr iso_string (Retire org regimeId now) s = s\<lparr>en_db := (en_db s)\<lparr>cd_regimes :=
     map (\<lambda>r. if rg_id r = regimeId \<and> rg_organisationId r = org then r\<lparr>rg_retiredAt := Some now\<rparr> else r) (cd_regimes (en_db s))\<rparr>\<rparr>"
| "enrol_step pl cr iso_string (Enrol_Begin call) s = (case enrol_begin pl cr iso_string (en_db s) call of
     None \<Rightarrow> s | Some w \<Rightarrow> s\<lparr>en_pending := en_pending s @ [w]\<rparr>)"
| "enrol_step pl cr iso_string (Enrol_Finish n u) s = (if n < length (en_pending s)
     then s\<lparr>en_db := enrol_finish pl cr iso_string u (en_pending s ! n) (en_db s),
            en_pending := take n (en_pending s) @ drop (Suc n) (en_pending s)\<rparr> else s)"
| "enrol_step pl cr iso_string (Enrol_Commit p org req ch u) s =
     s\<lparr>en_db := snd (commitEnrollment pl cr iso_string p org req ch u (en_db s))\<rparr>"

definition enrol_start :: enrol_system where
  "enrol_start = \<lparr>en_db = empty_ceremonies, en_calls = [], en_pending = []\<rparr>"

definition enrol_run :: "platform \<Rightarrow> crypto \<Rightarrow> (int \<Rightarrow> string) \<Rightarrow> enrol_act list \<Rightarrow> enrol_system" where
  "enrol_run pl cr iso_string acts = fold (enrol_step pl cr iso_string) acts enrol_start"

subsection \<open>What each transaction does to the registry\<close>

text \<open>The registry as one transaction of a ceremony may leave it: other states, observations of no device, replay rows.\<close>

definition beside :: "shield_db \<Rightarrow> shield_db \<Rightarrow> bool" where
  "beside a b \<longleftrightarrow> (\<exists>rows os replay. b = a\<lparr>sd_enrollments := rows, sd_observations := sd_observations a @ os, sd_replay := replay\<rparr>
     \<and> list_all (\<lambda>r. ob_deviceId r = None) os)"

lemma besideI: "b = a\<lparr>sd_enrollments := rows, sd_observations := sd_observations a @ os, sd_replay := replay\<rparr>
    \<Longrightarrow> list_all (\<lambda>r. ob_deviceId r = None) os \<Longrightarrow> beside a b"
  by (auto simp: beside_def)

lemma beside_refl [simp]: "beside a a"
  by (rule besideI[where rows = "sd_enrollments a" and os = "[]" and replay = "sd_replay a"]) simp_all

lemma beside_states: "beside a (a\<lparr>sd_enrollments := rows\<rparr>)"
  by (rule besideI[where rows = rows and os = "[]" and replay = "sd_replay a"]) simp_all

lemma beside_replay: "beside a (a\<lparr>sd_replay := replay\<rparr>)"
  by (rule besideI[where rows = "sd_enrollments a" and os = "[]" and replay = replay]) simp_all

lemma beside_run:
  assumes "beside (sh_db v) b"
  shows "\<exists>act. shield_step pl cr iso_string act v = v\<lparr>sh_db := b\<rparr>"
proof -
  obtain rows os replay where b: "b = (sh_db v)\<lparr>sd_enrollments := rows, sd_observations := sd_observations (sh_db v) @ os, sd_replay := replay\<rparr>"
      and os: "list_all (\<lambda>r. ob_deviceId r = None) os" using assms by (auto simp: beside_def)
  have "filter (\<lambda>r. ob_deviceId r = None) os = os" using os by (simp add: list_all_iff filter_id_conv)
  then have "shield_step pl cr iso_string (Ceremony rows os replay) v = v\<lparr>sh_db := b\<rparr>" by (simp add: b)
  then show ?thesis by blast
qed

end
