(* ===== verification/Spec2Isabelle.thy ===== *)
theory Spec2Isabelle
  imports Edge_Queue_Properties Offline_Ingress_Properties Offline_Replay_Poison Shield_Gaps Attestation_History Enrollment_Runs
begin

text \<open>
  A verification library for SENTINEL-A, the TypeScript core of a security operations platform:
  contracts shared by all parts (packages/contracts), an Edge runtime that stores and forwards signed
  device operations (services/edge-runtime) and the central API (services/core-api).

  \<^bold>\<open>The path of an operation\<close>, which the development follows. A device signs an offline operation
  envelope. Where it has no network, an Edge takes it, keeps it in a durable SQLite queue and forwards
  it until central answers. Centrally the offline ingress verifies the signature, the lease the device
  acted under and the key's history, and spends the one-shot identity of the statement. The replay
  executor then orders the operations of each device by a cursor, records a receipt, and calls the
  field modules, whose tables hold assignments, operative states and incident messages. Reconnects,
  crashes and retries may happen at each of these points; most properties are about what survives them.
  What the signature is checked against, the device with its keys and its trust, is the registry's: it is
  created by an enrolment, moved by attestation, commanders and dispositions, and rotates its keys.

  \<^bold>\<open>Theories and code.\<close>
  \<^item> \<open>Prelude\<close>: results as sums, strings as lists of code units up to 255, finite maps of JSON objects,
    and the locale the machines below interpret, \<open>forward_machine\<close> (an invariant, and an order that
    every step respects).
  \<^item> \<open>Canonical_Json\<close>: JSON text, its parser on the fragment it prints, and the three canonicalisation
    recipes (contracts/device-identity.ts, contracts/field-offline.ts, the ledger's hash).
  \<^item> \<open>Device_Signature\<close>: contracts/device-signature.ts, with bytes as 8-bit words and the group order.
  \<^item> \<open>Device_Contracts\<close>: the wire records of contracts/device-offline.ts and contracts/edge-runtime.ts
    with the parsers and checks their schemas perform.
  \<^item> \<open>Edge_Queue_State\<close>, \<open>Edge_Queue_Schema\<close>, \<open>Edge_Queue_Store\<close>, \<open>Edge_Queue_Correct\<close>,
    \<open>Edge_Queue_Properties\<close>: edge-runtime/modules/edge-queue: the state table and retry policy, the
    SQLite tables with every CHECK and trigger, every method of the store as a transaction, the
    invariant of its runs with crashes and other writers, and what follows. \<open>Doubles\<close> is the IEEE
    arithmetic of the degraded-queue fraction.
  \<^item> \<open>Device_Keys\<close>, \<open>Offline_Admissibility\<close>: the parts of contracts/device-identity.ts that the offline
    rules need, and every decision of contracts/device-offline.ts.
  \<^item> \<open>Offline_Ingress\<close>, \<open>Offline_Ingress_Properties\<close>: core-api/modules/device-gateway: policy leases and
    the ingress of a signed envelope, with concurrent requests.
  \<^item> \<open>Access\<close>: identity/roles.ts, identity/access.guard.ts and the site scope of a principal.
  \<^item> \<open>Field_Tables\<close>, \<open>Field_Assignments\<close>, \<open>Field_States\<close>, \<open>Field_Messaging\<close>, \<open>Field_Service\<close>:
    core-api/modules/field and field-messaging: the tables, every handler with its repository
    transaction, and the machine of all of them with the directory changing in between.
  \<^item> \<open>Offline_Operation\<close>: contracts/field-offline.ts. \<open>Offline_Replay\<close>: core-api/modules/field-offline, the
    repository's transactions and \<open>submit\<close> cut at its awaits into the phases of a worker.
    \<open>Offline_Replay_Tables\<close>: the invariant of cursors and receipts and its preservation by each
    transaction. \<open>Offline_Replay_Runs\<close>: the contract between executor and domain, a locale interpreted on
    the field modules, and the invariant of all interleavings. \<open>Offline_Replay_Properties\<close>: its results.
    \<open>Offline_Replay_Poison\<close>: a request whose order nothing settles stops its device's queue.
  \<^item> \<open>Key_Rotation\<close>, \<open>Device_Trust\<close>: contracts/device-key-rotation.ts, the request proof of
    device-context.ts, attestation standing and the trust matrix of device-identity.ts, and which
    observation and whose authority count (core-api/modules/shield). \<open>Shield_Registry\<close>: the tables of
    prisma/schema/shield.prisma and the reads and writes of shield.repository.ts. \<open>Shield_Trust\<close>,
    \<open>Shield_Rotation\<close>, \<open>Shield_Reads\<close>: the operations of device-trust, device-key and device-registry.service
    and the effect of an enrolment, each cut between what it reads and the transaction that writes.
    \<open>Shield_Runs\<close>: the machine of all of them, calls interleaved at those cuts, its invariant and order.
    \<open>Shield_Writes\<close>: which writes a relation between two states of a device must admit, as a locale.
    \<open>Shield_Properties\<close>, \<open>Attestation_History\<close>: what every run keeps; \<open>Shield_Gaps\<close>: where a run ends up
    against the code's comments.
  \<^item> \<open>Enrollment_Contract\<close>, \<open>Enrollment_Gate\<close>: the enrolment structures of contracts/device-identity.ts,
    the gate of a commit and what it is equivalent to. \<open>Shield_Enrollment\<close>: the tables of the ceremony
    (grants, requests, approvals, challenges, verdicts) and every operation of
    device-enrollment.service.ts. \<open>Enrollment_Runs\<close>: any number of ceremonies at once, beside the calls of
    the registry.

  \<^bold>\<open>Conventions.\<close> A class's state is a record passed through its operations; a database transaction is
  one step that returns the database after its commit, or unchanged with an error. Errors are the left
  of a sum: \<open>queue_error\<close> at the Edge, \<open>thrown\<close> (an HTTP status or a fault) in core-api. Clocks, generated ids
  and random bytes are arguments. What the code takes from others is the record \<open>platform\<close> (SHA-256,
  \<open>Date.parse\<close>, \<open>JSON.parse\<close>, the formats zod owns) or \<open>server\<close> and \<open>crypto\<close> (key import and ECDSA
  verification); theorems that
  need the hash to separate two texts say so, for the texts in question. Numbers that are JavaScript
  safe integers are \<open>int\<close> with the schema's bounds; 32-bit columns are checked where a value can exceed
  them.

  \<^bold>\<open>What the groups of lemmas show.\<close> For each machine: an invariant of every reachable state, an order
  that says what never goes back (rows of evidence, settled receipts, cursors, counters), and from the
  two the properties: at the Edge, that only central ends an entry, that no writer loses unanswered
  work, and what every admission answers; at the ingress, that a queued statement proceeds once in
  any sequence of requests; in the field modules, that a transition has exactly one row of evidence;
  in the replay, that queues are contiguous, that the tables refine a log of outcomes and that an
  applied operation is committed exactly once; in the registry, that a device's history explains its
  trust, that its keys form one chain of versions with one current end, that trust is earned and that a
  withdrawn credential never returns. Where the code falls short of its comments, a theorem
  exhibits the run: two requests at once share an identity, a rejected operation is committed late, an
  assignment is born that nothing can move, a check passes on a missing outcome, a rotation leaves a
  device trusted on a software key, a lost device cannot be declared stolen, a stolen one declared lost
  is no longer recorded as revoked, a proposal nobody can answer ends the rotations of its device.

  \<^bold>\<open>Bounds.\<close> No fuel is used: recursion is on data, on the phases of a submission (ten steps end it) or
  on lists of actions.

  \<^bold>\<open>Not modelled\<close>, with the reason. Controllers, guards' wiring and publishers, which only pass values on;
  list reads, which return rows unchanged; the user interface, simulator and Kotlin application. The
  registry's own machine (\<open>Shield_Runs\<close>) lets its ceremonies set the states of requests at will, so that what
  it keeps does not depend on how they run. The remaining contracts and services: authenticated device contexts and their request proofs, trusted time, Edge
  enrolment and gateway, threat fusion, constitution, ledger, patrol, whisper, incidents and evidence.
\<close>

end
